(* ===== verification/Prelude.thy ===== *)
theory Prelude
  imports Complex_Main "HOL-Library.Word" "HOL-Library.Signed_Division"
    "HOL-Library.Multiset" "HOL-Library.Monad_Syntax"
begin

unbundle bit_operations_syntax

text \<open>
  Shared vocabulary of the development: the C arithmetic the sources rely on, the pieces of
  the C library they call (\<open>sprintf\<close> with \<open>%d\<close>, \<open>atoi\<close>), and generic facts on lists,
  options and bits that several components use.

  A C \<open>int\<close> is a HOL \<open>int\<close>; where the source can overflow, the model says so with
  \<open>c_int\<close>, which is \<^term>\<open>None\<close> on a value a 32-bit \<open>int\<close> cannot hold (signed
  overflow is undefined in C). A C \<open>unsigned char\<close> is an \<open>8 word\<close>. Division and
  remainder of \<open>int\<close> are \<open>sdiv\<close> and \<open>smod\<close>, which truncate toward zero as C does.
  Throughout, \<^term>\<open>None\<close> as the result of an operation means that the C program has
  undefined behaviour there or does not return.
\<close>

section \<open>Collections of rewrite rules\<close>

named_theorems journal_simps
  \<open>what an operation appends to the journal and leaves alone\<close>

named_theorems appareil_simps
  \<open>how a device reacts to the events of one operation\<close>

section \<open>C integers\<close>

definition c_int_ok :: "int \<Rightarrow> bool" where
  "c_int_ok x \<longleftrightarrow> - (2 ^ 31) \<le> x \<and> x < 2 ^ 31"

definition c_int :: "int \<Rightarrow> int option" where
  "c_int x = (if c_int_ok x then Some x else None)"

lemma c_int_Some [simp]: "c_int x = Some y \<longleftrightarrow> c_int_ok x \<and> y = x"
  by (auto simp: c_int_def)

lemma c_int_None [simp]: "c_int x = None \<longleftrightarrow> \<not> c_int_ok x"
  by (auto simp: c_int_def)

lemma c_int_okI: "\<lbrakk>- (2 ^ 31) \<le> x; x < 2 ^ 31\<rbrakk> \<Longrightarrow> c_int_ok x"
  by (simp add: c_int_ok_def)

lemma sdiv_nonneg: "\<lbrakk>0 \<le> (a::int); 0 < b\<rbrakk> \<Longrightarrow> a sdiv b = a div b"
  by (cases "a = 0") (auto simp: signed_divide_int_def sgn_1_pos)

lemma smod_nonneg: "\<lbrakk>0 \<le> (a::int); 0 < b\<rbrakk> \<Longrightarrow> a smod b = a mod b"
  by (cases "a = 0") (auto simp: signed_modulo_int_def sgn_1_pos)

text \<open>Conversion of a C \<open>double\<close> to \<open>int\<close>: truncation, undefined out of range.\<close>

definition trunc :: "real \<Rightarrow> int" where
  "trunc x = (if 0 \<le> x then \<lfloor>x\<rfloor> else \<lceil>x\<rceil>)"

definition double_to_int :: "real \<Rightarrow> int option" where
  "double_to_int x = c_int (trunc x)"

lemma trunc_mono: "x \<le> y \<Longrightarrow> trunc x \<le> trunc y"
proof -
  assume xy: "x \<le> y"
  show ?thesis
  proof (cases "0 \<le> x \<or> y < 0")
    case True
    with xy show ?thesis by (auto simp: trunc_def intro: floor_mono ceiling_mono)
  next
    case False
    then have "\<lceil>x\<rceil> \<le> 0" and "0 \<le> \<lfloor>y\<rfloor>" by auto
    then have "\<lceil>x\<rceil> \<le> \<lfloor>y\<rfloor>" by linarith
    with False show ?thesis by (simp add: trunc_def)
  qed
qed

lemma trunc_of_int [simp]: "trunc (of_int n) = n"
  by (simp add: trunc_def)

lemma of_char_of_int: "n < 256 \<Longrightarrow> (of_char (char_of n) :: int) = int n"
  by (subst of_nat_of_char [symmetric]) simp

lemma and_255: "(x::int) AND 255 = x mod 256"
  using take_bit_eq_mask [of 8 x] by (simp add: take_bit_eq_mod mask_eq_exp_minus_1)

lemma drop_bit_octet: "\<lbrakk>0 \<le> x; x < 256\<rbrakk> \<Longrightarrow> drop_bit 8 (x::int) = 0"
  by (simp add: drop_bit_eq_div)

lemma octet_OR: "\<lbrakk>0 \<le> x; x < 256; 0 \<le> y; y < 256\<rbrakk> \<Longrightarrow> (x OR y) < (256::int)"
  using OR_upper [of x 8 y] by simp

lemma octet_AND: "\<lbrakk>0 \<le> x; x < 256\<rbrakk> \<Longrightarrow> (x AND y) < (256::int)"
  by (simp add: le_less_trans [OF AND_upper1])

text \<open>The bits of a byte, from the top, and two bytes side by side.\<close>

lemma octet_decoupe: "d mod 256 = 128 * (d div 128 mod 2) + d mod (128::int)"
  using zmod_zmult2_eq [of 2 d 128] by simp

lemma octet_haut_iff: "128 \<le> d mod 256 \<longleftrightarrow> d div 128 mod 2 = (1::int)"
proof -
  have "d div 128 mod 2 = 0 \<or> d div 128 mod 2 = 1" by (cases "even (d div 128)") (simp_all add: odd_iff_mod_2_eq_one)
  moreover have "0 \<le> d mod 128" "d mod 128 < 128" by simp_all
  ultimately show ?thesis unfolding octet_decoupe by auto
qed

lemma and_128: "(x::int) AND 128 = 0 \<longleftrightarrow> \<not> 128 \<le> x mod 256"
proof -
  have "x AND 128 = 0 \<longleftrightarrow> \<not> bit x 7"
    using and_exp_eq_0_iff_not_bit [of x 7] by simp
  also have "bit x 7 \<longleftrightarrow> x div 128 mod 2 = 1"
    by (simp add: bit_iff_odd odd_iff_mod_2_eq_one)
  finally show ?thesis by (simp only: octet_haut_iff)
qed

text \<open>One bit: the top bit of the byte goes out, the rest moves up.\<close>

lemma octet_haut:
  fixes d :: int
  assumes "k \<le> 7"
  shows "(d mod 256) div 2 ^ (7 - k) =
    (if 128 \<le> d mod 256 then 1 else 0) * 2 ^ k + (2 * d mod 256) div 2 ^ (8 - k)"
proof -
  define b where "b = d div 128 mod 2"
  have b: "(if 128 \<le> d mod 256 then 1 else 0) = b"
    unfolding octet_haut_iff b_def by (cases "even (d div 128)") (simp_all add: odd_iff_mod_2_eq_one)
  have "2 * d mod 256 = 2 * (d mod 128)"
    using mult_mod_right [of 2 d 128] by simp
  moreover have "(2::int) ^ (8 - k) = 2 * 2 ^ (7 - k)"
  proof -
    have "8 - k = Suc (7 - k)" using assms by simp
    then show ?thesis by (simp only: power_Suc)
  qed
  ultimately have "(2 * d mod 256) div 2 ^ (8 - k) = d mod 128 div 2 ^ (7 - k)"
    by simp
  moreover have "(2::int) ^ 7 = 2 ^ k * 2 ^ (7 - k)"
    using assms by (simp flip: power_add)
  then have "128 * b = (b * 2 ^ k) * 2 ^ (7 - k)"
    by (simp only: mult.assoc) simp
  then have "d mod 256 div 2 ^ (7 - k) = ((b * 2 ^ k) * 2 ^ (7 - k) + d mod 128) div 2 ^ (7 - k)"
    by (simp only: octet_decoupe [of d] b_def [symmetric])
  then have "d mod 256 div 2 ^ (7 - k) = b * 2 ^ k + d mod 128 div 2 ^ (7 - k)"
    by simp
  ultimately show ?thesis by (simp only: b)
qed

lemma deux_octets:
  fixes x :: int
  shows "((x * 256 + a mod 256) mod 65536 * 256 + b mod 256) mod 65536 = a mod 256 * 256 + b mod 256"
proof -
  have "((x * 256 + a mod 256) mod 65536 * 256 + b mod 256) mod 65536 =
      ((x * 256 + a mod 256) * 256 + b mod 256) mod 65536"
    by (metis mod_add_left_eq mod_mult_left_eq)
  also have "(x * 256 + a mod 256) * 256 + b mod 256 = (a mod 256 * 256 + b mod 256) + x * 65536"
    by (simp add: algebra_simps)
  also have "\<dots> mod 65536 = (a mod 256 * 256 + b mod 256) mod 65536"
    by (rule mod_mult_self1)
  also have "\<dots> = a mod 256 * 256 + b mod 256"
  proof (rule mod_pos_pos_trivial)
    have "0 \<le> a mod 256" "a mod 256 < 256" "0 \<le> b mod 256" "b mod 256 < 256" by simp_all
    then show "0 \<le> a mod 256 * 256 + b mod 256" "a mod 256 * 256 + b mod 256 < 65536" by linarith+
  qed
  finally show ?thesis .
qed

text \<open>The bits of a byte and its two halves.\<close>

lemma octet_borne: "uint (x::8 word) < 256" and octet_pos: "0 \<le> uint (x::8 word)"
  using uint_lt2p [of x] by simp_all

lemma uint_drop_bit_octet: "uint (drop_bit k (x::8 word)) = uint x div 2 ^ k"
proof -
  have "take_bit 8 (uint x) = uint x"
    using octet_borne [of x] octet_pos [of x] by (simp add: take_bit_eq_mod)
  then show ?thesis by (simp add: unsigned_drop_bit_eq flip: drop_bit_eq_div)
qed

lemma bit_octet:
  fixes x :: "8 word"
  shows "uint (drop_bit k x AND 1) = uint x div 2 ^ k mod 2"
proof -
  have "uint (drop_bit k x AND 1) = uint (drop_bit k x) AND 1"
    by (simp only: unsigned_and_eq unsigned_1)
  then show ?thesis by (simp only: and_one_eq uint_drop_bit_octet)
qed

lemma mod_16_bits: "n mod 16 = n mod 2 + 2 * (n div 2 mod 2) + 4 * (n div 4 mod 2) + 8 * (n div 8 mod (2::int))"
proof -
  define q1 q2 q3 q4 where "q1 = n div 2" and "q2 = q1 div 2" and "q3 = q2 div 2" and "q4 = q3 div 2"
  define x y z u where "x = q3 mod 2" and "y = q2 mod 2" and "z = q1 mod 2" and "u = n mod 2"
  have "n = q1 * 2 + u" "q1 = q2 * 2 + z" "q2 = q3 * 2 + y" "q3 = q4 * 2 + x"
    unfolding q1_def q2_def q3_def q4_def x_def y_def z_def u_def by (rule div_mult_mod_eq [symmetric])+
  then have eq: "n = 16 * q4 + (u + 2 * z + 4 * y + 8 * x)" by linarith
  have "0 \<le> x" "x < 2" "0 \<le> y" "y < 2" "0 \<le> z" "z < 2" "0 \<le> u" "u < 2"
    by (simp_all add: x_def y_def z_def u_def)
  then have "0 \<le> u + 2 * z + 4 * y + 8 * x" "u + 2 * z + 4 * y + 8 * x < 16"
    by linarith+
  with eq have "n mod 16 = u + 2 * z + 4 * y + 8 * x"
    by (rule int_mod_pos_eq)
  moreover have "q2 = n div 4" "q3 = n div 8"
    by (simp_all add: q1_def q2_def q3_def zdiv_zmult2_eq [symmetric])
  ultimately show ?thesis by (simp only: x_def y_def z_def u_def q1_def)
qed

lemma quartet_bits:
  fixes x :: "8 word"
  shows "uint (x AND 1) + 2 * uint (drop_bit 1 x AND 1) + 4 * uint (drop_bit 1 (drop_bit 1 x) AND 1)
     + 8 * uint (drop_bit 1 (drop_bit 1 (drop_bit 1 x)) AND 1) = uint x mod 16"
proof -
  have "drop_bit 1 (drop_bit 1 x) = drop_bit 2 x" "drop_bit 1 (drop_bit 1 (drop_bit 1 x)) = drop_bit 3 x"
    by (simp_all add: drop_bit_drop_bit flip: numeral_2_eq_2 numeral_3_eq_3)
  then show ?thesis
    using bit_octet [of 0 x] bit_octet [of 1 x] bit_octet [of 2 x] bit_octet [of 3 x] mod_16_bits [of "uint x"]
    by simp
qed

lemma octet_quartets:
  fixes x :: "8 word"
  shows "word_of_int (uint (drop_bit 4 x AND 0x0F) mod 16 * 16 + uint (x AND 0x0F) mod 16) = x"
proof -
  have m: "uint (y AND 0x0F) = uint y mod 16" for y :: "8 word"
    using take_bit_eq_mask [of 4 "uint y"]
    by (simp add: unsigned_and_eq take_bit_eq_mod mask_eq_exp_minus_1)
  have d: "uint (drop_bit 4 x) = uint x div 16"
    using uint_drop_bit_octet [of 4 x] by simp
  have "uint x div 16 < 16" "0 \<le> uint x div 16"
    using octet_borne [of x] pos_imp_zdiv_nonneg_iff [of 16 "uint x"] octet_pos [of x] by simp_all
  then have "uint x div 16 mod 16 mod 16 * 16 + uint x mod 16 mod 16 = uint x"
    by simp
  then show ?thesis by (simp only: m d word_of_int_uint)
qed

text \<open>The four low decimal digits of a number.\<close>

lemma mod_10000_digits:
  "n mod 10000 = n div 1000 mod 10 * 1000 + n div 100 mod 10 * 100 + n div 10 mod 10 * 10 + n mod (10::int)"
proof -
  define q1 q2 q3 q4 where "q1 = n div 10" and "q2 = q1 div 10" and "q3 = q2 div 10" and "q4 = q3 div 10"
  define x y z u where "x = q3 mod 10" and "y = q2 mod 10" and "z = q1 mod 10" and "u = n mod 10"
  have "n = q1 * 10 + u" "q1 = q2 * 10 + z" "q2 = q3 * 10 + y" "q3 = q4 * 10 + x"
    unfolding q1_def q2_def q3_def q4_def x_def y_def z_def u_def by (rule div_mult_mod_eq [symmetric])+
  then have eq: "n = 10000 * q4 + (x * 1000 + y * 100 + z * 10 + u)" by linarith
  have "0 \<le> x" "x < 10" "0 \<le> y" "y < 10" "0 \<le> z" "z < 10" "0 \<le> u" "u < 10"
    by (simp_all add: x_def y_def z_def u_def)
  then have "0 \<le> x * 1000 + y * 100 + z * 10 + u" "x * 1000 + y * 100 + z * 10 + u < 10000"
    by linarith+
  with eq have "n mod 10000 = x * 1000 + y * 100 + z * 10 + u"
    by (rule int_mod_pos_eq)
  moreover have "q2 = n div 100" "q3 = n div 1000"
    by (simp_all add: q1_def q2_def q3_def zdiv_zmult2_eq [symmetric])
  ultimately show ?thesis by (simp only: x_def y_def z_def u_def q1_def)
qed

section \<open>Decimal output and input of the C library\<close>

function chiffres_nat :: "nat \<Rightarrow> string" where
  "chiffres_nat n =
     (if n < 10 then [char_of (48 + n)] else chiffres_nat (n div 10) @ [char_of (48 + n mod 10)])"
  by pat_completeness auto
termination
  by (relation "measure id") auto

declare chiffres_nat.simps [simp del]

definition format_d :: "int \<Rightarrow> string" where
  "format_d n = (if n < 0 then CHR ''-'' # chiffres_nat (nat (- n)) else chiffres_nat (nat n))"

text \<open>
  \<open>sprintf\<close> into a buffer of \<open>taille\<close> bytes: the text and its final NUL must fit, otherwise
  the call writes past the buffer, which is undefined.
\<close>

definition sprintf_buf :: "nat \<Rightarrow> string \<Rightarrow> string option" where
  "sprintf_buf taille s = (if length s < taille then Some s else None)"

definition est_chiffre :: "char \<Rightarrow> bool" where
  "est_chiffre c \<longleftrightarrow> 48 \<le> (of_char c :: nat) \<and> (of_char c :: nat) \<le> 57"

definition est_blanc :: "char \<Rightarrow> bool" where
  "est_blanc c \<longleftrightarrow> (of_char c :: nat) = 32 \<or> 9 \<le> (of_char c :: nat) \<and> (of_char c :: nat) \<le> 13"

fun lire_chiffres :: "int \<Rightarrow> string \<Rightarrow> int" where
  "lire_chiffres acc [] = acc"
| "lire_chiffres acc (c # cs) =
     (if est_chiffre c then lire_chiffres (acc * 10 + (of_char c - 48)) cs else acc)"

text \<open>
  \<open>strtol\<close> in base ten: leading white space, an optional sign, then digits up to the first other
  character; 0 when there is none. A value outside \<open>long\<close>, which has 32 bits on the target, becomes
  the nearest bound. \<open>stdlib.h\<close> defines \<open>atoi\<close> by it.
\<close>

definition strtol_10 :: "string \<Rightarrow> int" where
  "strtol_10 s = (case dropWhile est_blanc s of
      [] \<Rightarrow> 0
    | c # cs \<Rightarrow> max (- (2 ^ 31)) (min (2 ^ 31 - 1)
        (if c = CHR ''-'' then - lire_chiffres 0 cs
         else if c = CHR ''+'' then lire_chiffres 0 cs
         else lire_chiffres 0 (c # cs))))"

definition atoi :: "string \<Rightarrow> int" where
  "atoi s = strtol_10 s"

lemma chiffres_nat_nonempty: "chiffres_nat n \<noteq> []"
  by (subst chiffres_nat.simps) simp

lemma chiffres_nat_digits: "\<forall>c \<in> set (chiffres_nat n). est_chiffre c"
proof (induction n rule: chiffres_nat.induct)
  case (1 n)
  show ?case
  proof (cases "n < 10")
    case True
    then show ?thesis by (subst chiffres_nat.simps) (simp add: est_chiffre_def)
  next
    case False
    with "1.IH" show ?thesis
      by (subst chiffres_nat.simps) (auto simp: est_chiffre_def)
  qed
qed

lemma length_chiffres_nat: "length (chiffres_nat n) \<le> k \<longleftrightarrow> (if n = 0 then 1 \<le> k else n < 10 ^ k)"
proof (induction n arbitrary: k rule: chiffres_nat.induct)
  case (1 n)
  show ?case
  proof (cases "n < 10")
    case True
    have "n < 10 ^ k" if "0 < k" for k
      using True that power_increasing [of 1 k "10::nat"] by simp
    with True show ?thesis
      by (subst chiffres_nat.simps) (cases k, auto simp del: power_Suc)
  next
    case False
    then have *: "length (chiffres_nat n) = Suc (length (chiffres_nat (n div 10)))"
      by (subst chiffres_nat.simps) simp
    show ?thesis
    proof (cases k)
      case 0
      with False * show ?thesis by simp
    next
      case (Suc j)
      have "n div 10 \<noteq> 0" using False by simp
      with "1.IH" [OF False, of j] have "length (chiffres_nat (n div 10)) \<le> j \<longleftrightarrow> n div 10 < 10 ^ j"
        by simp
      also have "\<dots> \<longleftrightarrow> n < 10 ^ Suc j" by (simp add: div_less_iff_less_mult mult.commute)
      finally show ?thesis using False * Suc by simp
    qed
  qed
qed

lemma lire_chiffres_append:
  "\<forall>c \<in> set xs. est_chiffre c \<Longrightarrow> lire_chiffres acc (xs @ ys) = lire_chiffres (lire_chiffres acc xs) ys"
  by (induction xs arbitrary: acc) auto

lemma lire_chiffres_chiffres_nat: "lire_chiffres 0 (chiffres_nat n) = int n"
proof (induction n rule: chiffres_nat.induct)
  case (1 n)
  show ?case
  proof (cases "n < 10")
    case True
    then show ?thesis by (subst chiffres_nat.simps) (simp add: est_chiffre_def of_char_of_int)
  next
    case False
    with "1.IH" chiffres_nat_digits [of "n div 10"] show ?thesis
      by (subst chiffres_nat.simps) (simp add: lire_chiffres_append est_chiffre_def of_char_of_int zdiv_int zmod_int)
  qed
qed

section \<open>Lists\<close>

lemma fold_invariant_list:
  assumes "P s" and "\<And>x s. \<lbrakk>x \<in> set xs; P s\<rbrakk> \<Longrightarrow> P (f x s)"
  shows "P (fold f xs s)"
  using assms by (induction xs arbitrary: s) auto

lemma upt_8: "[0..<8] = [0, 1, 2, 3, 4, 5, 6, 7::nat]"
  by (simp add: upt_rec)

lemma upt_4: "[0..<4] = [0, 1, 2, 3::nat]"
  by (simp add: upt_rec)

lemma all_less_8: "(\<forall>i < 8. P i) \<longleftrightarrow> P 0 \<and> P 1 \<and> P 2 \<and> P 3 \<and> P 4 \<and> P 5 \<and> P 6 \<and> P (7::nat)"
  by (simp add: eval_nat_numeral All_less_Suc conj_ac)

lemma ex_less_4: "(\<exists>r < 4. P r) \<longleftrightarrow> P 0 \<or> P 1 \<or> P 2 \<or> P (3::nat)"
  by (simp add: eval_nat_numeral Ex_less_Suc disj_ac)

lemma all_less_4: "(\<forall>r < 4. P r) \<longleftrightarrow> P 0 \<and> P 1 \<and> P 2 \<and> P (3::nat)"
  by (simp add: eval_nat_numeral All_less_Suc conj_ac)

text \<open>Searching a list.\<close>

lemma find_unique: "x \<in> set xs \<Longrightarrow> find (\<lambda>k. k = x) xs = Some x"
  by (induction xs) auto

lemma find_sorted_wrt:
  "\<lbrakk>sorted_wrt R xs; find Q xs = Some x; y \<in> set xs; Q y\<rbrakk> \<Longrightarrow> y = x \<or> R x y"
  by (induction xs) (auto split: if_splits)

lemma find_SomeD': "find Q xs = Some x \<Longrightarrow> x \<in> set xs \<and> Q x"
  by (induction xs) (auto split: if_splits)

text \<open>Swapping two entries of an array, the step of a Fisher-Yates shuffle.\<close>

definition echange :: "nat \<Rightarrow> nat \<Rightarrow> 'a list \<Rightarrow> 'a list" where
  "echange i j xs = (let temp = xs ! i; xs = xs[i := xs ! j] in xs[j := temp])"

lemma length_echange [simp]: "length (echange i j xs) = length xs"
  by (simp add: echange_def)

lemma mset_echange [simp]:
  "\<lbrakk>i < length xs; j < length xs\<rbrakk> \<Longrightarrow> mset (echange i j xs) = mset xs"
  by (simp add: echange_def Let_def mset_update nth_list_update)

section \<open>Options\<close>

lemma bind_Some_iff: "Option.bind m f = Some y \<longleftrightarrow> (\<exists>x. m = Some x \<and> f x = Some y)"
  by (cases m) auto

text \<open>Run a partial operation over a list, left to right, stopping at the first fault.\<close>

fun foldM :: "('a \<Rightarrow> 's \<Rightarrow> 's option) \<Rightarrow> 'a list \<Rightarrow> 's \<Rightarrow> 's option" where
  "foldM f [] s = Some s"
| "foldM f (x # xs) s = Option.bind (f x s) (foldM f xs)"

lemma foldM_append: "foldM f (xs @ ys) s = Option.bind (foldM f xs s) (foldM f ys)"
  by (induction xs arbitrary: s) (auto split: Option.bind_splits)

lemma foldM_invariant:
  assumes "P s" and "\<And>x s. \<lbrakk>x \<in> set xs; P s\<rbrakk> \<Longrightarrow> \<exists>s'. f x s = Some s' \<and> P s'"
  shows "\<exists>s'. foldM f xs s = Some s' \<and> P s'"
  using assms
proof (induction xs arbitrary: s)
  case Nil
  then show ?case by simp
next
  case (Cons x xs)
  from Cons.prems(1) Cons.prems(2) [of x s] obtain t where "f x s = Some t" and "P t"
    by auto
  with Cons.IH [of t] Cons.prems(2) show ?case by simp
qed

end
