(* ===== verification/Hote.thy ===== *)
theory Hote
  imports Prelude
begin

text \<open>
  The outside of the program: wiringPi, ncurses, the kernel and the clock.

  None of that code is under \<open>src/\<close>, so it appears in two ways. Every call the program makes
  is an \<open>event\<close> appended to the \<open>journal\<close> of the process, in order, with the value the
  call returned; and what the outside answers is a parameter, the record \<open>hote\<close>, whose
  fields map the journal so far (and the arguments of the call) to the answer. A \<open>hote\<close> can
  therefore be any deterministic or adversarial environment: nothing is assumed of it here.

  The constants are those of \<open>build/wiringPi/include/wiringPi.h\<close>. Messages printed on the
  console (\<open>printf\<close>, \<open>perror\<close>) are not recorded.
\<close>

section \<open>Constants of wiringPi\<close>

abbreviation (input) INPUT :: int where "INPUT \<equiv> 0"
abbreviation (input) OUTPUT :: int where "OUTPUT \<equiv> 1"
abbreviation (input) LOW :: int where "LOW \<equiv> 0"
abbreviation (input) HIGH :: int where "HIGH \<equiv> 1"
abbreviation (input) PUD_OFF :: int where "PUD_OFF \<equiv> 0"
abbreviation (input) PUD_UP :: int where "PUD_UP \<equiv> 2"

section \<open>Events and the host\<close>

type_synonym octet = "8 word"

datatype gpio_evt =
    PinMode int int
  | PullUpDn int int
  | DigitalWrite int int
  | DigitalRead int int

datatype i2c_evt =
    I2CSetup int int
  | I2CWrite int int
  | I2CWriteReg8 int int int
  | Mcp23008Setup int int

datatype acs =
    ULCORNER | URCORNER | LLCORNER | LRCORNER | LTEE | RTEE | TTEE | BTEE
  | HLINE | VLINE | CROISEMENT

datatype chtype = Acs acs | Car char

datatype nc_evt =
    Initscr | Cbreak | Noecho | Keypad | CursSet int | Getmaxyx int int
  | ClearScr | Endwin | Mvaddch int int chtype | Refresh

datatype net_evt =
    Socket int | SetSockOpt int | Bind int int int | Listen int int int | Connect int string int int
  | Accept int int
  | Select "int list" int int "int list"
  | Send int "octet list" int
  | Recv int nat "octet list option"

datatype sys_evt =
    WiringPiSetup int | WiringPiSetupSys
  | Delay int | DelayMicroseconds int
  | Gettimeofday int int
  | Srand | Rand int
  | Malloc bool | Free
  | Close int

datatype event = Gpio gpio_evt | I2c i2c_evt | Nc nc_evt | Net net_evt | Sys sys_evt

type_synonym journal_t = "event list"

record hote =
  h_digitalRead :: "journal_t \<Rightarrow> int \<Rightarrow> int"
  h_i2cSetup :: "journal_t \<Rightarrow> int \<Rightarrow> int"
  h_wiringPiSetup :: "journal_t \<Rightarrow> int"
  h_getmaxyx :: "journal_t \<Rightarrow> int \<times> int"
  h_horloge :: "journal_t \<Rightarrow> int \<times> int"
  h_rand :: "journal_t \<Rightarrow> int"
  h_malloc :: "journal_t \<Rightarrow> bool"
  h_socket :: "journal_t \<Rightarrow> int"
  h_bind :: "journal_t \<Rightarrow> int \<Rightarrow> int"
  h_listen :: "journal_t \<Rightarrow> int \<Rightarrow> int"
  h_connect :: "journal_t \<Rightarrow> int \<Rightarrow> int"
  h_accept :: "journal_t \<Rightarrow> int \<Rightarrow> int"
  h_select :: "journal_t \<Rightarrow> int list \<Rightarrow> int \<Rightarrow> int \<times> int list \<times> int"
  h_send :: "journal_t \<Rightarrow> int \<Rightarrow> octet list \<Rightarrow> int"
  h_recv :: "journal_t \<Rightarrow> int \<Rightarrow> nat \<Rightarrow> octet list option"
  h_arrondi :: "real \<Rightarrow> real"

section \<open>A process and its journal\<close>

record processus =
  journal :: journal_t

definition consigne :: "event list \<Rightarrow> 'a processus_scheme \<Rightarrow> 'a processus_scheme" where
  "consigne es w = w\<lparr>journal := journal w @ es\<rparr>"

lemma journal_consigne [simp]: "journal (consigne es w) = journal w @ es"
  by (simp add: consigne_def)

lemma consigne_Nil [simp]: "consigne [] w = w"
  by (simp add: consigne_def)

lemma consigne_consigne [simp]: "consigne es' (consigne es w) = consigne (es @ es') w"
  by (simp add: consigne_def)

lemma consigne_more [simp]: "processus.more (consigne es w) = processus.more w"
  by (simp add: consigne_def)

lemma consigne_inject [simp]: "consigne es w = consigne es' w \<longleftrightarrow> es = es'"
  by (cases w) (simp add: consigne_def)

section \<open>The calls\<close>

definition pinMode :: "int \<Rightarrow> int \<Rightarrow> 'a processus_scheme \<Rightarrow> 'a processus_scheme" where
  "pinMode pin mode = consigne [Gpio (PinMode pin mode)]"

definition pullUpDnControl :: "int \<Rightarrow> int \<Rightarrow> 'a processus_scheme \<Rightarrow> 'a processus_scheme" where
  "pullUpDnControl pin pud = consigne [Gpio (PullUpDn pin pud)]"

definition digitalWrite :: "int \<Rightarrow> int \<Rightarrow> 'a processus_scheme \<Rightarrow> 'a processus_scheme" where
  "digitalWrite pin v = consigne [Gpio (DigitalWrite pin v)]"

definition digitalRead :: "hote \<Rightarrow> int \<Rightarrow> 'a processus_scheme \<Rightarrow> int \<times> 'a processus_scheme" where
  "digitalRead E pin w =
     (let v = h_digitalRead E (journal w) pin in (v, consigne [Gpio (DigitalRead pin v)] w))"

definition delay :: "int \<Rightarrow> 'a processus_scheme \<Rightarrow> 'a processus_scheme" where
  "delay ms = consigne [Sys (Delay ms)]"

definition delayMicroseconds :: "int \<Rightarrow> 'a processus_scheme \<Rightarrow> 'a processus_scheme" where
  "delayMicroseconds us = consigne [Sys (DelayMicroseconds us)]"

definition wiringPiSetup :: "hote \<Rightarrow> 'a processus_scheme \<Rightarrow> int \<times> 'a processus_scheme" where
  "wiringPiSetup E w =
     (let r = h_wiringPiSetup E (journal w) in (r, consigne [Sys (WiringPiSetup r)] w))"

definition wiringPiSetupSys :: "'a processus_scheme \<Rightarrow> 'a processus_scheme" where
  "wiringPiSetupSys = consigne [Sys WiringPiSetupSys]"

definition mcp23008Setup :: "int \<Rightarrow> int \<Rightarrow> 'a processus_scheme \<Rightarrow> 'a processus_scheme" where
  "mcp23008Setup base adresse = consigne [I2c (Mcp23008Setup base adresse)]"

definition wiringPiI2CSetup :: "hote \<Rightarrow> int \<Rightarrow> 'a processus_scheme \<Rightarrow> int \<times> 'a processus_scheme" where
  "wiringPiI2CSetup E adresse w =
     (let fd = h_i2cSetup E (journal w) adresse in (fd, consigne [I2c (I2CSetup adresse fd)] w))"

definition wiringPiI2CWrite :: "int \<Rightarrow> int \<Rightarrow> 'a processus_scheme \<Rightarrow> 'a processus_scheme" where
  "wiringPiI2CWrite fd data = consigne [I2c (I2CWrite fd data)]"

definition wiringPiI2CWriteReg8 ::
    "int \<Rightarrow> int \<Rightarrow> int \<Rightarrow> 'a processus_scheme \<Rightarrow> 'a processus_scheme" where
  "wiringPiI2CWriteReg8 fd reg data = consigne [I2c (I2CWriteReg8 fd reg data)]"

definition close :: "int \<Rightarrow> 'a processus_scheme \<Rightarrow> 'a processus_scheme" where
  "close fd = consigne [Sys (Close fd)]"

definition gettimeofday ::
    "hote \<Rightarrow> 'a processus_scheme \<Rightarrow> (int \<times> int) \<times> 'a processus_scheme" where
  "gettimeofday E w =
     (let t = h_horloge E (journal w) in (t, consigne [Sys (Gettimeofday (fst t) (snd t))] w))"

definition srand_time :: "'a processus_scheme \<Rightarrow> 'a processus_scheme" where
  "srand_time = consigne [Sys Srand]"

definition rand :: "hote \<Rightarrow> 'a processus_scheme \<Rightarrow> int \<times> 'a processus_scheme" where
  "rand E w = (let r = h_rand E (journal w) in (r, consigne [Sys (Rand r)] w))"

definition malloc :: "hote \<Rightarrow> 'a processus_scheme \<Rightarrow> bool \<times> 'a processus_scheme" where
  "malloc E w = (let ok = h_malloc E (journal w) in (ok, consigne [Sys (Malloc ok)] w))"

definition free :: "'a processus_scheme \<Rightarrow> 'a processus_scheme" where
  "free = consigne [Sys Free]"

definition mvaddch :: "int \<Rightarrow> int \<Rightarrow> chtype \<Rightarrow> 'a processus_scheme \<Rightarrow> 'a processus_scheme" where
  "mvaddch y x c = consigne [Nc (Mvaddch y x c)]"

definition refresh :: "'a processus_scheme \<Rightarrow> 'a processus_scheme" where
  "refresh = consigne [Nc Refresh]"

text \<open>
  \<open>recv\<close> writes at most \<open>length\<close> bytes: \<^term>\<open>None\<close> stands for the return value \<open>-1\<close>,
  \<open>Some []\<close> for 0 (the peer has closed) and \<open>Some bs\<close> for the number of bytes of \<open>bs\<close>.
\<close>

definition recv :: "hote \<Rightarrow> int \<Rightarrow> nat \<Rightarrow> 'a processus_scheme \<Rightarrow>
    octet list option \<times> 'a processus_scheme" where
  "recv E fd n w =
     (let r = map_option (take n) (h_recv E (journal w) fd n) in (r, consigne [Net (Recv fd n r)] w))"

definition send :: "hote \<Rightarrow> int \<Rightarrow> octet list \<Rightarrow> 'a processus_scheme \<Rightarrow>
    int \<times> 'a processus_scheme" where
  "send E fd bs w =
     (let r = h_send E (journal w) fd bs in (r, consigne [Net (Send fd bs r)] w))"

definition accept :: "hote \<Rightarrow> int \<Rightarrow> 'a processus_scheme \<Rightarrow> int \<times> 'a processus_scheme" where
  "accept E fd w = (let r = h_accept E (journal w) fd in (r, consigne [Net (Accept fd r)] w))"

text \<open>
  \<open>select\<close> over the descriptors \<open>fds\<close> with a timeout in microseconds: the return value, the
  descriptors left in the set (a part of \<open>fds\<close>, none when the time is over) and the time left in
  the \<open>timeval\<close>, which Linux updates.
\<close>

definition select :: "hote \<Rightarrow> int list \<Rightarrow> int \<Rightarrow> 'a processus_scheme \<Rightarrow>
    (int \<times> int list \<times> int) \<times> 'a processus_scheme" where
  "select E fds timeout w =
     (case h_select E (journal w) fds timeout of (r, prets, reste) \<Rightarrow>
        let prets = (if r \<le> 0 then [] else filter (\<lambda>fd. fd \<in> set fds) prets)
        in ((r, prets, reste), consigne [Net (Select fds timeout r prets)] w))"

text \<open>
  The other socket calls. The port of an address is the 16 bit value stored in \<open>sin_port\<close>, the
  address of the server is the text given to \<open>inet_addr\<close>.
\<close>

definition socket_tcp :: "hote \<Rightarrow> 'a processus_scheme \<Rightarrow> int \<times> 'a processus_scheme" where
  "socket_tcp E w = (let r = h_socket E (journal w) in (r, consigne [Net (Socket r)] w))"

definition setsockopt :: "int \<Rightarrow> 'a processus_scheme \<Rightarrow> 'a processus_scheme" where
  "setsockopt fd = consigne [Net (SetSockOpt fd)]"

definition bind_adresse :: "hote \<Rightarrow> int \<Rightarrow> 16 word \<Rightarrow> 'a processus_scheme \<Rightarrow> int \<times> 'a processus_scheme" where
  "bind_adresse E fd sin_port w =
     (let r = h_bind E (journal w) fd in (r, consigne [Net (Bind fd (uint sin_port) r)] w))"

definition listen :: "hote \<Rightarrow> int \<Rightarrow> int \<Rightarrow> 'a processus_scheme \<Rightarrow> int \<times> 'a processus_scheme" where
  "listen E fd n w = (let r = h_listen E (journal w) fd in (r, consigne [Net (Listen fd n r)] w))"

definition connect ::
    "hote \<Rightarrow> int \<Rightarrow> string \<Rightarrow> 16 word \<Rightarrow> 'a processus_scheme \<Rightarrow> int \<times> 'a processus_scheme" where
  "connect E fd adresse sin_port w =
     (let r = h_connect E (journal w) fd in (r, consigne [Net (Connect fd adresse (uint sin_port) r)] w))"

text \<open>
  Calls without an answer append one known event. With these rules an operation made of such
  calls rewrites to one \<^const>\<open>consigne\<close> of its events.
\<close>

lemmas appels_def [journal_simps] =
  pinMode_def pullUpDnControl_def digitalWrite_def delay_def delayMicroseconds_def
  wiringPiSetupSys_def mcp23008Setup_def wiringPiI2CWrite_def wiringPiI2CWriteReg8_def close_def
  srand_time_def free_def mvaddch_def refresh_def setsockopt_def

lemmas lectures_def =
  digitalRead_def wiringPiSetup_def wiringPiI2CSetup_def gettimeofday_def rand_def malloc_def
  recv_def send_def accept_def select_def socket_tcp_def bind_adresse_def listen_def connect_def

section \<open>Devices on the bus\<close>

text \<open>
  A device is a state and its reaction to one event; it reads a journal from left to right.
  The contract of a device is that it ignores the events that do not concern it: whatever
  operations of other components appear in the journal, its state depends only on the events
  addressed to it. Each driver interprets this locale on the device it drives.
\<close>

locale appareil =
  fixes pas :: "event \<Rightarrow> 'd \<Rightarrow> 'd"
    and concerne :: "event \<Rightarrow> bool"
  assumes ignore: "\<not> concerne e \<Longrightarrow> pas e d = d"
begin

lemma fold_ignore: "(\<And>e. e \<in> set es \<Longrightarrow> \<not> concerne e) \<Longrightarrow> fold pas es d = d"
  by (induction es arbitrary: d) (auto simp: ignore)

lemma fold_filter: "fold pas es d = fold pas (filter concerne es) d"
  by (induction es arbitrary: d) (auto simp: ignore)

lemma fold_meme_vue:
  "filter concerne es = filter concerne es' \<Longrightarrow> fold pas es d = fold pas es' d"
  by (metis fold_filter)

lemma fold_milieu:
  assumes "\<And>e. e \<in> set es \<Longrightarrow> \<not> concerne e"
  shows "fold pas (xs @ es @ ys) d = fold pas (xs @ ys) d"
  by (simp add: fold_ignore [OF assms])

end

section \<open>The pins\<close>

text \<open>
  What the GPIO calls of a journal leave on the pins: mode, pull resistor and the level last
  written. The levels start \<open>LOW\<close>, the modes \<open>INPUT\<close>.
\<close>

record broches =
  mode :: "int \<Rightarrow> int"
  tirage :: "int \<Rightarrow> int"
  niveau :: "int \<Rightarrow> int"

fun broches_pas :: "event \<Rightarrow> broches \<Rightarrow> broches" where
  "broches_pas (Gpio (PinMode p m)) b = b\<lparr>mode := (mode b)(p := m)\<rparr>"
| "broches_pas (Gpio (PullUpDn p t)) b = b\<lparr>tirage := (tirage b)(p := t)\<rparr>"
| "broches_pas (Gpio (DigitalWrite p v)) b = b\<lparr>niveau := (niveau b)(p := v)\<rparr>"
| "broches_pas e b = b"

fun broches_concerne :: "event \<Rightarrow> bool" where
  "broches_concerne (Gpio (DigitalRead p v)) \<longleftrightarrow> False"
| "broches_concerne (Gpio e) \<longleftrightarrow> True"
| "broches_concerne e \<longleftrightarrow> False"

interpretation broches: appareil broches_pas broches_concerne
proof
  show "broches_pas e b = b" if "\<not> broches_concerne e" for e b
    using that by (induction e b rule: broches_pas.induct) auto
qed

definition broches_initiales :: broches where
  "broches_initiales = \<lparr>mode = (\<lambda>_. INPUT), tirage = (\<lambda>_. PUD_OFF), niveau = (\<lambda>_. LOW)\<rparr>"

definition broches_de :: "journal_t \<Rightarrow> broches" where
  "broches_de h = fold broches_pas h broches_initiales"

lemma broches_de_append [simp]: "broches_de (h @ es) = fold broches_pas es (broches_de h)"
  by (simp add: broches_de_def)

section \<open>A quiet host\<close>

text \<open>
  A host that answers every call the same way, used to show that hypotheses on the host can
  hold: pins read \<open>HIGH\<close>, every I2C device opens, the clock stands still, every read is the
  end of the stream.
\<close>

definition hote_calme :: hote where
  "hote_calme = \<lparr> h_digitalRead = (\<lambda>_ _. HIGH), h_i2cSetup = (\<lambda>_ _. 3), h_wiringPiSetup = (\<lambda>_. 0),
     h_getmaxyx = (\<lambda>_. (50, 132)), h_horloge = (\<lambda>_. (0, 0)), h_rand = (\<lambda>_. 0), h_malloc = (\<lambda>_. True),
     h_socket = (\<lambda>_. 3), h_bind = (\<lambda>_ _. 0), h_listen = (\<lambda>_ _. 0), h_connect = (\<lambda>_ _. 0),
     h_accept = (\<lambda>_ _. 4), h_select = (\<lambda>_ fds t. (0, [], 0)), h_send = (\<lambda>_ _ bs. int (length bs)),
     h_recv = (\<lambda>_ _ _. Some []), h_arrondi = id \<rparr>"

end
