(* ===== verification/Etat.thy ===== *)
theory Etat
  imports Hote
begin

text \<open>
  The static state of a process that links the peripheral libraries (\<open>local\<close> and
  \<open>client\<close>): one record with the file-scope variables of \<open>lib/my_7_segment.c\<close>,
  \<open>lib/my_lcd.c\<close> and \<open>lib/my_ncurses.c\<close>. The other libraries keep no state of their own.

  \<open>lcds\<close> is the array of pointers to LCD structures: an entry is \<^term>\<open>None\<close> when the
  pointer is NULL and holds the structure otherwise (the program never keeps a second pointer
  to a structure across two calls, so nothing is lost by storing it in place).
\<close>

record lcdDataStruct =
  bits :: int
  rows :: int
  cols :: int
  rsPin :: int
  strbPin :: int
  dataPins :: "int list"
  cx :: int
  cy :: int

record peripheriques = processus +
  display_buffer :: "int list"
  i2c_fd :: int
  lcds :: "lcdDataStruct option list"
  lcdControl :: int
  lcdHandle :: int
  initialised :: int
  screen_height :: int
  screen_width :: int
  start_x :: int
  start_y :: int

definition etat_initial :: peripheriques where
  "etat_initial = \<lparr> journal = [], display_buffer = [0, 0, 0, 0, 0, 0, 0, 0], i2c_fd = -1,
     lcds = [None, None, None, None, None, None, None, None], lcdControl = 0, lcdHandle = -1,
     initialised = 0, screen_height = 0, screen_width = 0, start_x = 0, start_y = 0 \<rparr>"

text \<open>Appending to the journal changes no variable, and commutes with every assignment.\<close>

lemma champs_consigne [simp]:
  "display_buffer (consigne es w) = display_buffer w"
  "i2c_fd (consigne es w) = i2c_fd w"
  "lcds (consigne es w) = lcds w"
  "lcdControl (consigne es w) = lcdControl w"
  "lcdHandle (consigne es w) = lcdHandle w"
  "initialised (consigne es w) = initialised w"
  "screen_height (consigne es w) = screen_height w"
  "screen_width (consigne es w) = screen_width w"
  "start_x (consigne es w) = start_x w"
  "start_y (consigne es w) = start_y w"
  by (simp_all add: consigne_def)

lemma affectation_consigne [simp]:
  "(consigne es w)\<lparr>display_buffer := b\<rparr> = consigne es (w\<lparr>display_buffer := b\<rparr>)"
  "(consigne es w)\<lparr>i2c_fd := f\<rparr> = consigne es (w\<lparr>i2c_fd := f\<rparr>)"
  "(consigne es w)\<lparr>lcds := l\<rparr> = consigne es (w\<lparr>lcds := l\<rparr>)"
  "(consigne es w)\<lparr>lcdControl := c\<rparr> = consigne es (w\<lparr>lcdControl := c\<rparr>)"
  "(consigne es w)\<lparr>lcdHandle := h\<rparr> = consigne es (w\<lparr>lcdHandle := h\<rparr>)"
  "(consigne es w)\<lparr>initialised := i\<rparr> = consigne es (w\<lparr>initialised := i\<rparr>)"
  by (simp_all add: consigne_def)

end
