(* ===== verification/Segment7.thy ===== *)
theory Segment7
  imports Etat
begin

text \<open>
  \<open>lib/my_7_segment.c\<close>: the four-digit display behind an HT16K33 on the I2C bus.

  The driver keeps \<open>display_buffer\<close>, one \<open>int\<close> per grid of the controller, and copies it
  to the controller's memory on every change. The theory models every function of the file,
  the controller as a reader of the journal, and proves that the controller's memory is always
  the buffer, that a number shown is the number read off the display, and where the display
  is too short for the number.
\<close>

section \<open>Tables and constants\<close>

abbreviation (input) HT16K33_ADDRESS :: int where "HT16K33_ADDRESS \<equiv> 0x70"
abbreviation (input) MAX_DIGITS :: int where "MAX_DIGITS \<equiv> 4"
abbreviation (input) CMD_SYSTEM :: int where "CMD_SYSTEM \<equiv> 0x20"
abbreviation (input) CMD_DISPLAY :: int where "CMD_DISPLAY \<equiv> 0x80"
abbreviation (input) CMD_BRIGHTNESS :: int where "CMD_BRIGHTNESS \<equiv> 0xE0"
abbreviation (input) DECIMAL_BIT :: int where "DECIMAL_BIT \<equiv> 0x80"

definition DIGIT_SEGMENTS :: "int list" where
  "DIGIT_SEGMENTS = [0x3F, 0x06, 0x5B, 0x4F, 0x66, 0x6D, 0x7D, 0x07, 0x7F, 0x6F]"

definition POSITION_MAP :: "nat list" where
  "POSITION_MAP = [0, 1, 3, 4]"

section \<open>The driver\<close>

definition envoyer_commande :: "int \<Rightarrow> peripheriques \<Rightarrow> peripheriques" where
  "envoyer_commande cmd w = (if i2c_fd w \<ge> 0 then wiringPiI2CWrite (i2c_fd w) cmd w else w)"

definition maj_affichage :: "peripheriques \<Rightarrow> peripheriques" where
  "maj_affichage w =
     (if i2c_fd w < 0 then w
      else fold (\<lambda>i w.
          let w = wiringPiI2CWriteReg8 (i2c_fd w) (int i * 2) (display_buffer w ! i AND 0xFF) w
          in wiringPiI2CWriteReg8 (i2c_fd w) (int i * 2 + 1) (drop_bit 8 (display_buffer w ! i)) w)
        [0..<8] w)"

definition segment7_luminosite :: "int \<Rightarrow> peripheriques \<Rightarrow> peripheriques" where
  "segment7_luminosite luminosite w =
     (let luminosite = if luminosite > 15 then 15 else luminosite;
          luminosite = if luminosite < 0 then 0 else luminosite
      in envoyer_commande (CMD_BRIGHTNESS OR luminosite) w)"

definition segment7_effacer :: "peripheriques \<Rightarrow> peripheriques" where
  "segment7_effacer w =
     maj_affichage (w\<lparr>display_buffer := fold (\<lambda>i b. b[i := 0]) [0..<8] (display_buffer w)\<rparr>)"

definition segment7_init :: "hote \<Rightarrow> peripheriques \<Rightarrow> peripheriques" where
  "segment7_init E w =
     (let (fd, w) = wiringPiI2CSetup E HT16K33_ADDRESS w;
          w = w\<lparr>i2c_fd := fd\<rparr>
      in if i2c_fd w < 0 then w
         else let w = envoyer_commande (CMD_SYSTEM OR 0x01) w;
                  w = envoyer_commande (CMD_DISPLAY OR 0x01) w;
                  w = segment7_luminosite 15 w
              in segment7_effacer w)"

definition segment7_ecrire_chiffre :: "int \<Rightarrow> int \<Rightarrow> peripheriques \<Rightarrow> peripheriques" where
  "segment7_ecrire_chiffre position valeur w =
     (if position < 0 \<or> position \<ge> MAX_DIGITS \<or> valeur < 0 \<or> valeur > 9 then w
      else let buffer_pos = POSITION_MAP ! nat position;
               decimal = display_buffer w ! buffer_pos AND DECIMAL_BIT
           in maj_affichage (w\<lparr>display_buffer :=
                (display_buffer w)[buffer_pos := DIGIT_SEGMENTS ! nat valeur OR decimal]\<rparr>))"

definition segment7_decimal :: "int \<Rightarrow> int \<Rightarrow> peripheriques \<Rightarrow> peripheriques" where
  "segment7_decimal position actif w =
     (if position < 0 \<or> position \<ge> MAX_DIGITS then w
      else let buffer_pos = POSITION_MAP ! nat position;
               v = display_buffer w ! buffer_pos
           in maj_affichage (w\<lparr>display_buffer := (display_buffer w)[buffer_pos :=
                if actif \<noteq> 0 then v OR DECIMAL_BIT else v AND NOT DECIMAL_BIT]\<rparr>))"

definition segment7_deuxpoints :: "int \<Rightarrow> peripheriques \<Rightarrow> peripheriques" where
  "segment7_deuxpoints actif w =
     (let v = display_buffer w ! 2
      in maj_affichage (w\<lparr>display_buffer := (display_buffer w)[2 :=
           if actif \<noteq> 0 then v OR 0x02 else v AND NOT 0x02]\<rparr>))"

text \<open>The digit loop of \<open>segment7_afficher_nombre\<close>; it returns the position reached.\<close>

function afficher_chiffres :: "int \<Rightarrow> int \<Rightarrow> peripheriques \<Rightarrow> int \<times> peripheriques" where
  "afficher_chiffres nombre position w =
     (if nombre > 0 \<and> position \<ge> 0
      then afficher_chiffres (nombre sdiv 10) (position - 1)
             (segment7_ecrire_chiffre position (nombre smod 10) w)
      else (position, w))"
  by pat_completeness auto
termination
  by (relation "measure (\<lambda>(nombre, position, w). nat (position + 1))") auto

declare afficher_chiffres.simps [simp del]

definition segment7_afficher_nombre :: "int \<Rightarrow> peripheriques \<Rightarrow> peripheriques option" where
  "segment7_afficher_nombre nombre w =
     (let w = segment7_effacer w
      in if nombre = 0 then Some (segment7_ecrire_chiffre (MAX_DIGITS - 1) 0 w)
         else do {
           let est_negatif = nombre < 0;
           nombre \<leftarrow> (if est_negatif then c_int (- nombre) else Some nombre);
           let (position, w) = afficher_chiffres nombre (MAX_DIGITS - 1) w;
           Some (if est_negatif \<and> position \<ge> 0
                 then maj_affichage (w\<lparr>display_buffer :=
                        (display_buffer w)[POSITION_MAP ! nat position := 0x40]\<rparr>)
                 else w)
         })"

definition segment7_cleanup :: "peripheriques \<Rightarrow> peripheriques" where
  "segment7_cleanup w =
     (let w = segment7_effacer w;
          w = envoyer_commande (CMD_SYSTEM OR 0x00) w;
          w = envoyer_commande (CMD_DISPLAY OR 0x00) w
      in if i2c_fd w \<ge> 0 then let w = close (i2c_fd w) w in w\<lparr>i2c_fd := -1\<rparr> else w)"

section \<open>The controller\<close>

text \<open>
  The HT16K33 as its data sheet describes it: sixteen bytes of display memory, and three
  one-byte commands recognised by their high nibble. \<open>fd\<close> is the descriptor of its address.
\<close>

record ht16k33 =
  ram :: "int \<Rightarrow> int"
  oscillateur :: bool
  allume :: bool
  intensite :: int

fun ht16k33_pas :: "int \<Rightarrow> event \<Rightarrow> ht16k33 \<Rightarrow> ht16k33" where
  "ht16k33_pas fd (I2c (I2CWriteReg8 f reg v)) d =
     (if f = fd then d\<lparr>ram := (ram d)(reg := v mod 256)\<rparr> else d)"
| "ht16k33_pas fd (I2c (I2CWrite f c)) d =
     (if f = fd then
        if c AND 0xF0 = 0x20 then d\<lparr>oscillateur := c AND 1 \<noteq> 0\<rparr>
        else if c AND 0xF0 = 0x80 then d\<lparr>allume := c AND 1 \<noteq> 0\<rparr>
        else if c AND 0xF0 = 0xE0 then d\<lparr>intensite := c AND 0x0F\<rparr>
        else d
      else d)"
| "ht16k33_pas fd e d = d"

fun ht16k33_concerne :: "int \<Rightarrow> event \<Rightarrow> bool" where
  "ht16k33_concerne fd (I2c (I2CWriteReg8 f reg v)) \<longleftrightarrow> f = fd"
| "ht16k33_concerne fd (I2c (I2CWrite f c)) \<longleftrightarrow> f = fd"
| "ht16k33_concerne fd e \<longleftrightarrow> False"

interpretation ht16k33: appareil "ht16k33_pas fd" "ht16k33_concerne fd" for fd
proof
  show "ht16k33_pas fd e d = d" if "\<not> ht16k33_concerne fd e" for e d
    using that by (induction fd e d rule: ht16k33_pas.induct) auto
qed

definition controleur :: "ht16k33 \<Rightarrow> peripheriques \<Rightarrow> ht16k33" where
  "controleur d w = fold (ht16k33_pas (i2c_fd w)) (journal w) d"

text \<open>Reading the display: leading dark positions, a bar for minus, then digits.\<close>

definition chiffre_lu :: "int \<Rightarrow> int option" where
  "chiffre_lu s = map_of (zip DIGIT_SEGMENTS [0..9]) s"

fun lire_nombre :: "int \<Rightarrow> int list \<Rightarrow> int option" where
  "lire_nombre acc [] = Some acc"
| "lire_nombre acc (s # ss) =
     (case chiffre_lu s of None \<Rightarrow> None | Some c \<Rightarrow> lire_nombre (acc * 10 + c) ss)"

definition lire_segments :: "int list \<Rightarrow> int option" where
  "lire_segments ss = (case dropWhile (\<lambda>s. s = 0) ss of
      [] \<Rightarrow> None
    | s # ss' \<Rightarrow> if s = 0x40 then map_option uminus (lire_nombre 0 ss') else lire_nombre 0 (s # ss'))"

definition lire_afficheur :: "ht16k33 \<Rightarrow> int option" where
  "lire_afficheur d = lire_segments (map (\<lambda>p. ram d (int p * 2)) POSITION_MAP)"

section \<open>The buffer and the controller's memory\<close>

text \<open>
  Coherence: the device is open, every entry of the buffer is a byte, and the controller's
  memory holds the buffer in its even cells and zero in its odd ones (what \<open>maj_affichage\<close>
  writes for an entry below 256).
\<close>

definition octets_ok :: "int list \<Rightarrow> bool" where
  "octets_ok b \<longleftrightarrow> length b = 8 \<and> (\<forall>x \<in> set b. 0 \<le> x \<and> x < 256)"

definition coherent :: "ht16k33 \<Rightarrow> peripheriques \<Rightarrow> bool" where
  "coherent d w \<longleftrightarrow> 0 \<le> i2c_fd w \<and> octets_ok (display_buffer w) \<and>
     (\<forall>i < 8. ram (controleur d w) (int i * 2) = display_buffer w ! i \<and>
              ram (controleur d w) (int i * 2 + 1) = 0)"

lemma coherentD: "coherent d w \<Longrightarrow> 0 \<le> i2c_fd w" "coherent d w \<Longrightarrow> octets_ok (display_buffer w)"
  by (simp_all add: coherent_def)

lemma controleur_consigne [simp]:
  "controleur d (consigne es w) = fold (ht16k33_pas (i2c_fd w)) es (controleur d w)"
  by (simp add: controleur_def)

lemma controleur_buffer [simp]: "controleur d (w\<lparr>display_buffer := b\<rparr>) = controleur d w"
  by (simp add: controleur_def)

lemma maj_affichage_buffer [simp]:
  "display_buffer (maj_affichage w) = display_buffer w"
  "i2c_fd (maj_affichage w) = i2c_fd w"
  by (simp_all add: maj_affichage_def upt_8 journal_simps Let_def)

lemma coherent_maj:
  assumes "0 \<le> i2c_fd w" and "octets_ok (display_buffer w)"
  shows "coherent d (maj_affichage w)"
proof -
  have "0 \<le> display_buffer w ! i \<and> display_buffer w ! i < 256" if "i < 8" for i
    using assms(2) that by (simp add: octets_ok_def)
  then show ?thesis
    using assms unfolding coherent_def all_less_8
    by (simp add: maj_affichage_def upt_8 journal_simps Let_def and_255 drop_bit_octet)
qed

lemma octets_ok_update:
  "\<lbrakk>octets_ok b; 0 \<le> x; x < 256\<rbrakk> \<Longrightarrow> octets_ok (b[i := x])"
  by (auto simp: octets_ok_def dest: set_update_subset_insert [THEN subsetD])

lemma octets_ok_nth: "\<lbrakk>octets_ok b; i < 8\<rbrakk> \<Longrightarrow> 0 \<le> b ! i \<and> b ! i < 256"
  by (simp add: octets_ok_def)

lemma octets_ok_zero [simp]: "octets_ok [0, 0, 0, 0, 0, 0, 0, 0]"
  by (simp add: octets_ok_def)

lemma effacer_zero: "length b = 8 \<Longrightarrow> fold (\<lambda>i b. b[i := 0]) [0..<8] b = [0, 0, 0, 0, 0, 0, 0, 0::int]"
  by (auto simp: upt_8 length_Suc_conv eval_nat_numeral)

lemma DIGIT_SEGMENTS_octet: "\<lbrakk>0 \<le> v; v \<le> 9\<rbrakk> \<Longrightarrow> 0 < DIGIT_SEGMENTS ! nat v \<and> DIGIT_SEGMENTS ! nat v < 128"
proof -
  assume "0 \<le> v" "v \<le> 9"
  then have "v \<in> {0, 1, 2, 3, 4, 5, 6, 7, 8, 9}" by (simp, presburger)
  then show ?thesis by (auto simp: DIGIT_SEGMENTS_def)
qed

lemma POSITION_MAP_lt: "\<lbrakk>0 \<le> p; p < 4\<rbrakk> \<Longrightarrow> POSITION_MAP ! nat p < 8"
proof -
  assume "0 \<le> p" "p < 4"
  then have "p \<in> {0, 1, 2, 3}" by auto
  then show ?thesis by (auto simp: POSITION_MAP_def)
qed

lemma coherent_commande: "coherent d w \<Longrightarrow> coherent d (envoyer_commande c w)"
  by (simp add: coherent_def envoyer_commande_def journal_simps)

lemma coherent_buffer:
  "coherent d w \<Longrightarrow> octets_ok b \<Longrightarrow> coherent d (maj_affichage (w\<lparr>display_buffer := b\<rparr>))"
  by (rule coherent_maj) (simp_all add: coherent_def)

lemma coherent_luminosite: "coherent d w \<Longrightarrow> coherent d (segment7_luminosite l w)"
  by (simp add: segment7_luminosite_def coherent_commande)

lemma coherent_effacer: "coherent d w \<Longrightarrow> coherent d (segment7_effacer w)"
  unfolding segment7_effacer_def
  by (rule coherent_buffer) (simp_all add: coherent_def octets_ok_def effacer_zero)

lemma coherent_ecrire_chiffre: "coherent d w \<Longrightarrow> coherent d (segment7_ecrire_chiffre p v w)"
proof -
  assume w: "coherent d w"
  then have b: "octets_ok (display_buffer w)" by (simp add: coherent_def)
  show ?thesis
  proof (cases "p < 0 \<or> p \<ge> MAX_DIGITS \<or> v < 0 \<or> v > 9")
    case True
    with w show ?thesis by (simp add: segment7_ecrire_chiffre_def)
  next
    case False
    then have "octets_ok ((display_buffer w)[POSITION_MAP ! nat p :=
        DIGIT_SEGMENTS ! nat v OR (display_buffer w ! (POSITION_MAP ! nat p) AND DECIMAL_BIT)])"
      using octets_ok_nth [OF b POSITION_MAP_lt [of p]] DIGIT_SEGMENTS_octet [of v]
      by (auto intro!: octets_ok_update b octet_OR octet_AND)
    with w False show ?thesis
      by (auto simp: segment7_ecrire_chiffre_def Let_def intro: coherent_buffer)
  qed
qed

lemma coherent_decimal: "coherent d w \<Longrightarrow> coherent d (segment7_decimal p a w)"
  using octets_ok_nth [of "display_buffer w", OF _ POSITION_MAP_lt [of p]]
  by (auto simp: segment7_decimal_def Let_def coherent_def [of d w]
      intro!: coherent_maj octets_ok_update octet_OR octet_AND)

lemma coherent_deuxpoints: "coherent d w \<Longrightarrow> coherent d (segment7_deuxpoints a w)"
  using octets_ok_nth [of "display_buffer w" 2]
  by (auto simp: segment7_deuxpoints_def Let_def coherent_def [of d w]
      intro!: coherent_maj octets_ok_update octet_OR octet_AND)

lemma coherent_chiffres: "coherent d w \<Longrightarrow> coherent d (snd (afficher_chiffres n p w))"
  by (induction n p w rule: afficher_chiffres.induct)
    (subst afficher_chiffres.simps, simp add: coherent_ecrire_chiffre)

text \<open>The value shown, with the two cases of the sign and of zero put together.\<close>

definition apres_chiffres :: "bool \<Rightarrow> int \<times> peripheriques \<Rightarrow> peripheriques" where
  "apres_chiffres est_negatif r = (case r of (position, w) \<Rightarrow>
     if est_negatif \<and> position \<ge> 0
     then maj_affichage (w\<lparr>display_buffer := (display_buffer w)[POSITION_MAP ! nat position := 0x40]\<rparr>)
     else w)"

lemma segment7_afficher_nombre_eq:
  "segment7_afficher_nombre n w =
     (if n = 0 then Some (segment7_ecrire_chiffre 3 0 (segment7_effacer w))
      else if n < 0 \<and> \<not> c_int_ok (- n) then None
      else Some (apres_chiffres (n < 0) (afficher_chiffres \<bar>n\<bar> 3 (segment7_effacer w))))"
  by (auto simp: segment7_afficher_nombre_def apres_chiffres_def c_int_def Let_def split: prod.splits)

lemma coherent_apres_chiffres: "coherent d (snd r) \<Longrightarrow> coherent d (apres_chiffres neg r)"
  by (cases r) (auto simp: apres_chiffres_def coherent_def [of d "snd (_, _)"]
      intro!: coherent_maj octets_ok_update dest: coherentD)

lemma coherent_afficher_nombre:
  "\<lbrakk>coherent d w; segment7_afficher_nombre n w = Some w'\<rbrakk> \<Longrightarrow> coherent d w'"
  by (auto simp: segment7_afficher_nombre_eq coherent_ecrire_chiffre coherent_effacer
      coherent_chiffres coherent_apres_chiffres split: if_splits)

text \<open>What the digit loop leaves in the buffer: positions 3, 2, 1, 0 from the right.\<close>

definition segment :: "int \<Rightarrow> int" where
  "segment v = DIGIT_SEGMENTS ! nat v"

lemma buffer_ecrire_chiffre:
  "\<lbrakk>0 \<le> p; p < 4; 0 \<le> v; v \<le> 9; display_buffer w ! (POSITION_MAP ! nat p) = 0\<rbrakk> \<Longrightarrow>
   display_buffer (segment7_ecrire_chiffre p v w) = (display_buffer w)[POSITION_MAP ! nat p := segment v]"
  by (simp add: segment7_ecrire_chiffre_def Let_def segment_def)

lemma afficher_chiffres_pas:
  "0 < n \<Longrightarrow> 0 \<le> p \<Longrightarrow>
   afficher_chiffres n p w = afficher_chiffres (n div 10) (p - 1) (segment7_ecrire_chiffre p (n mod 10) w)"
  by (subst afficher_chiffres.simps) (simp add: sdiv_nonneg smod_nonneg)

lemma afficher_chiffres_fin:
  "n \<le> 0 \<or> p < 0 \<Longrightarrow> afficher_chiffres n p w = (p, w)"
  by (subst afficher_chiffres.simps) auto

lemma buffer_effacer: "octets_ok (display_buffer w) \<Longrightarrow> display_buffer (segment7_effacer w) = [0,0,0,0,0,0,0,0]"
  by (simp add: segment7_effacer_def effacer_zero octets_ok_def)

lemma buffer_chiffres:
  assumes "display_buffer w = [0,0,0,0,0,0,0,0]" and "0 < n"
  shows "display_buffer (snd (afficher_chiffres n 3 w)) =
      [if n < 1000 then 0 else segment (n div 1000 mod 10), if n < 100 then 0 else segment (n div 100 mod 10), 0,
       if n < 10 then 0 else segment (n div 10 mod 10), segment (n mod 10), 0, 0, 0] \<and>
     fst (afficher_chiffres n 3 w) = (if n < 10 then 2 else if n < 100 then 1 else if n < 1000 then 0 else -1)"
proof -
  have d: "n div 10 div 10 = n div 100" "n div 100 div 10 = n div 1000"
    by (simp_all add: zdiv_zmult2_eq [symmetric])
  have p: "0 < n div 10 \<longleftrightarrow> 10 \<le> n" "0 < n div 100 \<longleftrightarrow> 100 \<le> n" "0 < n div 1000 \<longleftrightarrow> 1000 \<le> n"
    by (simp_all add: pos_imp_zdiv_pos_iff)
  consider "n < 10" | "10 \<le> n" "n < 100" | "100 \<le> n" "n < 1000" | "1000 \<le> n" by linarith
  then show ?thesis
    by cases (use assms in \<open>simp_all add: afficher_chiffres_pas afficher_chiffres_fin d p
        buffer_ecrire_chiffre POSITION_MAP_def div_pos_pos_trivial\<close>)
qed


lemma chiffre_lu_segment: "\<lbrakk>0 \<le> v; v \<le> 9\<rbrakk> \<Longrightarrow> chiffre_lu (segment v) = Some v \<and> segment v \<noteq> 0 \<and> segment v \<noteq> 0x40"
proof -
  assume "0 \<le> v" "v \<le> 9"
  then have "v \<in> {0, 1, 2, 3, 4, 5, 6, 7, 8, 9}" by (simp, presburger)
  moreover have "[0..9] = [0, 1, 2, 3, 4, 5, 6, 7, 8, 9::int]" by (simp add: upto.simps)
  ultimately show ?thesis by (auto simp: segment_def DIGIT_SEGMENTS_def chiffre_lu_def)
qed

lemma chiffre_lu_mod [simp]:
  "chiffre_lu (segment (n mod 10)) = Some (n mod 10)"
  "segment (n mod 10) \<noteq> 0" "segment (n mod 10) \<noteq> 0x40"
  "chiffre_lu (segment 0) = Some 0" "segment 0 \<noteq> 0" "segment 0 \<noteq> 0x40"
  using chiffre_lu_segment [of "n mod 10"] chiffre_lu_segment [of 0] by simp_all

definition valeur_affichee :: "int \<Rightarrow> int" where
  "valeur_affichee n = (if - 1000 < n \<and> n < 0 then n else \<bar>n\<bar> mod 10000)"

lemma lire_coherent:
  assumes "coherent d w"
  shows "lire_afficheur (controleur d w) =
    lire_segments [display_buffer w ! 0, display_buffer w ! 1, display_buffer w ! 3, display_buffer w ! 4]"
proof -
  have "\<forall>i < 8. ram (controleur d w) (int i * 2) = display_buffer w ! i"
    using assms by (simp add: coherent_def)
  then show ?thesis
    unfolding all_less_8 by (simp add: lire_afficheur_def POSITION_MAP_def)
qed

text \<open>Reading back the four positions that the loop and the sign have filled.\<close>

lemma lire_buffer_nombre:
  fixes n :: int
  defines "m \<equiv> \<bar>n\<bar>"
  defines "p \<equiv> (if m < 10 then 2 else if m < 100 then 1 else if m < 1000 then 0 else -1 :: int)"
  defines "b \<equiv> [if m < 1000 then 0 else segment (m div 1000 mod 10), if m < 100 then 0 else segment (m div 100 mod 10), 0,
        if m < 10 then 0 else segment (m div 10 mod 10), segment (m mod 10), 0, 0, 0]"
  defines "b' \<equiv> (if n < 0 \<and> 0 \<le> p then b[POSITION_MAP ! nat p := 0x40] else b)"
  assumes "n \<noteq> 0"
  shows "lire_segments [b' ! 0, b' ! 1, b' ! 3, b' ! 4] = Some (valeur_affichee n)"
proof -
  define x y z u where "x = m div 1000 mod 10" and "y = m div 100 mod 10"
    and "z = m div 10 mod 10" and "u = m mod 10"
  have eq: "m mod 10000 = x * 1000 + y * 100 + z * 10 + u"
    unfolding x_def y_def z_def u_def by (rule mod_10000_digits)
  have x: "m < 1000 \<Longrightarrow> x = 0" and y: "m < 100 \<Longrightarrow> y = 0" and z: "m < 10 \<Longrightarrow> z = 0"
    by (simp_all add: x_def y_def z_def m_def div_pos_pos_trivial)
  have small: "m < 1000 \<Longrightarrow> m mod 10000 = m"
    by (simp add: m_def)
  have seg: "chiffre_lu (segment v) = Some v" "segment v \<noteq> 0" "segment v \<noteq> 0x40" if "v \<in> {x, y, z, u}" for v
    using that by (auto simp: x_def y_def z_def u_def)
  have b: "b = [if m < 1000 then 0 else segment x, if m < 100 then 0 else segment y, 0,
      if m < 10 then 0 else segment z, segment u, 0, 0, 0]"
    by (simp add: b_def x_def y_def z_def u_def)
  have v: "valeur_affichee n = (if n < 0 \<and> m < 1000 then - (m mod 10000) else m mod 10000)"
    using small by (auto simp: valeur_affichee_def m_def)
  consider "m < 10" | "10 \<le> m" "m < 100" | "100 \<le> m" "m < 1000" | "1000 \<le> m" by linarith
  then show ?thesis
    by cases (simp_all add: b'_def b p_def v eq x y z seg POSITION_MAP_def lire_segments_def)
qed

section \<open>Runs of the driver\<close>

lemma controleur_maj [simp]:
  "oscillateur (controleur d (maj_affichage w)) = oscillateur (controleur d w)"
  "allume (controleur d (maj_affichage w)) = allume (controleur d w)"
  "intensite (controleur d (maj_affichage w)) = intensite (controleur d w)"
  by (simp_all add: maj_affichage_def upt_8 journal_simps Let_def)

lemma commande_luminosite:
  assumes "0 \<le> v" "v \<le> 15"
  shows "(0xE0 OR v) AND 0xF0 = (0xE0::int)" "(0xE0 OR v) AND 0x0F = v"
proof -
  from assms have "v \<in> {0, 1, 2, 3, 4, 5, 6, 7, 8, 9, 10, 11, 12, 13, 14, 15}" by (simp, presburger)
  then show "(0xE0 OR v) AND 0xF0 = (0xE0::int)" "(0xE0 OR v) AND 0x0F = v" by auto
qed

text \<open>
  One call into the driver, or any sequence of events of other components in between.
\<close>

inductive segment7_etape :: "peripheriques \<Rightarrow> peripheriques \<Rightarrow> bool" where
  effacer: "segment7_etape w (segment7_effacer w)"
| luminosite: "segment7_etape w (segment7_luminosite l w)"
| ecrire_chiffre: "segment7_etape w (segment7_ecrire_chiffre p v w)"
| decimal: "segment7_etape w (segment7_decimal p a w)"
| deuxpoints: "segment7_etape w (segment7_deuxpoints a w)"
| afficher_nombre: "segment7_afficher_nombre n w = Some w' \<Longrightarrow> segment7_etape w w'"
| autre: "\<forall>e \<in> set es. \<not> ht16k33_concerne (i2c_fd w) e \<Longrightarrow> segment7_etape w (consigne es w)"

lemma segment7_etape_coherente: "segment7_etape w w' \<Longrightarrow> coherent d w \<Longrightarrow> coherent d w'"
proof (induction rule: segment7_etape.induct)
  case (autre es w)
  then show ?case
    by (simp add: coherent_def ht16k33.fold_ignore)
qed (auto intro: coherent_effacer coherent_luminosite coherent_ecrire_chiffre coherent_decimal
      coherent_deuxpoints coherent_afficher_nombre)

lemma segment7_luminosite_15:
  "segment7_luminosite 15 w = envoyer_commande 0xEF w"
  by (simp add: segment7_luminosite_def)

text \<open>Without the device: nothing is ever sent.\<close>

lemma maj_affichage_ferme [simp]: "i2c_fd w < 0 \<Longrightarrow> maj_affichage w = w"
  by (simp add: maj_affichage_def)

lemma chiffres_ferme:
  "i2c_fd w < 0 \<Longrightarrow> journal (snd (afficher_chiffres n p w)) = journal w \<and>
     i2c_fd (snd (afficher_chiffres n p w)) = i2c_fd w"
proof (induction n p w rule: afficher_chiffres.induct)
  case (1 n p w)
  then show ?case
    by (subst (1 2) afficher_chiffres.simps) (auto simp: segment7_ecrire_chiffre_def Let_def)
qed

lemma segment7_ferme:
  assumes "i2c_fd w < 0"
  shows "journal (segment7_effacer w) = journal w" "i2c_fd (segment7_effacer w) = i2c_fd w"
    "journal (segment7_ecrire_chiffre p v w) = journal w"
    "journal (segment7_decimal p a w) = journal w"
    "journal (segment7_deuxpoints a w) = journal w"
    "journal (segment7_luminosite l w) = journal w"
    "segment7_afficher_nombre n w = Some w' \<Longrightarrow> journal w' = journal w"
  using assms chiffres_ferme [of "segment7_effacer w" "\<bar>n\<bar>" 3]
  by (auto simp: segment7_effacer_def segment7_ecrire_chiffre_def segment7_decimal_def
      segment7_deuxpoints_def segment7_luminosite_def envoyer_commande_def Let_def
      segment7_afficher_nombre_eq apres_chiffres_def split: if_splits prod.splits)

lemma segment7_cleanup_ferme: "i2c_fd w < 0 \<Longrightarrow> journal (segment7_cleanup w) = journal w"
  by (simp add: segment7_cleanup_def Let_def envoyer_commande_def segment7_ferme)

text \<open>A state with the device open and idle, used to show that hypotheses can hold.\<close>

definition ht16k33_repos :: ht16k33 where
  "ht16k33_repos = \<lparr>ram = (\<lambda>_. 0), oscillateur = False, allume = False, intensite = 0\<rparr>"

definition etat_segment7 :: peripheriques where
  "etat_segment7 = etat_initial\<lparr>i2c_fd := 3\<rparr>"

lemma coherent_exemple: "coherent ht16k33_repos etat_segment7"
  unfolding coherent_def all_less_8
  by (simp add: etat_segment7_def etat_initial_def ht16k33_repos_def controleur_def)

section \<open>Properties\<close>

lemma segment7_afficher_nombre_rend:
  assumes "coherent d w" and "c_int_ok n" and "n \<noteq> - (2 ^ 31)"
  shows "\<exists>w'. segment7_afficher_nombre n w = Some w' \<and> coherent d w' \<and>
     lire_afficheur (controleur d w') = Some (valeur_affichee n)"
proof -
  from assms have ok: "c_int_ok (- n)" by (simp add: c_int_ok_def)
  then obtain w' where w': "segment7_afficher_nombre n w = Some w'"
    by (cases "n = 0") (simp_all add: segment7_afficher_nombre_eq)
  let ?w0 = "segment7_effacer w"
  have w0: "display_buffer ?w0 = [0,0,0,0,0,0,0,0]"
    using assms(1) by (simp add: buffer_effacer coherentD)
  have coh: "coherent d w'" by (rule coherent_afficher_nombre [OF assms(1) w'])
  have "lire_afficheur (controleur d w') = Some (valeur_affichee n)"
  proof (cases "n = 0")
    case True
    then have "w' = segment7_ecrire_chiffre 3 0 ?w0" using w' by (simp add: segment7_afficher_nombre_eq)
    then show ?thesis using True unfolding lire_coherent [OF coh]
      by (simp add: buffer_ecrire_chiffre w0 POSITION_MAP_def lire_segments_def valeur_affichee_def)
  next
    case False
    then have w'_eq: "w' = apres_chiffres (n < 0) (afficher_chiffres \<bar>n\<bar> 3 ?w0)"
      using w' ok by (simp add: segment7_afficher_nombre_eq)
    obtain p w1 where r: "afficher_chiffres \<bar>n\<bar> 3 ?w0 = (p, w1)" by fastforce
    from buffer_chiffres [OF w0, of "\<bar>n\<bar>"] False r
    have b: "display_buffer w1 = [if \<bar>n\<bar> < 1000 then 0 else segment (\<bar>n\<bar> div 1000 mod 10),
        if \<bar>n\<bar> < 100 then 0 else segment (\<bar>n\<bar> div 100 mod 10), 0,
        if \<bar>n\<bar> < 10 then 0 else segment (\<bar>n\<bar> div 10 mod 10), segment (\<bar>n\<bar> mod 10), 0, 0, 0]"
      and p: "p = (if \<bar>n\<bar> < 10 then 2 else if \<bar>n\<bar> < 100 then 1 else if \<bar>n\<bar> < 1000 then 0 else -1)"
      by simp_all
    have "display_buffer w' = (if n < 0 \<and> 0 \<le> p
        then (display_buffer w1)[POSITION_MAP ! nat p := 0x40] else display_buffer w1)"
      by (simp add: w'_eq r apres_chiffres_def)
    then show ?thesis
      using lire_buffer_nombre [OF False] unfolding lire_coherent [OF coh] b p by presburger
  qed
  with w' coh show ?thesis by blast
qed

text \<open> C27: a number that fits an \<open>int\<close> and is not its minimum can be shown from any coherent state,
  the display stays coherent, and reading its four digits gives \<open>valeur_affichee\<close>: the number
  itself from -999 to 9999, its last four digits above, and below -999 its last four digits
  without a sign. \<close>

theorem segment7_afficher_nombre_lu:
  assumes "coherent d w" and "c_int_ok n" and "n \<noteq> - (2 ^ 31)"
  shows "\<exists>w'. segment7_afficher_nombre n w = Some w' \<and> coherent d w' \<and>
     lire_afficheur (controleur d w') = Some (valeur_affichee n)"
  by (rule segment7_afficher_nombre_rend [OF assms])

theorem segment7_afficher_nombre_lu_temoin:
  "\<exists>w'. segment7_afficher_nombre (- 42) etat_segment7 = Some w' \<and>
     lire_afficheur (controleur ht16k33_repos w') = Some (- 42)"
  using segment7_afficher_nombre_lu [OF coherent_exemple, of "- 42"]
  by (auto simp: c_int_ok_def valeur_affichee_def)

text \<open> C28: in every sequence of calls into the driver, interleaved with any events that do not
  address the controller, the controller's memory equals the buffer and every entry is a byte. \<close>

theorem segment7_execution_coherente:
  assumes "segment7_etape\<^sup>*\<^sup>* w w'" and "coherent d w"
  shows "coherent d w'"
  using assms by (induction rule: rtranclp_induct) (auto intro: segment7_etape_coherente)

theorem segment7_execution_coherente_temoin:
  "coherent ht16k33_repos (segment7_decimal 1 1 (consigne [Sys (Delay 10)] etat_segment7))"
proof -
  have "segment7_etape etat_segment7 (consigne [Sys (Delay 10)] etat_segment7)"
    by (rule segment7_etape.autre) simp
  then have "segment7_etape\<^sup>*\<^sup>* etat_segment7 (segment7_decimal 1 1 (consigne [Sys (Delay 10)] etat_segment7))"
    by (blast intro: segment7_etape.decimal rtranclp.intros)
  then show ?thesis
    by (rule segment7_execution_coherente [OF _ coherent_exemple])
qed

text \<open> \<open>segment7_init\<close> on a device that answers leaves it running at full brightness with a dark
  display, coherent with the buffer. \<close>

theorem segment7_init_coherent:
  assumes "0 \<le> h_i2cSetup E (journal w) HT16K33_ADDRESS" and "length (display_buffer w) = 8"
  shows "let w' = segment7_init E w in coherent d w' \<and> lire_afficheur (controleur d w') = None \<and>
     oscillateur (controleur d w') \<and> allume (controleur d w') \<and> intensite (controleur d w') = 15"
proof -
  let ?w' = "segment7_init E w"
  have b: "display_buffer ?w' = [0,0,0,0,0,0,0,0]"
    and coh: "coherent d ?w'"
    and fl: "oscillateur (controleur d ?w') \<and> allume (controleur d ?w') \<and> intensite (controleur d ?w') = 15"
    using assms by (auto simp: segment7_init_def wiringPiI2CSetup_def Let_def segment7_luminosite_15
        envoyer_commande_def journal_simps segment7_effacer_def effacer_zero intro: coherent_maj)
  have "lire_afficheur (controleur d ?w') = None"
    unfolding lire_coherent [OF coh] b by (simp add: lire_segments_def)
  with coh fl show ?thesis by (simp add: Let_def)
qed

theorem segment7_init_coherent_temoin:
  "coherent ht16k33_repos (segment7_init hote_calme etat_initial)"
  using segment7_init_coherent [of hote_calme etat_initial ht16k33_repos]
  by (simp add: hote_calme_def etat_initial_def Let_def)

text \<open> A brightness is clamped to 0-15 before it is sent, whatever the argument, and changes
  nothing on the display. \<close>

theorem segment7_luminosite_bornee:
  assumes "0 \<le> i2c_fd w"
  shows "intensite (controleur d (segment7_luminosite l w)) = max 0 (min 15 l) \<and>
     ram (controleur d (segment7_luminosite l w)) = ram (controleur d w)"
  using assms commande_luminosite [of "max 0 (min 15 l)"]
  by (auto simp: segment7_luminosite_def envoyer_commande_def journal_simps Let_def max_def min_def)

theorem segment7_luminosite_bornee_temoin:
  "intensite (controleur ht16k33_repos (segment7_luminosite 99 etat_segment7)) = 15"
  using segment7_luminosite_bornee [of etat_segment7 ht16k33_repos 99]
  by (simp add: etat_segment7_def)

text \<open> Writing a digit shows its segments at its own position, keeps the decimal point there,
  and leaves every other position alone. \<close>

theorem segment7_ecrire_chiffre_position:
  assumes "octets_ok (display_buffer w)" and "0 \<le> p" "p < MAX_DIGITS" "0 \<le> v" "v \<le> 9"
  shows "let b = display_buffer w; b' = display_buffer (segment7_ecrire_chiffre p v w); k = POSITION_MAP ! nat p in
     b' ! k AND 0x7F = DIGIT_SEGMENTS ! nat v \<and> b' ! k AND DECIMAL_BIT = b ! k AND DECIMAL_BIT \<and>
     (\<forall>j. j \<noteq> k \<longrightarrow> b' ! j = b ! j)"
proof -
  let ?k = "POSITION_MAP ! nat p" and ?s = "DIGIT_SEGMENTS ! nat v"
  have "v \<in> {0, 1, 2, 3, 4, 5, 6, 7, 8, 9}" using assms(4,5) by (simp, presburger)
  then have s: "?s AND 0x7F = ?s" "?s AND 0x80 = 0"
    by (auto simp: DIGIT_SEGMENTS_def)
  have k: "?k < length (display_buffer w)"
    using POSITION_MAP_lt [of p] assms by (simp add: octets_ok_def)
  have "(?s OR (x AND 0x80)) AND 0x7F = ?s" "(?s OR (x AND 0x80)) AND 0x80 = x AND 0x80" for x
    by (simp_all add: bit.conj_disj_distrib2 and.assoc s)
  with k assms show ?thesis
    by (simp add: segment7_ecrire_chiffre_def Let_def)
qed

theorem segment7_ecrire_chiffre_position_temoin:
  "display_buffer (segment7_ecrire_chiffre 2 7 etat_segment7) ! 3 AND 0x7F = 0x07"
  using segment7_ecrire_chiffre_position [OF coherentD(2) [OF coherent_exemple], of 2 7]
  by (simp add: Let_def POSITION_MAP_def DIGIT_SEGMENTS_def)

text \<open> \<open>segment7_cleanup\<close> clears the display, stops the oscillator and the display, closes the
  descriptor last, and a second call sends nothing. \<close>

theorem segment7_cleanup_eteint:
  assumes "coherent d w"
  shows "let w' = segment7_cleanup w; c = fold (ht16k33_pas (i2c_fd w)) (journal w') d in
     i2c_fd w' = -1 \<and> last (journal w') = Sys (Close (i2c_fd w)) \<and>
     (\<forall>i < 8. ram c (int i * 2) = 0 \<and> ram c (int i * 2 + 1) = 0) \<and>
     \<not> oscillateur c \<and> \<not> allume c \<and>
     journal (segment7_cleanup w') = journal w'"
proof -
  let ?w1 = "segment7_effacer w"
  have "coherent d ?w1" by (rule coherent_effacer [OF assms])
  then have r: "\<forall>i < 8. ram (controleur d ?w1) (int i * 2) = 0 \<and> ram (controleur d ?w1) (int i * 2 + 1) = 0"
    using buffer_effacer [OF coherentD(2) [OF assms]] unfolding coherent_def all_less_8 by simp
  have fd: "i2c_fd ?w1 = i2c_fd w" by (simp add: segment7_effacer_def)
  with coherentD(1) [OF assms]
  have w': "segment7_cleanup w = (consigne [I2c (I2CWrite (i2c_fd w) 0x20), I2c (I2CWrite (i2c_fd w) 0x80),
      Sys (Close (i2c_fd w))] ?w1)\<lparr>i2c_fd := -1\<rparr>"
    by (simp add: segment7_cleanup_def Let_def envoyer_commande_def journal_simps)
  have "fold (ht16k33_pas (i2c_fd w)) (journal ?w1) d = controleur d ?w1"
    by (simp add: controleur_def fd)
  with r show ?thesis
    by (simp add: w' Let_def segment7_cleanup_ferme)
qed

theorem segment7_cleanup_eteint_temoin:
  "i2c_fd (segment7_cleanup etat_segment7) = -1"
  using segment7_cleanup_eteint [OF coherent_exemple] by (simp add: Let_def)

end
