(* ===== verification/Boutons.thy ===== *)
theory Boutons
  imports Hote
begin

text \<open>
  \<open>lib/my_matrice_btn.c\<close>: the four by four button matrix, scanned row by row.

  The theory models every function of the file, states what a matrix of pressed buttons makes
  the column pins read (the hypothesis \<open>clavier\<close>), and proves which number a scan returns,
  that the pins are left as the comments say, and when the waiting loops return.
\<close>

section \<open>Pins\<close>

abbreviation (input) ROW1 :: int where "ROW1 \<equiv> 2"
abbreviation (input) ROW2 :: int where "ROW2 \<equiv> 3"
abbreviation (input) ROW3 :: int where "ROW3 \<equiv> 21"
abbreviation (input) ROW4 :: int where "ROW4 \<equiv> 22"
abbreviation (input) COL1 :: int where "COL1 \<equiv> 23"
abbreviation (input) COL2 :: int where "COL2 \<equiv> 24"
abbreviation (input) COL3 :: int where "COL3 \<equiv> 25"
abbreviation (input) COL4 :: int where "COL4 \<equiv> 6"

section \<open>The functions\<close>

definition matrice_btn_init :: "'a processus_scheme \<Rightarrow> 'a processus_scheme" where
  "matrice_btn_init w =
     (let w = pinMode ROW1 OUTPUT w;
          w = pinMode ROW2 OUTPUT w;
          w = pinMode ROW3 OUTPUT w;
          w = pinMode ROW4 OUTPUT w;
          w = pinMode COL1 INPUT w;
          w = pinMode COL2 INPUT w;
          w = pinMode COL3 INPUT w;
          w = pinMode COL4 INPUT w;
          w = digitalWrite ROW1 LOW w;
          w = digitalWrite ROW2 LOW w;
          w = digitalWrite ROW3 LOW w;
          w = digitalWrite ROW4 LOW w;
          w = pullUpDnControl COL1 PUD_UP w;
          w = pullUpDnControl COL2 PUD_UP w;
          w = pullUpDnControl COL3 PUD_UP w
      in pullUpDnControl COL4 PUD_UP w)"

text \<open>The four writes that make every row inactive, and the \<open>switch\<close> that activates one.\<close>

definition lignes_inactives :: "'a processus_scheme \<Rightarrow> 'a processus_scheme" where
  "lignes_inactives w =
     (let w = digitalWrite ROW1 HIGH w;
          w = digitalWrite ROW2 HIGH w;
          w = digitalWrite ROW3 HIGH w
      in digitalWrite ROW4 HIGH w)"

definition activer_ligne :: "int \<Rightarrow> 'a processus_scheme \<Rightarrow> 'a processus_scheme" where
  "activer_ligne ligne w =
     (if ligne = 0 then digitalWrite ROW1 LOW w
      else if ligne = 1 then digitalWrite ROW2 LOW w
      else if ligne = 2 then digitalWrite ROW3 LOW w
      else if ligne = 3 then digitalWrite ROW4 LOW w
      else w)"

definition lire_colonnes :: "hote \<Rightarrow> int \<Rightarrow> 'a processus_scheme \<Rightarrow> int \<times> 'a processus_scheme" where
  "lire_colonnes E ligne w =
     (let (v, w) = digitalRead E COL1 w in
      if v = LOW then (ligne * 4 + 4, w)
      else let (v, w) = digitalRead E COL2 w in
      if v = LOW then (ligne * 4 + 3, w)
      else let (v, w) = digitalRead E COL3 w in
      if v = LOW then (ligne * 4 + 2, w)
      else let (v, w) = digitalRead E COL4 w in
      if v = LOW then (ligne * 4 + 1, w)
      else (0, w))"

fun lire_lignes :: "hote \<Rightarrow> int list \<Rightarrow> 'a processus_scheme \<Rightarrow> int \<times> 'a processus_scheme" where
  "lire_lignes E [] w = (0, w)"
| "lire_lignes E (ligne # lignes) w =
     (let w = lignes_inactives w;
          w = activer_ligne ligne w;
          w = delay 2 w;
          (bouton, w) = lire_colonnes E ligne w
      in if bouton \<noteq> 0 then (bouton, w) else lire_lignes E lignes w)"

definition matrice_btn_lire :: "hote \<Rightarrow> 'a processus_scheme \<Rightarrow> int \<times> 'a processus_scheme" where
  "matrice_btn_lire E w =
     (let (bouton, w) = lire_lignes E [0, 1, 2, 3] w
      in (bouton, lignes_inactives w))"

text \<open>The two results are written through pointers in the source: row and column.\<close>

definition matrice_btn_obtenir_position :: "int \<Rightarrow> int \<times> int" where
  "matrice_btn_obtenir_position bouton =
     (if bouton \<le> 0 \<or> bouton > 16 then (-1, -1)
      else let bouton = bouton - 1 in (bouton sdiv 4, bouton smod 4))"

text \<open>
  The waiting loops. A call that never returns, or that adds past the largest \<open>int\<close>, is
  \<^term>\<open>None\<close>.
\<close>

partial_function (option) attendre_appui_boucle ::
    "hote \<Rightarrow> int \<Rightarrow> int \<Rightarrow> 'a processus_scheme \<Rightarrow> (int \<times> 'a processus_scheme) option" where
  "attendre_appui_boucle E timeout_ms temps_ecoule w =
     (if temps_ecoule < timeout_ms \<or> timeout_ms \<le> 0 then
        let (bouton, w) = matrice_btn_lire E w in
        if bouton \<noteq> 0 then Some (bouton, w)
        else do {
          let w = delay 10 w;
          temps_ecoule \<leftarrow> c_int (temps_ecoule + 10);
          attendre_appui_boucle E timeout_ms temps_ecoule w
        }
      else Some (0, w))"

definition matrice_btn_attendre_appui_timeout ::
    "hote \<Rightarrow> int \<Rightarrow> 'a processus_scheme \<Rightarrow> (int \<times> 'a processus_scheme) option" where
  "matrice_btn_attendre_appui_timeout E timeout_ms w = attendre_appui_boucle E timeout_ms 0 w"

partial_function (option) matrice_btn_attendre_appui ::
    "hote \<Rightarrow> 'a processus_scheme \<Rightarrow> (int \<times> 'a processus_scheme) option" where
  "matrice_btn_attendre_appui E w =
     (let (bouton, w) = matrice_btn_lire E w in
      if bouton \<noteq> 0 then Some (bouton, w)
      else matrice_btn_attendre_appui E (delay 10 w))"

partial_function (option) attendre_relache_boucle ::
    "hote \<Rightarrow> int \<Rightarrow> int \<Rightarrow> 'a processus_scheme \<Rightarrow> (int \<times> 'a processus_scheme) option" where
  "attendre_relache_boucle E timeout_ms temps_ecoule w =
     (if temps_ecoule < timeout_ms \<or> timeout_ms \<le> 0 then
        let (bouton, w) = matrice_btn_lire E w in
        if bouton = 0 then Some (1, w)
        else do {
          let w = delay 10 w;
          temps_ecoule \<leftarrow> c_int (temps_ecoule + 10);
          attendre_relache_boucle E timeout_ms temps_ecoule w
        }
      else Some (0, w))"

definition matrice_btn_attendre_relache_timeout ::
    "hote \<Rightarrow> int \<Rightarrow> 'a processus_scheme \<Rightarrow> (int \<times> 'a processus_scheme) option" where
  "matrice_btn_attendre_relache_timeout E timeout_ms w = attendre_relache_boucle E timeout_ms 0 w"

partial_function (option) matrice_btn_attendre_relache ::
    "hote \<Rightarrow> 'a processus_scheme \<Rightarrow> (int \<times> 'a processus_scheme) option" where
  "matrice_btn_attendre_relache E w =
     (let (bouton, w) = matrice_btn_lire E w in
      if bouton = 0 then Some (1, w)
      else matrice_btn_attendre_relache E (delay 10 w))"

definition matrice_btn_cleanup :: "'a processus_scheme \<Rightarrow> 'a processus_scheme" where
  "matrice_btn_cleanup w =
     (let w = lignes_inactives w;
          w = pinMode ROW1 INPUT w;
          w = pinMode ROW2 INPUT w;
          w = pinMode ROW3 INPUT w;
          w = pinMode ROW4 INPUT w;
          w = pinMode COL1 INPUT w;
          w = pinMode COL2 INPUT w;
          w = pinMode COL3 INPUT w;
          w = pinMode COL4 INPUT w;
          w = pullUpDnControl COL1 PUD_OFF w;
          w = pullUpDnControl COL2 PUD_OFF w;
          w = pullUpDnControl COL3 PUD_OFF w;
          w = pullUpDnControl COL4 PUD_OFF w;
          w = pullUpDnControl ROW1 PUD_OFF w;
          w = pullUpDnControl ROW2 PUD_OFF w;
          w = pullUpDnControl ROW3 PUD_OFF w;
          w = pullUpDnControl ROW4 PUD_OFF w
      in delay 10 w)"

section \<open>The matrix\<close>

text \<open>
  Row and column pins in the order of the keys as the player sees them: rows from the top,
  columns from the left (\<open>COL4\<close> is the left column). \<open>clavier P E\<close> says that the host's
  column pins are those of a matrix whose pressed keys are \<open>P\<close>: a column reads \<open>LOW\<close>
  exactly when some pressed key of it is on a row last driven \<open>LOW\<close>.
\<close>

definition broche_ligne :: "nat \<Rightarrow> int" where
  "broche_ligne r = [ROW1, ROW2, ROW3, ROW4] ! r"

definition broche_colonne :: "nat \<Rightarrow> int" where
  "broche_colonne c = [COL4, COL3, COL2, COL1] ! c"

definition clavier :: "(nat \<Rightarrow> nat \<Rightarrow> bool) \<Rightarrow> hote \<Rightarrow> bool" where
  "clavier P E \<longleftrightarrow> (\<forall>h. \<forall>c < 4. h_digitalRead E h (broche_colonne c) =
     (if \<exists>r < 4. P r c \<and> niveau (broches_de h) (broche_ligne r) = LOW then LOW else HIGH))"

text \<open>The number a scan promises: the first pressed key, rows from the top, right to left.\<close>

definition touches :: "(nat \<times> nat) list" where
  "touches = [(r, c). r \<leftarrow> [0..<4], c \<leftarrow> [3, 2, 1, 0]]"

definition numero :: "nat \<times> nat \<Rightarrow> int" where
  "numero k = int (fst k) * 4 + int (snd k) + 1"

definition balayage :: "(nat \<Rightarrow> nat \<Rightarrow> bool) \<Rightarrow> int" where
  "balayage P = (case find (\<lambda>(r, c). P r c) touches of None \<Rightarrow> 0 | Some k \<Rightarrow> numero k)"

section \<open>A scan of a matrix\<close>

lemma broches_digitales [simp]:
  "broche_ligne 0 = ROW1" "broche_ligne 1 = ROW2" "broche_ligne 2 = ROW3" "broche_ligne 3 = ROW4"
  "broche_colonne 0 = COL4" "broche_colonne 1 = COL3" "broche_colonne 2 = COL2" "broche_colonne 3 = COL1"
  "broche_ligne (Suc 0) = ROW2" "broche_colonne (Suc 0) = COL3"
  by (simp_all add: broche_ligne_def broche_colonne_def)

text \<open>A state in which exactly one row is driven \<open>LOW\<close>.\<close>

definition seule_ligne :: "nat \<Rightarrow> 'a processus_scheme \<Rightarrow> bool" where
  "seule_ligne r w \<longleftrightarrow>
     (\<forall>r' < 4. niveau (broches_de (journal w)) (broche_ligne r') = (if r' = r then LOW else HIGH))"

lemma clavier_lecture:
  assumes "clavier P E" and "seule_ligne r w" and "r < 4" and "c < 4"
  shows "h_digitalRead E (journal w) (broche_colonne c) = (if P r c then LOW else HIGH)"
proof -
  have "(\<exists>r' < 4. P r' c \<and> niveau (broches_de (journal w)) (broche_ligne r') = LOW) \<longleftrightarrow> P r c"
    using assms(2,3) by (auto simp: seule_ligne_def split: if_splits)
  with assms(1,4) show ?thesis by (simp add: clavier_def)
qed

lemma seule_ligne_lecture [simp]:
  "seule_ligne r (consigne [Gpio (DigitalRead p v)] w) \<longleftrightarrow> seule_ligne r w"
  by (simp add: seule_ligne_def)

lemma lire_colonnes_clavier:
  assumes "clavier P E" and "seule_ligne r w" and "r < 4"
  shows "fst (lire_colonnes E (int r) w) =
     (if P r 3 then int r * 4 + 4 else if P r 2 then int r * 4 + 3
      else if P r 1 then int r * 4 + 2 else if P r 0 then int r * 4 + 1 else 0)"
proof -
  note lu = clavier_lecture [OF assms(1) _ assms(3)]
  note lu4 = lu [of _ 3, simplified] lu [of _ 2, simplified] lu [of _ 1, simplified] lu [of _ 0, simplified]
  show ?thesis
    using assms(2)
    by (simp add: lire_colonnes_def digitalRead_def Let_def lu4 del: journal_consigne consigne_consigne)
qed

lemma lignes_inactives_eq:
  "lignes_inactives w = consigne [Gpio (DigitalWrite ROW1 HIGH), Gpio (DigitalWrite ROW2 HIGH),
     Gpio (DigitalWrite ROW3 HIGH), Gpio (DigitalWrite ROW4 HIGH)] w"
  by (simp add: lignes_inactives_def journal_simps)

lemma seule_ligne_activer:
  "r < 4 \<Longrightarrow> seule_ligne r (delay 2 (activer_ligne (int r) (lignes_inactives w)))"
proof -
  assume "r < 4"
  then consider "r = 0" | "r = 1" | "r = 2" | "r = 3" by linarith
  then show ?thesis
    by cases (simp_all add: seule_ligne_def all_less_4 lignes_inactives_eq activer_ligne_def journal_simps)
qed

lemma lire_lignes_clavier:
  assumes "clavier P E" and "\<forall>l \<in> set ls. l < 4"
  shows "fst (lire_lignes E (map int ls) w) =
     (case find (\<lambda>(r, c). P r c) [(r, c). r \<leftarrow> ls, c \<leftarrow> [3, 2, 1, 0]] of None \<Rightarrow> 0 | Some k \<Rightarrow> numero k)"
  using assms(2)
proof (induction ls arbitrary: w)
  case Nil
  then show ?case by simp
next
  case (Cons r ls)
  let ?w = "delay 2 (activer_ligne (int r) (lignes_inactives w))"
  have "fst (lire_colonnes E (int r) ?w) =
     (if P r 3 then int r * 4 + 4 else if P r 2 then int r * 4 + 3
      else if P r 1 then int r * 4 + 2 else if P r 0 then int r * 4 + 1 else 0)"
    using Cons.prems by (intro lire_colonnes_clavier [OF assms(1)] seule_ligne_activer) simp_all
  then show ?case using Cons
    by (cases "lire_colonnes E (int r) ?w") (auto simp: Let_def numero_def)
qed

lemma lire_clavier:
  assumes "clavier P E"
  shows "fst (matrice_btn_lire E w) = balayage P"
proof -
  have "fst (lire_lignes E [0, 1, 2, 3] w) = balayage P"
    using lire_lignes_clavier [OF assms, of "[0, 1, 2, 3]" w]
    unfolding balayage_def touches_def upt_4 by simp
  then show ?thesis
    by (cases "lire_lignes E [0, 1, 2, 3] w") (simp add: matrice_btn_lire_def)
qed

section \<open>Facts on every scan\<close>

text \<open>
  The scanning discipline: whenever a pin is read, exactly one row is driven \<open>LOW\<close>, so two
  rows never fight over a column.
\<close>

definition lignes_basses :: "broches \<Rightarrow> nat list" where
  "lignes_basses b = filter (\<lambda>r. niveau b (broche_ligne r) = LOW) [0..<4]"

fun lectures_ok :: "broches \<Rightarrow> event list \<Rightarrow> bool" where
  "lectures_ok b [] \<longleftrightarrow> True"
| "lectures_ok b (Gpio (DigitalRead p v) # es) \<longleftrightarrow> length (lignes_basses b) = 1 \<and> lectures_ok b es"
| "lectures_ok b (e # es) \<longleftrightarrow> lectures_ok (broches_pas e b) es"

lemma lectures_ok_append:
  "lectures_ok b (es @ es') \<longleftrightarrow> lectures_ok b es \<and> lectures_ok (fold broches_pas es b) es'"
  by (induction b es rule: lectures_ok.induct) auto

definition est_lecture :: "event \<Rightarrow> bool" where
  "est_lecture e \<longleftrightarrow> (\<exists>p v. e = Gpio (DigitalRead p v))"

lemma lectures_seules:
  "list_all est_lecture es \<Longrightarrow> fold broches_pas es b = b \<and> (length (lignes_basses b) = 1 \<longrightarrow> lectures_ok b es)"
  by (induction es) (auto simp: est_lecture_def)

lemma lire_colonnes_forme:
  "\<exists>b es. lire_colonnes E l w = (b, consigne es w) \<and> list_all est_lecture es \<and> (b = 0 \<or> l * 4 + 1 \<le> b \<and> b \<le> l * 4 + 4)"
  by (auto simp: lire_colonnes_def digitalRead_def Let_def est_lecture_def)

definition evts_ligne :: "int \<Rightarrow> event list" where
  "evts_ligne l = [Gpio (DigitalWrite ROW1 HIGH), Gpio (DigitalWrite ROW2 HIGH),
     Gpio (DigitalWrite ROW3 HIGH), Gpio (DigitalWrite ROW4 HIGH),
     Gpio (DigitalWrite (if l = 0 then ROW1 else if l = 1 then ROW2 else if l = 2 then ROW3 else ROW4) LOW),
     Sys (Delay 2)]"

lemma activer_ligne_eq:
  "l \<in> {0, 1, 2, 3} \<Longrightarrow> delay 2 (activer_ligne l (lignes_inactives w)) = consigne (evts_ligne l) w"
  by (auto simp: lignes_inactives_eq activer_ligne_def journal_simps evts_ligne_def)

lemma evts_ligne_ok:
  "l \<in> {0, 1, 2, 3} \<Longrightarrow> lectures_ok b (evts_ligne l) \<and> length (lignes_basses (fold broches_pas (evts_ligne l) b)) = 1"
  by (auto simp: evts_ligne_def lignes_basses_def upt_4)

lemma lire_lignes_forme:
  assumes "set ls \<subseteq> {0, 1, 2, 3}"
  shows "\<exists>b es. lire_lignes E ls w = (b, consigne es w) \<and> 0 \<le> b \<and> b \<le> 16 \<and>
     (\<forall>br. lectures_ok br es)"
  using assms
proof (induction ls arbitrary: w)
  case Nil
  show ?case by (auto intro: exI [of _ "[]"])
next
  case (Cons l ls)
  then have l: "l \<in> {0, 1, 2, 3}" by simp
  obtain b es where c: "lire_colonnes E l (consigne (evts_ligne l) w) = (b, consigne es (consigne (evts_ligne l) w))"
    and es: "list_all est_lecture es" and b: "b = 0 \<or> l * 4 + 1 \<le> b \<and> b \<le> l * 4 + 4"
    using lire_colonnes_forme by blast
  have ok: "lectures_ok br (evts_ligne l @ es)" for br
    using evts_ligne_ok [OF l] lectures_seules [OF es] by (simp add: lectures_ok_append)
  show ?case
  proof (cases "b = 0")
    case True
    from Cons.prems have "set ls \<subseteq> {0, 1, 2, 3}" by simp
    from Cons.IH [OF this, of "consigne (evts_ligne l @ es) w"] obtain b' es'
      where r: "lire_lignes E ls (consigne (evts_ligne l @ es) w) = (b', consigne (evts_ligne l @ es @ es') w)"
      and b': "0 \<le> b'" "b' \<le> 16" and ok': "\<forall>br. lectures_ok br es'"
      by auto
    have "lire_lignes E (l # ls) w = (b', consigne (evts_ligne l @ es @ es') w)"
      using True c r by (simp add: Let_def activer_ligne_eq [OF l])
    moreover have "lectures_ok br (evts_ligne l @ es @ es')" for br
      using ok [of br] ok' by (simp add: lectures_ok_append)
    ultimately show ?thesis using b' by blast
  next
    case False
    with b l have "0 \<le> b" "b \<le> 16" by auto
    moreover have "lire_lignes E (l # ls) w = (b, consigne (evts_ligne l @ es) w)"
      using False c by (simp add: Let_def activer_ligne_eq [OF l])
    ultimately show ?thesis using ok by blast
  qed
qed

lemma lire_forme:
  "\<exists>b es. matrice_btn_lire E w = (b, consigne es w) \<and> 0 \<le> b \<and> b \<le> 16 \<and>
     lectures_ok (broches_de (journal w)) es \<and> lignes_basses (broches_de (journal w @ es)) = []"
proof -
  obtain b es where "lire_lignes E [0, 1, 2, 3] w = (b, consigne es w)" "0 \<le> b" "b \<le> 16"
    and ok: "\<forall>br. lectures_ok br es"
    using lire_lignes_forme [of "[0, 1, 2, 3]" E w] by auto
  then show ?thesis
    by (auto simp: matrice_btn_lire_def lignes_inactives_eq lectures_ok_append lignes_basses_def upt_4
        intro!: exI [of _ "es @ _"])
qed

lemma obtenir_position_numero:
  assumes "r < 4" "c < 4"
  shows "matrice_btn_obtenir_position (numero (r, c)) = (int r, int c)"
proof -
  have "(int r * 4 + int c) div 4 = int r" "(int r * 4 + int c) mod 4 = int c"
    using assms by simp_all
  with assms show ?thesis
    by (simp add: matrice_btn_obtenir_position_def numero_def Let_def sdiv_nonneg smod_nonneg)
qed

lemma touches_set: "k \<in> set touches \<longleftrightarrow> fst k < 4 \<and> snd k < 4"
  unfolding touches_def upt_4 by (cases k) (auto simp: less_Suc_eq eval_nat_numeral)

lemma distinct_touches: "distinct touches"
  unfolding touches_def upt_4 by simp

lemma balayage_seule:
  assumes "\<forall>r' < 4. \<forall>c' < 4. P r' c' \<longleftrightarrow> r' = r \<and> c' = c" "r < 4" "c < 4"
  shows "balayage P = numero (r, c)"
proof -
  have "find (\<lambda>(r, c). P r c) touches = find (\<lambda>k. k = (r, c)) touches"
    using assms(1) by (intro find_cong) (auto simp: touches_set)
  also have "\<dots> = Some (r, c)"
    using assms(2,3) by (intro find_unique) (simp add: touches_set)
  finally show ?thesis by (simp add: balayage_def)
qed

definition avant :: "nat \<times> nat \<Rightarrow> nat \<times> nat \<Rightarrow> bool" where
  "avant k k' \<longleftrightarrow> fst k < fst k' \<or> fst k = fst k' \<and> snd k' < snd k"

lemma touches_triees: "sorted_wrt avant touches"
  unfolding touches_def upt_4 by (simp add: avant_def)

lemma balayage_premiere:
  "(balayage P = 0 \<longleftrightarrow> (\<forall>r < 4. \<forall>c < 4. \<not> P r c)) \<and>
   (balayage P \<noteq> 0 \<longrightarrow> (\<exists>r c. r < 4 \<and> c < 4 \<and> P r c \<and> balayage P = numero (r, c) \<and>
      (\<forall>r' < 4. \<forall>c' < 4. P r' c' \<longrightarrow> (r', c') = (r, c) \<or> avant (r, c) (r', c'))))"
proof (cases "find (\<lambda>(r, c). P r c) touches")
  case None
  then have "\<forall>k \<in> set touches. \<not> P (fst k) (snd k)"
    by (auto simp: find_None_iff)
  then have "\<forall>r < 4. \<forall>c < 4. \<not> P r c"
    using touches_set by fastforce
  moreover have "balayage P = 0" using None by (simp add: balayage_def)
  ultimately show ?thesis by blast
next
  case (Some k)
  obtain r c where k: "k = (r, c)" by fastforce
  from find_SomeD' [OF Some] have rc: "r < 4" "c < 4" "P r c" by (auto simp: k touches_set)
  have n: "balayage P = numero (r, c)" "balayage P \<noteq> 0"
    using Some by (simp_all add: balayage_def k numero_def)
  have ordre: "(r', c') = (r, c) \<or> avant (r, c) (r', c')" if "r' < 4" "c' < 4" "P r' c'" for r' c'
  proof (rule find_sorted_wrt [OF touches_triees Some [unfolded k]])
    show "(r', c') \<in> set touches" using that(1,2) by (simp only: touches_set fst_conv snd_conv)
    show "case (r', c') of (r, c) \<Rightarrow> P r c" using that(3) by (simp only: prod.case)
  qed
  have "\<exists>r c. r < 4 \<and> c < 4 \<and> P r c \<and> balayage P = numero (r, c) \<and>
      (\<forall>r' < 4. \<forall>c' < 4. P r' c' \<longrightarrow> (r', c') = (r, c) \<or> avant (r, c) (r', c'))"
    by (rule exI [of _ r], rule exI [of _ c]) (intro conjI allI impI rc n ordre)
  moreover have "\<not> (\<forall>r < 4. \<forall>c < 4. \<not> P r c)" using rc by blast
  ultimately show ?thesis using n(2) by (simp only: simp_thms)
qed

section \<open>Waiting\<close>

lemma lire_cases:
  obtains b es where "matrice_btn_lire E w = (b, consigne es w)" "0 \<le> b" "b \<le> 16"
  using lire_forme by blast

lemma attendre_appui_boucle_rend:
  assumes "t + 9 < 2 ^ 31" and "0 \<le> temps" and "0 < t"
  shows "\<exists>b es. attendre_appui_boucle E t temps w = Some (b, consigne es w) \<and> 0 \<le> b \<and> b \<le> 16"
  using assms(2)
proof (induction "nat (t - temps)" arbitrary: temps w rule: less_induct)
  case less
  show ?case
  proof (cases "temps < t")
    case False
    with assms(3) show ?thesis
      by (subst attendre_appui_boucle.simps) (auto intro: exI [of _ "[]"])
  next
    case True
    obtain b es where l: "matrice_btn_lire E w = (b, consigne es w)" "0 \<le> b" "b \<le> 16" by (rule lire_cases)
    show ?thesis
    proof (cases "b = 0")
      case False
      with True l show ?thesis by (subst attendre_appui_boucle.simps) auto
    next
      case b: True
      let ?w = "consigne (es @ [Sys (Delay 10)]) w"
      have ok: "c_int_ok (temps + 10)"
        using True less.prems assms(1) by (simp add: c_int_ok_def)
      have "\<exists>b es'. attendre_appui_boucle E t (temps + 10) ?w = Some (b, consigne es' ?w) \<and> 0 \<le> b \<and> b \<le> 16"
        using True less.prems by (intro less.hyps) auto
      then obtain b' es' where "attendre_appui_boucle E t (temps + 10) ?w = Some (b', consigne es' ?w)" "0 \<le> b'" "b' \<le> 16"
        by blast
      then show ?thesis using True l b ok
        by (subst attendre_appui_boucle.simps) (auto simp: journal_simps c_int_def)
    qed
  qed
qed

lemma attendre_appui_boucle_muette:
  assumes "clavier P E" and "balayage P = 0" and "attendre_appui_boucle E t temps w = Some r"
  shows "fst r = 0 \<and> 0 < t"
proof -
  have "clavier P E \<longrightarrow> fst r = 0 \<and> 0 < t"
  proof (rule attendre_appui_boucle.raw_induct
      [where P = "\<lambda>E t temps w r. clavier P E \<longrightarrow> fst r = 0 \<and> 0 < t", OF _ assms(3)], rule impI)
    fix f :: "hote \<Rightarrow> int \<Rightarrow> int \<Rightarrow> 'a processus_scheme \<Rightarrow> (int \<times> 'a processus_scheme) option"
    fix E t temps w r
    assume IH: "\<And>E t temps w r. f E t temps w = Some r \<Longrightarrow> clavier P E \<longrightarrow> fst r = 0 \<and> 0 < t"
      and eq: "(if temps < t \<or> t \<le> 0
         then let (bouton, w) = matrice_btn_lire E w in
           if bouton \<noteq> 0 then Some (bouton, w)
           else let w = delay 10 w in c_int (temps + 10) \<bind> (\<lambda>temps. f E t temps w)
         else Some (0, w)) = Some r"
      and E: "clavier P E"
    obtain b es where l: "matrice_btn_lire E w = (b, consigne es w)" by (rule lire_cases)
    with lire_clavier [OF E, of w] assms(2) have "b = 0" by simp
    with eq l have "(\<exists>temps' w'. f E t temps' w' = Some r) \<or> (\<not> t \<le> 0 \<and> fst r = 0)"
      by (auto simp: Let_def bind_Some_iff split: if_splits)
    with IH E show "fst r = 0 \<and> 0 < t" by fastforce
  qed
  with assms(1) show ?thesis by simp
qed

lemma attendre_appui_boucle_pressee:
  assumes "clavier P E" and "balayage P \<noteq> 0" and "temps < t \<or> t \<le> 0"
  shows "map_option fst (attendre_appui_boucle E t temps w) = Some (balayage P)"
  using assms(2,3) lire_clavier [OF assms(1), of w]
  by (subst attendre_appui_boucle.simps) (auto split: prod.splits)

lemma attendre_relache_boucle_rend:
  assumes "t + 9 < 2 ^ 31" and "0 \<le> temps" and "0 < t"
  shows "\<exists>b es. attendre_relache_boucle E t temps w = Some (b, consigne es w) \<and> (b = 0 \<or> b = 1)"
  using assms(2)
proof (induction "nat (t - temps)" arbitrary: temps w rule: less_induct)
  case less
  obtain b es where l: "matrice_btn_lire E w = (b, consigne es w)" by (rule lire_cases)
  show ?case
  proof (cases "temps < t \<and> b \<noteq> 0")
    case False
    with l assms(3) show ?thesis
      by (subst attendre_relache_boucle.simps) (auto intro: exI [of _ "[]"])
  next
    case True
    let ?w = "consigne (es @ [Sys (Delay 10)]) w"
    have ok: "c_int_ok (temps + 10)"
      using True less.prems assms(1) by (simp add: c_int_ok_def)
    have "\<exists>b es'. attendre_relache_boucle E t (temps + 10) ?w = Some (b, consigne es' ?w) \<and> (b = 0 \<or> b = 1)"
      using True less.prems by (intro less.hyps) auto
    then obtain b' es' where "attendre_relache_boucle E t (temps + 10) ?w = Some (b', consigne es' ?w)" "b' = 0 \<or> b' = 1"
      by blast
    then show ?thesis using True l ok
      by (subst attendre_relache_boucle.simps) (auto simp: journal_simps c_int_def)
  qed
qed

lemma attendre_appui_muette:
  assumes "matrice_btn_attendre_appui E w = Some r"
  shows "\<not> (clavier P E \<and> balayage P = 0)"
proof (rule matrice_btn_attendre_appui.raw_induct
    [where P = "\<lambda>E w r. \<not> (clavier P E \<and> balayage P = 0)", OF _ assms], rule notI)
  fix f :: "hote \<Rightarrow> 'a processus_scheme \<Rightarrow> (int \<times> 'a processus_scheme) option" and E w r
  assume IH: "\<And>E w r. f E w = Some r \<Longrightarrow> \<not> (clavier P E \<and> balayage P = 0)"
    and eq: "(let (bouton, w) = matrice_btn_lire E w in
        if bouton \<noteq> 0 then Some (bouton, w) else f E (delay 10 w)) = Some r"
    and E: "clavier P E \<and> balayage P = 0"
  then have "f E (delay 10 (snd (matrice_btn_lire E w))) = Some r"
    using lire_clavier [of P E w] by (cases "matrice_btn_lire E w") auto
  with IH E show False by blast
qed

lemma attendre_relache_muette:
  assumes "matrice_btn_attendre_relache E w = Some r"
  shows "\<not> (clavier P E \<and> balayage P \<noteq> 0)"
proof (rule matrice_btn_attendre_relache.raw_induct
    [where P = "\<lambda>E w r. \<not> (clavier P E \<and> balayage P \<noteq> 0)", OF _ assms], rule notI)
  fix f :: "hote \<Rightarrow> 'a processus_scheme \<Rightarrow> (int \<times> 'a processus_scheme) option" and E w r
  assume IH: "\<And>E w r. f E w = Some r \<Longrightarrow> \<not> (clavier P E \<and> balayage P \<noteq> 0)"
    and eq: "(let (bouton, w) = matrice_btn_lire E w in
        if bouton = 0 then Some (1, w) else f E (delay 10 w)) = Some r"
    and E: "clavier P E \<and> balayage P \<noteq> 0"
  then have "f E (delay 10 (snd (matrice_btn_lire E w))) = Some r"
    using lire_clavier [of P E w] by (cases "matrice_btn_lire E w") auto
  with IH E show False by blast
qed

text \<open>A host whose matrix has one key held down, the one of row 1 and column 2.\<close>

definition hote_touche :: "nat \<Rightarrow> nat \<Rightarrow> hote" where
  "hote_touche r c = hote_calme\<lparr>h_digitalRead := \<lambda>h p.
     if p = broche_colonne c \<and> niveau (broches_de h) (broche_ligne r) = LOW then LOW else HIGH\<rparr>"

lemma clavier_touche: "r < 4 \<Longrightarrow> c < 4 \<Longrightarrow> clavier (\<lambda>r' c'. r' = r \<and> c' = c) (hote_touche r c)"
proof -
  assume "r < 4" "c < 4"
  moreover have "broche_colonne c' = broche_colonne c \<longleftrightarrow> c' = c" if "c' < 4" "c < 4" for c' c
    using that by (auto simp: broche_colonne_def less_Suc_eq eval_nat_numeral)
  ultimately show ?thesis by (auto simp: clavier_def hote_touche_def)
qed

lemma clavier_calme: "clavier (\<lambda>_ _. False) hote_calme"
  by (simp add: clavier_def hote_calme_def)

section \<open>Properties\<close>

text \<open> C29: on a matrix of held keys a scan returns 0 exactly when none is pressed, and otherwise the
  number of a pressed key that comes first: the topmost row, and in it the rightmost key. \<close>

theorem matrice_btn_lire_premiere:
  assumes "clavier P E"
  shows "let b = fst (matrice_btn_lire E w) in (b = 0 \<longleftrightarrow> (\<forall>r < 4. \<forall>c < 4. \<not> P r c)) \<and>
    (b \<noteq> 0 \<longrightarrow> (\<exists>r c. r < 4 \<and> c < 4 \<and> P r c \<and> b = numero (r, c) \<and>
      (\<forall>r' < 4. \<forall>c' < 4. P r' c' \<longrightarrow> (r', c') = (r, c) \<or> avant (r, c) (r', c'))))"
  unfolding lire_clavier [OF assms(1)] Let_def by (rule balayage_premiere)

theorem matrice_btn_lire_premiere_temoin:
  "fst (matrice_btn_lire (hote_touche 1 2) \<lparr>journal = []\<rparr>) \<noteq> 0"
  using matrice_btn_lire_premiere [OF clavier_touche [of 1 2], of "\<lparr>journal = []\<rparr>"]
  by (auto simp: Let_def)

text \<open> C30: with one key held, scanning and then converting the number gives that key's row and
  column, both from 0. \<close>

theorem touche_seule_aller_retour:
  assumes "clavier P E" and "\<forall>r' < 4. \<forall>c' < 4. P r' c' \<longleftrightarrow> r' = r \<and> c' = c" and "r < 4" "c < 4"
  shows "matrice_btn_obtenir_position (fst (matrice_btn_lire E w)) = (int r, int c)"
  unfolding lire_clavier [OF assms(1)] balayage_seule [OF assms(2-4)]
  using assms(3,4) by (rule obtenir_position_numero)

theorem touche_seule_aller_retour_temoin:
  "matrice_btn_obtenir_position (fst (matrice_btn_lire (hote_touche 3 1) \<lparr>journal = []\<rparr>)) = (3, 1)"
  using touche_seule_aller_retour [OF clavier_touche [of 3 1], of 3 1 "\<lparr>journal = []\<rparr>"] by simp

text \<open> Whatever the pins answer, a scan returns a number from 0 to 16, reads a pin only while
  exactly one row is driven, and leaves every row inactive. \<close>

theorem matrice_btn_lire_sure:
  "\<exists>b es. matrice_btn_lire E w = (b, consigne es w) \<and> 0 \<le> b \<and> b \<le> 16 \<and>
     lectures_ok (broches_de (journal w)) es \<and> lignes_basses (broches_de (journal w @ es)) = []"
  by (rule lire_forme)

text \<open> The timed waits always return for a positive delay whose last step fits an \<open>int\<close>, and
  change nothing but the journal. \<close>

theorem attentes_bornees_rendent:
  assumes "0 < t" and "t + 9 < 2 ^ 31"
  shows "(\<exists>b es. matrice_btn_attendre_appui_timeout E t w = Some (b, consigne es w) \<and> 0 \<le> b \<and> b \<le> 16) \<and>
     (\<exists>b es. matrice_btn_attendre_relache_timeout E t w = Some (b, consigne es w) \<and> (b = 0 \<or> b = 1))"
  unfolding matrice_btn_attendre_appui_timeout_def matrice_btn_attendre_relache_timeout_def
  using attendre_appui_boucle_rend [OF assms(2) order_refl assms(1)]
    attendre_relache_boucle_rend [OF assms(2) order_refl assms(1)]
  by (rule conjI)

theorem attentes_bornees_rendent_temoin:
  "\<exists>b es. matrice_btn_attendre_appui_timeout hote_calme 500 \<lparr>journal = []\<rparr> = Some (b, consigne es \<lparr>journal = []\<rparr>)"
  using attentes_bornees_rendent [of 500 hote_calme "\<lparr>journal = []\<rparr>"] by auto

text \<open> C31: on held keys, a timed wait returns the key a scan finds; with no key pressed it returns 0
  after its delay; when the delay is not positive it goes on until the count of the milliseconds waited
  overflows, and has no result. \<close>

theorem attendre_appui_timeout_clavier:
  assumes "clavier P E" and "t + 9 < 2 ^ 31"
  shows "map_option fst (matrice_btn_attendre_appui_timeout E t w) =
     (if balayage P \<noteq> 0 then Some (balayage P) else if 0 < t then Some 0 else None)"
proof (cases "balayage P = 0")
  case True
  note muette = attendre_appui_boucle_muette [OF assms(1) True]
  show ?thesis
  proof (cases "0 < t")
    case t: True
    with attendre_appui_boucle_rend [OF assms(2), of 0 E w] obtain r
      where "attendre_appui_boucle E t 0 w = Some r" by auto
    with muette [OF this] True t show ?thesis
      by (simp add: matrice_btn_attendre_appui_timeout_def)
  next
    case False
    then have "attendre_appui_boucle E t 0 w = None"
      using muette [of t 0 w] by (cases "attendre_appui_boucle E t 0 w") auto
    with True False show ?thesis by (simp add: matrice_btn_attendre_appui_timeout_def)
  qed
next
  case False
  have "0 < t \<or> t \<le> 0" by linarith
  from attendre_appui_boucle_pressee [OF assms(1) False this] False show ?thesis
    unfolding matrice_btn_attendre_appui_timeout_def by (simp only: if_True not_False_eq_True)
qed


theorem attendre_appui_timeout_clavier_temoin:
  "map_option fst (matrice_btn_attendre_appui_timeout hote_calme 30 \<lparr>journal = []\<rparr>) = Some 0 \<and>
   map_option fst (matrice_btn_attendre_appui_timeout hote_calme 0 \<lparr>journal = []\<rparr>) = None"
proof -
  have "balayage (\<lambda>_ _. False) = 0" using balayage_premiere [of "\<lambda>_ _. False"] by simp
  with attendre_appui_timeout_clavier [OF clavier_calme, of 30 "\<lparr>journal = []\<rparr>"]
    attendre_appui_timeout_clavier [OF clavier_calme, of 0 "\<lparr>journal = []\<rparr>"]
  show ?thesis by simp
qed

text \<open> The waits without a delay return exactly when the keys are already as awaited: the pressed
  key, or 1 once none is pressed. \<close>

theorem attentes_sans_delai:
  assumes "clavier P E"
  shows "map_option fst (matrice_btn_attendre_appui E w) = (if balayage P \<noteq> 0 then Some (balayage P) else None) \<and>
     map_option fst (matrice_btn_attendre_relache E w) = (if balayage P = 0 then Some 1 else None)"
proof -
  have l: "fst (matrice_btn_lire E w) = balayage P" by (rule lire_clavier [OF assms])
  have "matrice_btn_attendre_appui E w = None" if "balayage P = 0"
    using attendre_appui_muette [of E w _ P] assms that
    by (cases "matrice_btn_attendre_appui E w") auto
  moreover have "map_option fst (matrice_btn_attendre_appui E w) = Some (balayage P)" if "balayage P \<noteq> 0"
    using l that by (subst matrice_btn_attendre_appui.simps) (auto split: prod.splits)
  moreover have "matrice_btn_attendre_relache E w = None" if "balayage P \<noteq> 0"
    using attendre_relache_muette [of E w _ P] assms that
    by (cases "matrice_btn_attendre_relache E w") auto
  moreover have "map_option fst (matrice_btn_attendre_relache E w) = Some 1" if "balayage P = 0"
    using l that by (subst matrice_btn_attendre_relache.simps) (auto split: prod.splits)
  ultimately show ?thesis by (cases "balayage P = 0") simp_all
qed

theorem attentes_sans_delai_temoin:
  "map_option fst (matrice_btn_attendre_relache hote_calme \<lparr>journal = []\<rparr>) = Some 1"
proof -
  have "balayage (\<lambda>_ _. False) = 0" using balayage_premiere [of "\<lambda>_ _. False"] by simp
  with attentes_sans_delai [OF clavier_calme, of "\<lparr>journal = []\<rparr>"] show ?thesis by simp
qed

text \<open> Initialisation leaves rows as outputs at \<open>LOW\<close> and columns as pulled-up inputs, and
  cleaning up leaves all eight pins as inputs without pull. \<close>

theorem matrice_btn_cycle_broches:
  "(let b = broches_de (journal (matrice_btn_init w)) in
      (\<forall>r < 4. mode b (broche_ligne r) = OUTPUT \<and> niveau b (broche_ligne r) = LOW) \<and>
      (\<forall>c < 4. mode b (broche_colonne c) = INPUT \<and> tirage b (broche_colonne c) = PUD_UP)) \<and>
   (let b = broches_de (journal (matrice_btn_cleanup w)) in
      (\<forall>k < 4. mode b (broche_ligne k) = INPUT \<and> tirage b (broche_ligne k) = PUD_OFF \<and>
               mode b (broche_colonne k) = INPUT \<and> tirage b (broche_colonne k) = PUD_OFF))"
  unfolding Let_def all_less_4 by (simp add: matrice_btn_init_def matrice_btn_cleanup_def
      lignes_inactives_eq journal_simps Let_def)

theorem matrice_btn_cycle_broches_temoin:
  "mode (broches_de (journal (matrice_btn_cleanup \<lparr>journal = []\<rparr>))) ROW3 = INPUT"
  using matrice_btn_cycle_broches [of "\<lparr>journal = []\<rparr>"] unfolding Let_def all_less_4 by simp

end
