(* ===== verification/Leds.thy ===== *)
theory Leds
  imports Hote
begin

text \<open>
  \<open>lib/my_matrice_led.c\<close>: the eight by eight LED matrix behind a MAX7219, driven by writing
  bits on three pins.

  The theory models every function of the file and the MAX7219's serial interface as a reader
  of the journal, and proves that the bits sent are the register writes meant.
\<close>

section \<open>Registers and pins\<close>

abbreviation (input) REG_NOOP :: int where "REG_NOOP \<equiv> 0x00"
abbreviation (input) REG_DIGIT0 :: int where "REG_DIGIT0 \<equiv> 0x01"
abbreviation (input) REG_DECODE_MODE :: int where "REG_DECODE_MODE \<equiv> 0x09"
abbreviation (input) REG_INTENSITY :: int where "REG_INTENSITY \<equiv> 0x0A"
abbreviation (input) REG_SCAN_LIMIT :: int where "REG_SCAN_LIMIT \<equiv> 0x0B"
abbreviation (input) REG_SHUTDOWN :: int where "REG_SHUTDOWN \<equiv> 0x0C"
abbreviation (input) REG_DISPLAY_TEST :: int where "REG_DISPLAY_TEST \<equiv> 0x0F"
abbreviation (input) MOSI :: int where "MOSI \<equiv> 12"
abbreviation (input) SCLK :: int where "SCLK \<equiv> 14"
abbreviation (input) GPIO7 :: int where "GPIO7 \<equiv> 11"

section \<open>The driver\<close>

text \<open>The loop of \<open>bit_write\<close>, with the number of bits left.\<close>

primrec bit_write_boucle :: "nat \<Rightarrow> int \<Rightarrow> 'a processus_scheme \<Rightarrow> 'a processus_scheme" where
  "bit_write_boucle 0 donnee w = w"
| "bit_write_boucle (Suc n) donnee w =
     (let w = digitalWrite SCLK LOW w;
          w = digitalWrite MOSI (if donnee AND 0x80 \<noteq> 0 then HIGH else LOW) w;
          donnee = push_bit 1 donnee;
          w = digitalWrite SCLK HIGH w
      in bit_write_boucle n donnee w)"

definition bit_write :: "int \<Rightarrow> 'a processus_scheme \<Rightarrow> 'a processus_scheme" where
  "bit_write donnee = bit_write_boucle 8 donnee"

definition matrice_led_envoyer_cmd :: "int \<Rightarrow> int \<Rightarrow> 'a processus_scheme \<Rightarrow> 'a processus_scheme" where
  "matrice_led_envoyer_cmd adresse donnee w =
     (let w = delay 25 w;
          w = digitalWrite GPIO7 LOW w;
          w = bit_write adresse w;
          w = bit_write donnee w
      in digitalWrite GPIO7 HIGH w)"

definition matrice_led_ecrire_ligne :: "int \<Rightarrow> int \<Rightarrow> 'a processus_scheme \<Rightarrow> 'a processus_scheme" where
  "matrice_led_ecrire_ligne index_ligne motif w =
     (if index_ligne < 8 then matrice_led_envoyer_cmd (REG_DIGIT0 + index_ligne) motif w else w)"

definition matrice_led_afficher_motif :: "int list \<Rightarrow> 'a processus_scheme \<Rightarrow> 'a processus_scheme" where
  "matrice_led_afficher_motif motif =
     fold (\<lambda>i. matrice_led_ecrire_ligne (int i) (motif ! i)) [0..<8]"

definition matrice_led_effacer :: "'a processus_scheme \<Rightarrow> 'a processus_scheme" where
  "matrice_led_effacer = matrice_led_afficher_motif [0, 0, 0, 0, 0, 0, 0, 0]"

definition matrice_led_luminosite :: "int \<Rightarrow> 'a processus_scheme \<Rightarrow> 'a processus_scheme" where
  "matrice_led_luminosite intensite w =
     (let intensite = if intensite > 15 then 15 else intensite
      in matrice_led_envoyer_cmd REG_INTENSITY intensite w)"

definition matrice_led_init :: "'a processus_scheme \<Rightarrow> 'a processus_scheme" where
  "matrice_led_init w =
     (let w = pinMode MOSI OUTPUT w;
          w = pinMode SCLK OUTPUT w;
          w = pinMode GPIO7 OUTPUT w;
          w = matrice_led_envoyer_cmd REG_SHUTDOWN 0x01 w;
          w = matrice_led_envoyer_cmd REG_DECODE_MODE 0x00 w;
          w = matrice_led_envoyer_cmd REG_SCAN_LIMIT 0x07 w;
          w = matrice_led_envoyer_cmd REG_INTENSITY 15 w;
          w = matrice_led_envoyer_cmd REG_DISPLAY_TEST 0x00 w
      in matrice_led_effacer w)"

definition matrice_led_cleanup :: "'a processus_scheme \<Rightarrow> 'a processus_scheme" where
  "matrice_led_cleanup w =
     (let w = matrice_led_effacer w;
          w = matrice_led_envoyer_cmd REG_SHUTDOWN 0x00 w;
          w = pinMode MOSI INPUT w;
          w = pinMode SCLK INPUT w
      in pinMode GPIO7 INPUT w)"

section \<open>The MAX7219\<close>

text \<open>
  The serial interface of the data sheet: a sixteen-bit shift register takes the data line on
  each rising clock edge; a rising edge of the load line copies the low byte into the register
  that bits 8 to 11 name.
\<close>

record max7219 =
  decalage :: int
  horloge :: int
  donnee_in :: int
  chargement :: int
  registres :: "int \<Rightarrow> int"

fun max7219_pas :: "event \<Rightarrow> max7219 \<Rightarrow> max7219" where
  "max7219_pas (Gpio (DigitalWrite p v)) d =
     (if p = SCLK then
        (if horloge d = LOW \<and> v = HIGH
         then d\<lparr>horloge := v, decalage := (decalage d * 2 + donnee_in d) mod 65536\<rparr>
         else d\<lparr>horloge := v\<rparr>)
      else if p = MOSI then d\<lparr>donnee_in := v\<rparr>
      else if p = GPIO7 then
        (if chargement d = LOW \<and> v = HIGH
         then d\<lparr>chargement := v, registres := (registres d)
                (decalage d div 256 mod 16 := decalage d mod 256)\<rparr>
         else d\<lparr>chargement := v\<rparr>)
      else d)"
| "max7219_pas e d = d"

fun max7219_concerne :: "event \<Rightarrow> bool" where
  "max7219_concerne (Gpio (DigitalWrite p v)) \<longleftrightarrow> p = SCLK \<or> p = MOSI \<or> p = GPIO7"
| "max7219_concerne e \<longleftrightarrow> False"

interpretation max7219: appareil max7219_pas max7219_concerne
proof
  show "max7219_pas e d = d" if "\<not> max7219_concerne e" for e d
    using that by (induction e d rule: max7219_pas.induct) auto
qed

definition max7219_de :: "max7219 \<Rightarrow> journal_t \<Rightarrow> max7219" where
  "max7219_de d h = fold max7219_pas h d"

lemma max7219_de_append [simp]: "max7219_de d (h @ es) = fold max7219_pas es (max7219_de d h)"
  by (simp add: max7219_de_def)

section \<open>The bits of a command\<close>

text \<open>What the bits of a byte do to the shift register.\<close>

primrec pousse :: "nat \<Rightarrow> int \<Rightarrow> int \<Rightarrow> int" where
  "pousse 0 donnee s = s"
| "pousse (Suc n) donnee s =
     pousse n (2 * donnee) ((s * 2 + (if 128 \<le> donnee mod 256 then 1 else 0)) mod 65536)"

lemma pousse_mod:
  "k \<le> 8 \<Longrightarrow> pousse k donnee s mod 65536 = (s * 2 ^ k + (donnee mod 256) div 2 ^ (8 - k)) mod 65536"
proof (induction k arbitrary: donnee s)
  case 0
  then show ?case by simp
next
  case (Suc k)
  define b where "b = (if 128 \<le> donnee mod 256 then 1 else 0 :: int)"
  have "pousse (Suc k) donnee s mod 65536 =
      (((s * 2 + b) mod 65536) * 2 ^ k + (2 * donnee mod 256) div 2 ^ (8 - k)) mod 65536"
    using Suc by (simp add: b_def)
  also have "\<dots> = ((s * 2 + b) * 2 ^ k + (2 * donnee mod 256) div 2 ^ (8 - k)) mod 65536"
    by (metis mod_add_left_eq mod_mult_left_eq)
  also have "(s * 2 + b) * 2 ^ k + (2 * donnee mod 256) div 2 ^ (8 - k) =
      s * 2 ^ Suc k + (donnee mod 256) div 2 ^ (8 - Suc k)"
    using octet_haut [of k donnee] Suc.prems by (simp add: b_def algebra_simps)
  finally show ?case .
qed

lemma pousse_borne: "0 < k \<Longrightarrow> 0 \<le> pousse k donnee s \<and> pousse k donnee s < 65536"
proof (induction k arbitrary: donnee s)
  case (Suc k)
  then show ?case
    by (cases "k = 0") (simp, simp only: pousse.simps(2) neq0_conv)
qed simp

lemma pousse_8: "pousse 8 donnee s = (s * 256 + donnee mod 256) mod 65536"
  using pousse_mod [of 8 donnee s] pousse_borne [of 8 donnee s] by simp

primrec evts_bits :: "nat \<Rightarrow> int \<Rightarrow> event list" where
  "evts_bits 0 donnee = []"
| "evts_bits (Suc n) donnee =
     [Gpio (DigitalWrite SCLK LOW), Gpio (DigitalWrite MOSI (if 128 \<le> donnee mod 256 then HIGH else LOW)),
      Gpio (DigitalWrite SCLK HIGH)] @ evts_bits n (2 * donnee)"

lemma bit_write_boucle_eq: "bit_write_boucle n donnee w = consigne (evts_bits n donnee) w"
  by (induction n arbitrary: donnee w) (simp_all add: Let_def journal_simps and_128 push_bit_eq_mult mult.commute)

lemma evts_bits_max7219:
  "0 < n \<Longrightarrow> \<exists>m. fold max7219_pas (evts_bits n donnee) d =
     d\<lparr>horloge := HIGH, donnee_in := m, decalage := pousse n donnee (decalage d)\<rparr>"
proof (induction n arbitrary: donnee d)
  case (Suc n)
  let ?b = "if 128 \<le> donnee mod 256 then HIGH else LOW"
  let ?d = "d\<lparr>horloge := HIGH, donnee_in := ?b, decalage := (decalage d * 2 + ?b) mod 65536\<rparr>"
  have pas: "fold max7219_pas (evts_bits (Suc n) donnee) d = fold max7219_pas (evts_bits n (2 * donnee)) ?d"
    by (cases d) simp
  show ?case
  proof (cases "n = 0")
    case True
    with pas show ?thesis by (intro exI [of _ ?b]) simp
  next
    case False
    with Suc.IH [of "2 * donnee" ?d] obtain m where "fold max7219_pas (evts_bits n (2 * donnee)) ?d =
        ?d\<lparr>horloge := HIGH, donnee_in := m, decalage := pousse n (2 * donnee) (decalage ?d)\<rparr>"
      by blast
    with pas show ?thesis by (intro exI [of _ m]) simp
  qed
qed simp

definition evts_cmd :: "int \<Rightarrow> int \<Rightarrow> event list" where
  "evts_cmd adresse donnee = Sys (Delay 25) # Gpio (DigitalWrite GPIO7 LOW) #
     evts_bits 8 adresse @ evts_bits 8 donnee @ [Gpio (DigitalWrite GPIO7 HIGH)]"

lemma matrice_led_envoyer_cmd_eq [journal_simps]:
  "matrice_led_envoyer_cmd adresse donnee w = consigne (evts_cmd adresse donnee) w"
  by (simp add: matrice_led_envoyer_cmd_def bit_write_def bit_write_boucle_eq evts_cmd_def appels_def
      del: evts_bits.simps)

lemma evts_cmd_max7219 [appareil_simps]:
  "registres (fold max7219_pas (evts_cmd adresse donnee) d) = (registres d)(adresse mod 16 := donnee mod 256)"
proof -
  let ?d0 = "d\<lparr>chargement := LOW\<rparr>"
  obtain m where d1: "fold max7219_pas (evts_bits 8 adresse) ?d0 =
      ?d0\<lparr>horloge := HIGH, donnee_in := m, decalage := pousse 8 adresse (decalage d)\<rparr>" (is "_ = ?d1")
    using evts_bits_max7219 [of 8 adresse ?d0] by auto
  obtain m' where d2: "fold max7219_pas (evts_bits 8 donnee) ?d1 =
      ?d1\<lparr>horloge := HIGH, donnee_in := m', decalage := pousse 8 donnee (decalage ?d1)\<rparr>"
    using evts_bits_max7219 [of 8 donnee ?d1] by auto
  define s where "s = pousse 8 donnee (pousse 8 adresse (decalage d))"
  have "s = ((decalage d * 256 + adresse mod 256) mod 65536 * 256 + donnee mod 256) mod 65536"
    by (simp add: s_def pousse_8)
  then have s: "s = adresse mod 256 * 256 + donnee mod 256" by (simp only: deux_octets)
  then have "s mod 256 = donnee mod 256" and "s div 256 mod 16 = adresse mod 16"
    by (simp_all add: mod_mod_cancel)
  then show ?thesis
    unfolding evts_cmd_def by (simp add: d1 d2 s_def [symmetric] del: evts_bits.simps)
qed


section \<open>Operations and registers\<close>

abbreviation (input) registres_de :: "max7219 \<Rightarrow> 'a processus_scheme \<Rightarrow> int \<Rightarrow> int" where
  "registres_de d w \<equiv> registres (max7219_de d (journal w))"

lemma registres_cmd [appareil_simps]:
  "registres_de d (matrice_led_envoyer_cmd a x w) = (registres_de d w)(a mod 16 := x mod 256)"
  by (simp add: matrice_led_envoyer_cmd_eq evts_cmd_max7219)

lemma registres_consigne_gpio [appareil_simps]:
  "\<forall>e \<in> set es. \<not> max7219_concerne e \<Longrightarrow> registres_de d (consigne es w) = registres_de d w"
  by (simp add: max7219.fold_ignore)

lemma registres_motif [appareil_simps]:
  "registres_de d (matrice_led_afficher_motif m w) = (registres_de d w)
     (1 := m ! 0 mod 256, 2 := m ! 1 mod 256, 3 := m ! 2 mod 256, 4 := m ! 3 mod 256,
      5 := m ! 4 mod 256, 6 := m ! 5 mod 256, 7 := m ! 6 mod 256, 8 := m ! 7 mod 256)"
  by (simp add: matrice_led_afficher_motif_def upt_8 matrice_led_ecrire_ligne_def registres_cmd)

text \<open>A chip at power up, used to show that hypotheses can hold.\<close>

definition d_max7219 :: max7219 where
  "d_max7219 = \<lparr>decalage = 0, horloge = LOW, donnee_in = LOW, chargement = HIGH, registres = (\<lambda>_. 0)\<rparr>"

section \<open>Properties\<close>

text \<open> C32: showing a motif loads its eight rows, in order, into the eight digit registers, and changes
  no other register. \<close>

theorem matrice_led_afficher_motif_registres:
  assumes "length m = 8"
  shows "(\<forall>i < 8. registres_de d (matrice_led_afficher_motif m w) (1 + int i) = m ! i mod 256) \<and>
     (\<forall>r. r < 1 \<or> 8 < r \<longrightarrow> registres_de d (matrice_led_afficher_motif m w) r = registres_de d w r)"
  unfolding all_less_8 registres_motif by simp

theorem matrice_led_afficher_motif_registres_temoin:
  "registres_de d_max7219 (matrice_led_afficher_motif [1, 2, 3, 4, 5, 6, 7, 8] \<lparr>journal = []\<rparr>) 3 = 3"
  using matrice_led_afficher_motif_registres [of "[1, 2, 3, 4, 5, 6, 7, 8]" d_max7219 "\<lparr>journal = []\<rparr>"]
  unfolding all_less_8 by simp

text \<open> A line of index 8 or more sends nothing; below 8, and below 0 too, one register is written:
  the one whose number is the index plus 1 modulo 16. \<close>

theorem matrice_led_ecrire_ligne_cas:
  "journal (matrice_led_ecrire_ligne i m w) = journal w @ (if 8 \<le> i then [] else evts_cmd (1 + i) m) \<and>
   registres_de d (matrice_led_ecrire_ligne i m w) =
     (if 8 \<le> i then registres_de d w else (registres_de d w)((1 + i) mod 16 := m mod 256))"
  by (simp add: matrice_led_ecrire_ligne_def matrice_led_envoyer_cmd_eq evts_cmd_max7219)

text \<open> The intensity is cut to 15 from above only; a negative one reaches the register as its low
  byte. \<close>

theorem matrice_led_luminosite_registre:
  "registres_de d (matrice_led_luminosite i w) = (registres_de d w)(REG_INTENSITY := min 15 i mod 256)"
  by (simp add: matrice_led_luminosite_def registres_cmd min_def Let_def)

text \<open> Initialisation ends with the chip running, undecoded, scanning all rows at full intensity,
  not in test mode and dark; cleaning up ends dark, shut down, with the three pins as inputs. \<close>

theorem matrice_led_cycle:
  "(let r = registres_de d (matrice_led_init w) in
      (\<forall>i < 8. r (1 + int i) = 0) \<and> r REG_SHUTDOWN = 1 \<and> r REG_DECODE_MODE = 0 \<and>
      r REG_SCAN_LIMIT = 7 \<and> r REG_INTENSITY = 15 \<and> r REG_DISPLAY_TEST = 0) \<and>
   (let r = registres_de d (matrice_led_cleanup w); b = broches_de (journal (matrice_led_cleanup w)) in
      (\<forall>i < 8. r (1 + int i) = 0) \<and> r REG_SHUTDOWN = 0 \<and>
      mode b MOSI = INPUT \<and> mode b SCLK = INPUT \<and> mode b GPIO7 = INPUT)"
proof -
  have "registres_de d (matrice_led_cleanup w) =
      registres_de d (matrice_led_envoyer_cmd REG_SHUTDOWN 0 (matrice_led_effacer w))"
    by (simp add: matrice_led_cleanup_def appels_def Let_def)
  then show ?thesis
    unfolding all_less_8
    by (simp add: Let_def matrice_led_init_def matrice_led_effacer_def registres_motif registres_cmd)
      (simp add: matrice_led_cleanup_def appels_def Let_def)
qed

theorem matrice_led_cycle_temoin:
  "registres_de d_max7219 (matrice_led_cleanup \<lparr>journal = []\<rparr>) REG_SHUTDOWN = 0"
  using matrice_led_cycle [of d_max7219 "\<lparr>journal = []\<rparr>"] by (simp only: Let_def)

end
