(* ===== verification/Tactile.thy ===== *)
theory Tactile
  imports Hote
begin

text \<open>
  \<open>lib/my_touch.c\<close>: the touch sensor on one pulled-up input pin.
\<close>

abbreviation (input) TOUCH_PIN :: int where "TOUCH_PIN \<equiv> 0"

definition touch_init :: "'a processus_scheme \<Rightarrow> 'a processus_scheme" where
  "touch_init w =
     (let w = pinMode TOUCH_PIN INPUT w;
          w = pullUpDnControl TOUCH_PIN PUD_UP w
      in delay 100 w)"

definition touch_read :: "hote \<Rightarrow> 'a processus_scheme \<Rightarrow> int \<times> 'a processus_scheme" where
  "touch_read E w =
     (let (v, w) = digitalRead E TOUCH_PIN w in (if v = HIGH then 1 else 0, w))"

definition touch_cleanup :: "'a processus_scheme \<Rightarrow> 'a processus_scheme" where
  "touch_cleanup w =
     (let w = pinMode TOUCH_PIN INPUT w in pullUpDnControl TOUCH_PIN PUD_OFF w)"

lemma touch_init_eq [journal_simps]:
  "touch_init w = consigne [Gpio (PinMode TOUCH_PIN INPUT), Gpio (PullUpDn TOUCH_PIN PUD_UP), Sys (Delay 100)] w"
  by (simp add: touch_init_def appels_def)

lemma touch_cleanup_eq [journal_simps]:
  "touch_cleanup w = consigne [Gpio (PinMode TOUCH_PIN INPUT), Gpio (PullUpDn TOUCH_PIN PUD_OFF)] w"
  by (simp add: touch_cleanup_def appels_def)

lemma touch_read_eq:
  "touch_read E w = (if h_digitalRead E (journal w) TOUCH_PIN = HIGH then 1 else 0,
     consigne [Gpio (DigitalRead TOUCH_PIN (h_digitalRead E (journal w) TOUCH_PIN))] w)"
  by (simp add: touch_read_def digitalRead_def Let_def)

end
