(* ===== verification/Lcd.thy ===== *)
theory Lcd
  imports Etat
begin

text \<open>
  \<open>lib/my_lcd.c\<close>: the sixteen by two character display, an HD44780 behind an MCP23008 pin
  expander, driven over four data pins.

  The theory models every function of the file. An access through the current structure is
  \<^term>\<open>None\<close> when there is none (no call of \<open>lcd_init\<close> has succeeded, or the display has been
  cleaned up): the source dereferences \<open>lcds[lcdHandle]\<close> without a test.
\<close>

section \<open>Constants\<close>

abbreviation (input) ADRESSE_LCD :: int where "ADRESSE_LCD \<equiv> 0x21"
abbreviation (input) MAX_LCDS :: nat where "MAX_LCDS \<equiv> 8"
abbreviation (input) AF_BASE :: int where "AF_BASE \<equiv> 100"
abbreviation (input) AF_RS :: int where "AF_RS \<equiv> 101"
abbreviation (input) AF_STRB :: int where "AF_STRB \<equiv> 102"
abbreviation (input) AF_DB4 :: int where "AF_DB4 \<equiv> 103"
abbreviation (input) AF_DB5 :: int where "AF_DB5 \<equiv> 104"
abbreviation (input) AF_DB6 :: int where "AF_DB6 \<equiv> 105"
abbreviation (input) AF_DB7 :: int where "AF_DB7 \<equiv> 106"
abbreviation (input) AF_BLUE :: int where "AF_BLUE \<equiv> 112"

abbreviation (input) LCD_CLEAR :: octet where "LCD_CLEAR \<equiv> 0x01"
abbreviation (input) LCD_HOME :: octet where "LCD_HOME \<equiv> 0x02"
abbreviation (input) LCD_ENTRY :: octet where "LCD_ENTRY \<equiv> 0x04"
abbreviation (input) LCD_CTRL :: int where "LCD_CTRL \<equiv> 0x08"
abbreviation (input) LCD_CDSHIFT :: octet where "LCD_CDSHIFT \<equiv> 0x10"
abbreviation (input) LCD_FUNC :: octet where "LCD_FUNC \<equiv> 0x20"
abbreviation (input) LCD_CGRAM :: int where "LCD_CGRAM \<equiv> 0x40"
abbreviation (input) LCD_DGRAM :: int where "LCD_DGRAM \<equiv> 0x80"
abbreviation (input) LCD_ENTRY_ID :: octet where "LCD_ENTRY_ID \<equiv> 0x02"
abbreviation (input) LCD_BLINK_CTRL :: int where "LCD_BLINK_CTRL \<equiv> 0x01"
abbreviation (input) LCD_CURSOR_CTRL :: int where "LCD_CURSOR_CTRL \<equiv> 0x02"
abbreviation (input) LCD_DISPLAY_CTRL :: int where "LCD_DISPLAY_CTRL \<equiv> 0x04"
abbreviation (input) LCD_FUNC_N :: octet where "LCD_FUNC_N \<equiv> 0x08"
abbreviation (input) LCD_FUNC_DL :: octet where "LCD_FUNC_DL \<equiv> 0x10"
abbreviation (input) LCD_CDSHIFT_RL :: octet where "LCD_CDSHIFT_RL \<equiv> 0x04"

definition rowOff :: "int list" where
  "rowOff = [0x00, 0x40, 0x14, 0x54]"

text \<open>Reading \<open>rowOff[y]\<close>: outside the array it is undefined.\<close>

definition rowOff_lire :: "int \<Rightarrow> int option" where
  "rowOff_lire y = (if 0 \<le> y \<and> y < 4 then Some (rowOff ! nat y) else None)"

section \<open>Internal functions\<close>

definition strobe :: "lcdDataStruct \<Rightarrow> 'a processus_scheme \<Rightarrow> 'a processus_scheme" where
  "strobe lcd w =
     (let w = digitalWrite (strbPin lcd) 1 w;
          w = delayMicroseconds 50 w;
          w = digitalWrite (strbPin lcd) 0 w
      in delayMicroseconds 50 w)"

text \<open>The loops that put one bit on each pin, from the lowest bit.\<close>

fun ecrire_bits :: "int list \<Rightarrow> octet \<Rightarrow> 'a processus_scheme \<Rightarrow> 'a processus_scheme" where
  "ecrire_bits [] d w = w"
| "ecrire_bits (pin # pins) d w =
     ecrire_bits pins (drop_bit 1 d) (digitalWrite pin (uint (d AND 1)) w)"

definition sendDataCmd :: "lcdDataStruct \<Rightarrow> octet \<Rightarrow> 'a processus_scheme \<Rightarrow> 'a processus_scheme" where
  "sendDataCmd lcd data w =
     (let w = (if bits lcd = 4 then
            let w = ecrire_bits (take 4 (dataPins lcd)) (drop_bit 4 data AND 0x0F) w;
                w = strobe lcd w
            in ecrire_bits (take 4 (dataPins lcd)) (data AND 0x0F) w
          else ecrire_bits (take 8 (dataPins lcd)) data w)
      in strobe lcd w)"

definition putCommand :: "lcdDataStruct \<Rightarrow> octet \<Rightarrow> 'a processus_scheme \<Rightarrow> 'a processus_scheme" where
  "putCommand lcd command w =
     (let w = digitalWrite (rsPin lcd) 0 w;
          w = sendDataCmd lcd command w
      in delay 2 w)"

definition put4Command :: "lcdDataStruct \<Rightarrow> octet \<Rightarrow> 'a processus_scheme \<Rightarrow> 'a processus_scheme" where
  "put4Command lcd command w =
     (let w = digitalWrite (rsPin lcd) 0 w;
          w = ecrire_bits (take 4 (dataPins lcd)) command w
      in strobe lcd w)"

text \<open>The structure that \<open>lcds[lcdHandle]\<close> points to, and writing it back.\<close>

definition lcd_courant :: "peripheriques \<Rightarrow> lcdDataStruct option" where
  "lcd_courant w = (if 0 \<le> lcdHandle w \<and> lcdHandle w < int MAX_LCDS then lcds w ! nat (lcdHandle w) else None)"

definition ranger_lcd :: "lcdDataStruct \<Rightarrow> peripheriques \<Rightarrow> peripheriques" where
  "ranger_lcd lcd w = w\<lparr>lcds := (lcds w)[nat (lcdHandle w) := Some lcd]\<rparr>"

section \<open>Public functions\<close>

definition lcd_origine :: "peripheriques \<Rightarrow> peripheriques option" where
  "lcd_origine w = do {
     lcd \<leftarrow> lcd_courant w;
     let w = putCommand lcd LCD_HOME w;
     let w = ranger_lcd (lcd\<lparr>cy := 0, cx := 0\<rparr>) w;
     Some (delay 5 w)
   }"

definition lcd_effacer :: "peripheriques \<Rightarrow> peripheriques option" where
  "lcd_effacer w = do {
     lcd \<leftarrow> lcd_courant w;
     let w = putCommand lcd LCD_CLEAR w;
     let w = putCommand lcd LCD_HOME w;
     let w = ranger_lcd (lcd\<lparr>cy := 0, cx := 0\<rparr>) w;
     Some (delay 5 w)
   }"

definition lcd_affichage :: "int \<Rightarrow> peripheriques \<Rightarrow> peripheriques option" where
  "lcd_affichage etat w = do {
     lcd \<leftarrow> lcd_courant w;
     let w = w\<lparr>lcdControl := if etat \<noteq> 0 then lcdControl w OR LCD_DISPLAY_CTRL
                             else lcdControl w AND NOT LCD_DISPLAY_CTRL\<rparr>;
     Some (putCommand lcd (word_of_int (LCD_CTRL OR lcdControl w)) w)
   }"

definition lcd_curseur :: "int \<Rightarrow> peripheriques \<Rightarrow> peripheriques option" where
  "lcd_curseur etat w = do {
     lcd \<leftarrow> lcd_courant w;
     let w = w\<lparr>lcdControl := if etat \<noteq> 0 then lcdControl w OR LCD_CURSOR_CTRL
                             else lcdControl w AND NOT LCD_CURSOR_CTRL\<rparr>;
     Some (putCommand lcd (word_of_int (LCD_CTRL OR lcdControl w)) w)
   }"

definition lcd_curseur_clignote :: "int \<Rightarrow> peripheriques \<Rightarrow> peripheriques option" where
  "lcd_curseur_clignote etat w = do {
     lcd \<leftarrow> lcd_courant w;
     let w = w\<lparr>lcdControl := if etat \<noteq> 0 then lcdControl w OR LCD_BLINK_CTRL
                             else lcdControl w AND NOT LCD_BLINK_CTRL\<rparr>;
     Some (putCommand lcd (word_of_int (LCD_CTRL OR lcdControl w)) w)
   }"

definition lcd_commande :: "octet \<Rightarrow> peripheriques \<Rightarrow> peripheriques option" where
  "lcd_commande command w = do {
     lcd \<leftarrow> lcd_courant w;
     Some (putCommand lcd command w)
   }"

definition lcd_position :: "int \<Rightarrow> int \<Rightarrow> peripheriques \<Rightarrow> peripheriques option" where
  "lcd_position x y w = do {
     lcd \<leftarrow> lcd_courant w;
     if x > cols lcd \<or> x < 0 then Some w
     else if y > rows lcd \<or> y < 0 then Some w
     else do {
       off \<leftarrow> rowOff_lire y;
       let w = putCommand lcd (word_of_int (x + (LCD_DGRAM OR off))) w;
       Some (ranger_lcd (lcd\<lparr>cx := x, cy := y\<rparr>) w)
     }
   }"

definition lcd_def_caractere :: "int \<Rightarrow> octet list \<Rightarrow> peripheriques \<Rightarrow> peripheriques option" where
  "lcd_def_caractere index data w = do {
     lcd \<leftarrow> lcd_courant w;
     let w = putCommand lcd (word_of_int (LCD_CGRAM OR push_bit 3 (index AND 7))) w;
     let w = digitalWrite (rsPin lcd) 1 w;
     Some (fold (\<lambda>i. sendDataCmd lcd (data ! i)) [0..<8] w)
   }"

definition lcd_caractere :: "octet \<Rightarrow> peripheriques \<Rightarrow> peripheriques option" where
  "lcd_caractere data w = do {
     lcd \<leftarrow> lcd_courant w;
     let w = digitalWrite (rsPin lcd) 1 w;
     let w = sendDataCmd lcd data w;
     let lcd = lcd\<lparr>cx := cx lcd + 1\<rparr>;
     if cx lcd = cols lcd then do {
       let lcd = lcd\<lparr>cx := 0, cy := cy lcd + 1\<rparr>;
       let lcd = (if cy lcd = rows lcd then lcd\<lparr>cy := 0\<rparr> else lcd);
       off \<leftarrow> rowOff_lire (cy lcd);
       let w = ranger_lcd lcd w;
       Some (putCommand lcd (word_of_int (cx lcd + (LCD_DGRAM OR off))) w)
     }
     else Some (ranger_lcd lcd w)
   }"

text \<open>A C string is its characters up to the first NUL.\<close>

definition octet_de :: "char \<Rightarrow> octet" where
  "octet_de c = of_char c"

definition chaine_c :: "string \<Rightarrow> string" where
  "chaine_c s = takeWhile (\<lambda>c. c \<noteq> CHR 0x00) s"

definition lcd_chaine :: "string \<Rightarrow> peripheriques \<Rightarrow> peripheriques option" where
  "lcd_chaine chaine = foldM (\<lambda>c. lcd_caractere (octet_de c)) (chaine_c chaine)"

text \<open>
  \<open>lcd_printf\<close> after formatting: \<open>texte\<close> is what the format gives, of which \<open>vsnprintf\<close>
  keeps 1022 characters and the final NUL.
\<close>

definition lcd_printf :: "string \<Rightarrow> peripheriques \<Rightarrow> peripheriques option" where
  "lcd_printf texte = lcd_chaine (take 1022 texte)"

definition lcd_ecrire :: "int \<Rightarrow> int \<Rightarrow> string \<Rightarrow> peripheriques \<Rightarrow> peripheriques option" where
  "lcd_ecrire colonne ligne message w = do {
     w \<leftarrow> lcd_position colonne ligne w;
     lcd_chaine message w
   }"

text \<open>The search for a free entry: the handle is left as it was when there is none.\<close>

fun chercher_libre :: "int \<Rightarrow> lcdDataStruct option list \<Rightarrow> int \<Rightarrow> int" where
  "chercher_libre i [] h = h"
| "chercher_libre i (None # ls) h = i"
| "chercher_libre i (Some l # ls) h = chercher_libre (i + 1) ls h"

definition nouveau_lcd :: lcdDataStruct where
  "nouveau_lcd = \<lparr> bits = 8, rows = 2, cols = 16, rsPin = AF_RS, strbPin = AF_STRB,
     dataPins = [AF_DB4, AF_DB5, AF_DB6, AF_DB7, 0, 0, 0, 0], cx = 0, cy = 0 \<rparr>"

definition lcd_broches :: "lcdDataStruct \<Rightarrow> 'a processus_scheme \<Rightarrow> 'a processus_scheme" where
  "lcd_broches lcd w =
     (let w = digitalWrite (rsPin lcd) 0 w;
          w = pinMode (rsPin lcd) OUTPUT w;
          w = digitalWrite (strbPin lcd) 0 w;
          w = pinMode (strbPin lcd) OUTPUT w;
          w = fold (\<lambda>i w. pinMode (dataPins lcd ! i) OUTPUT (digitalWrite (dataPins lcd ! i) 0 w)) [0..<4] w
      in delay 35 w)"

text \<open>
  \<open>lcd_init\<close> in two parts: from the configuration of the pins to the end, on the structure it
  has just allocated, and before that the set-up of the expander and the choice of an entry.
\<close>

definition lcd_demarrer :: "lcdDataStruct \<Rightarrow> peripheriques \<Rightarrow> (int \<times> peripheriques) option" where
  "lcd_demarrer lcd w = do {
     let w = lcd_broches lcd w;
     let func = LCD_FUNC OR LCD_FUNC_DL;
     let w = delay 35 (put4Command lcd (drop_bit 4 func) w);
     let w = delay 35 (put4Command lcd (drop_bit 4 func) w);
     let w = delay 35 (put4Command lcd (drop_bit 4 func) w);
     let func = LCD_FUNC;
     let w = delay 35 (put4Command lcd (drop_bit 4 func) w);
     let lcd = lcd\<lparr>bits := 4\<rparr>;
     let w = ranger_lcd lcd w;
     let func = func OR LCD_FUNC_N;
     let w = delay 35 (putCommand lcd func w);
     w \<leftarrow> lcd_affichage 1 w;
     w \<leftarrow> lcd_curseur 0 w;
     w \<leftarrow> lcd_curseur_clignote 0 w;
     w \<leftarrow> lcd_effacer w;
     lcd \<leftarrow> lcd_courant w;
     let w = putCommand lcd (LCD_ENTRY OR LCD_ENTRY_ID) w;
     let w = putCommand lcd (LCD_CDSHIFT OR LCD_CDSHIFT_RL) w;
     Some (lcdHandle w, w)
   }"

definition lcd_init :: "hote \<Rightarrow> peripheriques \<Rightarrow> (int \<times> peripheriques) option" where
  "lcd_init E w = do {
     let w = (if initialised w = 0
              then w\<lparr>initialised := 1, lcds := fold (\<lambda>i l. l[i := None]) [0..<MAX_LCDS] (lcds w)\<rparr>
              else w);
     let (fd, w) = wiringPiI2CSetup E ADRESSE_LCD w;
     if fd < 0 then Some (-1, w)
     else do {
       let w = fold (\<lambda>i. wiringPiI2CWriteReg8 fd (int i) 0xFF) [0..<9] w;
       let w = wiringPiSetupSys w;
       let w = mcp23008Setup AF_BASE ADRESSE_LCD w;
       let w = pinMode AF_BLUE OUTPUT w;
       let w = w\<lparr>lcdHandle := chercher_libre 0 (lcds w) (lcdHandle w)\<rparr>;
       if lcdHandle w = -1 then Some (-1, w)
       else do {
         let (ok, w) = malloc E w;
         if \<not> ok then Some (-1, w)
         else do {
           let lcd = nouveau_lcd;
           let w = ranger_lcd lcd w;
           lcd_demarrer lcd w
         }
       }
     }
   }"

definition lcd_cleanup :: "peripheriques \<Rightarrow> peripheriques option" where
  "lcd_cleanup w =
     (case lcd_courant w of
        None \<Rightarrow> Some w
      | Some lcd \<Rightarrow> do {
          w \<leftarrow> lcd_effacer w;
          w \<leftarrow> lcd_affichage 0 w;
          let w = pinMode (rsPin lcd) INPUT w;
          let w = pinMode (strbPin lcd) INPUT w;
          let w = fold (\<lambda>i. pinMode (dataPins lcd ! i) INPUT) [0..<4] w;
          let w = pinMode AF_BLUE INPUT w;
          let w = free w;
          Some (w\<lparr>lcds := (lcds w)[nat (lcdHandle w) := None]\<rparr>)
        })"

end
