(* ===== verification/Ecran.thy ===== *)
theory Ecran
  imports Lcd
begin

text \<open>
  The display that \<open>lib/my_lcd.c\<close> drives: its controller as a reader of the journal, what every operation
  of the driver makes of its two lines of sixteen cells, and the start and the end of the display.
\<close>

section \<open>The HD44780\<close>

text \<open>
  The controller of the data sheet as far as the driver uses it: the instruction set without
  display shifts, the two-line address counter, and the four or eight bit bus sampled on the
  falling edge of the strobe line. In the eight bit mode the four low lines are not connected
  and read 0.
\<close>

record hd_coeur =
  mode4 :: bool
  deux_lignes :: bool
  ddram :: "int \<Rightarrow> octet"
  cgram :: "int \<Rightarrow> octet"
  ac :: int
  en_cgram :: bool
  croissant :: bool
  affiche :: bool
  curseur :: bool
  clignote :: bool

record hd44780 =
  broche_rs :: int
  broche_e :: int
  broche_db :: "int \<Rightarrow> int"
  demi :: "int option"
  coeur :: hd_coeur

definition ac_suivant :: "int \<Rightarrow> int" where
  "ac_suivant a = (if a = 0x27 then 0x40 else if a = 0x67 then 0 else a + 1)"

definition ac_precedent :: "int \<Rightarrow> int" where
  "ac_precedent a = (if a = 0x40 then 0x27 else if a = 0 then 0x67 else a - 1)"

definition hd_instruction :: "octet \<Rightarrow> hd_coeur \<Rightarrow> hd_coeur" where
  "hd_instruction c k =
     (if bit c 7 then k\<lparr>ac := uint (c AND 0x7F), en_cgram := False\<rparr>
      else if bit c 6 then k\<lparr>ac := uint (c AND 0x3F), en_cgram := True\<rparr>
      else if bit c 5 then k\<lparr>mode4 := \<not> bit c 4, deux_lignes := bit c 3\<rparr>
      else if bit c 4 then
        (if bit c 3 then k
         else k\<lparr>ac := if bit c 2 then ac_suivant (ac k) else ac_precedent (ac k)\<rparr>)
      else if bit c 3 then k\<lparr>affiche := bit c 2, curseur := bit c 1, clignote := bit c 0\<rparr>
      else if bit c 2 then k\<lparr>croissant := bit c 1\<rparr>
      else if bit c 1 then k\<lparr>ac := 0, en_cgram := False\<rparr>
      else if bit c 0 then k\<lparr>ddram := (\<lambda>_. 0x20), ac := 0, en_cgram := False, croissant := True\<rparr>
      else k)"

definition hd_donnee :: "octet \<Rightarrow> hd_coeur \<Rightarrow> hd_coeur" where
  "hd_donnee c k =
     (if en_cgram k
      then k\<lparr>cgram := (cgram k)(ac k := c), ac := (if croissant k then ac k + 1 else ac k - 1) mod 64\<rparr>
      else k\<lparr>ddram := (ddram k)(ac k := c),
             ac := if croissant k then ac_suivant (ac k) else ac_precedent (ac k)\<rparr>)"

definition hd_executer :: "int \<Rightarrow> octet \<Rightarrow> hd_coeur \<Rightarrow> hd_coeur" where
  "hd_executer rs c k = (if rs = 0 then hd_instruction c k else hd_donnee c k)"

definition quartet :: "(int \<Rightarrow> int) \<Rightarrow> int" where
  "quartet db = db AF_DB4 + 2 * db AF_DB5 + 4 * db AF_DB6 + 8 * db AF_DB7"

definition hd_echantillon :: "hd44780 \<Rightarrow> hd44780" where
  "hd_echantillon d =
     (if mode4 (coeur d) then
        (case demi d of
           None \<Rightarrow> d\<lparr>demi := Some (quartet (broche_db d))\<rparr>
         | Some haut \<Rightarrow> d\<lparr>demi := None,
             coeur := hd_executer (broche_rs d) (word_of_int (haut * 16 + quartet (broche_db d))) (coeur d)\<rparr>)
      else d\<lparr>demi := None,
        coeur := hd_executer (broche_rs d) (word_of_int (quartet (broche_db d) * 16)) (coeur d)\<rparr>)"

fun hd44780_pas :: "event \<Rightarrow> hd44780 \<Rightarrow> hd44780" where
  "hd44780_pas (Gpio (DigitalWrite p v)) d =
     (if p = AF_RS then d\<lparr>broche_rs := v\<rparr>
      else if p = AF_STRB then
        (if broche_e d = 1 \<and> v = 0 then (hd_echantillon d)\<lparr>broche_e := v\<rparr> else d\<lparr>broche_e := v\<rparr>)
      else if p = AF_DB4 \<or> p = AF_DB5 \<or> p = AF_DB6 \<or> p = AF_DB7
        then d\<lparr>broche_db := (broche_db d)(p := v)\<rparr>
      else d)"
| "hd44780_pas e d = d"

fun hd44780_concerne :: "event \<Rightarrow> bool" where
  "hd44780_concerne (Gpio (DigitalWrite p v)) \<longleftrightarrow> 101 \<le> p \<and> p \<le> 106"
| "hd44780_concerne e \<longleftrightarrow> False"

interpretation hd44780: appareil hd44780_pas hd44780_concerne
proof
  show "hd44780_pas e d = d" if "\<not> hd44780_concerne e" for e d
    using that by (induction e d rule: hd44780_pas.induct) auto
qed

text \<open>The controller after its own power-on reset.\<close>

definition hd_allume :: hd44780 where
  "hd_allume = \<lparr>broche_rs = 0, broche_e = 0, broche_db = (\<lambda>_. 0), demi = None,
     coeur = \<lparr>mode4 = False, deux_lignes = False, ddram = (\<lambda>_. 0x20), cgram = (\<lambda>_. 0), ac = 0,
       en_cgram = False, croissant = True, affiche = False, curseur = False, clignote = False\<rparr>\<rparr>"

definition hd44780_de :: "hd44780 \<Rightarrow> journal_t \<Rightarrow> hd44780" where
  "hd44780_de d h = fold hd44780_pas h d"

lemma hd44780_de_append [simp]: "hd44780_de d (h @ es) = fold hd44780_pas es (hd44780_de d h)"
  by (simp add: hd44780_de_def)

section \<open>One byte on the bus\<close>

definition lcd_standard :: "lcdDataStruct \<Rightarrow> bool" where
  "lcd_standard l \<longleftrightarrow> rows l = 2 \<and> cols l = 16 \<and> rsPin l = AF_RS \<and> strbPin l = AF_STRB \<and>
     take 4 (dataPins l) = [AF_DB4, AF_DB5, AF_DB6, AF_DB7]"

definition evts_quartet :: "octet \<Rightarrow> event list" where
  "evts_quartet q =
     [Gpio (DigitalWrite AF_DB4 (uint (q AND 1))),
      Gpio (DigitalWrite AF_DB5 (uint (drop_bit 1 q AND 1))),
      Gpio (DigitalWrite AF_DB6 (uint (drop_bit 1 (drop_bit 1 q) AND 1))),
      Gpio (DigitalWrite AF_DB7 (uint (drop_bit 1 (drop_bit 1 (drop_bit 1 q)) AND 1)))]"

definition evts_strobe :: "event list" where
  "evts_strobe = [Gpio (DigitalWrite AF_STRB 1), Sys (DelayMicroseconds 50),
     Gpio (DigitalWrite AF_STRB 0), Sys (DelayMicroseconds 50)]"

definition evts_octet :: "octet \<Rightarrow> event list" where
  "evts_octet c = evts_quartet (drop_bit 4 c AND 0x0F) @ evts_strobe @
     evts_quartet (c AND 0x0F) @ evts_strobe"

definition db_quartet :: "octet \<Rightarrow> (int \<Rightarrow> int) \<Rightarrow> int \<Rightarrow> int" where
  "db_quartet q db = db(AF_DB4 := uint (q AND 1), AF_DB5 := uint (drop_bit 1 q AND 1),
     AF_DB6 := uint (drop_bit 1 (drop_bit 1 q) AND 1),
     AF_DB7 := uint (drop_bit 1 (drop_bit 1 (drop_bit 1 q)) AND 1))"

lemma quartet_db_quartet [simp]: "quartet (db_quartet q db) = uint q mod 16"
  unfolding quartet_bits [symmetric] by (simp add: quartet_def db_quartet_def del: One_nat_def)

lemma ecrire_bits_standard:
  "lcd_standard l \<Longrightarrow> ecrire_bits (take 4 (dataPins l)) q w = consigne (evts_quartet q) w"
  by (simp add: lcd_standard_def evts_quartet_def digitalWrite_def del: One_nat_def)

lemma strobe_standard: "lcd_standard l \<Longrightarrow> strobe l w = consigne evts_strobe w"
  by (simp add: lcd_standard_def strobe_def evts_strobe_def digitalWrite_def delayMicroseconds_def)

lemma sendDataCmd_standard:
  "\<lbrakk>lcd_standard l; bits l = 4\<rbrakk> \<Longrightarrow> sendDataCmd l c w = consigne (evts_octet c) w"
  by (simp add: sendDataCmd_def ecrire_bits_standard strobe_standard evts_octet_def Let_def)

lemma putCommand_standard:
  "\<lbrakk>lcd_standard l; bits l = 4\<rbrakk> \<Longrightarrow>
     putCommand l c w = consigne (Gpio (DigitalWrite AF_RS 0) # evts_octet c @ [Sys (Delay 2)]) w"
  by (simp add: putCommand_def sendDataCmd_standard digitalWrite_def delay_def Let_def)
     (simp add: lcd_standard_def)

lemma put4Command_standard:
  "lcd_standard l \<Longrightarrow>
     put4Command l c w = consigne (Gpio (DigitalWrite AF_RS 0) # evts_quartet c @ evts_strobe) w"
  by (simp add: put4Command_def ecrire_bits_standard strobe_standard digitalWrite_def Let_def)
     (simp add: lcd_standard_def)

text \<open>What the controller makes of it.\<close>

lemma hd_quartet: "fold hd44780_pas (evts_quartet q) d = d\<lparr>broche_db := db_quartet q (broche_db d)\<rparr>"
  by (simp add: evts_quartet_def db_quartet_def del: One_nat_def)

lemma hd_echantillon_e [simp]:
  "hd_echantillon (d\<lparr>broche_e := e\<rparr>) = (hd_echantillon d)\<lparr>broche_e := e\<rparr>"
  by (simp add: hd_echantillon_def split: option.split)

lemma hd_strobe: "fold hd44780_pas evts_strobe d = (hd_echantillon d)\<lparr>broche_e := 0\<rparr>"
  by (simp add: evts_strobe_def)

definition hd_recu :: "octet \<Rightarrow> hd44780 \<Rightarrow> hd44780" where
  "hd_recu c d = d\<lparr>broche_db := db_quartet (c AND 0x0F) (broche_db d), broche_e := 0,
     demi := None, coeur := hd_executer (broche_rs d) c (coeur d)\<rparr>"

lemma db_quartet_db_quartet [simp]: "db_quartet q (db_quartet q' db) = db_quartet q db"
  by (simp add: db_quartet_def fun_eq_iff)

lemma hd_octet:
  assumes "mode4 (coeur d)" and "demi d = None"
  shows "fold hd44780_pas (evts_octet c) d = hd_recu c d"
  using assms octet_quartets [of c]
  by (simp add: evts_octet_def hd_quartet hd_strobe hd_echantillon_def hd_recu_def)

section \<open>The screen the driver presents\<close>

text \<open>
  The thirty-two visible cells, line after line: cell \<open>p\<close> is at address \<open>p\<close> of the display
  memory on the first line and \<open>0x40 + p - 16\<close> on the second.
\<close>

definition adresse :: "int \<Rightarrow> int" where
  "adresse p = (if p < 16 then p else p + 48)"

definition cellules :: "hd_coeur \<Rightarrow> octet list" where
  "cellules k = map (\<lambda>p. ddram k (adresse (int p))) [0..<32]"

definition lcd_texte :: "hd44780 \<Rightarrow> peripheriques \<Rightarrow> octet list" where
  "lcd_texte d w = cellules (coeur (hd44780_de d (journal w)))"

definition lcd_struct_ok :: "peripheriques \<Rightarrow> lcdDataStruct \<Rightarrow> bool" where
  "lcd_struct_ok w l \<longleftrightarrow> length (lcds w) = MAX_LCDS \<and> lcd_courant w = Some l \<and> lcd_standard l \<and>
     bits l = 4 \<and> 0 \<le> cx l \<and> cx l < 16 \<and> 0 \<le> cy l \<and> cy l < 2"

definition hd_ok :: "hd44780 \<Rightarrow> bool" where
  "hd_ok d \<longleftrightarrow> demi d = None \<and> mode4 (coeur d) \<and> deux_lignes (coeur d) \<and> affiche (coeur d) \<and>
     croissant (coeur d)"

text \<open>
  \<open>lcd_pret\<close>: the driver has a display and the controller is in the mode the driver expects.
  \<open>lcd_aligne\<close>: moreover the controller writes next where the driver believes the cursor to
  be. The initialisation gives only the first.
\<close>

definition lcd_pret :: "hd44780 \<Rightarrow> peripheriques \<Rightarrow> bool" where
  "lcd_pret d w \<longleftrightarrow> (\<exists>l. lcd_struct_ok w l) \<and> hd_ok (hd44780_de d (journal w))"

definition lcd_aligne :: "hd44780 \<Rightarrow> peripheriques \<Rightarrow> int \<Rightarrow> bool" where
  "lcd_aligne d w p \<longleftrightarrow> hd_ok (hd44780_de d (journal w)) \<and>
     (\<exists>l. lcd_struct_ok w l \<and> p = 16 * cy l + cx l) \<and>
     (let k = coeur (hd44780_de d (journal w)) in \<not> en_cgram k \<and> ac k = adresse p)"

lemma lcd_aligne_pret: "lcd_aligne d w p \<Longrightarrow> lcd_pret d w"
  by (auto simp: lcd_aligne_def lcd_pret_def)

lemma lcd_aligne_borne: "lcd_aligne d w p \<Longrightarrow> 0 \<le> p \<and> p < 32"
  by (auto simp: lcd_aligne_def lcd_struct_ok_def)

lemma length_cellules [simp]: "length (cellules k) = 32"
  by (simp add: cellules_def)

lemma adresse_inj: "\<lbrakk>0 \<le> p; p < 32; 0 \<le> q; q < 32\<rbrakk> \<Longrightarrow> adresse p = adresse q \<longleftrightarrow> p = q"
  by (auto simp: adresse_def)

lemma cellules_ecrite:
  assumes "0 \<le> p" and "p < 32"
  shows "cellules (k\<lparr>ddram := (ddram k)(adresse p := c), ac := a\<rparr>) = (cellules k)[nat p := c]"
proof (rule nth_equalityI)
  fix i
  assume "i < length (cellules (k\<lparr>ddram := (ddram k)(adresse p := c), ac := a\<rparr>))"
  then have "i < 32" by simp
  moreover from this assms have "adresse (int i) = adresse p \<longleftrightarrow> i = nat p"
    by (subst adresse_inj) auto
  ultimately show "cellules (k\<lparr>ddram := (ddram k)(adresse p := c), ac := a\<rparr>) ! i = (cellules k)[nat p := c] ! i"
    using assms by (auto simp: cellules_def nth_list_update)
qed simp

lemma cellules_ac [simp]: "cellules (k\<lparr>ac := a, en_cgram := b\<rparr>) = cellules k"
  by (simp add: cellules_def)

text \<open>The commands the driver sends, as instructions of the controller.\<close>

lemma hd_clear: "hd_instruction LCD_CLEAR k = k\<lparr>ddram := (\<lambda>_. 0x20), ac := 0, en_cgram := False, croissant := True\<rparr>"
  by (simp add: hd_instruction_def)

lemma hd_home: "hd_instruction LCD_HOME k = k\<lparr>ac := 0, en_cgram := False\<rparr>"
  by (simp add: hd_instruction_def)

lemma hd_adresse:
  assumes "0 \<le> a" "a < 128"
  shows "hd_instruction (word_of_int (128 + a)) k = k\<lparr>ac := a, en_cgram := False\<rparr>"
proof -
  have "(128 + a) div 128 = 1" using assms by simp
  then have "bit (128 + a) 7" by (simp add: bit_iff_odd)
  then have "bit (word_of_int (128 + a) :: octet) 7"
    by (simp only: bit_word_of_int_iff) simp
  moreover have "uint ((word_of_int (128 + a) :: octet) AND 0x7F) = a"
  proof -
    have "uint (word_of_int (128 + a) :: octet) = 128 + a"
      using assms by (simp only: uint_word_of_int) simp
    then have "uint ((word_of_int (128 + a) :: octet) AND 0x7F) = (128 + a) AND 127"
      by (simp only: unsigned_and_eq) simp
    also have "\<dots> = a"
      using assms take_bit_eq_mask [of 7 "128 + a"] by (simp add: take_bit_eq_mod mask_eq_exp_minus_1)
    finally show ?thesis .
  qed
  ultimately show ?thesis by (simp add: hd_instruction_def)
qed

lemma hd_position:
  assumes "0 \<le> x" "x < 16" "0 \<le> y" "y < 2"
  shows "hd_instruction (word_of_int (x + (LCD_DGRAM OR rowOff ! nat y))) k =
    k\<lparr>ac := adresse (16 * y + x), en_cgram := False\<rparr>"
proof -
  have "y = 0 \<or> y = 1" using assms by auto
  then show ?thesis
    using assms hd_adresse [of x k] hd_adresse [of "x + 64" k]
    by (auto simp: rowOff_def adresse_def add_ac)
qed

section \<open>The operations on a prepared display\<close>

lemma hd_de_consigne: "hd44780_de d (journal (consigne es w)) = fold hd44780_pas es (hd44780_de d (journal w))"
  by simp

lemma hd_commande:
  assumes "hd_ok d"
  shows "fold hd44780_pas (Gpio (DigitalWrite AF_RS 0) # evts_octet c @ [Sys (Delay 2)]) d = hd_recu c (d\<lparr>broche_rs := 0\<rparr>)"
  using assms by (simp add: hd_octet hd_ok_def)

lemma hd_recu_ok:
  "hd_ok d \<Longrightarrow> hd_ok (hd_recu c d) \<longleftrightarrow> (let k = hd_executer (broche_rs d) c (coeur d) in
     mode4 k \<and> deux_lignes k \<and> affiche k \<and> croissant k)"
  by (simp add: hd_ok_def hd_recu_def Let_def)

lemma coeur_hd_recu [simp]: "coeur (hd_recu c d) = hd_executer (broche_rs d) c (coeur d)"
  by (simp add: hd_recu_def)

lemma lcd_struct_okD:
  assumes "lcd_struct_ok w l"
  shows "lcd_courant w = Some l" "lcd_standard l" "bits l = 4" "0 \<le> lcdHandle w" "nat (lcdHandle w) < length (lcds w)"
    "0 \<le> cx l" "cx l < 16" "0 \<le> cy l" "cy l < 2" "rows l = 2" "cols l = 16" "rsPin l = AF_RS"
  using assms by (auto simp: lcd_struct_ok_def lcd_standard_def lcd_courant_def split: if_splits)

lemma lcd_standard_curseur [simp]: "lcd_standard (l\<lparr>cx := x, cy := y\<rparr>) = lcd_standard l"
    "lcd_standard (l\<lparr>cx := x\<rparr>) = lcd_standard l" "lcd_standard (l\<lparr>cy := y\<rparr>) = lcd_standard l"
  by (simp_all add: lcd_standard_def)

lemma lcd_courant_consigne [simp]: "lcd_courant (consigne es w) = lcd_courant w"
  by (simp add: lcd_courant_def)

lemma ranger_lcd_consigne [simp]: "ranger_lcd l (consigne es w) = consigne es (ranger_lcd l w)"
  by (simp add: ranger_lcd_def)

lemma journal_ranger_lcd [simp]: "journal (ranger_lcd l w) = journal w"
  by (simp add: ranger_lcd_def)

lemma lcd_struct_ok_consigne [simp]: "lcd_struct_ok (consigne es w) l = lcd_struct_ok w l"
  by (simp add: lcd_struct_ok_def)

lemma lcd_struct_ok_range:
  assumes "lcd_struct_ok w l" and "0 \<le> x" "x < 16" "0 \<le> y" "y < 2" 
  shows "lcd_struct_ok (ranger_lcd (l\<lparr>cx := x, cy := y\<rparr>) w) (l\<lparr>cx := x, cy := y\<rparr>)"
  using assms lcd_struct_okD(4,5) [OF assms(1)]
  by (auto simp: lcd_struct_ok_def lcd_courant_def ranger_lcd_def split: if_splits)

lemma hd_putCommand:
  assumes "lcd_struct_ok w l" and "hd_ok (hd44780_de d (journal w))"
  shows "hd44780_de d (journal (putCommand l c w)) = hd_recu c ((hd44780_de d (journal w))\<lparr>broche_rs := 0\<rparr>)"
  unfolding putCommand_standard [OF lcd_struct_okD(2,3) [OF assms(1)]] hd_de_consigne
    hd_commande [OF assms(2)] ..

lemma coeur_putCommand:
  assumes "lcd_struct_ok w l" and "hd_ok (hd44780_de d (journal w))"
  shows "coeur (hd44780_de d (journal (putCommand l c w))) = hd_instruction c (coeur (hd44780_de d (journal w)))"
  by (simp add: hd_putCommand [OF assms] hd_executer_def)

lemma hd_ok_putCommand:
  assumes "lcd_struct_ok w l" and "hd_ok (hd44780_de d (journal w))"
    and "k = hd_instruction c (coeur (hd44780_de d (journal w)))"
    and "mode4 k" "deux_lignes k" "affiche k" "croissant k"
  shows "hd_ok (hd44780_de d (journal (putCommand l c w)))"
  using assms(3-7) by (simp add: hd_ok_def coeur_putCommand [OF assms(1,2)]) (simp add: hd_putCommand [OF assms(1,2)] hd_recu_def)

lemma lcd_struct_ok_putCommand [simp]:
  assumes "lcd_standard l'" "bits l' = 4"
  shows "lcd_struct_ok (putCommand l' c w) l = lcd_struct_ok w l"
  by (simp add: putCommand_standard [OF assms])

lemma lcd_struct_ok_range':
  assumes "lcd_struct_ok w l" and "lcd_standard l'" "bits l' = 4" and "0 \<le> x" "x < 16" "0 \<le> y" "y < 2" 
  shows "lcd_struct_ok (ranger_lcd (l\<lparr>cx := x, cy := y\<rparr>) (putCommand l' c w)) (l\<lparr>cx := x, cy := y\<rparr>)"
  using lcd_struct_ok_range [of "putCommand l' c w" l x y] assms by simp

lemma lcd_position_complet:
  assumes "lcd_pret d w" and "0 \<le> x" "x < 16" "0 \<le> y" "y < 2"
  shows "\<exists>w'. lcd_position x y w = Some w' \<and> lcd_aligne d w' (16 * y + x) \<and> lcd_texte d w' = lcd_texte d w \<and>
    cgram (coeur (hd44780_de d (journal w'))) = cgram (coeur (hd44780_de d (journal w)))"
proof -
  from assms(1) obtain l where l: "lcd_struct_ok w l" and d: "hd_ok (hd44780_de d (journal w))"
    by (auto simp: lcd_pret_def)
  let ?c = "word_of_int (x + (LCD_DGRAM OR rowOff ! nat y)) :: octet"
  let ?k = "coeur (hd44780_de d (journal w))"
  define w' where "w' = ranger_lcd (l\<lparr>cx := x, cy := y\<rparr>) (putCommand l ?c w)"
  have "lcd_position x y w = Some w'"
    using lcd_struct_okD [OF l] assms by (simp add: lcd_position_def rowOff_lire_def w'_def)
  moreover have k: "coeur (hd44780_de d (journal w')) = ?k\<lparr>ac := adresse (16 * y + x), en_cgram := False\<rparr>"
    unfolding w'_def journal_ranger_lcd coeur_putCommand [OF l d] by (rule hd_position [OF assms(2-5)])
  moreover have "hd_ok (hd44780_de d (journal w'))"
    unfolding w'_def journal_ranger_lcd using d
    by (intro hd_ok_putCommand [OF l d hd_position [OF assms(2-5), symmetric]]) (simp_all add: hd_ok_def)
  moreover have "lcd_struct_ok w' (l\<lparr>cx := x, cy := y\<rparr>)"
    unfolding w'_def using l lcd_struct_okD [OF l] assms by (intro lcd_struct_ok_range')
  ultimately show ?thesis
    by (intro exI [of _ w']) (auto simp: lcd_aligne_def lcd_texte_def)
qed

lemma lcd_position_juste:
  assumes "lcd_pret d w" and "0 \<le> x" "x < 16" "0 \<le> y" "y < 2"
  shows "\<exists>w'. lcd_position x y w = Some w' \<and> lcd_aligne d w' (16 * y + x) \<and> lcd_texte d w' = lcd_texte d w"
  using lcd_position_complet [OF assms] by blast

lemma lcd_effacer_juste:
  assumes "lcd_pret d w"
  shows "\<exists>w'. lcd_effacer w = Some w' \<and> lcd_aligne d w' 0 \<and> lcd_texte d w' = replicate 32 0x20"
proof -
  from assms(1) obtain l where l: "lcd_struct_ok w l" and d: "hd_ok (hd44780_de d (journal w))"
    by (auto simp: lcd_pret_def)
  let ?k = "coeur (hd44780_de d (journal w))"
  define w1 where "w1 = putCommand l LCD_CLEAR w"
  define w2 where "w2 = putCommand l LCD_HOME w1"
  define w' where "w' = delay 5 (ranger_lcd (l\<lparr>cy := 0, cx := 0\<rparr>) w2)"
  note L = lcd_struct_okD [OF l]
  have l1: "lcd_struct_ok w1 l" using l L by (simp add: w1_def)
  have k1: "coeur (hd44780_de d (journal w1)) = ?k\<lparr>ddram := (\<lambda>_. 0x20), ac := 0, en_cgram := False, croissant := True\<rparr>"
    unfolding w1_def coeur_putCommand [OF l d] by (rule hd_clear)
  have d1: "hd_ok (hd44780_de d (journal w1))"
    using d unfolding w1_def by (intro hd_ok_putCommand [OF l d hd_clear [symmetric]]) (simp_all add: hd_ok_def)
  have l2: "lcd_struct_ok w2 l" using l1 L by (simp add: w2_def)
  have k2: "coeur (hd44780_de d (journal w2)) = ?k\<lparr>ddram := (\<lambda>_. 0x20), ac := 0, en_cgram := False, croissant := True\<rparr>"
    unfolding w2_def coeur_putCommand [OF l1 d1] k1 hd_home by simp
  have d2: "hd_ok (hd44780_de d (journal w2))"
    using d1 unfolding w2_def by (intro hd_ok_putCommand [OF l1 d1 hd_home [symmetric]]) (simp_all add: hd_ok_def)
  have e: "l\<lparr>cy := 0, cx := 0\<rparr> = l\<lparr>cx := 0, cy := 0\<rparr>" by simp
  have l': "lcd_struct_ok w' (l\<lparr>cx := 0, cy := 0\<rparr>)"
    unfolding w'_def delay_def lcd_struct_ok_consigne e by (rule lcd_struct_ok_range [OF l2]) simp_all
  have j: "hd44780_de d (journal w') = hd44780_de d (journal w2)"
    by (simp add: w'_def delay_def)
  have "lcd_effacer w = Some w'"
    by (simp add: lcd_effacer_def L w1_def w2_def w'_def)
  then show ?thesis
    using l' d2 k2 unfolding lcd_aligne_def lcd_texte_def j
    by (intro exI [of _ w']) (auto simp: j adresse_def cellules_def map_replicate_const)
qed

lemma evts_rs: "lcd_standard l \<Longrightarrow> digitalWrite (rsPin l) v w = consigne [Gpio (DigitalWrite AF_RS v)] w"
  by (simp add: digitalWrite_def lcd_standard_def)

text \<open>Writing one character: the cell under the cursor, and the cursor moves on.\<close>

text \<open>The data byte itself: one cell of the memory and the address counter.\<close>

lemma lcd_donnee_ecrite:
  fixes d :: hd44780 and w :: peripheriques and c :: octet
  defines "k \<equiv> coeur (hd44780_de d (journal w))"
  assumes l: "lcd_struct_ok w l" and d: "hd_ok (hd44780_de d (journal w))"
    and a: "\<not> en_cgram k" "ac k = adresse p" and p: "0 \<le> p" "p < 32"
  defines "w1 \<equiv> sendDataCmd l c (digitalWrite (rsPin l) 1 w)"
    and "k1 \<equiv> k\<lparr>ddram := (ddram k)(adresse p := c), ac := ac_suivant (adresse p)\<rparr>"
  shows "lcd_struct_ok w1 l" and "hd_ok (hd44780_de d (journal w1))" and "coeur (hd44780_de d (journal w1)) = k1"
    and "cellules k1 = (lcd_texte d w)[nat p := c]"
proof -
  let ?d = "hd44780_de d (journal w)"
  note L = lcd_struct_okD [OF l]
  have w1: "w1 = consigne (Gpio (DigitalWrite AF_RS 1) # evts_octet c) w"
    by (simp add: w1_def evts_rs [OF L(2)] sendDataCmd_standard [OF L(2,3)])
  have hd1: "hd44780_de d (journal w1) = hd_recu c (?d\<lparr>broche_rs := 1\<rparr>)"
    using d by (simp add: w1 hd_octet hd_ok_def)
  show c1: "coeur (hd44780_de d (journal w1)) = k1"
    using d a by (simp add: hd1 hd_executer_def hd_donnee_def hd_ok_def k1_def k_def)
  show "hd_ok (hd44780_de d (journal w1))"
    using d c1 by (simp add: hd_ok_def k1_def k_def) (simp add: hd1 hd_recu_def)
  show "lcd_struct_ok w1 l" using l by (simp add: w1)
  show "cellules k1 = (lcd_texte d w)[nat p := c]"
    using p by (simp add: k1_def k_def cellules_ecrite lcd_texte_def)
qed

lemma lcd_caractere_complet:
  assumes "lcd_aligne d w p"
  shows "\<exists>w'. lcd_caractere c w = Some w' \<and> lcd_aligne d w' ((p + 1) mod 32) \<and>
    lcd_texte d w' = (lcd_texte d w)[nat p := c] \<and>
    cgram (coeur (hd44780_de d (journal w'))) = cgram (coeur (hd44780_de d (journal w)))"
proof -
  let ?d = "hd44780_de d (journal w)"
  let ?k = "coeur ?d"
  from assms obtain l where l: "lcd_struct_ok w l" and d: "hd_ok ?d" and p: "p = 16 * cy l + cx l"
    and a: "\<not> en_cgram ?k" "ac ?k = adresse p"
    by (auto simp: lcd_aligne_def Let_def)
  note L = lcd_struct_okD [OF l]
  define w1 where "w1 = sendDataCmd l c (digitalWrite (rsPin l) 1 w)"
  define k1 where "k1 = ?k\<lparr>ddram := (ddram ?k)(adresse p := c), ac := ac_suivant (adresse p)\<rparr>"
  have p': "0 \<le> p" "p < 32" using lcd_aligne_borne [OF assms] by auto
  note e = lcd_donnee_ecrite [OF l d a p', of c, folded w1_def k1_def]
  note l1 = e(1) and d1 = e(2) and c1 = e(3) and t1 = e(4)
  show ?thesis
  proof (cases "cx l + 1 = 16")
    case False
    define w' where "w' = ranger_lcd (l\<lparr>cx := cx l + 1\<rparr>) w1"
    have "lcd_caractere c w = Some w'"
      using False by (simp add: lcd_caractere_def L w1_def w'_def)
    moreover have "lcd_struct_ok w' (l\<lparr>cx := cx l + 1\<rparr>)"
      using lcd_struct_ok_range [OF l1, of "cx l + 1" "cy l"] False L by (simp add: w'_def)
    moreover have "16 * cy l + cx l + 1 = (p + 1) mod 32" "ac_suivant (adresse p) = adresse ((p + 1) mod 32)"
    proof -
      from L(8,9) have "cy l = 0 \<or> cy l = 1" by auto
      then show "16 * cy l + cx l + 1 = (p + 1) mod 32" "ac_suivant (adresse p) = adresse ((p + 1) mod 32)"
        using False L p by (auto simp: adresse_def ac_suivant_def)
    qed
    ultimately show ?thesis
      using d1 a c1 t1 unfolding lcd_aligne_def lcd_texte_def
      by (intro exI [of _ w']) (auto simp: w'_def k1_def)
  next
    case True
    define y where "y = (if cy l + 1 = 2 then 0 else cy l + 1)"
    have y: "0 \<le> y" "y < 2" "16 * y = (p + 1) mod 32"
      using L(8,9) True p by (auto simp: y_def)
    let ?c = "word_of_int (0 + (LCD_DGRAM OR rowOff ! nat y)) :: octet"
    let ?l = "l\<lparr>cx := 0, cy := y\<rparr>"
    have s: "lcd_standard ?l" "bits ?l = 4" using L by simp_all
    define w2 where "w2 = ranger_lcd ?l w1"
    define w' where "w' = putCommand ?l ?c w2"
    have l2: "lcd_struct_ok w2 ?l" unfolding w2_def using y by (intro lcd_struct_ok_range [OF l1]) simp_all
    have d2: "hd_ok (hd44780_de d (journal w2))" using d1 by (simp add: w2_def)
    have c2: "coeur (hd44780_de d (journal w')) = k1\<lparr>ac := adresse (16 * y), en_cgram := False\<rparr>"
      unfolding w'_def coeur_putCommand [OF l2 d2] using hd_position [of 0 y k1] y c1 by (simp add: w2_def)
    have "lcd_caractere c w = Some w'"
      using True L y(1,2) by (simp add: lcd_caractere_def w1_def w'_def w2_def y_def rowOff_lire_def Let_def)
    moreover have "lcd_struct_ok w' ?l" using l2 s by (simp add: w'_def)
    moreover have "hd_ok (hd44780_de d (journal w'))"
      using d1 c1 unfolding w'_def
      by (intro hd_ok_putCommand [OF l2 d2 hd_position [of 0 y, symmetric]])
         (simp_all add: y hd_ok_def w2_def)
    moreover have "cgram k1 = cgram ?k" by (simp add: k1_def)
    ultimately show ?thesis
      using c2 t1 y unfolding lcd_aligne_def lcd_texte_def
      by (intro exI [of _ w']) (auto)
  qed
qed

lemma lcd_caractere_juste:
  assumes "lcd_aligne d w p"
  shows "\<exists>w'. lcd_caractere c w = Some w' \<and> lcd_aligne d w' ((p + 1) mod 32) \<and>
    lcd_texte d w' = (lcd_texte d w)[nat p := c]"
  using lcd_caractere_complet [OF assms] by blast

section \<open>A text screen\<close>

text \<open>
  Writing bytes from cell \<open>p\<close> on: the screen is a ring of thirty-two cells.
\<close>

fun inscrire :: "octet list \<Rightarrow> int \<Rightarrow> octet list \<Rightarrow> octet list" where
  "inscrire [] p cs = cs"
| "inscrire (c # s) p cs = inscrire s ((p + 1) mod 32) (cs[nat p := c])"

lemma length_inscrire [simp]: "length (inscrire s p cs) = length cs"
  by (induction s p cs rule: inscrire.induct) simp_all

text \<open>As long as the text does not reach the end of the ring, it simply replaces the cells.\<close>

lemma inscrire_eq:
  "\<lbrakk>length cs = 32; 0 \<le> p; p + int (length s) \<le> 32\<rbrakk> \<Longrightarrow>
     inscrire s p cs = take (nat p) cs @ s @ drop (nat p + length s) cs"
proof (induction s p cs rule: inscrire.induct)
  case (2 c s p cs)
  show ?case
  proof (cases "p = 31")
    case True
    with "2.prems" show ?thesis by (simp add: upd_conv_take_nth_drop)
  next
    case False
    with "2.prems" have "(p + 1) mod 32 = p + 1" by simp
    with "2.IH" "2.prems" have "inscrire (c # s) p cs =
        take (nat (p + 1)) (cs[nat p := c]) @ s @ drop (nat (p + 1) + length s) (cs[nat p := c])"
      by simp
    moreover have "nat (p + 1) = Suc (nat p)" "nat p < length cs" using "2.prems" by simp_all
    ultimately show ?thesis by (simp add: take_Suc_conv_app_nth)
  qed
qed simp

text \<open>
  The contract of a display a program writes text on: a ready display can be cleared and its
  cursor put anywhere, and where the cursor is known a character goes into its cell and the
  cursor to the next. What follows for whole messages is proved from the contract alone.
\<close>

locale ecran_texte =
  fixes pret :: "'s \<Rightarrow> bool"
    and aligne :: "'s \<Rightarrow> int \<Rightarrow> bool"
    and contenu :: "'s \<Rightarrow> octet list"
    and effacer :: "'s \<Rightarrow> 's option"
    and position :: "int \<Rightarrow> int \<Rightarrow> 's \<Rightarrow> 's option"
    and caractere :: "octet \<Rightarrow> 's \<Rightarrow> 's option"
  assumes aligne_pret: "aligne s p \<Longrightarrow> pret s"
    and effacer: "pret s \<Longrightarrow> \<exists>s'. effacer s = Some s' \<and> aligne s' 0 \<and> contenu s' = replicate 32 0x20"
    and position: "\<lbrakk>pret s; 0 \<le> x; x < 16; 0 \<le> y; y < 2\<rbrakk> \<Longrightarrow>
      \<exists>s'. position x y s = Some s' \<and> aligne s' (16 * y + x) \<and> contenu s' = contenu s"
    and caractere: "aligne s p \<Longrightarrow>
      \<exists>s'. caractere c s = Some s' \<and> aligne s' ((p + 1) mod 32) \<and> contenu s' = (contenu s)[nat p := c]"
begin

lemma chaine:
  "aligne s p \<Longrightarrow> \<exists>s'. foldM (\<lambda>c. caractere (f c)) m s = Some s' \<and> pret s' \<and>
     contenu s' = inscrire (map f m) p (contenu s)"
proof (induction m arbitrary: s p)
  case Nil
  then show ?case by (simp add: aligne_pret)
next
  case (Cons c m)
  from caractere [OF Cons.prems, of "f c"] obtain t where
    t: "caractere (f c) s = Some t" "aligne t ((p + 1) mod 32)" "contenu t = (contenu s)[nat p := f c]" by auto
  from Cons.IH [OF t(2)] t show ?case by simp
qed

lemma ecrire:
  assumes "pret s" "0 \<le> x" "x < 16" "0 \<le> y" "y < 2"
  shows "\<exists>s'. Option.bind (position x y s) (foldM (\<lambda>c. caractere (f c)) m) = Some s' \<and> pret s' \<and>
     contenu s' = inscrire (map f m) (16 * y + x) (contenu s)"
  using position [OF assms] chaine by fastforce

lemma page:
  assumes "pret s"
  shows "\<exists>s'. Option.bind (effacer s) (\<lambda>s. Option.bind (Option.bind (position 0 0 s) (foldM (\<lambda>c. caractere (f c)) a))
       (\<lambda>s. Option.bind (position 0 1 s) (foldM (\<lambda>c. caractere (f c)) b))) = Some s' \<and> pret s' \<and>
     contenu s' = inscrire (map f b) 16 (inscrire (map f a) 0 (replicate 32 0x20))"
proof -
  from effacer [OF assms] obtain s1 where 1: "effacer s = Some s1" "aligne s1 0" "contenu s1 = replicate 32 0x20" by auto
  from ecrire [OF aligne_pret [OF 1(2)], of 0 0 f a] obtain s2 where
    2: "Option.bind (position 0 0 s1) (foldM (\<lambda>c. caractere (f c)) a) = Some s2" "pret s2"
      "contenu s2 = inscrire (map f a) 0 (contenu s1)" by auto
  from ecrire [OF 2(2), of 0 1 f b] show ?thesis by (auto simp: 1 2 simp del: Option.bind_assoc)
qed

end

interpretation lcd: ecran_texte "lcd_pret d" "lcd_aligne d" "lcd_texte d" lcd_effacer lcd_position lcd_caractere
proof
  show "lcd_pret d w" if "lcd_aligne d w p" for w p
    using that by (rule lcd_aligne_pret)
  show "\<exists>w'. lcd_effacer w = Some w' \<and> lcd_aligne d w' 0 \<and> lcd_texte d w' = replicate 32 0x20"
    if "lcd_pret d w" for w
    using that by (rule lcd_effacer_juste)
  show "\<exists>w'. lcd_position x y w = Some w' \<and> lcd_aligne d w' (16 * y + x) \<and> lcd_texte d w' = lcd_texte d w"
    if "lcd_pret d w" "0 \<le> x" "x < 16" "0 \<le> y" "y < 2" for w x y
    using that by (rule lcd_position_juste)
  show "\<exists>w'. lcd_caractere c w = Some w' \<and> lcd_aligne d w' ((p + 1) mod 32) \<and>
      lcd_texte d w' = (lcd_texte d w)[nat p := c]" if "lcd_aligne d w p" for w p c
    using that by (rule lcd_caractere_juste)
qed

text \<open>
  Every screen of the game is made the same way: clear, one message on each line.
\<close>

definition lcd_page :: "string \<Rightarrow> string \<Rightarrow> peripheriques \<Rightarrow> peripheriques option" where
  "lcd_page a b w = do {
     w \<leftarrow> lcd_effacer w;
     w \<leftarrow> lcd_ecrire 0 0 a w;
     lcd_ecrire 0 1 b w
   }"

definition ligne_lcd :: "string \<Rightarrow> octet list" where
  "ligne_lcd m = map octet_de m @ replicate (16 - length m) 0x20"

lemma lcd_ecrire_bind:
  "lcd_ecrire x y m w = Option.bind (lcd_position x y w) (foldM (\<lambda>c. lcd_caractere (octet_de c)) (chaine_c m))"
  by (simp add: lcd_ecrire_def lcd_chaine_def [abs_def])

lemma lcd_page_pret:
  assumes "lcd_pret d w"
  shows "\<exists>w'. lcd_page a b w = Some w' \<and> lcd_pret d w' \<and> lcd_texte d w' =
    inscrire (map octet_de (chaine_c b)) 16 (inscrire (map octet_de (chaine_c a)) 0 (replicate 32 0x20))"
  using lcd.page [OF assms] by (simp add: lcd_page_def lcd_ecrire_bind)

text \<open> A message written inside one line. If the display is ready and \<open>lcd_ecrire\<close> is given a
  position on the screen and a message that ends before the end of the screen, the call returns,
  the cells from the position on hold the message, every other cell is as before, and the
  display is ready for the next call. \<close>

theorem lcd_ecrire_place:
  assumes "lcd_pret d w" and "0 \<le> x" "x < 16" "0 \<le> y" "y < 2"
    and "CHR 0x00 \<notin> set m" and "16 * y + x + int (length m) \<le> 32"
  shows "\<exists>w'. lcd_ecrire x y m w = Some w' \<and> lcd_pret d w' \<and> lcd_texte d w' =
    take (nat (16 * y + x)) (lcd_texte d w) @ map octet_de m @
    drop (nat (16 * y + x) + length m) (lcd_texte d w)"
proof -
  have "chaine_c m = m" using assms(6) by (auto simp: chaine_c_def)
  moreover have "length (lcd_texte d w) = 32" by (simp add: lcd_texte_def)
  ultimately show ?thesis
    using lcd.ecrire [OF assms(1-5), of octet_de m] assms
    by (auto simp: lcd_ecrire_bind inscrire_eq)
qed

text \<open>
  A page whose first message fits the line, or is one character too long while the second line
  is not empty: the seventeenth character is overwritten.
\<close>

lemma page_contenu:
  assumes "length a \<le> 17" and "0 < length b" "length b \<le> 16" and "CHR 0x00 \<notin> set a" "CHR 0x00 \<notin> set b"
  shows "inscrire (map octet_de (chaine_c b)) 16 (inscrire (map octet_de (chaine_c a)) 0 (replicate 32 0x20)) =
    ligne_lcd (take 16 a) @ ligne_lcd b"
proof -
  have c: "chaine_c a = a" "chaine_c b = b" using assms by (auto simp: chaine_c_def)
  have "inscrire (map octet_de a) 0 (replicate 32 0x20) = map octet_de a @ replicate (32 - length a) 0x20"
    using assms by (subst inscrire_eq) auto
  then have "inscrire (map octet_de b) 16 (inscrire (map octet_de a) 0 (replicate 32 0x20)) =
      take 16 (map octet_de a @ replicate (32 - length a) 0x20) @ map octet_de b @
      drop (16 + length b) (map octet_de a @ replicate (32 - length a) 0x20)"
    using assms by (subst inscrire_eq) auto
  moreover have "drop (16 + length b) (map octet_de a @ replicate (32 - length a) 0x20) =
      (replicate (16 - length b) 0x20 :: octet list)"
  proof -
    have "length a \<le> 16 + length b" using assms(1,2) by linarith
    then show ?thesis by simp
  qed
  moreover have "take 16 (map octet_de a @ replicate (32 - length a) 0x20) = ligne_lcd (take 16 a)"
    using assms by (auto simp: ligne_lcd_def take_map min_def)
  ultimately show ?thesis by (simp add: c ligne_lcd_def)
qed

lemma lcd_page_texte:
  assumes "lcd_pret d w"
    and "length a \<le> 17" "0 < length b" "length b \<le> 16" "CHR 0x00 \<notin> set a" "CHR 0x00 \<notin> set b"
  shows "\<exists>w'. lcd_page a b w = Some w' \<and> lcd_pret d w' \<and> lcd_texte d w' = ligne_lcd (take 16 a) @ ligne_lcd b"
  using lcd_page_pret [OF assms(1), of a b] page_contenu [OF assms(2-)] by simp

text \<open>Events of other components leave the display alone.\<close>

lemma lcd_autres:
  assumes "\<And>e. e \<in> set es \<Longrightarrow> \<not> hd44780_concerne e"
  shows "lcd_pret d (consigne es w) = lcd_pret d w" "lcd_texte d (consigne es w) = lcd_texte d w"
    "lcd_aligne d (consigne es w) p = lcd_aligne d w p"
proof -
  have "hd44780_de d (journal (consigne es w)) = hd44780_de d (journal w)"
    by (simp add: hd44780.fold_ignore [OF assms])
  then show "lcd_pret d (consigne es w) = lcd_pret d w" "lcd_texte d (consigne es w) = lcd_texte d w"
    "lcd_aligne d (consigne es w) p = lcd_aligne d w p"
    by (simp_all only: lcd_pret_def lcd_texte_def lcd_aligne_def lcd_struct_ok_consigne)
qed

section \<open>Initialisation\<close>

text \<open>
  Whatever the state of the controller, the first four nibbles of \<open>lcd_init\<close> bring it to the
  four bit mode with no half byte pending.
\<close>

definition hd_nib :: "octet \<Rightarrow> hd44780 \<Rightarrow> hd44780" where
  "hd_nib q d = (hd_echantillon (d\<lparr>broche_rs := 0, broche_db := db_quartet q (broche_db d)\<rparr>))\<lparr>broche_e := 0\<rparr>"

lemma hd_nibble: "fold hd44780_pas (Gpio (DigitalWrite AF_RS 0) # evts_quartet q @ evts_strobe) d = hd_nib q d"
  by (simp add: hd_quartet hd_strobe hd_nib_def)

lemma hd_nib_8:
  assumes "\<not> mode4 (coeur d)"
  shows "demi (hd_nib q d) = None"
    "coeur (hd_nib q d) = hd_instruction (word_of_int (uint q mod 16 * 16)) (coeur d)"
  using assms by (simp_all add: hd_nib_def hd_echantillon_def hd_executer_def)

lemma hd_nib_4:
  assumes "mode4 (coeur d)"
  shows "demi (hd_nib q d) = (case demi d of None \<Rightarrow> Some (uint q mod 16) | Some h \<Rightarrow> None)"
    "coeur (hd_nib q d) = (case demi d of None \<Rightarrow> coeur d
       | Some h \<Rightarrow> hd_instruction (word_of_int (h * 16 + uint q mod 16)) (coeur d))"
  using assms by (simp_all add: hd_nib_def hd_echantillon_def hd_executer_def split: option.split)

lemma hd_func: "hd_instruction 0x20 k = k\<lparr>mode4 := True, deux_lignes := False\<rparr>"
  "hd_instruction 0x30 k = k\<lparr>mode4 := False, deux_lignes := False\<rparr>"
  "hd_instruction 0x33 k = k\<lparr>mode4 := False, deux_lignes := False\<rparr>"
  "hd_instruction 0x28 k = k\<lparr>mode4 := True, deux_lignes := True\<rparr>"
  by (simp_all add: hd_instruction_def)

lemma hd_trois_8:
  assumes "\<not> mode4 (coeur d)"
  shows "\<not> mode4 (coeur (hd_nib 3 d))" "demi (hd_nib 3 d) = None"
  using assms by (simp_all add: hd_nib_8 hd_func)

lemma hd_trois_4:
  assumes "mode4 (coeur d)" "demi d = None"
  shows "\<not> mode4 (coeur (hd_nib 3 (hd_nib 3 d)))" "demi (hd_nib 3 (hd_nib 3 d)) = None"
  using assms by (simp_all add: hd_nib_4 hd_func)

lemma hd_synchronise:
  shows "mode4 (coeur (hd_nib 2 (hd_nib 3 (hd_nib 3 (hd_nib 3 d)))))"
    and "demi (hd_nib 2 (hd_nib 3 (hd_nib 3 (hd_nib 3 d)))) = None"
proof -
  have "\<not> mode4 (coeur (hd_nib 3 (hd_nib 3 (hd_nib 3 d))))"
  proof (cases "mode4 (coeur d)")
    case False
    then show ?thesis by (simp add: hd_trois_8)
  next
    case True
    show ?thesis
    proof (cases "demi d")
      case None
      with True show ?thesis by (simp add: hd_trois_4 hd_trois_8)
    next
      case (Some h)
      with True have n: "demi (hd_nib 3 d) = None" by (simp add: hd_nib_4)
      show ?thesis
        by (cases "mode4 (coeur (hd_nib 3 d))") (simp_all add: n hd_trois_4 hd_trois_8)
    qed
  qed
  then show "mode4 (coeur (hd_nib 2 (hd_nib 3 (hd_nib 3 (hd_nib 3 d)))))"
    "demi (hd_nib 2 (hd_nib 3 (hd_nib 3 (hd_nib 3 d)))) = None"
    by (simp_all add: hd_nib_8 hd_func)
qed

text \<open>Then commands one after the other.\<close>

definition hd_cmd :: "octet \<Rightarrow> hd44780 \<Rightarrow> hd44780" where
  "hd_cmd c d = hd_recu c (d\<lparr>broche_rs := 0\<rparr>)"

definition evts_commande :: "octet \<Rightarrow> event list" where
  "evts_commande c = Gpio (DigitalWrite AF_RS 0) # evts_octet c @ [Sys (Delay 2)]"

lemma hd_cmd_simps [simp]: "coeur (hd_cmd c d) = hd_instruction c (coeur d)" "demi (hd_cmd c d) = None"
  by (simp_all add: hd_cmd_def hd_executer_def) (simp add: hd_recu_def)

lemma hd_commande_libre:
  "\<lbrakk>mode4 (coeur d); demi d = None\<rbrakk> \<Longrightarrow> fold hd44780_pas (evts_commande c) d = hd_cmd c d"
  by (simp add: evts_commande_def hd_octet hd_cmd_def)

lemma putCommand_evts:
  "\<lbrakk>lcd_standard l; bits l = 4\<rbrakk> \<Longrightarrow> putCommand l c w = consigne (evts_commande c) w"
  by (simp add: putCommand_standard evts_commande_def)

definition lcd_globales :: "peripheriques \<Rightarrow> bool" where
  "lcd_globales w \<longleftrightarrow> length (lcds w) = MAX_LCDS \<and> 0 \<le> lcdControl w \<and> lcdControl w < 8 \<and>
     -1 \<le> lcdHandle w \<and> lcdHandle w < 8"

lemma controle_bits:
  assumes "0 \<le> c" "c < (8::int)"
  shows "word_of_int (8 OR (c OR 4)) \<in> {0x0C, 0x0D, 0x0E, 0x0F :: octet}"
    "((c OR 4) AND NOT 2) AND NOT 1 = 4" "0 \<le> c OR 4" "c OR 4 < 8"
proof -
  have "c \<in> {0, 1, 2, 3, 4, 5, 6, 7}" using assms by (simp; presburger)
  then show "word_of_int (8 OR (c OR 4)) \<in> {0x0C, 0x0D, 0x0E, 0x0F :: octet}"
    "((c OR 4) AND NOT 2) AND NOT 1 = 4" "0 \<le> c OR 4" "c OR 4 < 8"
    by auto
qed

definition evts_nibble :: "octet \<Rightarrow> event list" where
  "evts_nibble q = Gpio (DigitalWrite AF_RS 0) # evts_quartet q @ evts_strobe"

lemma fold_evts_nibble: "fold hd44780_pas (evts_nibble q) d = hd_nib q d"
  unfolding evts_nibble_def by (rule hd_nibble)

lemma put4Command_evts: "lcd_standard l \<Longrightarrow> put4Command l c w = consigne (evts_nibble c) w"
  by (simp add: put4Command_standard evts_nibble_def)

lemma hd_controle:
  assumes "0 \<le> a" "a < (8::int)"
  shows "hd_instruction (word_of_int (8 OR a)) k = k\<lparr>affiche := bit a 2, curseur := bit a 1, clignote := bit a 0\<rparr>"
proof -
  have "take_bit 3 a = a" using assms by (simp add: take_bit_eq_mod)
  then have a: "bit a n \<longleftrightarrow> n < 3 \<and> bit a n" for n
    by (metis bit_take_bit_iff)
  have b: "bit (word_of_int (8 OR a) :: octet) n \<longleftrightarrow> n < 8 \<and> (n = 3 \<or> bit a n)" for n
    using bit_exp_iff [of 3 n, where ?'a = int] by (simp only: bit_word_of_int_iff bit_or_iff) auto
  have "\<not> bit a 7" "\<not> bit a 6" "\<not> bit a 5" "\<not> bit a 4" "\<not> bit a 3"
    using a [of 7] a [of 6] a [of 5] a [of 4] a [of 3] by simp_all
  then show ?thesis by (simp add: hd_instruction_def b)
qed

definition evts_broches_lcd :: "event list" where
  "evts_broches_lcd =
     [Gpio (DigitalWrite AF_RS 0), Gpio (PinMode AF_RS OUTPUT), Gpio (DigitalWrite AF_STRB 0),
      Gpio (PinMode AF_STRB OUTPUT), Gpio (DigitalWrite AF_DB4 0), Gpio (PinMode AF_DB4 OUTPUT),
      Gpio (DigitalWrite AF_DB5 0), Gpio (PinMode AF_DB5 OUTPUT), Gpio (DigitalWrite AF_DB6 0),
      Gpio (PinMode AF_DB6 OUTPUT), Gpio (DigitalWrite AF_DB7 0), Gpio (PinMode AF_DB7 OUTPUT),
      Sys (Delay 35)]"

lemma lcd_broches_evts: "lcd_broches nouveau_lcd w = consigne evts_broches_lcd w"
  by (simp add: lcd_broches_def nouveau_lcd_def evts_broches_lcd_def upt_4 Let_def digitalWrite_def pinMode_def delay_def)

definition lcd4 :: lcdDataStruct where
  "lcd4 = nouveau_lcd\<lparr>bits := 4\<rparr>"

lemma lcd4_simps: "lcd_standard nouveau_lcd" "lcd_standard lcd4" "bits lcd4 = 4" "cx lcd4 = 0" "cy lcd4 = 0"
  "lcd4\<lparr>cy := 0, cx := 0\<rparr> = lcd4"
  by (simp_all add: lcd_standard_def lcd4_def nouveau_lcd_def)

lemma lcd_courant_champs [simp]:
  "lcd_courant (w\<lparr>lcdControl := c\<rparr>) = lcd_courant w"
  by (simp add: lcd_courant_def)

lemma lcd_courant_range:
  "\<lbrakk>0 \<le> lcdHandle w; lcdHandle w < 8; length (lcds w) = 8\<rbrakk> \<Longrightarrow> lcd_courant (ranger_lcd l w) = Some l"
  by (auto simp: lcd_courant_def ranger_lcd_def)

lemma ranger_courant:
  assumes "lcd_courant w = Some l"
  shows "ranger_lcd l w = w"
proof -
  from assms have "lcds w ! nat (lcdHandle w) = Some l" by (simp add: lcd_courant_def split: if_splits)
  then have "(lcds w)[nat (lcdHandle w) := Some l] = lcds w" by (metis list_update_id)
  then show ?thesis by (simp add: ranger_lcd_def)
qed

definition evts_demarrer :: "int \<Rightarrow> event list" where
  "evts_demarrer c = evts_broches_lcd @ evts_nibble 3 @ [Sys (Delay 35)] @ evts_nibble 3 @ [Sys (Delay 35)] @
     evts_nibble 3 @ [Sys (Delay 35)] @ evts_nibble 2 @ [Sys (Delay 35)] @
     evts_commande 0x28 @ [Sys (Delay 35)] @
     evts_commande (word_of_int (LCD_CTRL OR (c OR 4))) @
     evts_commande (word_of_int (LCD_CTRL OR ((c OR 4) AND NOT 2))) @
     evts_commande 0x0C @
     evts_commande 0x01 @ evts_commande 0x02 @ [Sys (Delay 5)] @ evts_commande 0x06 @ evts_commande 0x14"

lemma lcd_demarrer_eq:
  assumes "0 \<le> lcdHandle w" "lcdHandle w < 8" "length (lcds w) = 8" and c: "0 \<le> lcdControl w" "lcdControl w < 8"
  shows "lcd_demarrer nouveau_lcd w =
    Some (lcdHandle w, consigne (evts_demarrer (lcdControl w)) ((ranger_lcd lcd4 w)\<lparr>lcdControl := 4\<rparr>))"
proof -
  have r: "lcd_courant (ranger_lcd lcd4 w) = Some lcd4" using assms by (intro lcd_courant_range)
  have r': "ranger_lcd lcd4 ((ranger_lcd lcd4 w)\<lparr>lcdControl := c\<rparr>) = (ranger_lcd lcd4 w)\<lparr>lcdControl := c\<rparr>" for c
    using r by (intro ranger_courant) simp
  have x: "lcdControl (ranger_lcd lcd4 w) = lcdControl w" "lcdHandle (ranger_lcd lcd4 w) = lcdHandle w"
    by (simp_all add: ranger_lcd_def)
  show ?thesis
    using controle_bits(2) [OF c]
    by (simp add: lcd_demarrer_def lcd_broches_evts put4Command_evts lcd4_simps lcd4_def [symmetric]
      putCommand_evts lcd_affichage_def lcd_curseur_def lcd_curseur_clignote_def lcd_effacer_def
      r r' x delay_def evts_demarrer_def Let_def)
qed

lemma hd_demarrer:
  assumes c: "0 \<le> c" "c < 8"
  shows "demi (fold hd44780_pas (evts_demarrer c) d) = None \<and>
    (\<exists>k. coeur (fold hd44780_pas (evts_demarrer c) d) = k\<lparr>mode4 := True, deux_lignes := True, affiche := True,
      curseur := False, clignote := False, ddram := (\<lambda>_. 0x20), croissant := True, ac := 1, en_cgram := False\<rparr>)"
proof -
  define d0 where "d0 = fold hd44780_pas evts_broches_lcd d"
  define d1 where "d1 = hd_nib 2 (hd_nib 3 (hd_nib 3 (hd_nib 3 d0)))"
  define c1 where "c1 = (word_of_int (8 OR (c OR 4)) :: octet)"
  define c2 where "c2 = (word_of_int (8 OR ((c OR 4) AND NOT 2)) :: octet)"
  have s: "mode4 (coeur d1)" "demi d1 = None" unfolding d1_def by (rule hd_synchronise)+
  have i1: "\<And>k. mode4 (hd_instruction c1 k) = mode4 k" "\<And>k. deux_lignes (hd_instruction c1 k) = deux_lignes k"
    unfolding c1_def hd_controle [OF controle_bits(3,4) [OF c]] by simp_all
  have r2: "0 \<le> (c OR 4) AND NOT 2" "(c OR 4) AND NOT 2 < 8"
    using controle_bits(3,4) [OF c] AND_upper1 [of "c OR 4" "NOT 2"] by simp_all
  have i2: "\<And>k. mode4 (hd_instruction c2 k) = mode4 k" "\<And>k. deux_lignes (hd_instruction c2 k) = deux_lignes k"
    unfolding c2_def hd_controle [OF r2] by simp_all
  have i3: "\<And>k. hd_instruction 0x0C k = k\<lparr>affiche := True, curseur := False, clignote := False\<rparr>"
    "\<And>k. hd_instruction 0x06 k = k\<lparr>croissant := True\<rparr>"
    "\<And>k. hd_instruction 0x14 k = k\<lparr>ac := ac_suivant (ac k)\<rparr>"
    by (simp_all add: hd_instruction_def)
  define k1 where "k1 = hd_instruction c2 (hd_instruction c1 ((coeur d1)\<lparr>mode4 := True, deux_lignes := True\<rparr>))"
  have k1: "mode4 k1" "deux_lignes k1" by (simp_all add: k1_def i1 i2)
  have "fold hd44780_pas (evts_demarrer c) d =
      hd_cmd 0x14 (hd_cmd 0x06 (hd_cmd 0x02 (hd_cmd 0x01 (hd_cmd 0x0C (hd_cmd c2 (hd_cmd c1 (hd_cmd 0x28 d1)))))))"
    using s by (simp add: evts_demarrer_def [of c, folded c1_def c2_def] fold_evts_nibble hd_commande_libre d0_def [symmetric] d1_def [symmetric]
      hd_func i1 i2 i3 hd_clear hd_home)
  then show ?thesis
    using k1 by (intro conjI exI [of _ k1])
      (simp_all add: hd_func i3 hd_clear hd_home ac_suivant_def k1_def [symmetric])
qed

lemma lcd_demarrer_pret:
  assumes "0 \<le> lcdHandle w" "lcdHandle w < 8" "length (lcds w) = 8" and c: "0 \<le> lcdControl w" "lcdControl w < 8"
  shows "\<exists>w'. lcd_demarrer nouveau_lcd w = Some (lcdHandle w, w') \<and> lcd_globales w' \<and> lcdHandle w' = lcdHandle w \<and>
    lcd_pret d w' \<and> lcd_texte d w' = replicate 32 0x20 \<and>
    ac (coeur (hd44780_de d (journal w'))) = 1 \<and> \<not> curseur (coeur (hd44780_de d (journal w')))"
proof -
  let ?w' = "consigne (evts_demarrer (lcdControl w)) ((ranger_lcd lcd4 w)\<lparr>lcdControl := 4\<rparr>)"
  have "lcd_courant (ranger_lcd lcd4 w) = Some lcd4" using assms by (intro lcd_courant_range)
  then have "lcd_struct_ok ?w' lcd4"
    using assms by (simp add: lcd_struct_ok_def lcd4_simps) (simp add: ranger_lcd_def)
  moreover have "lcd_globales ?w'" using assms by (simp add: lcd_globales_def ranger_lcd_def)
  moreover have "lcdHandle ?w' = lcdHandle w" by (simp add: ranger_lcd_def)
  moreover have e: "hd44780_de d (journal ?w') = fold hd44780_pas (evts_demarrer (lcdControl w)) (hd44780_de d (journal w))"
    by simp
  moreover obtain k where
    "coeur (hd44780_de d (journal ?w')) = k\<lparr>mode4 := True, deux_lignes := True, affiche := True,
      curseur := False, clignote := False, ddram := (\<lambda>_. 0x20), croissant := True, ac := 1, en_cgram := False\<rparr>"
    "demi (hd44780_de d (journal ?w')) = None"
    using hd_demarrer [OF c] unfolding e by blast
  ultimately show ?thesis
    unfolding lcd_demarrer_eq [OF assms] lcd_pret_def lcd_texte_def
    by (intro exI [of _ ?w']) (auto simp: hd_ok_def cellules_def map_replicate_const simp del: journal_consigne)
qed

lemma lcd_globales_consigne [simp]: "lcd_globales (consigne es w) = lcd_globales w"
  by (simp add: lcd_globales_def)

lemma chercher_libre_borne:
  assumes "-1 \<le> h" "h < 8" "0 \<le> i"
  shows "-1 \<le> chercher_libre i ls h \<and> (chercher_libre i ls h < i + int (length ls) \<or> chercher_libre i ls h = h)"
  using assms by (induction i ls h rule: chercher_libre.induct) auto

lemma length_fold_update: "length (fold (\<lambda>i l. l[i := x]) is ls) = length ls"
  by (induction "is" arbitrary: ls) auto

lemma fold_writeReg8: "fold (\<lambda>i. wiringPiI2CWriteReg8 fd (int i) v) is w = consigne (map (\<lambda>i. I2c (I2CWriteReg8 fd (int i) v)) is) w"
  by (induction "is" arbitrary: w) (simp_all add: wiringPiI2CWriteReg8_def)

text \<open> C23: initialisation of the display. Whatever the state the controller was left in
  (four or eight bit mode, half a byte pending), and whatever the host answers, \<open>lcd_init\<close>
  returns; when it does not return -1 the controller is in the four bit, two line mode, the
  screen is blank, and the display is ready for the calls of the game. \<close>

theorem lcd_init_pret:
  assumes "lcd_globales w"
  shows "\<exists>h w'. lcd_init E w = Some (h, w') \<and> lcd_globales w' \<and>
    (h = -1 \<or> (h = lcdHandle w' \<and> lcd_pret d w' \<and> lcd_texte d w' = replicate 32 0x20))"
proof -
  let ?w1 = "if initialised w = 0
    then w\<lparr>initialised := 1, lcds := fold (\<lambda>i l. l[i := None]) [0..<MAX_LCDS] (lcds w)\<rparr> else w"
  define w1 where "w1 = ?w1"
  define h where "h = chercher_libre 0 (lcds w1) (lcdHandle w1)"
  have g1: "lcd_globales w1" using assms by (auto simp: w1_def lcd_globales_def length_fold_update)
  then have h: "-1 \<le> h" "h < 8"
    using chercher_libre_borne [of "lcdHandle w1" 0 "lcds w1"] by (auto simp: h_def lcd_globales_def)
  have g2: "lcd_globales (w1\<lparr>lcdHandle := h\<rparr>)" using g1 h by (simp add: lcd_globales_def)
  have u: "(consigne es w)\<lparr>lcdHandle := h\<rparr> = consigne es (w\<lparr>lcdHandle := h\<rparr>)" for es w
    by simp
  have d: "\<exists>h' w'. lcd_demarrer nouveau_lcd (ranger_lcd nouveau_lcd (consigne es (w1\<lparr>lcdHandle := h\<rparr>))) = Some (h', w') \<and>
    lcd_globales w' \<and> (h' = -1 \<or> (h' = lcdHandle w' \<and> lcd_pret d w' \<and> lcd_texte d w' = replicate 32 0x20))"
    if "h \<noteq> -1" for es
  proof -
    let ?w2 = "ranger_lcd nouveau_lcd (consigne es (w1\<lparr>lcdHandle := h\<rparr>))"
    have w2: "lcdHandle ?w2 = h" "length (lcds ?w2) = 8" "0 \<le> lcdControl ?w2" "lcdControl ?w2 < 8"
      using g2 by (auto simp: lcd_globales_def ranger_lcd_def)
    then have "0 \<le> lcdHandle ?w2" "lcdHandle ?w2 < 8" using that h by linarith+
    from lcd_demarrer_pret [OF this w2(2-4), of d] show ?thesis by metis
  qed
  show ?thesis
    using g1 g2
    by (simp add: lcd_init_def w1_def [symmetric] wiringPiI2CSetup_def malloc_def fold_writeReg8
      wiringPiSetupSys_def mcp23008Setup_def pinMode_def u h_def [symmetric] Let_def d del: ranger_lcd_consigne)
       auto
qed

theorem lcd_init_pret_temoin:
  "\<exists>h w'. lcd_init hote_calme etat_initial = Some (h, w') \<and> lcd_globales w' \<and>
    (h = -1 \<or> (h = lcdHandle w' \<and> lcd_pret hd_allume w' \<and> lcd_texte hd_allume w' = replicate 32 0x20))"
  by (rule lcd_init_pret) (simp add: lcd_globales_def etat_initial_def)

section \<open>Messages, faults and the end\<close>

text \<open> C24: a screen of the game. Clearing a ready display and writing one message on each line
  returns, and the two lines then show the messages padded with blanks. A first message of
  seventeen characters (\<open>Cherchez la forme\<close>, \<open>Mauvaise reponse!\<close>) loses its last character:
  it wraps to the second line and is overwritten there. \<close>

theorem lcd_page_affichee:
  assumes "lcd_pret d w"
    and "length a \<le> 17" "0 < length b" "length b \<le> 16" "CHR 0x00 \<notin> set a" "CHR 0x00 \<notin> set b"
  shows "\<exists>w'. lcd_page a b w = Some w' \<and> lcd_pret d w' \<and> lcd_texte d w' = ligne_lcd (take 16 a) @ ligne_lcd b"
  by (rule lcd_page_texte [OF assms])

text \<open>A ready display to use in the examples: what \<open>lcd_demarrer\<close> leaves on the first entry.\<close>

definition etat_lcd :: peripheriques where
  "etat_lcd = consigne (evts_demarrer 0)
     (etat_initial\<lparr>lcds := [Some lcd4, None, None, None, None, None, None, None], lcdHandle := 0, lcdControl := 4\<rparr>)"

lemma etat_lcd_pret: "lcd_pret hd_allume etat_lcd"
proof -
  have "lcd_demarrer nouveau_lcd (etat_initial\<lparr>lcdHandle := 0\<rparr>) = Some (0, etat_lcd)"
    by (subst lcd_demarrer_eq) (simp_all add: etat_initial_def etat_lcd_def ranger_lcd_def)
  with lcd_demarrer_pret [of "etat_initial\<lparr>lcdHandle := 0\<rparr>" hd_allume] show ?thesis
    by (simp add: etat_initial_def)
qed

theorem lcd_page_affichee_temoin:
  "\<exists>w'. lcd_page ''Mauvaise reponse!'' ''Temps: 4.2 s'' etat_lcd = Some w' \<and> lcd_pret hd_allume w' \<and>
     lcd_texte hd_allume w' = ligne_lcd ''Mauvaise reponse'' @ ligne_lcd ''Temps: 4.2 s''"
  using lcd_page_affichee [OF etat_lcd_pret, of "''Mauvaise reponse!''" "''Temps: 4.2 s''"] by simp

theorem lcd_ecrire_place_temoin:
  "\<exists>w'. lcd_ecrire 3 1 ''ab'' etat_lcd = Some w' \<and> lcd_pret hd_allume w' \<and> lcd_texte hd_allume w' =
    take (nat (16 * 1 + 3)) (lcd_texte hd_allume etat_lcd) @ map octet_de ''ab'' @
    drop (nat (16 * 1 + 3) + length ''ab'') (lcd_texte hd_allume etat_lcd)"
  by (rule lcd_ecrire_place [OF etat_lcd_pret]) simp_all

text \<open> C25: one character at a time. On a display whose cursor is where the driver believes it
  is, a character goes into the cell of the cursor and changes no other; the cursor moves to
  the next cell, from the end of the first line to the second (whose memory is elsewhere in the
  controller) and from the end of the second back to the first. \<close>

theorem lcd_caractere_cellule:
  assumes "lcd_aligne d w p"
  shows "\<exists>w'. lcd_caractere c w = Some w' \<and> lcd_aligne d w' ((p + 1) mod 32) \<and>
    lcd_texte d w' = (lcd_texte d w)[nat p := c]"
  by (rule lcd_caractere_juste [OF assms])

lemma lcd_position_temoin:
  obtains w where "lcd_position 15 0 etat_lcd = Some w" and "lcd_aligne hd_allume w 15"
  using lcd_position_juste [OF etat_lcd_pret, of 15 0] by auto

theorem lcd_caractere_cellule_temoin:
  "\<exists>w w'. lcd_position 15 0 etat_lcd = Some w \<and> lcd_caractere 0x23 w = Some w' \<and> lcd_aligne hd_allume w' 16 \<and>
    lcd_texte hd_allume w' = (lcd_texte hd_allume w)[15 := 0x23]"
proof -
  obtain w where w: "lcd_position 15 0 etat_lcd = Some w" "lcd_aligne hd_allume w 15" by (rule lcd_position_temoin)
  from lcd_caractere_cellule [OF w(2), of "0x23"] w(1) show ?thesis by auto
qed

text \<open> The guards of \<open>lcd_position\<close>. A column below 0 or above 16, or a line below 0 or
  above 2, leaves the process as it was, without a word to the controller. The guards compare
  with \<open>>\<close> where \<open>>=\<close> is meant: column 16 and line 2, which the display does not have, are
  accepted and recorded, and the structure is then no longer one a call can rely on. \<close>

theorem lcd_position_garde:
  assumes "lcd_struct_ok w l"
  shows "lcd_position x y w =
    (if x < 0 \<or> x > 16 \<or> y < 0 \<or> y > 2 then Some w
     else Some (ranger_lcd (l\<lparr>cx := x, cy := y\<rparr>)
       (consigne (evts_commande (word_of_int (x + (LCD_DGRAM OR rowOff ! nat y)))) w)))"
  using lcd_struct_okD [OF assms]
  by (simp add: lcd_position_def rowOff_lire_def putCommand_evts del: ranger_lcd_consigne)

theorem lcd_position_garde_temoin:
  "lcd_position 16 2 etat_lcd = Some (ranger_lcd (lcd4\<lparr>cx := 16, cy := 2\<rparr>)
       (consigne (evts_commande (word_of_int (16 + (LCD_DGRAM OR rowOff ! nat 2)))) etat_lcd))"
proof -
  have "lcd_struct_ok etat_lcd lcd4"
    by (simp add: lcd_struct_ok_def etat_lcd_def lcd4_simps lcd_courant_def etat_initial_def)
  from lcd_position_garde [OF this, of 16 2] show ?thesis by simp
qed

text \<open>User-defined characters: eight rows of the character memory.\<close>

lemma hd_donnees_cgram:
  "\<lbrakk>en_cgram k; croissant k; 0 \<le> ac k; ac k + int (length cs) \<le> 64\<rbrakk> \<Longrightarrow>
     fold hd_donnee cs k = k\<lparr>cgram := (\<lambda>a. if ac k \<le> a \<and> a < ac k + int (length cs) then cs ! nat (a - ac k) else cgram k a),
       ac := (ac k + int (length cs)) mod 64\<rparr> \<or> cs = []"
proof (induction cs arbitrary: k)
  case Nil
  then show ?case by simp
next
  case (Cons c cs)
  let ?k = "hd_donnee c k"
  have k: "?k = k\<lparr>cgram := (cgram k)(ac k := c), ac := (ac k + 1) mod 64\<rparr>" using Cons.prems by (simp add: hd_donnee_def)
  show ?case
  proof (cases "cs = []")
    case True
    then show ?thesis using Cons.prems by (auto simp: k fun_eq_iff)
  next
    case False
    then have "1 \<le> length cs" by (cases cs) simp_all
    then have "0 \<le> ac k + 1" "ac k + 1 < 64" using Cons.prems by simp_all
    then have a: "ac ?k = ac k + 1" by (simp add: k)
    have "fold hd_donnee cs ?k = ?k\<lparr>cgram := (\<lambda>a. if ac ?k \<le> a \<and> a < ac ?k + int (length cs) then cs ! nat (a - ac ?k) else cgram ?k a),
       ac := (ac ?k + int (length cs)) mod 64\<rparr>"
      using Cons.IH [of ?k] Cons.prems a False by (simp add: k)
    moreover have "(\<lambda>a. if ac ?k \<le> a \<and> a < ac ?k + int (length cs) then cs ! nat (a - ac ?k) else cgram ?k a) =
        (\<lambda>a. if ac k \<le> a \<and> a < ac k + int (length (c # cs)) then (c # cs) ! nat (a - ac k) else cgram k a)"
    proof
      fix b
      have "nat (b - ac k) = Suc (nat (b - (ac k + 1)))" if "ac k < b" using that by simp
      then show "(if ac ?k \<le> b \<and> b < ac ?k + int (length cs) then cs ! nat (b - ac ?k) else cgram ?k b) =
        (if ac k \<le> b \<and> b < ac k + int (length (c # cs)) then (c # cs) ! nat (b - ac k) else cgram k b)"
        unfolding a by (auto simp: k)
    qed
    ultimately show ?thesis unfolding a by (simp add: k add_ac)
  qed
qed

lemma hd_octets_donnees:
  "\<lbrakk>mode4 (coeur d); demi d = None; broche_rs d = 1\<rbrakk> \<Longrightarrow>
     coeur (fold hd44780_pas (concat (map evts_octet cs)) d) = fold hd_donnee cs (coeur d) \<and>
     demi (fold hd44780_pas (concat (map evts_octet cs)) d) = None"
proof (induction cs arbitrary: d)
  case (Cons c cs)
  have "mode4 (hd_donnee c (coeur d)) = mode4 (coeur d)" by (simp add: hd_donnee_def)
  moreover have "coeur (hd_recu c d) = hd_donnee c (coeur d)" using Cons.prems by (simp add: hd_executer_def)
  moreover have "demi (hd_recu c d) = None" "broche_rs (hd_recu c d) = broche_rs d" by (simp_all add: hd_recu_def)
  ultimately show ?case using Cons.prems Cons.IH [of "hd_recu c d"] by (simp add: hd_octet)
qed simp

lemma fold_sendDataCmd:
  "\<lbrakk>lcd_standard l; bits l = 4\<rbrakk> \<Longrightarrow>
     fold (\<lambda>i. sendDataCmd l (data ! i)) is w = consigne (concat (map (\<lambda>i. evts_octet (data ! i)) is)) w"
  by (induction "is" arbitrary: w) (simp_all add: sendDataCmd_standard)

lemma hd_cgram_debut:
  assumes "0 \<le> a" "a < 64"
  shows "hd_instruction (word_of_int (64 + a)) k = k\<lparr>ac := a, en_cgram := True\<rparr>"
proof -
  have "(64 + a) div 64 = 1" "(64 + a) div 128 = 0" using assms by simp_all
  then have "bit (64 + a) 6" "\<not> bit (64 + a) 7" by (simp_all add: bit_iff_odd)
  then have "bit (word_of_int (64 + a) :: octet) 6" "\<not> bit (word_of_int (64 + a) :: octet) 7"
    by (simp_all only: bit_word_of_int_iff) simp_all
  moreover have "uint ((word_of_int (64 + a) :: octet) AND 0x3F) = a"
  proof -
    have "uint (word_of_int (64 + a) :: octet) = 64 + a"
      using assms by (simp only: uint_word_of_int) simp
    then have "uint ((word_of_int (64 + a) :: octet) AND 0x3F) = (64 + a) AND 63"
      by (simp only: unsigned_and_eq) simp
    also have "\<dots> = a"
      using assms take_bit_eq_mask [of 6 "64 + a"] by (simp add: take_bit_eq_mod mask_eq_exp_minus_1)
    finally show ?thesis .
  qed
  ultimately show ?thesis by (simp add: hd_instruction_def)
qed

lemma hd_cgram_adresse:
  "hd_instruction (word_of_int (LCD_CGRAM OR push_bit 3 (i AND 7))) k = k\<lparr>ac := 8 * (i mod 8), en_cgram := True\<rparr>"
proof -
  define m where "m = i mod 8"
  have "i AND 7 = m" using take_bit_eq_mask [of 3 i] by (simp add: take_bit_eq_mod mask_eq_exp_minus_1 m_def)
  moreover have m: "0 \<le> m" "m < 8" by (simp_all add: m_def)
  then have "m \<in> {0, 1, 2, 3, 4, 5, 6, 7}" by (simp; presburger)
  then have "64 OR push_bit 3 m = 64 + 8 * m" by auto
  ultimately have "(64 OR push_bit 3 (i AND 7)) = 64 + 8 * m" by (simp only:)
  then show ?thesis
    using hd_cgram_debut [of "8 * m" k] m by (simp add: m_def)
qed

text \<open>
  On a ready display \<open>lcd_def_caractere\<close> stores the eight rows of character \<open>index mod 8\<close> in the
  character memory and changes neither the other characters nor the text shown, and the display stays
  ready. (The controller is left addressing the character memory: a position has to be set before
  text is written.)
\<close>

lemma lcd_def_caractere_memoire:
  assumes "lcd_pret d w" and "0 \<le> index" and "length data = 8"
  shows "\<exists>w'. lcd_def_caractere index data w = Some w' \<and> lcd_pret d w' \<and> lcd_texte d w' = lcd_texte d w \<and>
    cgram (coeur (hd44780_de d (journal w'))) =
      (\<lambda>a. if 8 * (index mod 8) \<le> a \<and> a < 8 * (index mod 8) + 8 then data ! nat (a - 8 * (index mod 8))
           else cgram (coeur (hd44780_de d (journal w))) a)"
proof -
  from assms(1) obtain l where l: "lcd_struct_ok w l" and d: "hd_ok (hd44780_de d (journal w))"
    by (auto simp: lcd_pret_def)
  note L = lcd_struct_okD [OF l]
  let ?d = "hd44780_de d (journal w)"
  let ?c = "word_of_int (LCD_CGRAM OR push_bit 3 (index AND 7)) :: octet"
  let ?k = "(coeur ?d)\<lparr>ac := 8 * (index mod 8), en_cgram := True\<rparr>"
  let ?es = "Gpio (DigitalWrite AF_RS 1) # concat (map evts_octet data)"
  define w' where "w' = consigne (evts_commande ?c @ ?es) w"
  have m: "map (\<lambda>i. evts_octet (data ! i)) [0..<8] = map evts_octet data"
  proof -
    have "map evts_octet (map ((!) data) [0..<8]) = map evts_octet data"
      using map_nth [of data] assms(3) by simp
    then show ?thesis by (simp add: comp_def)
  qed
  have w': "lcd_def_caractere index data w = Some w'"
    by (simp add: lcd_def_caractere_def L(1) putCommand_evts L(2,3) evts_rs fold_sendDataCmd m w'_def)
  define d1 where "d1 = (hd_cmd ?c ?d)\<lparr>broche_rs := 1\<rparr>"
  have d1: "coeur d1 = ?k" "demi d1 = None" "broche_rs d1 = 1"
  proof -
    have "coeur d1 = hd_instruction ?c (coeur ?d)" by (simp only: d1_def hd_cmd_simps) simp
    then show "coeur d1 = ?k" by (simp only: hd_cgram_adresse)
  qed (simp_all add: d1_def)
  have de: "hd44780_de d (journal w') = fold hd44780_pas (concat (map evts_octet data)) d1"
    using d by (simp add: w'_def hd_ok_def hd_commande_libre d1_def)
  have b: "0 \<le> 8 * (index mod 8)" "8 * (index mod 8) + 8 \<le> 64"
    using pos_mod_bound [of 8 index] pos_mod_sign [of 8 index] by simp_all
  have "fold hd_donnee data ?k = ?k\<lparr>cgram := (\<lambda>a. if ac ?k \<le> a \<and> a < ac ?k + int (length data) then data ! nat (a - ac ?k) else cgram ?k a),
       ac := (ac ?k + int (length data)) mod 64\<rparr> \<or> data = []"
    by (rule hd_donnees_cgram) (use b d assms(3) in \<open>simp_all add: hd_ok_def\<close>)
  then have k': "coeur (hd44780_de d (journal w')) = ?k\<lparr>cgram := (\<lambda>a. if ac ?k \<le> a \<and> a < ac ?k + int (length data) then data ! nat (a - ac ?k) else cgram ?k a),
       ac := (ac ?k + int (length data)) mod 64\<rparr>" "demi (hd44780_de d (journal w')) = None"
    using hd_octets_donnees [of d1 data] d1 d assms(3) unfolding de by (auto simp: hd_ok_def)
  have "lcd_struct_ok w' l" using l by (simp add: w'_def)
  then have "lcd_pret d w'" using d k' unfolding lcd_pret_def by (auto simp: hd_ok_def)
  then show ?thesis
    using w' k' assms(3) by (intro exI [of _ w']) (auto simp: lcd_texte_def cellules_def fun_eq_iff)
qed

text \<open> C26: a user-defined character. On a ready display, defining the character \<open>index\<close> by eight rows,
  setting a position on the screen and writing the code of the character returns, and the display is ready
  for more; the cell at this position holds the code and every other cell is as before; the character
  memory holds the eight rows at the place the code names, and the other seven characters are as
  before. \<close>

theorem lcd_caractere_defini:
  assumes "lcd_pret d w" and "0 \<le> index" and "length data = 8" and "0 \<le> x" "x < 16" "0 \<le> y" "y < 2"
  shows "\<exists>w1 w2 w'. lcd_def_caractere index data w = Some w1 \<and> lcd_position x y w1 = Some w2 \<and>
    lcd_caractere (word_of_int (index mod 8)) w2 = Some w' \<and> lcd_pret d w' \<and>
    lcd_texte d w' = (lcd_texte d w)[nat (16 * y + x) := word_of_int (index mod 8)] \<and>
    (\<forall>c r. 0 \<le> c \<and> c < 8 \<and> 0 \<le> r \<and> r < 8 \<longrightarrow> cgram (coeur (hd44780_de d (journal w'))) (8 * c + r) =
      (if c = index mod 8 then data ! nat r else cgram (coeur (hd44780_de d (journal w))) (8 * c + r)))"
proof -
  from lcd_def_caractere_memoire [OF assms(1-3)] obtain w1 where
    1: "lcd_def_caractere index data w = Some w1" "lcd_pret d w1" "lcd_texte d w1 = lcd_texte d w"
      "cgram (coeur (hd44780_de d (journal w1))) = (\<lambda>a. if 8 * (index mod 8) \<le> a \<and> a < 8 * (index mod 8) + 8
         then data ! nat (a - 8 * (index mod 8)) else cgram (coeur (hd44780_de d (journal w))) a)" by blast
  from lcd_position_complet [OF 1(2) assms(4-7)] obtain w2 where
    2: "lcd_position x y w1 = Some w2" "lcd_aligne d w2 (16 * y + x)" "lcd_texte d w2 = lcd_texte d w1"
      "cgram (coeur (hd44780_de d (journal w2))) = cgram (coeur (hd44780_de d (journal w1)))" by blast
  from lcd_caractere_complet [OF 2(2), of "word_of_int (index mod 8)"] obtain w' where
    3: "lcd_caractere (word_of_int (index mod 8)) w2 = Some w'" "lcd_aligne d w' ((16 * y + x + 1) mod 32)"
      "lcd_texte d w' = (lcd_texte d w2)[nat (16 * y + x) := word_of_int (index mod 8)]"
      "cgram (coeur (hd44780_de d (journal w'))) = cgram (coeur (hd44780_de d (journal w2)))" by blast
  have "8 * m \<le> 8 * c + r \<and> 8 * c + r < 8 * m + 8 \<longleftrightarrow> c = m" if "0 \<le> r" "r < 8" for c r m :: int
    using that by presburger
  then have "\<forall>c r. 0 \<le> c \<and> c < 8 \<and> 0 \<le> r \<and> r < 8 \<longrightarrow> cgram (coeur (hd44780_de d (journal w'))) (8 * c + r) =
      (if c = index mod 8 then data ! nat r else cgram (coeur (hd44780_de d (journal w))) (8 * c + r))"
    unfolding 3(4) 2(4) 1(4) by simp
  with 1 2 3 lcd_aligne_pret [OF 3(2)] show ?thesis by (metis (no_types, lifting))
qed

theorem lcd_caractere_defini_temoin:
  "\<exists>w1 w2 w'. lcd_def_caractere 9 [0x00, 0x0A, 0x1F, 0x1F, 0x0E, 0x04, 0x00, 0x00] etat_lcd = Some w1 \<and> lcd_position 3 1 w1 = Some w2 \<and>
    lcd_caractere 1 w2 = Some w' \<and> lcd_texte hd_allume w' = (lcd_texte hd_allume etat_lcd)[19 := 1] \<and>
    cgram (coeur (hd44780_de hd_allume (journal w'))) 10 = 0x1F"
proof -
  from lcd_caractere_defini [OF etat_lcd_pret, of 9 "[0x00, 0x0A, 0x1F, 0x1F, 0x0E, 0x04, 0x00, 0x00]" 3 1]
  obtain w1 w2 w' where w: "lcd_def_caractere 9 [0x00, 0x0A, 0x1F, 0x1F, 0x0E, 0x04, 0x00, 0x00] etat_lcd = Some w1"
    "lcd_position 3 1 w1 = Some w2" "lcd_caractere 1 w2 = Some w'" "lcd_texte hd_allume w' = (lcd_texte hd_allume etat_lcd)[19 := 1]"
    and c: "\<forall>c r. 0 \<le> c \<and> c < 8 \<and> 0 \<le> r \<and> r < 8 \<longrightarrow> cgram (coeur (hd44780_de hd_allume (journal w'))) (8 * c + r) =
      (if c = 1 then [0x00, 0x0A, 0x1F, 0x1F, 0x0E, 0x04, 0x00, 0x00] ! nat r
       else cgram (coeur (hd44780_de hd_allume (journal etat_lcd))) (8 * c + r))"
    by auto
  from c [rule_format, of 1 2] w show ?thesis by auto
qed

lemma lcd_cleanup_rend:
  assumes "lcd_pret d w" and "0 \<le> lcdControl w" "lcdControl w < 8"
  shows "\<exists>w'. lcd_cleanup w = Some w' \<and> lcd_courant w' = None \<and>
    \<not> affiche (coeur (hd44780_de d (journal w'))) \<and> lcd_texte d w' = replicate 32 0x20"
proof -
  from lcd_effacer_juste [OF assms(1)] obtain w1 where
    w1: "lcd_effacer w = Some w1" "lcd_aligne d w1 0" "lcd_texte d w1 = replicate 32 0x20" by auto
  from assms(1) obtain l where l: "lcd_struct_ok w l" by (auto simp: lcd_pret_def)
  note L = lcd_struct_okD [OF l]
  from w1(2) obtain l1 where l1: "lcd_struct_ok w1 l1" and d1: "hd_ok (hd44780_de d (journal w1))"
    by (auto simp: lcd_aligne_def)
  note L1 = lcd_struct_okD [OF l1]
  have c1: "lcdControl w1 = lcdControl w" using w1(1) L
    by (auto simp: lcd_effacer_def putCommand_evts delay_def) (simp add: ranger_lcd_def)
  let ?a = "lcdControl w AND NOT 4"
  have "lcdControl w \<in> {0, 1, 2, 3, 4, 5, 6, 7}" using assms(2,3) by (simp; presburger)
  then have a: "0 \<le> ?a" "?a < 8" "\<not> bit ?a 2" by (auto simp: bit_iff_odd)
  let ?c = "word_of_int (LCD_CTRL OR ?a) :: octet"
  let ?es = "evts_commande ?c @ [Gpio (PinMode (rsPin l) INPUT), Gpio (PinMode (strbPin l) INPUT)] @
    map (\<lambda>i. Gpio (PinMode (dataPins l ! i) INPUT)) [0..<4] @ [Gpio (PinMode AF_BLUE INPUT), Sys Free]"
  define w2 where "w2 = consigne ?es (w1\<lparr>lcdControl := ?a\<rparr>)"
  define w' where "w' = w2\<lparr>lcds := (lcds w2)[nat (lcdHandle w2) := None]\<rparr>"
  have f: "fold (\<lambda>i. consigne [Gpio (PinMode (dataPins l ! i) INPUT)]) is v = consigne (map (\<lambda>i. Gpio (PinMode (dataPins l ! i) INPUT)) is) v"
    for "is" and v :: peripheriques
    by (induction "is" arbitrary: v) simp_all
  have "lcd_cleanup w = Some w'"
    by (simp add: lcd_cleanup_def L(1) w1(1) lcd_affichage_def L1(1) c1 putCommand_evts L1(2,3) f pinMode_def
        free_def w'_def w2_def Let_def)
  moreover have "lcd_courant w' = None"
    using L1(4,5) by (auto simp: w'_def w2_def lcd_courant_def)
  moreover have de: "hd44780_de d (journal w') = hd_cmd ?c (hd44780_de d (journal w1))"
    using d1 by (simp add: w'_def w2_def upt_4 hd_ok_def hd_commande_libre)
  moreover have k: "coeur (hd44780_de d (journal w')) = (coeur (hd44780_de d (journal w1)))
      \<lparr>affiche := bit ?a 2, curseur := bit ?a 1, clignote := bit ?a 0\<rparr>"
    unfolding de hd_cmd_simps by (rule hd_controle [OF a(1,2)])
  ultimately show ?thesis
    using a(3) w1(3) by (intro exI [of _ w']) (auto simp: lcd_texte_def cellules_def)
qed

text \<open> The end. Cleaning up a ready display returns, clears the screen, switches the display
  off and frees the entry of the structure: no structure is current afterwards. \<close>

theorem lcd_cleanup_eteint:
  assumes "lcd_pret d w" and "0 \<le> lcdControl w" "lcdControl w < 8"
  shows "\<exists>w'. lcd_cleanup w = Some w' \<and> lcd_courant w' = None \<and>
    \<not> affiche (coeur (hd44780_de d (journal w'))) \<and> lcd_texte d w' = replicate 32 0x20"
  by (rule lcd_cleanup_rend [OF assms])

theorem lcd_cleanup_eteint_temoin:
  "\<exists>w'. lcd_cleanup etat_lcd = Some w' \<and> lcd_courant w' = None \<and>
    \<not> affiche (coeur (hd44780_de hd_allume (journal w'))) \<and> lcd_texte hd_allume w' = replicate 32 0x20"
  by (rule lcd_cleanup_eteint [OF etat_lcd_pret]) (simp_all add: etat_lcd_def)

end
