(* ===== verification/Grille.thy ===== *)
theory Grille
  imports Etat
begin

text \<open>
  \<open>lib/my_ncurses.c\<close>: the four by four grid on the terminal, each cell eight characters wide
  and eight high, with a border of one character.

  \<open>getmaxyx\<close> answers with the dimensions of the terminal; ncurses keeps them in a \<open>short\<close>, so
  none of the coordinates computed here can leave the range of \<open>int\<close>.
\<close>

abbreviation (input) GRID_SIZE :: nat where "GRID_SIZE \<equiv> 4"
abbreviation (input) CELL_WIDTH :: nat where "CELL_WIDTH \<equiv> 8"
abbreviation (input) CELL_HEIGHT :: nat where "CELL_HEIGHT \<equiv> 8"

type_synonym motif = "char list list"

section \<open>The operations\<close>

definition init_ncurses :: "hote \<Rightarrow> peripheriques \<Rightarrow> peripheriques" where
  "init_ncurses E w =
     (let w = consigne [Nc Initscr, Nc Cbreak, Nc Noecho, Nc Keypad, Nc (CursSet 0)] w;
          (h, l) = h_getmaxyx E (journal w);
          w = consigne [Nc (Getmaxyx h l)] w;
          w = w\<lparr>screen_height := h, screen_width := l\<rparr>;
          grid_width = (int CELL_WIDTH + 1) * int GRID_SIZE + 1;
          grid_height = (int CELL_HEIGHT + 1) * int GRID_SIZE + 1;
          w = w\<lparr>start_x := (screen_width w - grid_width) sdiv 2\<rparr>;
          w = w\<lparr>start_y := (screen_height w - grid_height) sdiv 2\<rparr>
      in consigne [Nc ClearScr] w)"

definition cleanup_ncurses :: "'a processus_scheme \<Rightarrow> 'a processus_scheme" where
  "cleanup_ncurses = consigne [Nc Endwin]"

definition draw_grid :: "peripheriques \<Rightarrow> peripheriques" where
  "draw_grid w =
     (let y = start_y w; x = start_x w; pas_x = int CELL_WIDTH + 1; pas_y = int CELL_HEIGHT + 1;
          w = mvaddch y x (Acs ULCORNER) w;
          w = fold (\<lambda>i w.
                let w = fold (\<lambda>j. mvaddch y (x + 1 + int i * pas_x + int j) (Acs HLINE)) [0..<CELL_WIDTH] w
                in if i < GRID_SIZE - 1 then mvaddch y (x + (int i + 1) * pas_x) (Acs TTEE) w else w)
              [0..<GRID_SIZE] w;
          w = mvaddch y (x + int GRID_SIZE * pas_x) (Acs URCORNER) w;
          w = fold (\<lambda>i w.
                let w = mvaddch (y + (int i + 1) * pas_y) x (Acs LTEE) w;
                    w = fold (\<lambda>j w.
                          let w = fold (\<lambda>k. mvaddch (y + (int i + 1) * pas_y) (x + 1 + int j * pas_x + int k) (Acs HLINE))
                                    [0..<CELL_WIDTH] w
                          in if j < GRID_SIZE - 1
                             then mvaddch (y + (int i + 1) * pas_y) (x + (int j + 1) * pas_x) (Acs CROISEMENT) w else w)
                        [0..<GRID_SIZE] w
                in mvaddch (y + (int i + 1) * pas_y) (x + int GRID_SIZE * pas_x) (Acs RTEE) w)
              [0..<GRID_SIZE - 1] w;
          w = mvaddch (y + int GRID_SIZE * pas_y) x (Acs LLCORNER) w;
          w = fold (\<lambda>i w.
                let w = fold (\<lambda>j. mvaddch (y + int GRID_SIZE * pas_y) (x + 1 + int i * pas_x + int j) (Acs HLINE))
                          [0..<CELL_WIDTH] w
                in if i < GRID_SIZE - 1
                   then mvaddch (y + int GRID_SIZE * pas_y) (x + (int i + 1) * pas_x) (Acs BTEE) w else w)
              [0..<GRID_SIZE] w;
          w = mvaddch (y + int GRID_SIZE * pas_y) (x + int GRID_SIZE * pas_x) (Acs LRCORNER) w;
          w = fold (\<lambda>i. fold (\<lambda>j. fold (\<lambda>row.
                mvaddch (y + int row * pas_y + int j) (x + int i * pas_x) (Acs VLINE)) [0..<GRID_SIZE])
                [1..<CELL_HEIGHT + 1]) [0..<GRID_SIZE + 1] w
      in refresh w)"

definition display_pattern :: "int \<Rightarrow> int \<Rightarrow> motif \<Rightarrow> peripheriques \<Rightarrow> peripheriques" where
  "display_pattern row col pattern w =
     (if row < 0 \<or> row \<ge> int GRID_SIZE \<or> col < 0 \<or> col \<ge> int GRID_SIZE then w
      else let cell_start_y = start_y w + row * (int CELL_HEIGHT + 1) + 1;
               cell_start_x = start_x w + col * (int CELL_WIDTH + 1) + 1
           in fold (\<lambda>i. fold (\<lambda>j. mvaddch (cell_start_y + int i) (cell_start_x + int j) (Car (pattern ! i ! j)))
                [0..<CELL_WIDTH]) [0..<CELL_HEIGHT] w)"

definition clear_cell :: "int \<Rightarrow> int \<Rightarrow> peripheriques \<Rightarrow> peripheriques" where
  "clear_cell row col w =
     (if row < 0 \<or> row \<ge> int GRID_SIZE \<or> col < 0 \<or> col \<ge> int GRID_SIZE then w
      else let cell_start_y = start_y w + row * (int CELL_HEIGHT + 1) + 1;
               cell_start_x = start_x w + col * (int CELL_WIDTH + 1) + 1
           in fold (\<lambda>i. fold (\<lambda>j. mvaddch (cell_start_y + int i) (cell_start_x + int j) (Car CHR '' ''))
                [0..<CELL_WIDTH]) [0..<CELL_HEIGHT] w)"

definition refresh_display :: "'a processus_scheme \<Rightarrow> 'a processus_scheme" where
  "refresh_display = refresh"

section \<open>The terminal\<close>

text \<open>
  A terminal keeps one glyph per position; a character outside it is dropped. Its dimensions are
  those it gives to \<open>getmaxyx\<close>.
\<close>

record terminal =
  hauteur :: int
  largeur :: int
  glyphes :: "int \<times> int \<Rightarrow> chtype"

fun terminal_pas :: "event \<Rightarrow> terminal \<Rightarrow> terminal" where
  "terminal_pas (Nc (Getmaxyx h l)) t = t\<lparr>hauteur := h, largeur := l\<rparr>"
| "terminal_pas (Nc ClearScr) t = t\<lparr>glyphes := (\<lambda>_. Car CHR '' '')\<rparr>"
| "terminal_pas (Nc (Mvaddch y x c)) t =
     (if 0 \<le> y \<and> y < hauteur t \<and> 0 \<le> x \<and> x < largeur t then t\<lparr>glyphes := (glyphes t)((y, x) := c)\<rparr> else t)"
| "terminal_pas e t = t"

fun terminal_concerne :: "event \<Rightarrow> bool" where
  "terminal_concerne (Nc e) \<longleftrightarrow> True"
| "terminal_concerne e \<longleftrightarrow> False"

interpretation terminal: appareil terminal_pas terminal_concerne
proof
  show "terminal_pas e t = t" if "\<not> terminal_concerne e" for e t
    using that by (induction e t rule: terminal_pas.induct) auto
qed

definition terminal_eteint :: terminal where
  "terminal_eteint = \<lparr>hauteur = 0, largeur = 0, glyphes = (\<lambda>_. Car CHR '' '')\<rparr>"

definition terminal_de :: "journal_t \<Rightarrow> terminal" where
  "terminal_de h = fold terminal_pas h terminal_eteint"

lemma terminal_de_append [simp]: "terminal_de (h @ es) = fold terminal_pas es (terminal_de h)"
  by (simp add: terminal_de_def)

text \<open>A series of writes: at each visible position the last one counts.\<close>

definition traces :: "((int \<times> int) \<times> chtype) list \<Rightarrow> event list" where
  "traces ws = map (\<lambda>(p, c). Nc (Mvaddch (fst p) (snd p) c)) ws"

lemma traces_simps [simp]: "traces [] = []" "traces (a @ b) = traces a @ traces b"
  "traces ((p, c) # ws) = Nc (Mvaddch (fst p) (snd p) c) # traces ws"
  by (simp_all add: traces_def)

definition visible :: "terminal \<Rightarrow> int \<times> int \<Rightarrow> bool" where
  "visible t p \<longleftrightarrow> 0 \<le> fst p \<and> fst p < hauteur t \<and> 0 \<le> snd p \<and> snd p < largeur t"

lemma terminal_traces:
  "fold terminal_pas (traces ws) t = t\<lparr>glyphes := (\<lambda>p. if visible t p then
     (case map_of (rev ws) p of Some c \<Rightarrow> c | None \<Rightarrow> glyphes t p) else glyphes t p)\<rparr>"
proof (induction ws arbitrary: t)
  case Nil
  have "(\<lambda>p. if visible t p then (case map_of (rev []) p of Some c \<Rightarrow> c | None \<Rightarrow> glyphes t p) else glyphes t p) = glyphes t"
    by auto
  then show ?case by simp
next
  case (Cons pc ws)
  obtain p c where pc: "pc = (p, c)" by (cases pc)
  let ?t = "terminal_pas (Nc (Mvaddch (fst p) (snd p) c)) t"
  have v: "visible ?t = visible t" by (auto simp: visible_def fun_eq_iff)
  have "(\<lambda>q. if visible ?t q then (case map_of (rev ws) q of Some c \<Rightarrow> c | None \<Rightarrow> glyphes ?t q) else glyphes ?t q) =
      (\<lambda>q. if visible t q then (case map_of (rev (pc # ws)) q of Some c \<Rightarrow> c | None \<Rightarrow> glyphes t q) else glyphes t q)"
    unfolding v by (auto simp: pc fun_eq_iff visible_def map_add_def split: option.split)
  then show ?case
    using Cons.IH [of ?t] by (simp add: pc)
qed

lemma map_of_accord:
  assumes "\<And>p c. (p, c) \<in> set ws \<Longrightarrow> c = g p"
  shows "map_of (rev ws) p = (if p \<in> fst ` set ws then Some (g p) else None)"
proof (cases "map_of (rev ws) p")
  case None
  then show ?thesis by (simp add: map_of_eq_None_iff)
next
  case (Some c)
  then have "(p, c) \<in> set ws" using map_of_SomeD by fastforce
  with Some assms [of p c] show ?thesis by force
qed

lemma terminal_accord:
  assumes "\<And>p c. (p, c) \<in> set ws \<Longrightarrow> c = g p"
  shows "glyphes (fold terminal_pas (traces ws) t) p =
    (if visible t p \<and> p \<in> fst ` set ws then g p else glyphes t p)"
  by (simp add: terminal_traces map_of_accord [OF assms])

lemma fold_consigne: "fold (\<lambda>i. consigne (f i)) is = consigne (concat (map f is))"
  by (induction "is") (simp_all add: fun_eq_iff)

lemma concat_traces: "concat (map (\<lambda>i. traces (f i)) is) = traces (concat (map f is))"
  by (induction "is") simp_all

lemma si_consigne: "(if b then consigne es w else w) = consigne (if b then es else []) w"
  by simp

section \<open>What the grid looks like\<close>

text \<open>
  The border seen from its upper left corner: \<open>glyphe dy dx\<close> is the character at line \<open>dy\<close> and
  column \<open>dx\<close> of the thirty-seven by thirty-seven square, where \<open>bord\<close> says there is one.
\<close>

definition bord :: "int \<Rightarrow> int \<Rightarrow> bool" where
  "bord dy dx \<longleftrightarrow> 0 \<le> dy \<and> dy \<le> 36 \<and> 0 \<le> dx \<and> dx \<le> 36 \<and> (dy mod 9 = 0 \<or> dx mod 9 = 0)"

definition glyphe :: "int \<Rightarrow> int \<Rightarrow> chtype" where
  "glyphe dy dx = Acs
     (if dy mod 9 \<noteq> 0 then VLINE
      else if dx mod 9 \<noteq> 0 then HLINE
      else if dy = 0 then (if dx = 0 then ULCORNER else if dx = 36 then URCORNER else TTEE)
      else if dy = 36 then (if dx = 0 then LLCORNER else if dx = 36 then LRCORNER else BTEE)
      else (if dx = 0 then LTEE else if dx = 36 then RTEE else CROISEMENT))"

definition ecritures_ligne :: "int \<Rightarrow> int \<Rightarrow> acs \<Rightarrow> ((int \<times> int) \<times> chtype) list" where
  "ecritures_ligne y x t = concat (map (\<lambda>i. map (\<lambda>j. ((y, x + 1 + int i * 9 + int j), Acs HLINE)) [0..<8] @
     (if i < 3 then [((y, x + (int i + 1) * 9), Acs t)] else [])) [0..<4])"

definition ecritures_colonnes :: "int \<Rightarrow> int \<Rightarrow> ((int \<times> int) \<times> chtype) list" where
  "ecritures_colonnes y x = concat (map (\<lambda>i. concat (map (\<lambda>j. map (\<lambda>row.
     ((y + int row * 9 + int j, x + int i * 9), Acs VLINE)) [0..<4]) [1..<9])) [0..<5])"

definition ecritures_grille :: "int \<Rightarrow> int \<Rightarrow> ((int \<times> int) \<times> chtype) list" where
  "ecritures_grille y x =
     ((y, x), Acs ULCORNER) # ecritures_ligne y x TTEE @ ((y, x + 36), Acs URCORNER) #
     concat (map (\<lambda>i. ((y + (int i + 1) * 9, x), Acs LTEE) # ecritures_ligne (y + (int i + 1) * 9) x CROISEMENT @
       [((y + (int i + 1) * 9, x + 36), Acs RTEE)]) [0..<3]) @
     ((y + 36, x), Acs LLCORNER) # ecritures_ligne (y + 36) x BTEE @ ((y + 36, x + 36), Acs LRCORNER) #
     ecritures_colonnes y x"

lemma traces_map: "traces (map (\<lambda>i. (f i, g i)) is) = map (\<lambda>i. Nc (Mvaddch (fst (f i)) (snd (f i)) (g i))) is"
  by (simp add: traces_def)

lemma traces_concat_map: "traces (concat (map f is)) = concat (map (\<lambda>i. traces (f i)) is)"
  by (simp add: concat_traces)

lemma concat_map_sing: "concat (map (\<lambda>i. [f i]) is) = map f is"
  by (induction "is") simp_all

lemma traces_if: "traces (if b then ws else []) = (if b then traces ws else [])"
  by simp

lemma draw_grid_eq:
  "draw_grid w = consigne (traces (ecritures_grille (start_y w) (start_x w)) @ [Nc Refresh]) w"
  by (simp add: draw_grid_def ecritures_grille_def ecritures_colonnes_def ecritures_ligne_def mvaddch_def refresh_def Let_def
      fold_consigne si_consigne traces_map traces_concat_map concat_map_sing traces_if cong: if_cong)

lemma pas_9: "j < 8 \<Longrightarrow> (1 + int i * 9 + int j) mod 9 = 1 + int j"
proof -
  assume "j < 8"
  have "(1 + int j + int i * 9) mod 9 = (1 + int j) mod 9" by (rule mod_mult_self1)
  with \<open>j < 8\<close> show ?thesis by (simp add: add_ac)
qed

lemma pas_9': "j < 8 \<Longrightarrow> \<not> 9 dvd 1 + (int i * 9 + int j)"
  using pas_9 [of j i] by (simp add: dvd_eq_mod_eq_0 add_ac)

lemma ecritures_ligne_set:
  "((y', x'), c) \<in> set (ecritures_ligne y x t) \<longleftrightarrow> y' = y \<and> 0 < x' - x \<and> x' - x < 36 \<and>
     c = Acs (if (x' - x) mod 9 = 0 then t else HLINE)" (is "?l = ?r")
proof
  assume ?l
  then show ?r using pas_9' by (auto simp: ecritures_ligne_def split: if_splits)
next
  assume r: ?r
  define d where "d = x' - x"
  have x': "x' = x + d" and d: "0 < d" "d < 36" using r by (simp_all add: d_def)
  show ?l
  proof (cases "d mod 9 = 0")
    case True
    then obtain i where i: "d = 9 * i" by (metis dvd_def mod_0_imp_dvd)
    define n where "n = nat (i - 1)"
    have n: "n < 4" "n < 3" "d = (int n + 1) * 9" using d i by (auto simp: n_def)
    have "((y, x + (int n + 1) * 9), Acs t) \<in> set (ecritures_ligne y x t)"
      unfolding ecritures_ligne_def using n(1,2) by (auto intro!: bexI [of _ n])
    with r True show ?thesis by (simp add: x' n(3))
  next
    case False
    define n where "n = nat (d div 9)"
    define j where "j = nat (d mod 9 - 1)"
    have n: "n < 4" using d by (simp add: n_def)
    have m: "0 < d mod 9" "d mod 9 < 9" using False pos_mod_sign [of 9 d] by simp_all
    then have j: "j < 8" by (simp add: j_def)
    have "d = d div 9 * 9 + d mod 9" by simp
    then have e: "x' = x + 1 + int n * 9 + int j" using d m by (simp add: x' n_def j_def)
    have "((y, x + 1 + int n * 9 + int j), Acs HLINE) \<in> set (ecritures_ligne y x t)"
    proof -
      have "((y, x + 1 + int n * 9 + int j), Acs HLINE) \<in> (\<lambda>j. ((y, x + 1 + int n * 9 + int j), Acs HLINE)) ` {0..<8}"
        using j by (intro image_eqI [of _ _ j]) simp_all
      then show ?thesis unfolding ecritures_ligne_def using n by (auto simp del: image_iff)
    qed
    with r False show ?thesis by (simp add: e d_def)
  qed
qed

lemma ecritures_colonnes_set:
  "((y', x'), c) \<in> set (ecritures_colonnes y x) \<longleftrightarrow> c = Acs VLINE \<and> 0 \<le> x' - x \<and> x' - x \<le> 36 \<and>
     (x' - x) mod 9 = 0 \<and> 0 \<le> y' - y \<and> y' - y < 36 \<and> (y' - y) mod 9 \<noteq> 0" (is "?l = ?r")
proof
  assume ?l
  then obtain i j r where ij: "i < 5" "1 \<le> j" "j < 9" "r < 4" "y' = y + int r * 9 + int j" "x' = x + int i * 9" "c = Acs VLINE"
    by (auto simp: ecritures_colonnes_def)
  then have "(y' - y) mod 9 = int j" using pas_9 [of "j - 1" r] by (simp add: of_nat_diff add_ac)
  with ij show ?r by simp
next
  assume r: ?r
  define i where "i = nat ((x' - x) div 9)"
  define row where "row = nat ((y' - y) div 9)"
  define j where "j = nat ((y' - y) mod 9)"
  have i: "i < 5" using r zdiv_mono1 [of "x' - x" 36 9] by (simp add: i_def)
  have row: "row < 4" using r zdiv_mono1 [of "y' - y" 35 9] by (simp add: row_def)
  have m: "0 < (y' - y) mod 9" "(y' - y) mod 9 < 9" using r order.strict_iff_order [of 0 "(y' - y) mod 9"] by simp_all
  then have j: "1 \<le> j" "j < 9" by (simp_all add: j_def)
  have "x' - x = (x' - x) div 9 * 9" using r by (metis add.right_neutral div_mult_mod_eq)
  then have ex: "x' = x + int i * 9" using r by (simp add: i_def)
  have "y' - y = (y' - y) div 9 * 9 + (y' - y) mod 9" by simp
  moreover have "int row = (y' - y) div 9" "int j = (y' - y) mod 9"
    using r m by (simp_all add: row_def j_def)
  ultimately have ey: "y' = y + int row * 9 + int j" by linarith
  have "((y + int row * 9 + int j, x + int i * 9), Acs VLINE) \<in> set (ecritures_colonnes y x)"
  proof -
    have "((y + int row * 9 + int j, x + int i * 9), Acs VLINE) \<in>
        (\<lambda>row. ((y + int row * 9 + int j, x + int i * 9), Acs VLINE)) ` {0..<4}"
      using row by (intro image_eqI [of _ _ row]) simp_all
    with i j show ?thesis unfolding ecritures_colonnes_def
      by (simp del: image_iff) (intro bexI [of _ i] bexI [of _ j], auto)
  qed
  with r show ?l by (simp add: ex ey)
qed

lemma upt_3: "[0..<3] = [0, 1, 2::nat]"
  by (simp add: upt_rec)

lemma ecritures_grille_set:
  "((y', x'), c) \<in> set (ecritures_grille y x) \<longleftrightarrow> bord (y' - y) (x' - x) \<and> c = glyphe (y' - y) (x' - x)"
proof -
  define a b where "a = y' - y" and "b = x' - x"
  have e: "y' = y + a" "x' = x + b" by (simp_all add: a_def b_def)
  note sets = ecritures_grille_def ecritures_ligne_set ecritures_colonnes_set upt_3
    bord_def glyphe_def
  have "((y + a, x + b), c) \<in> set (ecritures_grille y x) \<longleftrightarrow> bord a b \<and> c = glyphe a b"
  proof (cases "a = 0 \<or> a = 36")
    case True
    then show ?thesis by (elim disjE) (simp_all add: sets, auto)
  next
    case False
    show ?thesis
    proof (cases "a = 9 \<or> a = 18 \<or> a = 27")
      case True
      then show ?thesis by (elim disjE) (simp_all add: sets, auto)
    next
      case n: False
      with False have "a mod 9 \<noteq> 0" if "0 \<le> a" "a \<le> 36" using that by presburger
      with n False show ?thesis by (simp add: sets) auto
    qed
  qed
  then show ?thesis unfolding e by simp
qed

text \<open>A cell is written row after row.\<close>

definition ecritures_cellule :: "int \<Rightarrow> int \<Rightarrow> (nat \<Rightarrow> nat \<Rightarrow> char) \<Rightarrow> ((int \<times> int) \<times> chtype) list" where
  "ecritures_cellule y x f = concat (map (\<lambda>i. map (\<lambda>j. ((y + int i, x + int j), Car (f i j))) [0..<8]) [0..<8])"

definition coin_y :: "peripheriques \<Rightarrow> int \<Rightarrow> int" where
  "coin_y w row = start_y w + row * 9 + 1"

definition coin_x :: "peripheriques \<Rightarrow> int \<Rightarrow> int" where
  "coin_x w col = start_x w + col * 9 + 1"

definition dans_cellule :: "peripheriques \<Rightarrow> int \<Rightarrow> int \<Rightarrow> int \<times> int \<Rightarrow> bool" where
  "dans_cellule w row col p \<longleftrightarrow> coin_y w row \<le> fst p \<and> fst p < coin_y w row + 8 \<and>
     coin_x w col \<le> snd p \<and> snd p < coin_x w col + 8"

lemma ecritures_cellule_set:
  "((y', x'), c) \<in> set (ecritures_cellule y x f) \<longleftrightarrow> y \<le> y' \<and> y' < y + 8 \<and> x \<le> x' \<and> x' < x + 8 \<and>
     c = Car (f (nat (y' - y)) (nat (x' - x)))" (is "?l = ?r")
proof
  assume ?r
  then have "y' = y + int (nat (y' - y))" "nat (y' - y) < 8" "x' = x + int (nat (x' - x))" "nat (x' - x) < 8"
    "c = Car (f (nat (y' - y)) (nat (x' - x)))" by auto
  then obtain i j where "y' = y + int i" "i < 8" "x' = x + int j" "j < 8" "c = Car (f i j)" by blast
  then show ?l by (auto simp: ecritures_cellule_def intro!: bexI [of _ i])
qed (auto simp: ecritures_cellule_def)

lemma display_pattern_eq:
  "display_pattern row col m w =
     (if row < 0 \<or> row \<ge> 4 \<or> col < 0 \<or> col \<ge> 4 then w
      else consigne (traces (ecritures_cellule (coin_y w row) (coin_x w col) (\<lambda>i j. m ! i ! j))) w)"
  by (simp add: display_pattern_def ecritures_cellule_def coin_y_def coin_x_def mvaddch_def Let_def
      fold_consigne traces_map traces_concat_map concat_map_sing)

lemma clear_cell_eq:
  "clear_cell row col w =
     (if row < 0 \<or> row \<ge> 4 \<or> col < 0 \<or> col \<ge> 4 then w
      else consigne (traces (ecritures_cellule (coin_y w row) (coin_x w col) (\<lambda>i j. CHR '' ''))) w)"
  by (simp add: clear_cell_def ecritures_cellule_def coin_y_def coin_x_def mvaddch_def Let_def
      fold_consigne traces_map traces_concat_map concat_map_sing)

lemma image_fst: "p \<in> fst ` S \<longleftrightarrow> (\<exists>c. (p, c) \<in> S)"
  by force

lemma terminal_cellule:
  "glyphes (fold terminal_pas (traces (ecritures_cellule (coin_y w row) (coin_x w col) f)) t) p =
     (if visible t p \<and> dans_cellule w row col p
      then Car (f (nat (fst p - coin_y w row)) (nat (snd p - coin_x w col))) else glyphes t p)"
proof -
  let ?ws = "ecritures_cellule (coin_y w row) (coin_x w col) f"
  let ?g = "\<lambda>p. Car (f (nat (fst p - coin_y w row)) (nat (snd p - coin_x w col)))"
  have "c = ?g q" if "(q, c) \<in> set ?ws" for q c
    using that by (cases q) (simp add: ecritures_cellule_set)
  moreover have "p \<in> fst ` set ?ws \<longleftrightarrow> dans_cellule w row col p"
    by (cases p) (simp add: image_fst ecritures_cellule_set dans_cellule_def)
  ultimately show ?thesis using terminal_accord [of ?ws ?g t p] by simp
qed

section \<open>Properties\<close>

text \<open> The grid is drawn where it should be. After \<open>draw_grid\<close> every visible position of the
  thirty-seven by thirty-seven square at \<open>(start_y, start_x)\<close> that lies on a border holds the
  corner, the junction or the line that belongs there, and every other position of the terminal
  is as before. \<close>

theorem draw_grid_dessin:
  "glyphes (terminal_de (journal (draw_grid w))) p =
     (if visible (terminal_de (journal w)) p \<and> bord (fst p - start_y w) (snd p - start_x w)
      then glyphe (fst p - start_y w) (snd p - start_x w)
      else glyphes (terminal_de (journal w)) p)"
proof -
  let ?ws = "ecritures_grille (start_y w) (start_x w)"
  let ?g = "\<lambda>p. glyphe (fst p - start_y w) (snd p - start_x w)"
  have "c = ?g q" if "(q, c) \<in> set ?ws" for q c
    using that by (cases q) (simp add: ecritures_grille_set)
  moreover have "p \<in> fst ` set ?ws \<longleftrightarrow> bord (fst p - start_y w) (snd p - start_x w)"
    by (cases p) (simp add: image_fst ecritures_grille_set)
  ultimately show ?thesis
    using terminal_accord [of ?ws ?g "terminal_de (journal w)" p] by (simp add: draw_grid_eq)
qed

text \<open> A pattern goes into its cell. For a cell of the grid \<open>display_pattern\<close> puts the
  character of row \<open>i\<close> and column \<open>j\<close> of the pattern at row \<open>i\<close> and column \<open>j\<close> of the cell where
  the terminal shows it and changes no other position; for any other row or column it does
  nothing. \<close>

theorem display_pattern_cellule:
  "glyphes (terminal_de (journal (display_pattern row col m w))) p =
     (if 0 \<le> row \<and> row < 4 \<and> 0 \<le> col \<and> col < 4 \<and> visible (terminal_de (journal w)) p \<and> dans_cellule w row col p
      then Car (m ! nat (fst p - coin_y w row) ! nat (snd p - coin_x w col))
      else glyphes (terminal_de (journal w)) p)"
  by (simp add: display_pattern_eq terminal_cellule)

text \<open>What the frame and the cells have in common: nothing.\<close>

lemma cellules_disjointes:
  assumes "dans_cellule w r c p" and "dans_cellule w r' c' p"
  shows "r = r' \<and> c = c'"
proof -
  have "9 * r < 9 * r' + 8" "9 * r' < 9 * r + 8" "9 * c < 9 * c' + 8" "9 * c' < 9 * c + 8"
    using assms by (simp_all add: dans_cellule_def coin_y_def coin_x_def)
  then show ?thesis by presburger
qed

lemma cellule_hors_bord:
  assumes "dans_cellule w r c p"
  shows "\<not> bord (fst p - start_y w) (snd p - start_x w)"
proof -
  define u v where "u = fst p - coin_y w r + 1" and "v = snd p - coin_x w c + 1"
  have e: "fst p - start_y w = u + 9 * r" "snd p - start_x w = v + 9 * c"
    by (simp_all add: u_def v_def coin_y_def coin_x_def)
  have "0 < u" "u < 9" "0 < v" "v < 9" using assms by (simp_all add: dans_cellule_def u_def v_def)
  then have "(u + 9 * r) mod 9 = u" "(v + 9 * c) mod 9 = v" by simp_all
  with \<open>0 < u\<close> \<open>0 < v\<close> show ?thesis by (simp add: bord_def e)
qed

text \<open> Cells do not interfere. A position \<open>display_pattern\<close> changes is inside the cell it
  was given, which is a cell of the grid, is not on the frame, and is in no other cell. \<close>

theorem cellules_separees:
  assumes "glyphes (terminal_de (journal (display_pattern row col m w))) p \<noteq> glyphes (terminal_de (journal w)) p"
  shows "row \<in> {0..3} \<and> col \<in> {0..3} \<and> \<not> bord (fst p - start_y w) (snd p - start_x w) \<and>
    (dans_cellule w r c p \<longleftrightarrow> r = row \<and> c = col)"
proof -
  from assms have g: "0 \<le> row" "row < 4" "0 \<le> col" "col < 4" and p: "dans_cellule w row col p"
    by (auto simp: display_pattern_eq terminal_cellule split: if_splits)
  from p cellules_disjointes [of w r c p row col] cellule_hors_bord [OF p] g show ?thesis by auto
qed

text \<open>An example: a terminal of fifty lines and a hundred and thirty-two columns.\<close>

definition etat_grille :: peripheriques where
  "etat_grille = init_ncurses hote_calme etat_initial"

lemma etat_grille_eq:
  "etat_grille = etat_initial\<lparr>journal := [Nc Initscr, Nc Cbreak, Nc Noecho, Nc Keypad, Nc (CursSet 0), Nc (Getmaxyx 50 132), Nc ClearScr],
     screen_height := 50, screen_width := 132, start_x := 47, start_y := 6\<rparr>"
  by (simp add: etat_grille_def init_ncurses_def hote_calme_def etat_initial_def consigne_def sdiv_nonneg Let_def)

lemma etat_grille_visible: "visible (terminal_de (journal etat_grille)) (y, x) \<longleftrightarrow> 0 \<le> y \<and> y < 50 \<and> 0 \<le> x \<and> x < 132"
  by (simp add: etat_grille_eq terminal_de_def terminal_eteint_def visible_def)

theorem cellules_separees_temoin:
  "(1::int) \<in> {0..3} \<and> (2::int) \<in> {0..3} \<and> \<not> bord (fst (16::int, 66::int) - start_y etat_grille) (snd (16::int, 66::int) - start_x etat_grille) \<and>
    (dans_cellule etat_grille 2 2 (16, 66) \<longleftrightarrow> (2::int) = 1 \<and> (2::int) = 2)"
proof (rule cellules_separees)
  show "glyphes (terminal_de (journal (display_pattern 1 2 (replicate 8 (replicate 8 CHR ''x'')) etat_grille))) (16, 66)
      \<noteq> glyphes (terminal_de (journal etat_grille)) (16, 66)"
    unfolding display_pattern_eq by (simp add: terminal_cellule etat_grille_visible)
      (simp add: dans_cellule_def coin_y_def coin_x_def etat_grille_eq terminal_de_def terminal_eteint_def)
qed

text \<open> The grid is centred. On a terminal of at least thirty-seven lines and columns
  \<open>init_ncurses\<close> leaves a blank terminal and a corner such that the whole square of the grid is
  visible, with the same margin, give or take one, on both sides. \<close>

theorem init_ncurses_centre:
  assumes "h_getmaxyx E (journal w @ [Nc Initscr, Nc Cbreak, Nc Noecho, Nc Keypad, Nc (CursSet 0)]) = (h, l)"
    and "37 \<le> h" "37 \<le> l" and "0 \<le> dy" "dy < 37" "0 \<le> dx" "dx < 37"
  shows "visible (terminal_de (journal (init_ncurses E w))) (start_y (init_ncurses E w) + dy, start_x (init_ncurses E w) + dx) \<and>
    glyphes (terminal_de (journal (init_ncurses E w))) = (\<lambda>_. Car CHR '' '') \<and>
    (h - (start_y (init_ncurses E w) + 37)) - start_y (init_ncurses E w) \<in> {0, 1} \<and>
    (l - (start_x (init_ncurses E w) + 37)) - start_x (init_ncurses E w) \<in> {0, 1}"
proof -
  let ?w' = "init_ncurses E w"
  have s: "start_y ?w' = (h - 37) div 2" "start_x ?w' = (l - 37) div 2"
    using assms by (simp_all add: init_ncurses_def Let_def sdiv_nonneg)
  have j: "journal ?w' = journal w @ [Nc Initscr, Nc Cbreak, Nc Noecho, Nc Keypad, Nc (CursSet 0), Nc (Getmaxyx h l), Nc ClearScr]"
    using assms(1) by (simp add: init_ncurses_def Let_def)
  have m: "h - (start_y ?w' + 37) - start_y ?w' \<in> {0, 1}" "l - (start_x ?w' + 37) - start_x ?w' \<in> {0, 1}"
    unfolding s by (simp; presburger)+
  have v: "hauteur (terminal_de (journal ?w')) = h" "largeur (terminal_de (journal ?w')) = l"
    "glyphes (terminal_de (journal ?w')) = (\<lambda>_. Car CHR '' '')"
    by (simp_all add: j)
  have "0 \<le> start_y ?w'" "start_y ?w' + 37 \<le> h" "0 \<le> start_x ?w'" "start_x ?w' + 37 \<le> l"
    using assms m unfolding s by auto
  then have "visible (terminal_de (journal ?w')) (start_y ?w' + dy, start_x ?w' + dx)"
    using assms by (simp add: visible_def v)
  with m v show ?thesis by blast
qed

theorem init_ncurses_centre_temoin:
  "visible (terminal_de (journal (init_ncurses hote_calme etat_initial)))
      (start_y (init_ncurses hote_calme etat_initial) + 36, start_x (init_ncurses hote_calme etat_initial) + 36) \<and>
    glyphes (terminal_de (journal (init_ncurses hote_calme etat_initial))) = (\<lambda>_. Car CHR '' '') \<and>
    (50 - (start_y (init_ncurses hote_calme etat_initial) + 37)) - start_y (init_ncurses hote_calme etat_initial) \<in> {0, 1} \<and>
    (132 - (start_x (init_ncurses hote_calme etat_initial) + 37)) - start_x (init_ncurses hote_calme etat_initial) \<in> {0, 1}"
  by (rule init_ncurses_centre) (simp_all add: hote_calme_def)

end
