(* ===== verification/Formes.thy ===== *)
theory Formes
  imports Leds Grille
begin

text \<open>
  \<open>formes.c\<close>: the sixteen shapes of the game, one byte per line, and \<open>convertir_forme\<close> of
  \<open>lib/jeu.c\<close>, which turns a shape into the characters of a cell. The theory proves that the LED
  matrix and the grid show the same picture of a shape, and that the picture determines the shape.
\<close>

section \<open>The table\<close>

definition formes :: "int list list" where
  "formes =
    [[0b11111111, 0b10000001, 0b10000001, 0b10000001, 0b10000001, 0b10000001, 0b10000001, 0b11111111],
     [0b00000000, 0b00000000, 0b00111100, 0b00100100, 0b00100100, 0b00111100, 0b00000000, 0b00000000],
     [0b00111100, 0b00100100, 0b00100100, 0b00100100, 0b00100100, 0b00100100, 0b00100100, 0b00111100],
     [0b00000000, 0b00000000, 0b11111111, 0b10000001, 0b10000001, 0b11111111, 0b00000000, 0b00000000],
     [0b00000000, 0b00000000, 0b00011000, 0b00111100, 0b01111110, 0b11111111, 0b00000000, 0b00000000],
     [0b00000000, 0b00000000, 0b11111111, 0b01111110, 0b00111100, 0b00011000, 0b00000000, 0b00000000],
     [0b00100000, 0b00110000, 0b00111000, 0b00111100, 0b00111100, 0b00111000, 0b00110000, 0b00100000],
     [0b00000100, 0b00001100, 0b00011100, 0b00111100, 0b00111100, 0b00011100, 0b00001100, 0b00000100],
     [0b00111100, 0b01000010, 0b10000001, 0b10000001, 0b10000001, 0b10000001, 0b01000010, 0b00111100],
     [0b00011000, 0b00100100, 0b01000010, 0b10000001, 0b10000001, 0b01000010, 0b00100100, 0b00011000],
     [0b10000000, 0b01000000, 0b00100000, 0b00010000, 0b00001000, 0b00000100, 0b00000010, 0b00000001],
     [0b00000001, 0b00000010, 0b00000100, 0b00001000, 0b00010000, 0b00100000, 0b01000000, 0b10000000],
     [0b10000001, 0b01000010, 0b00100100, 0b00011000, 0b00011000, 0b00100100, 0b01000010, 0b10000001],
     [0b00000000, 0b00000000, 0b00000000, 0b11111111, 0b11111111, 0b00000000, 0b00000000, 0b00000000],
     [0b00011000, 0b00011000, 0b00011000, 0b00011000, 0b00011000, 0b00011000, 0b00011000, 0b00011000],
     [0b00011000, 0b00011000, 0b00011000, 0b11111111, 0b11111111, 0b00011000, 0b00011000, 0b00011000]]"

text \<open>Reading \<open>formes[i]\<close>: outside the table it is undefined.\<close>

definition formes_lire :: "int \<Rightarrow> int list option" where
  "formes_lire i = (if 0 \<le> i \<and> i < 16 then Some (formes ! nat i) else None)"

definition convertir_forme :: "int list \<Rightarrow> motif" where
  "convertir_forme forme =
     map (\<lambda>i. map (\<lambda>j. if forme ! i AND push_bit (7 - j) 1 \<noteq> 0 then CHR ''x'' else CHR '' '') [0..<8]) [0..<8]"

section \<open>Well-formed shapes\<close>

definition forme_ok :: "int list \<Rightarrow> bool" where
  "forme_ok f \<longleftrightarrow> length f = 8 \<and> (\<forall>x \<in> set f. 0 \<le> x \<and> x < 256)"

lemma length_formes [simp]: "length formes = 16"
  by (simp add: formes_def)

lemma formes_ok: "f \<in> set formes \<Longrightarrow> forme_ok f"
  unfolding formes_def by (auto simp: forme_ok_def)

lemma formes_lire_Some: "\<lbrakk>0 \<le> i; i < 16\<rbrakk> \<Longrightarrow> \<exists>f. formes_lire i = Some f \<and> f = formes ! nat i \<and> forme_ok f"
  by (simp add: formes_lire_def formes_ok)

lemma convertir_forme_nth:
  assumes "i < 8" "j < 8"
  shows "convertir_forme f ! i ! j = (if bit (f ! i) (7 - j) then CHR ''x'' else CHR '' '')"
proof -
  have "f ! i AND push_bit (7 - j) 1 = 0 \<longleftrightarrow> \<not> bit (f ! i) (7 - j)"
    using and_exp_eq_0_iff_not_bit [of "f ! i" "7 - j"] by (simp add: push_bit_eq_mult)
  with assms show ?thesis by (simp add: convertir_forme_def)
qed

text \<open>A byte is determined by its eight bits, hence a shape by its picture.\<close>

lemma octet_bits_inj:
  assumes "0 \<le> x" "x < 256" "0 \<le> y" "y < 256" and "\<And>j. j < 8 \<Longrightarrow> bit x (7 - j) = bit (y::int) (7 - j)"
  shows "x = y"
proof -
  have "bit x n = bit y n" if "n < 8" for n using assms(5) [of "7 - n"] that by (simp add: diff_less_Suc)
  then have "take_bit 8 x = take_bit 8 y" by (auto simp: bit_eq_iff bit_take_bit_iff)
  with assms show ?thesis by (simp add: take_bit_eq_mod)
qed

lemma convertir_forme_inj:
  assumes "forme_ok f" "forme_ok g" and "convertir_forme f = convertir_forme g"
  shows "f = g"
proof (rule nth_equalityI)
  show "length f = length g" using assms by (simp add: forme_ok_def)
  fix i assume i: "i < length f"
  then have i8: "i < 8" using assms(1) by (simp add: forme_ok_def)
  have "bit (f ! i) (7 - j) = bit (g ! i) (7 - j)" if "j < 8" for j
  proof -
    have "convertir_forme f ! i ! j = convertir_forme g ! i ! j" using assms(3) by simp
    with i8 that show ?thesis by (simp add: convertir_forme_nth split: if_splits)
  qed
  then show "f ! i = g ! i"
    using i8 assms(1,2) by (intro octet_bits_inj) (auto simp: forme_ok_def)
qed

section \<open>Properties\<close>

text \<open> C34: one shape, one picture. For every shape of the table, the LED at line \<open>i\<close> and column
  \<open>j\<close> of the matrix is lit by \<open>matrice_led_afficher_motif\<close> exactly when \<open>convertir_forme\<close>
  puts an \<open>x\<close> at line \<open>i\<close> and column \<open>j\<close> of the cell. \<close>

theorem forme_meme_image:
  assumes "formes_lire k = Some f" and "i < 8" "j < 8"
  shows "bit (registres_de d (matrice_led_afficher_motif f w) (1 + int i)) (7 - j) \<longleftrightarrow>
     convertir_forme f ! i ! j = CHR ''x''"
proof -
  have "forme_ok f" using assms(1) by (auto simp: formes_lire_def formes_ok split: if_splits)
  then have l: "length f = 8" and b: "f ! i mod 256 = f ! i" using assms(2) by (auto simp: forme_ok_def)
  have "\<forall>i < 8. registres_de d (matrice_led_afficher_motif f w) (1 + int i) = f ! i mod 256"
    unfolding all_less_8 registres_motif by simp
  with assms b show ?thesis by (simp add: convertir_forme_nth)
qed

theorem forme_meme_image_temoin:
  "bit (registres_de d_max7219 (matrice_led_afficher_motif (formes ! 4) \<lparr>journal = []\<rparr>) (1 + int 2)) (7 - 3) \<longleftrightarrow>
     convertir_forme (formes ! 4) ! 2 ! 3 = CHR ''x''"
  by (rule forme_meme_image [of 4]) (simp_all add: formes_lire_def)

end
