(* ===== verification/Boucles.thy ===== *)
theory Boucles
  imports Prelude
begin

text \<open>
  Loops. \<open>boucle f s\<close> runs the turn \<open>f\<close> from the state \<open>s\<close>: a turn is a fault (\<^term>\<open>None\<close>), a next
  state (\<open>Inl\<close>) or the result of the loop (\<open>Inr\<close>), which covers \<open>break\<close> and \<open>return\<close> inside the
  loop. A loop that never ends is \<^term>\<open>None\<close> too. The two rules are the partial one, an
  invariant, and the total one, an invariant with a well-founded order.
\<close>

partial_function (option) boucle :: "('s \<Rightarrow> ('s + 'r) option) \<Rightarrow> 's \<Rightarrow> 'r option" where
  "boucle f s = (case f s of
      None \<Rightarrow> None
    | Some (Inl s') \<Rightarrow> boucle f s'
    | Some (Inr r) \<Rightarrow> Some r)"

lemma boucle_suite: "f s = Some (Inl s') \<Longrightarrow> boucle f s = boucle f s'"
  and boucle_fin: "f s = Some (Inr r) \<Longrightarrow> boucle f s = Some r"
  and boucle_faute: "f s = None \<Longrightarrow> boucle f s = None"
  by (subst boucle.simps, simp)+

lemma boucle_invariant:
  assumes "boucle f s = Some r" and "P s"
    and pas: "\<And>s s'. \<lbrakk>P s; f s = Some (Inl s')\<rbrakk> \<Longrightarrow> P s'"
    and fin: "\<And>s r. \<lbrakk>P s; f s = Some (Inr r)\<rbrakk> \<Longrightarrow> Q r"
  shows "Q r"
proof -
  have "f = g \<longrightarrow> P s \<longrightarrow> Q r" if "boucle g s = Some r" for g
  proof (rule boucle.raw_induct [where P = "\<lambda>g s r. f = g \<longrightarrow> P s \<longrightarrow> Q r", OF _ that], intro impI)
    fix h g s r
    assume IH: "\<And>g s r. h g s = Some r \<Longrightarrow> f = g \<longrightarrow> P s \<longrightarrow> Q r"
      and eq: "(case g s of None \<Rightarrow> None | Some (Inl s') \<Rightarrow> h g s' | Some (Inr r) \<Rightarrow> Some r) = Some r"
      and g: "f = g" and "P s"
    from eq consider s' where "g s = Some (Inl s')" "h g s' = Some r" | "g s = Some (Inr r)"
      by (auto split: option.splits sum.splits)
    then show "Q r"
      using pas [OF \<open>P s\<close>] fin [OF \<open>P s\<close>] IH g by cases auto
  qed
  with assms(1,2) show ?thesis by blast
qed

lemma boucle_termine:
  assumes "wf R" and "P s"
    and pas: "\<And>s. P s \<Longrightarrow> (\<exists>s'. f s = Some (Inl s') \<and> P s' \<and> (s', s) \<in> R) \<or> (\<exists>r. f s = Some (Inr r) \<and> Q r)"
  shows "\<exists>r. boucle f s = Some r \<and> Q r"
  using assms(1,2)
proof (induction s rule: wf_induct_rule)
  case (less s)
  from pas [OF less.prems] show ?case
  proof
    assume "\<exists>s'. f s = Some (Inl s') \<and> P s' \<and> (s', s) \<in> R"
    then obtain s' where s': "f s = Some (Inl s')" "P s'" "(s', s) \<in> R" by blast
    with less.IH have "\<exists>r. boucle f s' = Some r \<and> Q r" by blast
    with s'(1) show ?thesis by (subst boucle.simps) simp
  next
    assume "\<exists>r. f s = Some (Inr r) \<and> Q r"
    then show ?thesis by (subst boucle.simps) auto
  qed
qed

text \<open>A turn that neither returns nor faults as long as an invariant holds runs for ever.\<close>

lemma boucle_sans_fin:
  assumes "P s" and "\<And>s. P s \<Longrightarrow> \<exists>s'. f s = Some (Inl s') \<and> P s'"
  shows "boucle f s = None"
proof (rule ccontr)
  assume "boucle f s \<noteq> None"
  then obtain r where "boucle f s = Some r" by blast
  then have False by (rule boucle_invariant [where P = P]) (use assms in fastforce)+
  then show False .
qed

end
