(* ===== verification/Jeu.thy ===== *)
theory Jeu
  imports Segment7 Boutons Leds Tactile Ecran Formes Boucles
begin

text \<open>
  \<open>lib/jeu.c\<close>: the game. The theory models every function of the file over the models of the
  peripheral libraries.

  Clocks: a \<open>struct timeval\<close> is a pair of integers, seconds and microseconds. The differences
  of two of them are computed in \<open>double\<close>; the rounding of each operation on \<open>double\<close> is
  the field \<open>h_arrondi\<close> of the host. \<open>rand\<close> answers with what the host gives; a negative answer,
  which POSIX excludes, would index an array below its start and is \<^term>\<open>None\<close>.
\<close>

section \<open>Sockets\<close>

definition envoyer_donnees :: "hote \<Rightarrow> int \<Rightarrow> octet list \<Rightarrow> 'a processus_scheme \<Rightarrow> int \<times> 'a processus_scheme" where
  "envoyer_donnees E socket buffer = send E socket buffer"

definition recevoir_donnees ::
    "hote \<Rightarrow> int \<Rightarrow> nat \<Rightarrow> 'a processus_scheme \<Rightarrow> octet list option \<times> 'a processus_scheme" where
  "recevoir_donnees E socket taille = recv E socket taille"

section \<open>Time\<close>

definition secondes :: "hote \<Rightarrow> int \<times> int \<Rightarrow> int \<times> int \<Rightarrow> real" where
  "secondes E maintenant debut =
     h_arrondi E (of_int (fst maintenant - fst debut) +
       h_arrondi E (of_int (snd maintenant - snd debut) / 1000000))"

section \<open>The grid\<close>

text \<open>
  The double loop that shows the shapes in the order of \<open>indices\<close> and notes where the shape
  looked for is; \<open>afficher_grille\<close> and \<open>afficher_grille_predefinie\<close> share it.
\<close>

definition afficher_cellule ::
    "int \<Rightarrow> int list \<Rightarrow> nat \<Rightarrow> nat \<Rightarrow> nat \<times> int \<times> peripheriques \<Rightarrow> (nat \<times> int \<times> peripheriques) option" where
  "afficher_cellule forme indices i j s =
     (case s of (k, position_forme, w) \<Rightarrow> do {
        indice_forme \<leftarrow> (if k < length indices then Some (indices ! k) else None);
        f \<leftarrow> formes_lire indice_forme;
        let w = display_pattern (int i) (int j) (convertir_forme f) w;
        let position_forme = (if indice_forme = forme then int i * 4 + int j + 1 else position_forme);
        Some (k + 1, position_forme, w)
      })"

definition afficher_formes :: "int \<Rightarrow> int list \<Rightarrow> peripheriques \<Rightarrow> (int \<times> peripheriques) option" where
  "afficher_formes forme indices w = do {
     (k, position_forme, w) \<leftarrow>
       foldM (\<lambda>i. foldM (afficher_cellule forme indices i) [0..<4]) [0..<4] (0, -1, w);
     Some (position_forme, refresh_display w)
   }"

definition melange_pas ::
    "hote \<Rightarrow> nat \<Rightarrow> int list \<times> 'a processus_scheme \<Rightarrow> (int list \<times> 'a processus_scheme) option" where
  "melange_pas E i s =
     (case s of (indices, w) \<Rightarrow>
        let (r, w) = rand E w;
            j = r smod (int i + 1)
        in if j < 0 then None else Some (echange i (nat j) indices, w))"

definition melanger :: "hote \<Rightarrow> 'a processus_scheme \<Rightarrow> (int list \<times> 'a processus_scheme) option" where
  "melanger E w = foldM (melange_pas E) (rev [1..<16]) (map int [0..<16], w)"

definition afficher_grille :: "hote \<Rightarrow> int \<Rightarrow> peripheriques \<Rightarrow> (int \<times> peripheriques) option" where
  "afficher_grille E forme w = do {
     let w = draw_grid w;
     (indices, w) \<leftarrow> melanger E w;
     afficher_formes forme indices w
   }"

definition afficher_grille_predefinie :: "int \<Rightarrow> int list \<Rightarrow> peripheriques \<Rightarrow> (int \<times> peripheriques) option" where
  "afficher_grille_predefinie forme indices w =
     (let w = draw_grid w in afficher_formes forme indices w)"

section \<open>The touch sensor\<close>

definition reinitialiser_capteur_touch :: "hote \<Rightarrow> peripheriques \<Rightarrow> peripheriques" where
  "reinitialiser_capteur_touch E w =
     (let w = touch_cleanup w;
          w = delay 200 w;
          w = touch_init w;
          (_, w) = touch_read E w
      in delay 100 w)"

text \<open>
  One turn of the waiting loop: reading the sensor and the clock. \<open>debut_contact\<close> is not
  initialised in the source; it is read only after the turn that sets it.
\<close>

definition contact_lecture :: "hote \<Rightarrow> int \<times> int \<Rightarrow> bool \<Rightarrow> real \<Rightarrow> peripheriques \<Rightarrow>
    (int \<times> int) \<times> bool \<times> real \<times> peripheriques" where
  "contact_lecture E debut_contact contact_actif temps_cumule w =
     (let (etat_touch, w) = touch_read E w
      in if etat_touch \<noteq> 0 then
           let (contact_actif, debut_contact, w) =
                 (if \<not> contact_actif then let (t, w) = gettimeofday E w in (True, t, w)
                  else (contact_actif, debut_contact, w));
               (temps_actuel, w) = gettimeofday E w
           in (debut_contact, contact_actif, secondes E temps_actuel debut_contact, w)
         else if contact_actif then (debut_contact, False, 0, w)
         else (debut_contact, contact_actif, temps_cumule, w))"

definition barre_progression :: "int \<Rightarrow> peripheriques \<Rightarrow> peripheriques option" where
  "barre_progression barres_a_afficher w = do {
     w \<leftarrow> lcd_position 0 1 w;
     foldM (\<lambda>i. lcd_caractere (octet_de (if int i < barres_a_afficher then CHR ''#'' else CHR ''.''))) [0..<16] w
   }"

definition contact_tour ::
    "hote \<Rightarrow> (int \<times> int) \<times> bool \<times> real \<times> peripheriques \<Rightarrow>
      (((int \<times> int) \<times> bool \<times> real \<times> peripheriques) + (real \<times> peripheriques)) option" where
  "contact_tour E s =
     (case s of (debut_contact, contact_actif, temps_cumule, w) \<Rightarrow>
        if temps_cumule < 1 then do {
          let (debut_contact, contact_actif, temps_cumule, w) =
            contact_lecture E debut_contact contact_actif temps_cumule w;
          barres_a_afficher \<leftarrow> double_to_int (h_arrondi E (temps_cumule * 16));
          w \<leftarrow> barre_progression barres_a_afficher w;
          Some (Inl (debut_contact, contact_actif, temps_cumule, delay 10 w))
        }
        else Some (Inr (temps_cumule, w)))"

definition attendre_contact_tactile :: "hote \<Rightarrow> peripheriques \<Rightarrow> (real \<times> peripheriques) option" where
  "attendre_contact_tactile E w = do {
     let w = reinitialiser_capteur_touch E w;
     w \<leftarrow> lcd_effacer w;
     w \<leftarrow> lcd_ecrire 0 0 ''Maintenez TOUCH'' w;
     w \<leftarrow> lcd_ecrire 0 1 ''pendant 1s'' w;
     w \<leftarrow> foldM (\<lambda>i w. Option.bind (lcd_position (int i) 1 w) (lcd_caractere (octet_de CHR ''.''))) [0..<16] w;
     let w = delay 100 w;
     boucle (contact_tour E) ((0, 0), False, 0, w)
   }"

section \<open>One game\<close>

text \<open>One turn of the stopwatch loop, after the scan of the buttons.\<close>

definition chrono_affichage ::
    "hote \<Rightarrow> int \<times> int \<Rightarrow> int \<Rightarrow> peripheriques \<Rightarrow> (int \<times> int \<times> peripheriques) option" where
  "chrono_affichage E debut temps_precedent w = do {
     let (maintenant, w) = gettimeofday E w;
     let temps_ecoule = secondes E maintenant debut;
     temps_affiche \<leftarrow> double_to_int (h_arrondi E (temps_ecoule * 10));
     if temps_affiche \<noteq> temps_precedent then do {
       w \<leftarrow> segment7_afficher_nombre temps_affiche w;
       Some (temps_affiche, temps_affiche, w)
     }
     else Some (temps_affiche, temps_precedent, w)
   }"

definition chrono_tour ::
    "hote \<Rightarrow> int \<times> int \<Rightarrow> int \<times> int \<times> int \<times> peripheriques \<Rightarrow>
      ((int \<times> int \<times> int \<times> peripheriques) + (int \<times> peripheriques)) option" where
  "chrono_tour E debut s =
     (case s of (rep, temps_affiche, temps_precedent, w) \<Rightarrow>
        if rep = 0 \<and> temps_affiche < 100 then do {
          let (rep, w) = matrice_btn_lire E w;
          (temps_affiche, temps_precedent, w) \<leftarrow> chrono_affichage E debut temps_precedent w;
          Some (Inl (rep, temps_affiche, temps_precedent, delay 10 w))
        }
        else Some (Inr (rep, w)))"

text \<open>The results are the answer, the final time and the right position, in that order.\<close>

definition jouer_partie :: "hote \<Rightarrow> peripheriques \<Rightarrow> (int \<times> int \<times> int \<times> peripheriques) option" where
  "jouer_partie E w = do {
     let w = matrice_led_luminosite 3 w;
     w \<leftarrow> lcd_effacer w;
     w \<leftarrow> lcd_ecrire 0 0 ''Trouvez la forme'' w;
     w \<leftarrow> lcd_ecrire 0 1 ''sur la grille!'' w;
     let (r, w) = rand E w;
     let forme = r smod 16;
     f \<leftarrow> formes_lire forme;
     let w = matrice_led_afficher_motif f w;
     (position_correcte, w) \<leftarrow> afficher_grille E forme w;
     let w = segment7_effacer w;
     w \<leftarrow> segment7_afficher_nombre 0 w;
     let w = matrice_btn_cleanup w;
     let w = delay 100 w;
     let w = matrice_btn_init w;
     let w = delay 50 w;
     let (debut, w) = gettimeofday E w;
     (rep, w) \<leftarrow> boucle (chrono_tour E debut) (0, 0, -1, w);
     let (maintenant, w) = gettimeofday E w;
     let temps_secondes = secondes E maintenant debut;
     temps_final \<leftarrow> double_to_int (h_arrondi E (temps_secondes * 10));
     Some (rep, temps_final, position_correcte, w)
   }"

definition format_temps :: "int \<Rightarrow> string" where
  "format_temps t = ''Temps: '' @ format_d (t sdiv 10) @ ''.'' @ format_d (t smod 10) @ '' s''"

definition afficher_resultat :: "int \<Rightarrow> int \<Rightarrow> int \<Rightarrow> peripheriques \<Rightarrow> peripheriques option" where
  "afficher_resultat rep position_correcte temps_affiche w = do {
     w \<leftarrow> (if temps_affiche \<ge> 100 then do {
            w \<leftarrow> lcd_effacer w;
            w \<leftarrow> lcd_ecrire 0 0 ''Trop lent!'' w;
            lcd_str \<leftarrow> sprintf_buf 16 (format_temps temps_affiche);
            lcd_ecrire 0 1 lcd_str w
          }
          else if rep = position_correcte then do {
            w \<leftarrow> lcd_effacer w;
            w \<leftarrow> lcd_ecrire 0 0 ''Bravo! Correct!'' w;
            lcd_str \<leftarrow> sprintf_buf 16 (format_temps temps_affiche);
            lcd_ecrire 0 1 lcd_str w
          }
          else do {
            w \<leftarrow> lcd_effacer w;
            w \<leftarrow> lcd_ecrire 0 0 ''Erreur!'' w;
            lcd_str \<leftarrow> sprintf_buf 16 (''Position: '' @ format_d position_correcte);
            lcd_ecrire 0 1 lcd_str w
          });
     let w = refresh_display w;
     let w = delay 3000 w;
     Some (refresh_display w)
   }"

section \<open>Setting up and cleaning up\<close>

definition initialiser_peripheriques :: "hote \<Rightarrow> peripheriques \<Rightarrow> (int \<times> peripheriques) option" where
  "initialiser_peripheriques E w =
     (let (r, w) = wiringPiSetup E w
      in if r = -1 then Some (1, w)
         else do {
           let w = delay 50 (init_ncurses E w);
           let w = delay 50 (matrice_btn_init w);
           let w = delay 50 (matrice_led_init w);
           let w = delay 50 (segment7_init E w);
           (_, w) \<leftarrow> lcd_init E w;
           Some (0, delay 50 w)
         })"

definition nettoyer_peripheriques :: "peripheriques \<Rightarrow> peripheriques option" where
  "nettoyer_peripheriques w = do {
     let w = matrice_led_effacer w;
     let w = cleanup_ncurses w;
     let w = segment7_effacer w;
     let w = segment7_cleanup w;
     w \<leftarrow> lcd_effacer w;
     w \<leftarrow> lcd_cleanup w;
     let w = touch_cleanup w;
     let w = matrice_btn_cleanup w;
     Some (matrice_led_cleanup w)
   }"

section \<open>The local game\<close>

definition choix_tour ::
    "hote \<Rightarrow> int \<times> peripheriques \<Rightarrow> ((int \<times> peripheriques) + (int \<times> peripheriques)) option" where
  "choix_tour E s =
     (case s of (choix, w) \<Rightarrow>
        if choix \<noteq> 1 \<and> choix \<noteq> 2 then
          let (choix, w) = matrice_btn_lire E w in Some (Inl (choix, delay 100 w))
        else Some (Inr (choix, w)))"

text \<open>The body of the loop of \<open>lancer_jeu\<close>: one game and the choice to play again.\<close>

definition manche :: "hote \<Rightarrow> peripheriques \<Rightarrow> (peripheriques + peripheriques) option" where
  "manche E w = do {
     let w = touch_cleanup w;
     let w = matrice_btn_cleanup w;
     let w = delay 200 w;
     let w = matrice_btn_init w;
     let w = touch_init w;
     let w = delay 100 w;
     (_, w) \<leftarrow> attendre_contact_tactile E w;
     let w = touch_cleanup w;
     let w = delay 50 w;
     (rep, temps_final, position_correcte, w) \<leftarrow> jouer_partie E w;
     w \<leftarrow> afficher_resultat rep position_correcte temps_final w;
     w \<leftarrow> lcd_effacer w;
     let w = segment7_effacer w;
     let w = matrice_led_effacer w;
     let w = fold (\<lambda>i. fold (\<lambda>j. clear_cell (int i) (int j)) [0..<4]) [0..<4] w;
     let w = refresh_display w;
     let w = matrice_btn_cleanup w;
     let w = delay 100 w;
     let w = matrice_btn_init w;
     let w = delay 50 w;
     w \<leftarrow> lcd_effacer w;
     w \<leftarrow> lcd_ecrire 0 0 ''Rejouer: Btn 1'' w;
     w \<leftarrow> lcd_ecrire 0 1 ''Quitter: Btn 2'' w;
     (choix, w) \<leftarrow> boucle (choix_tour E) (0, w);
     Some (if choix = 2 then Inr w else Inl w)
   }"

definition lancer_jeu :: "hote \<Rightarrow> peripheriques \<Rightarrow> (int \<times> peripheriques) option" where
  "lancer_jeu E w = do {
     let w = srand_time w;
     (r, w) \<leftarrow> initialiser_peripheriques E w;
     if r \<noteq> 0 then Some (1, w)
     else do {
       w \<leftarrow> lcd_effacer w;
       w \<leftarrow> lcd_ecrire 0 0 ''Jeu de Reflexes'' w;
       w \<leftarrow> lcd_ecrire 0 1 ''Preparez-vous...'' w;
       let w = delay 1000 w;
       w \<leftarrow> boucle (manche E) w;
       w \<leftarrow> nettoyer_peripheriques w;
       Some (0, w)
     }
   }"

text \<open>\<open>local.c\<close>: the program itself, from its initial state.\<close>

definition local_main :: "hote \<Rightarrow> (int \<times> peripheriques) option" where
  "local_main E = lancer_jeu E etat_initial"

end
