(* ===== verification/Grillage.thy ===== *)
theory Grillage
  imports Jeu
begin

text \<open>
  The grid of one game: the shuffle of \<open>afficher_grille\<close>, what the sixteen cells show, and the
  position it returns. The theorems join four components: the shapes, the terminal, the shuffle
  and the button matrix.
\<close>

section \<open>The double loop\<close>

lemma foldM_product: "foldM (\<lambda>i. foldM (f i) ys) xs s = foldM (\<lambda>(i, j). f i j) (List.product xs ys) s"
proof (induction xs arbitrary: s)
  case Nil
  show ?case by simp
next
  case (Cons x xs)
  have "foldM (\<lambda>(i, j). f i j) (map (Pair x) ys) s = foldM (f x) ys s" for s
    by (induction ys arbitrary: s) (auto split: Option.bind_splits)
  with Cons.IH show ?case by (simp add: foldM_append cong: Option.bind_cong)
qed

lemma foldM_map: "foldM f (map g xs) s = foldM (\<lambda>x. f (g x)) xs s"
  by (induction xs arbitrary: s) (auto split: Option.bind_splits)

lemma cases_16: "List.product [0..<4] [0..<4] = map (\<lambda>k. (k div 4, k mod 4)) [0..<16::nat]"
  by (simp add: upt_rec)

text \<open>The first \<open>n\<close> cells: the position noted and the characters written.\<close>

fun position_dans :: "int list \<Rightarrow> int \<Rightarrow> nat \<Rightarrow> int" where
  "position_dans indices forme 0 = -1"
| "position_dans indices forme (Suc n) =
     (if indices ! n = forme then int n + 1 else position_dans indices forme n)"

definition motif_cellule :: "int list \<Rightarrow> nat \<Rightarrow> motif" where
  "motif_cellule indices k = convertir_forme (formes ! nat (indices ! k))"

definition ecritures_formes :: "peripheriques \<Rightarrow> int list \<Rightarrow> nat \<Rightarrow> event list" where
  "ecritures_formes w indices k = traces (ecritures_cellule (coin_y w (int (k div 4))) (coin_x w (int (k mod 4)))
     (\<lambda>i j. motif_cellule indices k ! i ! j))"

lemma coins_consigne [simp]: "coin_y (consigne es w) r = coin_y w r" "coin_x (consigne es w) c = coin_x w c"
  by (simp_all add: coin_y_def coin_x_def)

lemma ecritures_formes_consigne [simp]: "ecritures_formes (consigne es w) = ecritures_formes w"
  by (simp add: ecritures_formes_def fun_eq_iff)

lemma afficher_cellule_eq:
  assumes "k < 16" "length indices = 16" "\<forall>x \<in> set indices. 0 \<le> x \<and> x < 16"
  shows "afficher_cellule forme indices (k div 4) (k mod 4) (k, p, w) =
    Some (Suc k, if indices ! k = forme then int k + 1 else p, consigne (ecritures_formes w indices k) w)"
proof -
  have "0 \<le> indices ! k \<and> indices ! k < 16" using assms by simp
  moreover have "int (k div 4) * 4 + int (k mod 4) = int k" by (metis of_nat_add of_nat_mult of_nat_numeral div_mult_mod_eq)
  moreover have "int (k div 4) < 4" "int (k mod 4) < 4" using assms(1) by simp_all
  ultimately show ?thesis
    using assms(1,2) by (simp add: afficher_cellule_def formes_lire_def display_pattern_eq ecritures_formes_def motif_cellule_def)
qed

lemma afficher_cellules_eq:
  assumes "n \<le> 16" "length indices = 16" "\<forall>x \<in> set indices. 0 \<le> x \<and> x < 16"
  shows "foldM (\<lambda>k. afficher_cellule forme indices (k div 4) (k mod 4)) [0..<n] (0, -1, w) =
    Some (n, position_dans indices forme n, consigne (concat (map (ecritures_formes w indices) [0..<n])) w)"
  using assms(1)
proof (induction n)
  case 0
  then show ?case by simp
next
  case (Suc n)
  then show ?case
    using assms(2,3) by (simp add: foldM_append afficher_cellule_eq)
qed

lemma afficher_formes_eq:
  assumes "length indices = 16" "\<forall>x \<in> set indices. 0 \<le> x \<and> x < 16"
  shows "afficher_formes forme indices w = Some (position_dans indices forme 16,
    consigne (concat (map (ecritures_formes w indices) [0..<16]) @ [Nc Refresh]) w)"
  using afficher_cellules_eq [of 16 indices forme w] assms
  by (simp add: afficher_formes_def foldM_product cases_16 foldM_map refresh_display_def refresh_def)

section \<open>What the cells show\<close>

definition case_de :: "peripheriques \<Rightarrow> nat \<Rightarrow> int \<times> int \<Rightarrow> bool" where
  "case_de w k p \<longleftrightarrow> dans_cellule w (int (k div 4)) (int (k mod 4)) p"

lemma case_de_unique: "case_de w k p \<Longrightarrow> case_de w k' p \<Longrightarrow> k = k'"
proof -
  assume "case_de w k p" "case_de w k' p"
  then have "k div 4 = k' div 4" "k mod 4 = k' mod 4"
    using cellules_disjointes unfolding case_de_def by (metis of_nat_eq_iff)+
  then show ?thesis by (metis div_mult_mod_eq)
qed

lemma glyphes_formes:
  assumes "case_de w k p" and "visible t p"
  shows "glyphes (fold terminal_pas (concat (map (ecritures_formes w indices) [0..<n])) t) p =
    (if k < n then Car (motif_cellule indices k ! nat (fst p - coin_y w (int (k div 4))) ! nat (snd p - coin_x w (int (k mod 4))))
     else glyphes t p)"
proof (induction n)
  case 0
  then show ?case by simp
next
  case (Suc n)
  have v: "visible (fold terminal_pas (traces ws) t) p = visible t p" for ws t
    by (simp add: terminal_traces visible_def)
  have "visible (fold terminal_pas (concat (map (ecritures_formes w indices) [0..<n])) t) p"
    using assms(2) by (induction n) (simp_all add: v ecritures_formes_def)
  moreover have "dans_cellule w (int (n div 4)) (int (n mod 4)) p \<longleftrightarrow> n = k"
    using case_de_unique [OF assms(1), of n] assms(1) unfolding case_de_def by auto
  moreover have "glyphes (fold terminal_pas (ecritures_formes w indices n) T) p =
      (if visible T p \<and> dans_cellule w (int (n div 4)) (int (n mod 4)) p
       then Car (motif_cellule indices n ! nat (fst p - coin_y w (int (n div 4))) ! nat (snd p - coin_x w (int (n mod 4))))
       else glyphes T p)" for T
    by (simp add: ecritures_formes_def terminal_cellule)
  ultimately show ?case using Suc by auto
qed

text \<open>A cell that shows a picture: every position of it the terminal has holds its character.\<close>

definition cellule_montre :: "peripheriques \<Rightarrow> nat \<Rightarrow> motif \<Rightarrow> bool" where
  "cellule_montre w k m \<longleftrightarrow> (\<forall>i < 8. \<forall>j < 8.
     glyphes (terminal_de (journal w)) (coin_y w (int (k div 4)) + int i, coin_x w (int (k mod 4)) + int j) = Car (m ! i ! j))"

definition grille_visible :: "peripheriques \<Rightarrow> bool" where
  "grille_visible w \<longleftrightarrow> 0 \<le> start_y w \<and> start_y w + 37 \<le> hauteur (terminal_de (journal w)) \<and>
     0 \<le> start_x w \<and> start_x w + 37 \<le> largeur (terminal_de (journal w))"

lemma terminal_cellules_montrees:
  assumes "grille_visible w" "k < 16" "i < 8" "j < 8"
  shows "glyphes (fold terminal_pas (concat (map (ecritures_formes w indices) [0..<16])) (terminal_de (journal w)))
      (coin_y w (int (k div 4)) + int i, coin_x w (int (k mod 4)) + int j) = Car (motif_cellule indices k ! i ! j)"
proof -
  let ?p = "(coin_y w (int (k div 4)) + int i, coin_x w (int (k mod 4)) + int j)"
  have "case_de w k ?p" using assms(3,4) by (simp add: case_de_def dans_cellule_def)
  moreover have "int (k div 4) < 4" "int (k mod 4) < 4" using assms(2) by simp_all
  then have "visible (terminal_de (journal w)) ?p"
    using assms by (auto simp: visible_def grille_visible_def coin_y_def coin_x_def)
  ultimately show ?thesis using assms(2) by (simp add: glyphes_formes)
qed

section \<open>The shuffle\<close>

text \<open>The shuffle as a function of the numbers drawn: at place \<open>i\<close>, the place to swap with.\<close>

fun fisher_yates :: "nat list \<Rightarrow> nat \<Rightarrow> 'a list \<Rightarrow> 'a list" where
  "fisher_yates [] i xs = xs"
| "fisher_yates (j # js) i xs = fisher_yates js (i - 1) (echange i j xs)"

definition tirages_ok :: "nat list \<Rightarrow> nat \<Rightarrow> bool" where
  "tirages_ok js i \<longleftrightarrow> length js = i \<and> (\<forall>k < i. js ! k \<le> i - k)"

lemma tirages_ok_Cons: "tirages_ok (j # js) (Suc i) \<longleftrightarrow> j \<le> Suc i \<and> tirages_ok js i"
  by (auto simp: tirages_ok_def nth_Cons' All_less_Suc2 split: if_splits)

lemma tirages_ok_0 [simp]: "tirages_ok js 0 \<longleftrightarrow> js = []"
  by (auto simp: tirages_ok_def)

lemma fisher_yates_mset: "\<lbrakk>tirages_ok js i; i < length xs\<rbrakk> \<Longrightarrow> mset (fisher_yates js i xs) = mset xs"
proof (induction js i xs rule: fisher_yates.induct)
  case (2 j js i xs)
  then obtain i' where "i = Suc i'" by (cases i) auto
  with 2 show ?case by (simp add: tirages_ok_Cons)
qed simp

lemma fisher_yates_fixe: "\<lbrakk>tirages_ok js i; i < k; i < length xs\<rbrakk> \<Longrightarrow> fisher_yates js i xs ! k = xs ! k"
proof (induction js i xs rule: fisher_yates.induct)
  case (2 j js i xs)
  then obtain i' where i: "i = Suc i'" by (cases i) auto
  with 2 have "fisher_yates js i' (echange i j xs) ! k = echange i j xs ! k"
    by (simp add: tirages_ok_Cons)
  with 2 i show ?case by (simp add: echange_def tirages_ok_Cons Let_def nth_list_update)
qed simp

lemma fisher_yates_inj:
  "\<lbrakk>tirages_ok js i; tirages_ok js' i; i < length xs; distinct xs; fisher_yates js i xs = fisher_yates js' i xs\<rbrakk> \<Longrightarrow> js = js'"
proof (induction i arbitrary: js js' xs)
  case 0
  then show ?case by simp
next
  case (Suc i)
  from Suc.prems obtain j ks where js: "js = j # ks" by (cases js) (auto simp: tirages_ok_def)
  from Suc.prems obtain j' ks' where js': "js' = j' # ks'" by (cases js') (auto simp: tirages_ok_def)
  have t: "j \<le> Suc i" "tirages_ok ks i" "j' \<le> Suc i" "tirages_ok ks' i"
    using Suc.prems by (simp_all add: js js' tirages_ok_Cons)
  have l: "j < length xs" "j' < length xs" "Suc i < length xs" using t Suc.prems by linarith+
  have e: "fisher_yates ks i (echange (Suc i) j xs) = fisher_yates ks' i (echange (Suc i) j' xs)"
    using Suc.prems by (simp add: js js')
  have "echange (Suc i) j xs ! Suc i = echange (Suc i) j' xs ! Suc i"
    using e fisher_yates_fixe [OF t(2), of "Suc i" "echange (Suc i) j xs"]
      fisher_yates_fixe [OF t(4), of "Suc i" "echange (Suc i) j' xs"] l by simp
  moreover have "echange (Suc i) k xs ! Suc i = xs ! k" if "k < length xs" for k
    using that l by (simp add: echange_def Let_def nth_list_update)
  ultimately have "xs ! j = xs ! j'" using l by simp
  with Suc.prems(4) l have j: "j = j'" by (simp add: nth_eq_iff_index_eq)
  have "distinct (echange (Suc i) j xs)"
    using Suc.prems(4) l mset_echange [of "Suc i" xs j] by (metis mset_eq_imp_distinct_iff)
  with Suc.IH [OF t(2) t(4), of "echange (Suc i) j xs"] e l have "ks = ks'" by (simp add: j)
  with j show ?case by (simp add: js js')
qed

text \<open>The shuffle of the source draws its numbers from the host.\<close>

definition hasard_ok :: "hote \<Rightarrow> bool" where
  "hasard_ok E \<longleftrightarrow> (\<forall>h. 0 \<le> h_rand E h)"

lemma melanger_fisher_yates:
  assumes "hasard_ok E" and "i < length xs"
  shows "\<exists>js es. foldM (melange_pas E) (rev [1..<Suc i]) (xs, w) = Some (fisher_yates js i xs, consigne es w) \<and>
     tirages_ok js i \<and> (\<forall>e \<in> set es. \<exists>r. e = Sys (Rand r))"
  using assms(2)
proof (induction i arbitrary: xs w)
  case 0
  show ?case by (rule exI [of _ "[]"], rule exI [of _ "[]"]) simp
next
  case (Suc i)
  define r where "r = h_rand E (journal w)"
  define j where "j = nat (r smod (int (Suc i) + 1))"
  have r: "0 \<le> r" using assms(1) by (simp add: hasard_ok_def r_def)
  then have m: "r smod (int (Suc i) + 1) = r mod (int (Suc i) + 1)" by (intro smod_nonneg) simp_all
  have "0 \<le> r mod (int (Suc i) + 1)" "r mod (int (Suc i) + 1) < int (Suc i) + 1"
    by (rule pos_mod_sign pos_mod_bound, simp)+
  then have j: "0 \<le> r smod (int (Suc i) + 1)" "j \<le> Suc i"
    unfolding j_def m by linarith+
  have p: "melange_pas E (Suc i) (xs, w) = Some (echange (Suc i) j xs, consigne [Sys (Rand r)] w)"
    using j(1) by (simp add: melange_pas_def rand_def r_def j_def Let_def)
  have "i < length (echange (Suc i) j xs)" using Suc.prems by simp
  from Suc.IH [OF this, of "consigne [Sys (Rand r)] w"] obtain js es where
    f: "foldM (melange_pas E) (rev [1..<Suc i]) (echange (Suc i) j xs, consigne [Sys (Rand r)] w) =
      Some (fisher_yates js i (echange (Suc i) j xs), consigne es (consigne [Sys (Rand r)] w))"
    and t: "tirages_ok js i" and e: "\<forall>e \<in> set es. \<exists>r. e = Sys (Rand r)" by blast
  have "rev [1..<Suc (Suc i)] = Suc i # rev [1..<Suc i]" by simp
  with f p have "foldM (melange_pas E) (rev [1..<Suc (Suc i)]) (xs, w) =
      Some (fisher_yates (j # js) (Suc i) xs, consigne (Sys (Rand r) # es) w)" by simp
  moreover have "tirages_ok (j # js) (Suc i)" using t j(2) by (simp add: tirages_ok_Cons)
  moreover have "\<forall>e \<in> set (Sys (Rand r) # es). \<exists>r. e = Sys (Rand r)" using e by simp
  ultimately show ?case by blast
qed

lemma mset_fin_egale:
  assumes "mset ys = mset xs" and "drop n ys = drop n xs"
  shows "mset (take n ys) = mset (take n xs)"
proof -
  have "mset (take n ys) + mset (drop n ys) = mset (take n xs) + mset (drop n xs)"
    using assms(1) by (simp flip: mset_append)
  with assms(2) show ?thesis by simp
qed

lemma fisher_yates_surj:
  "\<lbrakk>mset ys = mset xs; i < length xs; drop (Suc i) ys = drop (Suc i) xs\<rbrakk> \<Longrightarrow>
     \<exists>js. tirages_ok js i \<and> fisher_yates js i xs = ys"
proof (induction i arbitrary: xs)
  case 0
  have l: "length ys = length xs" using 0(1) by (metis size_mset)
  have "mset (take 1 ys) = mset (take 1 xs)" using mset_fin_egale [OF 0(1), of 1] 0(3) by simp
  moreover have "take 1 ys = [ys ! 0]" "take 1 xs = [xs ! 0]" using 0(2) l by (simp_all add: take_Suc_conv_app_nth)
  ultimately have "take 1 ys = take 1 xs" by simp
  with 0(3) have "ys = xs" by (metis One_nat_def append_take_drop_id)
  then show ?case by (intro exI [of _ "[]"]) simp
next
  case (Suc i)
  have l: "length ys = length xs" using Suc.prems(1) by (metis size_mset)
  let ?n = "Suc (Suc i)"
  have "mset (take ?n ys) = mset (take ?n xs)" by (rule mset_fin_egale [OF Suc.prems(1,3)])
  then have s: "set (take ?n ys) = set (take ?n xs)" by (metis set_mset_mset)
  have "ys ! Suc i \<in> set (take ?n ys)" 
    unfolding in_set_conv_nth using Suc.prems(2) l by (intro exI [of _ "Suc i"]) simp
  with s obtain j where j: "j \<le> Suc i" "xs ! j = ys ! Suc i"
    by (auto simp: in_set_conv_nth less_Suc_eq_le)
  let ?xs = "echange (Suc i) j xs"
  have jl: "j < length xs" using j(1) Suc.prems(2) by simp
  have "drop (Suc i) ys = drop (Suc i) ?xs"
  proof (rule nth_equalityI)
    show "length (drop (Suc i) ys) = length (drop (Suc i) ?xs)" using l by simp
    fix k assume "k < length (drop (Suc i) ys)"
    then have k: "Suc i + k < length xs" using l by simp
    show "drop (Suc i) ys ! k = drop (Suc i) ?xs ! k"
    proof (cases k)
      case 0
      then show ?thesis using j k l jl by (auto simp: echange_def Let_def nth_list_update)
    next
      case (Suc k')
      have "drop ?n ys ! k' = drop ?n xs ! k'" using Suc.prems(3) by simp
      then show ?thesis using j k l jl Suc by (simp add: echange_def Let_def nth_list_update)
    qed
  qed
  moreover have "mset ys = mset ?xs" "i < length ?xs" using Suc.prems jl by simp_all
  ultimately obtain js where "tirages_ok js i" "fisher_yates js i ?xs = ys" using Suc.IH [of ?xs] by blast
  then show ?case using j(1) by (intro exI [of _ "j # js"]) (simp add: tirages_ok_Cons)
qed

text \<open>A host whose successive answers to \<open>rand\<close> are the numbers of a list.\<close>

definition est_tirage :: "event \<Rightarrow> bool" where
  "est_tirage e \<longleftrightarrow> (\<exists>r. e = Sys (Rand r))"

lemma est_tirage_Rand [simp]: "est_tirage (Sys (Rand r))"
  by (simp add: est_tirage_def)

definition hote_tirages :: "nat list \<Rightarrow> hote" where
  "hote_tirages js = hote_calme\<lparr>h_rand := \<lambda>h. int (js ! length (filter est_tirage h))\<rparr>"

lemma melanger_tirages:
  assumes "tirages_ok js i" and "i < length xs" and "drop (length (filter est_tirage (journal w))) js' = js"
  shows "\<exists>w'. foldM (melange_pas (hote_tirages js')) (rev [1..<Suc i]) (xs, w) = Some (fisher_yates js i xs, w')"
  using assms
proof (induction i arbitrary: js xs w)
  case 0
  then show ?case by simp
next
  case (Suc i)
  obtain j ks where js: "js = j # ks" "j \<le> Suc i" "tirages_ok ks i"
  proof (cases js)
    case Nil
    with Suc.prems(1) show ?thesis by (simp add: tirages_ok_def)
  next
    case (Cons j ks)
    with Suc.prems(1) that show ?thesis by (simp add: tirages_ok_Cons)
  qed
  let ?n = "length (filter est_tirage (journal w))"
  have n: "js' ! ?n = j" "drop (Suc ?n) js' = ks"
    using Suc.prems(3) js(1) by (metis hd_drop_conv_nth drop_eq_Nil linorder_not_le list.distinct(1) list.sel(1))
      (metis Suc.prems(3) js(1) drop_Suc tl_drop list.sel(3))
  let ?w = "consigne [Sys (Rand (int j))] w"
  have "int j smod (int (Suc i) + 1) = int j" using js(2) by (subst smod_nonneg) simp_all
  then have p: "melange_pas (hote_tirages js') (Suc i) (xs, w) = Some (echange (Suc i) j xs, ?w)"
    by (simp add: melange_pas_def rand_def hote_tirages_def n Let_def)
  have "\<exists>w'. foldM (melange_pas (hote_tirages js')) (rev [1..<Suc i]) (echange (Suc i) j xs, ?w) =
      Some (fisher_yates ks i (echange (Suc i) j xs), w')"
    using Suc.prems(2) n(2) by (intro Suc.IH js(3)) simp_all
  moreover have "rev [1..<Suc (Suc i)] = Suc i # rev [1..<Suc i]" by simp
  ultimately show ?case using p by (simp add: js(1))
qed

section \<open>The whole grid\<close>

lemma position_dans_unique:
  "\<lbrakk>k < n; indices ! k = forme; \<And>k'. k' < n \<Longrightarrow> indices ! k' = forme \<Longrightarrow> k' = k\<rbrakk> \<Longrightarrow>
     position_dans indices forme n = int k + 1"
proof (induction n)
  case (Suc n)
  show ?case
  proof (cases "indices ! n = forme")
    case True
    then have "n = k" using Suc.prems(3) [of n] by simp
    with True show ?thesis by simp
  next
    case False
    then have "k < n" using Suc.prems(1,2) by (metis less_antisym)
    then have "position_dans indices forme n = int k + 1"
      using Suc.prems(2,3) by (intro Suc.IH) simp_all
    with False show ?thesis by simp
  qed
qed simp

lemma taille_traces [simp]: "hauteur (fold terminal_pas (traces ws) t) = hauteur t"
  "largeur (fold terminal_pas (traces ws) t) = largeur t"
  by (simp_all add: terminal_traces)

lemma grille_visible_consigne:
  assumes "\<forall>e \<in> set es. \<not> terminal_concerne e"
  shows "grille_visible (consigne es w) = grille_visible w"
  using assms by (simp add: grille_visible_def terminal.fold_ignore)

lemma draw_grid_suite:
  "start_y (draw_grid w) = start_y w \<and> start_x (draw_grid w) = start_x w \<and> grille_visible (draw_grid w) = grille_visible w"
  by (simp add: draw_grid_eq grille_visible_def)

definition indices_ok :: "int list \<Rightarrow> bool" where
  "indices_ok indices \<longleftrightarrow> mset indices = mset (map int [0..<16])"

lemma indices_okD:
  assumes "indices_ok indices"
  shows "length indices = 16" "distinct indices" "set indices = {0..<16}"
proof -
  have "set indices = set (map int [0..<16])" using assms unfolding indices_ok_def by (metis set_mset_mset)
  also have "\<dots> = {0..<16}"
  proof
    show "{0..<16} \<subseteq> set (map int [0..<16])"
    proof
      fix x :: int assume "x \<in> {0..<16}"
      then have "x = int (nat x)" "nat x \<in> {0..<16}" by auto
      then show "x \<in> set (map int [0..<16])" by (metis image_eqI set_map set_upt)
    qed
  qed auto
  finally show "set indices = {0..<16}" .
  show "length indices = 16" using assms unfolding indices_ok_def by (metis size_mset length_map length_upt diff_zero)
  have "distinct (map int [0..<16])" by (simp add: distinct_map)
  then show "distinct indices" using assms unfolding indices_ok_def by (metis mset_eq_imp_distinct_iff)
qed

lemma afficher_formes_montre:
  assumes "grille_visible w" "indices_ok indices"
  shows "\<exists>w'. afficher_formes forme indices w = Some (position_dans indices forme 16, w') \<and>
    (\<forall>k < 16. cellule_montre w' k (motif_cellule indices k))"
proof -
  note ok = indices_okD [OF assms(2)]
  let ?w' = "consigne (concat (map (ecritures_formes w indices) [0..<16]) @ [Nc Refresh]) w"
  have "cellule_montre ?w' k (motif_cellule indices k)" if "k < 16" for k
    unfolding cellule_montre_def using terminal_cellules_montrees [OF assms(1) that, of _ _ indices] by simp
  with afficher_formes_eq [of indices forme w] ok show ?thesis by auto
qed

lemma position_trouvee:
  assumes "indices_ok indices" "0 \<le> forme" "forme < 16"
  obtains k where "k < 16" "indices ! k = forme" "position_dans indices forme 16 = int k + 1"
proof -
  note ok = indices_okD [OF assms(1)]
  have "forme \<in> set indices" using ok(3) assms by simp
  then obtain k where k: "k < 16" "indices ! k = forme" using ok(1) by (auto simp: in_set_conv_nth)
  moreover have "position_dans indices forme 16 = int k + 1"
    using k ok by (intro position_dans_unique) (auto simp: nth_eq_iff_index_eq)
  ultimately show ?thesis by (rule that)
qed

lemma motif_taille: "length (convertir_forme f) = 8" "i < 8 \<Longrightarrow> length (convertir_forme f ! i) = 8"
  by (simp_all add: convertir_forme_def)

lemma cellule_montre_unique:
  assumes "cellule_montre w k (convertir_forme f)" "cellule_montre w k (convertir_forme g)"
  shows "convertir_forme f = convertir_forme g"
proof (rule nth_equalityI)
  fix i assume "i < length (convertir_forme f)"
  then have i: "i < 8" by (simp add: motif_taille)
  show "convertir_forme f ! i = convertir_forme g ! i"
  proof (rule nth_equalityI)
    fix j assume "j < length (convertir_forme f ! i)"
    then have "j < 8" using i by (simp add: motif_taille)
    with i assms have "Car (convertir_forme f ! i ! j) = Car (convertir_forme g ! i ! j)"
      unfolding cellule_montre_def by metis
    then show "convertir_forme f ! i ! j = convertir_forme g ! i ! j" by simp
  qed (simp add: motif_taille i)
qed (simp add: motif_taille)

lemma cellule_montre_forme:
  assumes "indices_ok indices" "k < 16" "0 \<le> forme" "forme < 16" and "cellule_montre w k (motif_cellule indices k)"
  shows "cellule_montre w k (convertir_forme (formes ! nat forme)) \<longleftrightarrow> indices ! k = forme"
proof
  assume "cellule_montre w k (convertir_forme (formes ! nat forme))"
  with assms(5) have "convertir_forme (formes ! nat (indices ! k)) = convertir_forme (formes ! nat forme)"
    unfolding motif_cellule_def by (rule cellule_montre_unique)
  moreover have r: "0 \<le> indices ! k" "indices ! k < 16" using indices_okD [OF assms(1)] assms(2) nth_mem [of k indices] by auto
  ultimately have "formes ! nat (indices ! k) = formes ! nat forme"
    using assms(3,4) by (intro convertir_forme_inj formes_ok) simp_all
  moreover have "distinct formes" by (simp add: formes_def)
  ultimately show "indices ! k = forme" using r assms(3,4) by (simp add: nth_eq_iff_index_eq)
qed (use assms(5) in \<open>simp add: motif_cellule_def\<close>)

lemma grille_generale:
  assumes "grille_visible w" "0 \<le> forme" "forme < 16" "indices_ok indices"
  shows "\<exists>k w'. afficher_formes forme indices w = Some (int k + 1, w') \<and> k < 16 \<and> indices ! k = forme \<and>
    (\<forall>k' < 16. cellule_montre w' k' (motif_cellule indices k'))"
  using afficher_formes_montre [OF assms(1,4), of forme] position_trouvee [OF assms(4,2,3)] by metis

lemma melanger_ok:
  assumes "hasard_ok E"
  shows "\<exists>indices es. melanger E w = Some (indices, consigne es w) \<and> indices_ok indices \<and> (\<forall>e \<in> set es. est_tirage e)"
proof -
  have "15 < length (map int [0..<16])" by simp
  from melanger_fisher_yates [OF assms this, of w] fisher_yates_mset [OF _ this]
  show ?thesis unfolding melanger_def est_tirage_def indices_ok_def by (simp add: eval_nat_numeral) metis
qed

lemma afficher_grille_general:
  assumes "hasard_ok E" "grille_visible w" "0 \<le> forme" "forme < 16"
  shows "\<exists>indices k w'. afficher_grille E forme w = Some (int k + 1, w') \<and> indices_ok indices \<and> k < 16 \<and>
    indices ! k = forme \<and> (\<forall>k' < 16. cellule_montre w' k' (motif_cellule indices k'))"
proof -
  obtain indices es where m: "melanger E (draw_grid w) = Some (indices, consigne es (draw_grid w))" "indices_ok indices"
    "\<forall>e \<in> set es. est_tirage e" using melanger_ok [OF assms(1)] by blast
  have "\<forall>e \<in> set es. \<not> terminal_concerne e" using m(3) by (auto simp: est_tirage_def)
  then have "grille_visible (consigne es (draw_grid w))"
    using assms(2) draw_grid_suite [of w] by (simp add: grille_visible_consigne)
  from grille_generale [OF this assms(3,4) m(2)] m show ?thesis
    by (auto simp: afficher_grille_def)
qed

section \<open>Properties\<close>

text \<open> The shuffle is a permutation. When \<open>rand\<close> answers non-negative numbers, the shuffle of
  \<open>afficher_grille\<close> returns, draws only from \<open>rand\<close>, and leaves each of the sixteen shapes
  exactly once among the indices. \<close>

theorem melanger_permutation:
  assumes "hasard_ok E"
  shows "\<exists>indices es. melanger E w = Some (indices, consigne es w) \<and> mset indices = mset (map int [0..<16]) \<and>
    (\<forall>e \<in> set es. est_tirage e)"
  using melanger_ok [OF assms] unfolding indices_ok_def .

theorem melanger_permutation_temoin:
  "\<exists>indices es. melanger hote_calme etat_initial = Some (indices, consigne es etat_initial) \<and>
    mset indices = mset (map int [0..<16]) \<and> (\<forall>e \<in> set es. est_tirage e)"
  by (rule melanger_permutation) (simp add: hasard_ok_def hote_calme_def)

text \<open> C35: the shuffle is fair. Every arrangement of the sixteen shapes is obtained from exactly one
  sequence of fifteen draws, the \<open>k\<close>-th in the range \<open>0\<close> to \<open>15 - k\<close>: if the remainders of
  \<open>rand\<close> are equally likely, so are the arrangements. \<close>

theorem melanger_equitable:
  assumes "mset ys = mset (map int [0..<16])" and "filter est_tirage (journal w) = []"
  shows "\<exists>!js. tirages_ok js 15 \<and> (\<exists>w'. melanger (hote_tirages js) w = Some (ys, w'))"
proof -
  let ?xs = "map int [0..<16]"
  have m: "(\<exists>w'. melanger (hote_tirages js) w = Some (ys, w')) \<longleftrightarrow> fisher_yates js 15 ?xs = ys"
    if "tirages_ok js 15" for js
    using melanger_tirages [OF that, of ?xs w js] assms(2) unfolding melanger_def
    by (auto simp: eval_nat_numeral)
  have d: "distinct ?xs" by (simp add: distinct_map)
  obtain js where js: "tirages_ok js 15" "fisher_yates js 15 ?xs = ys"
    using fisher_yates_surj [of ys ?xs 15] assms(1) mset_eq_length [OF assms(1)] by auto
  show ?thesis
  proof (rule ex1I [of _ js])
    show "tirages_ok js 15 \<and> (\<exists>w'. melanger (hote_tirages js) w = Some (ys, w'))" using js m by blast
    fix ks assume "tirages_ok ks 15 \<and> (\<exists>w'. melanger (hote_tirages ks) w = Some (ys, w'))"
    then show "ks = js" using js m fisher_yates_inj [of ks 15 js ?xs] d by auto
  qed
qed

theorem melanger_equitable_temoin:
  "\<exists>!js. tirages_ok js 15 \<and> (\<exists>w'. melanger (hote_tirages js) etat_initial = Some (rev (map int [0..<16]), w'))"
  by (rule melanger_equitable) (simp_all add: etat_initial_def)

text \<open> C11: a grid with one right answer. On a terminal large enough \<open>afficher_grille\<close> returns; each
  of the sixteen cells then shows one shape of a permutation of the table, character by
  character, and the number returned, from 1 to 16, is that of the cell of the shape asked for. \<close>

theorem afficher_grille_juste:
  assumes "hasard_ok E" and "grille_visible w" and "0 \<le> forme" "forme < 16"
  shows "\<exists>indices k w'. afficher_grille E forme w = Some (int k + 1, w') \<and> indices_ok indices \<and> k < 16 \<and>
    indices ! k = forme \<and> (\<forall>k' < 16. cellule_montre w' k' (motif_cellule indices k'))"
  by (rule afficher_grille_general [OF assms])

lemma etat_grille_visible_tout: "grille_visible etat_grille"
  by (simp add: grille_visible_def etat_grille_eq terminal_de_def terminal_eteint_def)

theorem afficher_grille_juste_temoin:
  "\<exists>indices k w'. afficher_grille hote_calme 7 etat_grille = Some (int k + 1, w') \<and> indices_ok indices \<and> k < 16 \<and>
    indices ! k = 7 \<and> (\<forall>k' < 16. cellule_montre w' k' (motif_cellule indices k'))"
  by (rule afficher_grille_juste [OF _ etat_grille_visible_tout]) (simp_all add: hasard_ok_def hote_calme_def)

text \<open> C10: the right key is where the right shape is. If one key alone is held, at row \<open>r\<close> and
  column \<open>c\<close> of the matrix, then the number a scan of the buttons returns equals the position
  \<open>afficher_grille\<close> returned exactly when the cell at row \<open>r\<close> and column \<open>c\<close> of the grid shows
  the shape asked for. \<close>

theorem bonne_touche_bonne_forme:
  assumes "hasard_ok E" and "grille_visible w" and "0 \<le> forme" "forme < 16"
    and "clavier P E" and "\<forall>r' < 4. \<forall>c' < 4. P r' c' \<longleftrightarrow> r' = r \<and> c' = c" and "r < 4" "c < 4"
  shows "\<exists>position w'. afficher_grille E forme w = Some (position, w') \<and>
    (fst (matrice_btn_lire E w'') = position \<longleftrightarrow> cellule_montre w' (4 * r + c) (convertir_forme (formes ! nat forme)))"
proof -
  from afficher_grille_general [OF assms(1-4)] obtain indices k w' where
    g: "afficher_grille E forme w = Some (int k + 1, w')" "indices_ok indices" "k < 16" "indices ! k = forme"
      "\<forall>k' < 16. cellule_montre w' k' (motif_cellule indices k')" by blast
  let ?m = "4 * r + c"
  have m: "?m < 16" using assms(7,8) by simp
  have "fst (matrice_btn_lire E w'') = int ?m + 1"
    unfolding lire_clavier [OF assms(5)] balayage_seule [OF assms(6-8)] by (simp add: numero_def)
  then have "fst (matrice_btn_lire E w'') = int k + 1 \<longleftrightarrow> ?m = k"
    by (simp only: add_right_cancel of_nat_eq_iff)
  also have "\<dots> \<longleftrightarrow> indices ! ?m = forme"
    using indices_okD [OF g(2)] m g(3,4) by (metis nth_eq_iff_index_eq)
  also have "\<dots> \<longleftrightarrow> cellule_montre w' ?m (convertir_forme (formes ! nat forme))"
    using cellule_montre_forme [OF g(2) m assms(3,4)] g(5) m by blast
  finally show ?thesis using g(1) by blast
qed

theorem bonne_touche_bonne_forme_temoin:
  "\<exists>position w'. afficher_grille (hote_touche 2 3) 5 etat_grille = Some (position, w') \<and>
    (fst (matrice_btn_lire (hote_touche 2 3) etat_grille) = position \<longleftrightarrow> cellule_montre w' (4 * 2 + 3) (convertir_forme (formes ! nat 5)))"
  by (rule bonne_touche_bonne_forme [OF _ etat_grille_visible_tout _ _ clavier_touche [of 2 3]])
    (simp_all add: hasard_ok_def hote_touche_def hote_calme_def)

end
