(* ===== verification/Fdset.thy ===== *)
theory Fdset
  imports Prelude
begin

text \<open>
  Sets of file descriptors, as \<open>sys/select.h\<close> and \<open>bits/select.h\<close> of the C library of the
  cross compiler define them: an array of 1024 bits in words of type \<open>long int\<close>, which has 32 bits
  on the target. The server gives such sets to \<open>select\<close>.

  A descriptor whose word is outside the array, or whose shift count is negative, is undefined
  behaviour in C and \<^term>\<open>None\<close> here. The abstraction of a set is the set of its descriptors;
  the locale states what the macros promise on it and the interpretation proves it.
\<close>

section \<open>The macros\<close>

abbreviation (input) FD_SETSIZE :: nat where "FD_SETSIZE \<equiv> 1024"
abbreviation (input) NFDBITS :: int where "NFDBITS \<equiv> 8 * 4"

record fd_set =
  fds_bits :: "32 word list"

definition FDELT :: "int \<Rightarrow> int" where
  "FDELT d = d sdiv NFDBITS"

definition FDMASK :: "int \<Rightarrow> 32 word option" where
  "FDMASK d = (let k = d smod NFDBITS in if 0 \<le> k then Some (push_bit (nat k) 1) else None)"

definition fd_mot :: "fd_set \<Rightarrow> int \<Rightarrow> 32 word option" where
  "fd_mot s i = (if 0 \<le> i \<and> nat i < length (fds_bits s) then Some (fds_bits s ! nat i) else None)"

definition FD_ZERO :: "fd_set \<Rightarrow> fd_set" where
  "FD_ZERO s = fold (\<lambda>i s. s\<lparr>fds_bits := (fds_bits s)[i := 0]\<rparr>) [0..<FD_SETSIZE div 8 div 4] s"

definition FD_SET :: "int \<Rightarrow> fd_set \<Rightarrow> fd_set option" where
  "FD_SET d s = do {
     m \<leftarrow> fd_mot s (FDELT d);
     masque \<leftarrow> FDMASK d;
     Some (s\<lparr>fds_bits := (fds_bits s)[nat (FDELT d) := m OR masque]\<rparr>)
   }"

definition FD_CLR :: "int \<Rightarrow> fd_set \<Rightarrow> fd_set option" where
  "FD_CLR d s = do {
     m \<leftarrow> fd_mot s (FDELT d);
     masque \<leftarrow> FDMASK d;
     Some (s\<lparr>fds_bits := (fds_bits s)[nat (FDELT d) := m AND NOT masque]\<rparr>)
   }"

definition FD_ISSET :: "int \<Rightarrow> fd_set \<Rightarrow> bool option" where
  "FD_ISSET d s = do {
     m \<leftarrow> fd_mot s (FDELT d);
     masque \<leftarrow> FDMASK d;
     Some (m AND masque \<noteq> 0)
   }"

section \<open>Interface: a bounded set\<close>

text \<open>
  What a client of the macros relies on: operations that are defined exactly on the elements
  within the bounds, and act on the abstraction as on a set.
\<close>

locale ensemble_borne =
  fixes bon :: "'s \<Rightarrow> bool"
    and borne :: "'a \<Rightarrow> bool"
    and contenu :: "'s \<Rightarrow> 'a set"
    and vider :: "'s \<Rightarrow> 's"
    and ajouter :: "'a \<Rightarrow> 's \<Rightarrow> 's option"
    and enlever :: "'a \<Rightarrow> 's \<Rightarrow> 's option"
    and present :: "'a \<Rightarrow> 's \<Rightarrow> bool option"
  assumes vider_bon: "bon s \<Longrightarrow> bon (vider s) \<and> contenu (vider s) = {}"
    and ajouter_bon: "\<lbrakk>bon s; borne x\<rbrakk> \<Longrightarrow>
        \<exists>s'. ajouter x s = Some s' \<and> bon s' \<and> contenu s' = insert x (contenu s)"
    and enlever_bon: "\<lbrakk>bon s; borne x\<rbrakk> \<Longrightarrow>
        \<exists>s'. enlever x s = Some s' \<and> bon s' \<and> contenu s' = contenu s - {x}"
    and present_bon: "\<lbrakk>bon s; borne x\<rbrakk> \<Longrightarrow> present x s = Some (x \<in> contenu s)"
    and hors_borne: "\<lbrakk>bon s; \<not> borne x\<rbrakk> \<Longrightarrow> ajouter x s = None \<and> enlever x s = None \<and> present x s = None"
begin

lemma ajouter_liste:
  assumes "bon s" and "\<And>x. x \<in> set xs \<Longrightarrow> borne x"
  shows "\<exists>s'. foldM ajouter xs s = Some s' \<and> bon s' \<and> contenu s' = set xs \<union> contenu s"
  using assms
proof (induction xs arbitrary: s)
  case Nil
  then show ?case by simp
next
  case (Cons x xs)
  then obtain t where t: "ajouter x s = Some t" "bon t" "contenu t = insert x (contenu s)"
    using ajouter_bon [of s x] by auto
  with Cons.IH [of t] Cons.prems show ?case by auto
qed

lemma vider_puis_ajouter:
  assumes "bon s" and "\<And>x. x \<in> set xs \<Longrightarrow> borne x"
  shows "\<exists>s'. foldM ajouter xs (vider s) = Some s' \<and> bon s' \<and> contenu s' = set xs"
  using ajouter_liste [of "vider s" xs] vider_bon [of s] assms by simp

lemma ajouter_Some:
  assumes "bon s" and "ajouter x s = Some s'"
  shows "borne x" and "bon s'" and "contenu s' = insert x (contenu s)"
  using assms ajouter_bon [of s x] hors_borne [of s x] by (cases "borne x"; auto)+

lemma present_Some: "\<lbrakk>bon s; present x s = Some b\<rbrakk> \<Longrightarrow> borne x \<and> b = (x \<in> contenu s)"
  using present_bon [of s x] hors_borne [of s x] by (cases "borne x") auto

end

section \<open>The macros implement it\<close>

definition fd_borne :: "int \<Rightarrow> bool" where
  "fd_borne d \<longleftrightarrow> 0 \<le> d \<and> d < int FD_SETSIZE"

definition fd_set_ok :: "fd_set \<Rightarrow> bool" where
  "fd_set_ok s \<longleftrightarrow> length (fds_bits s) = 32"

definition descripteurs :: "fd_set \<Rightarrow> int set" where
  "descripteurs s = {d. fd_borne d \<and> bit (fds_bits s ! nat (d div 32)) (nat (d mod 32))}"

lemma FDMASK_cas: "FDMASK d = (if d smod 32 < 0 then None else Some (push_bit (nat (d smod 32)) 1))"
  by (simp add: FDMASK_def Let_def)

lemma fd_mot_borne:
  assumes "fd_set_ok s" and "fd_borne d"
  shows "fd_mot s (FDELT d) = Some (fds_bits s ! nat (d div 32))"
    and "FDMASK d = Some (push_bit (nat (d mod 32)) 1)"
    and "nat (d div 32) < 32" and "FDELT d = d div 32"
proof -
  from assms have d: "0 \<le> d" "d < 1024" by (simp_all add: fd_borne_def)
  then show E: "FDELT d = d div 32" by (simp add: FDELT_def sdiv_nonneg)
  from d have "d div 32 < 32" by simp
  with d show n: "nat (d div 32) < 32" by simp
  with E d assms show "fd_mot s (FDELT d) = Some (fds_bits s ! nat (d div 32))"
    by (simp add: fd_mot_def fd_set_ok_def pos_imp_zdiv_nonneg_iff)
  from d show "FDMASK d = Some (push_bit (nat (d mod 32)) 1)"
    by (simp add: FDMASK_cas smod_nonneg)
qed

text \<open>Outside the bounds a word or a shift count is out of range: a negative number has a
  negative remainder or a negative quotient.\<close>

lemma fd_hors_borne:
  assumes "fd_set_ok s" and "\<not> fd_borne d"
  shows "fd_mot s (FDELT d) = None \<or> FDMASK d = None"
proof (cases "0 \<le> d")
  case True
  with assms have "1024 \<le> d" by (simp add: fd_borne_def)
  then have "\<not> nat (d div 32) < 32" by simp
  with True assms show ?thesis
    by (simp add: fd_mot_def FDELT_def sdiv_nonneg fd_set_ok_def)
next
  case False
  then have q: "FDELT d = - (- d div 32)" and r: "d smod 32 = - (- d mod 32)"
    by (simp_all add: FDELT_def signed_divide_int_def signed_modulo_int_def)
  show ?thesis
  proof (cases "- d mod 32 = 0")
    case True
    with False have "0 < - d div 32" by (auto elim!: dvdE simp: mod_eq_0_iff_dvd)
    with q show ?thesis by (simp add: fd_mot_def)
  next
    case False
    moreover have "0 \<le> - d mod 32" by simp
    ultimately have "d smod 32 < 0" using r by linarith
    then show ?thesis by (simp add: FDMASK_cas)
  qed
qed

text \<open>Two descriptors within the bounds are the same bit only when they are equal.\<close>

lemma meme_bit:
  assumes "fd_borne d" and "fd_borne e"
  shows "nat (d div 32) = nat (e div 32) \<and> nat (d mod 32) = nat (e mod 32) \<longleftrightarrow> d = e"
proof
  assume *: "nat (d div 32) = nat (e div 32) \<and> nat (d mod 32) = nat (e mod 32)"
  with assms have "d div 32 = e div 32" "d mod 32 = e mod 32"
    by (simp_all add: fd_borne_def eq_nat_nat_iff pos_imp_zdiv_nonneg_iff)
  then show "d = e" by (metis div_mult_mod_eq)
qed simp

lemma bit_masque: "k < 32 \<Longrightarrow> bit (push_bit k 1 :: 32 word) n \<longleftrightarrow> n = k"
  by (auto simp: bit_simps bit_1_iff)

lemma fd_zero: "fd_set_ok s \<Longrightarrow> fds_bits (FD_ZERO s) = replicate 32 0"
proof -
  have *: "fds_bits (fold (\<lambda>i s. s\<lparr>fds_bits := (fds_bits s)[i := 0]\<rparr>) xs s) = fold (\<lambda>i l. l[i := 0]) xs (fds_bits s)"
    for xs s by (induction xs arbitrary: s) auto
  have **: "fold (\<lambda>i l. l[i := 0]) [0..<n] l = replicate n (0 :: 32 word) @ drop n l" if "n \<le> length l" for n l
    using that
  proof (induction n)
    case (Suc n)
    then have "drop n l = l ! n # drop (Suc n) l" by (simp add: Cons_nth_drop_Suc)
    with Suc show ?case by (simp add: list_update_append replicate_append_same)
  qed simp
  assume "fd_set_ok s"
  then show ?thesis by (simp add: FD_ZERO_def * ** fd_set_ok_def)
qed

lemma contenu_maj:
  assumes "fd_set_ok s" and "fd_borne d"
    and "\<And>n. n < 32 \<Longrightarrow> bit m n \<longleftrightarrow> (if n = nat (d mod 32) then b else bit (fds_bits s ! nat (d div 32)) n)"
  shows "descripteurs (s\<lparr>fds_bits := (fds_bits s)[nat (d div 32) := m]\<rparr>) =
    (if b then insert d (descripteurs s) else descripteurs s - {d})"
proof -
  have "e \<in> descripteurs (s\<lparr>fds_bits := (fds_bits s)[nat (d div 32) := m]\<rparr>) \<longleftrightarrow>
      (if e = d then b else e \<in> descripteurs s)" for e
  proof (cases "fd_borne e")
    case True
    have n: "nat (e mod 32) < 32" by (simp add: nat_less_iff)
    have l: "nat (d div 32) < length (fds_bits s)"
      using fd_mot_borne(3) [OF assms(1,2)] assms(1) by (simp add: fd_set_ok_def)
    show ?thesis
    proof (cases "nat (e div 32) = nat (d div 32)")
      case i: True
      then have "nat (e mod 32) = nat (d mod 32) \<longleftrightarrow> e = d"
        using meme_bit [OF True assms(2)] by simp
      with i l True show ?thesis
        using assms(3) [OF n] by (simp add: descripteurs_def nth_list_update)
    next
      case False
      then have "e \<noteq> d" by auto
      with False True show ?thesis by (simp add: descripteurs_def)
    qed
  next
    case False
    with assms(2) show ?thesis by (auto simp: descripteurs_def)
  qed
  then show ?thesis by (cases b) (simp_all add: set_eq_iff)
qed

interpretation fds: ensemble_borne fd_set_ok fd_borne descripteurs FD_ZERO FD_SET FD_CLR FD_ISSET
proof
  fix s d
  assume s: "fd_set_ok s"
  show "fd_set_ok (FD_ZERO s) \<and> descripteurs (FD_ZERO s) = {}"
  proof
    show "fd_set_ok (FD_ZERO s)" by (simp add: fd_set_ok_def fd_zero [OF s])
    have "nat (d div 32) < 32" if "fd_borne d" for d using fd_mot_borne(3) [OF s that] .
    then show "descripteurs (FD_ZERO s) = {}" by (auto simp: descripteurs_def fd_zero [OF s])
  qed
  show "FD_SET d s = None \<and> FD_CLR d s = None \<and> FD_ISSET d s = None" if "\<not> fd_borne d"
    using fd_hors_borne [OF s that] by (auto simp: FD_SET_def FD_CLR_def FD_ISSET_def split: Option.bind_splits)
  assume d: "fd_borne d"
  note m = fd_mot_borne [OF s d]
  have k: "nat (d mod 32) < 32" by (simp add: nat_less_iff)
  define m where "m = fds_bits s ! nat (d div 32)"
  define u where "u = (push_bit (nat (d mod 32)) 1 :: 32 word)"
  have mu: "fd_mot s (FDELT d) = Some m" "FDMASK d = Some u" "nat (FDELT d) = nat (d div 32)"
    using m by (simp_all add: m_def u_def)
  have u: "bit u n \<longleftrightarrow> n = nat (d mod 32)" for n unfolding u_def by (rule bit_masque [OF k])
  show "\<exists>s'. FD_SET d s = Some s' \<and> fd_set_ok s' \<and> descripteurs s' = insert d (descripteurs s)"
    using contenu_maj [OF s d, of "m OR u" True] s
    by (simp add: FD_SET_def mu fd_set_ok_def bit_or_iff u m_def)
  show "\<exists>s'. FD_CLR d s = Some s' \<and> fd_set_ok s' \<and> descripteurs s' = descripteurs s - {d}"
    using contenu_maj [OF s d, of "m AND NOT u" False] s
    by (simp add: FD_CLR_def mu fd_set_ok_def bit_and_iff bit_not_iff u m_def)
  have "m AND u \<noteq> 0 \<longleftrightarrow> bit m (nat (d mod 32))"
    using and_exp_eq_0_iff_not_bit [of m "nat (d mod 32)"] by (simp add: u_def)
  with d show "FD_ISSET d s = Some (d \<in> descripteurs s)"
    by (simp add: FD_ISSET_def mu descripteurs_def m_def)
qed

text \<open> C36: On a descriptor between 0 and 1023 the four macros act as the operations of a set of
  descriptors: FD_ZERO empties it, FD_SET adds one member, FD_CLR removes it, FD_ISSET tests it, and
  none of them touches another descriptor. On any other descriptor they leave the array or shift by
  a negative count. \<close>

theorem fd_set_ensemble:
  assumes "length (fds_bits s) = 32"
  shows "descripteurs (FD_ZERO s) = {} \<and> length (fds_bits (FD_ZERO s)) = 32 \<and>
    (if 0 \<le> d \<and> d < 1024 then
       (\<exists>s'. FD_SET d s = Some s' \<and> descripteurs s' = insert d (descripteurs s) \<and> length (fds_bits s') = 32) \<and>
       (\<exists>s'. FD_CLR d s = Some s' \<and> descripteurs s' = descripteurs s - {d} \<and> length (fds_bits s') = 32) \<and>
       FD_ISSET d s = Some (d \<in> descripteurs s)
     else FD_SET d s = None \<and> FD_CLR d s = None \<and> FD_ISSET d s = None)"
proof -
  from assms have s: "fd_set_ok s" by (simp add: fd_set_ok_def)
  have b: "fd_borne d \<longleftrightarrow> 0 \<le> d \<and> d < 1024" by (simp add: fd_borne_def)
  show ?thesis
    unfolding b [symmetric]
    using fds.vider_bon [OF s] fds.ajouter_bon [OF s, of d] fds.enlever_bon [OF s, of d] fds.present_bon [OF s, of d]
      fds.hors_borne [OF s, of d]
    by (cases "fd_borne d") (auto simp: fd_set_ok_def)
qed

theorem fd_set_ensemble_temoin:
  "let s = \<lparr>fds_bits = replicate 32 0\<rparr> in
    (\<exists>s'. FD_SET 33 s = Some s' \<and> descripteurs s' = insert 33 (descripteurs s)) \<and> FD_SET 1024 s = None \<and>
    descripteurs (FD_ZERO s) = {}"
proof -
  define s where "s = \<lparr>fds_bits = replicate 32 (0 :: 32 word)\<rparr>"
  have l: "length (fds_bits s) = 32" by (simp add: s_def)
  from fd_set_ensemble [OF l, of 33] fd_set_ensemble [OF l, of 1024] show ?thesis
    by (auto simp: Let_def simp flip: s_def)
qed

end
