(* ===== verification/Octets.thy ===== *)
theory Octets
  imports Prelude
begin

text \<open>
  Byte order: \<open>bits/byteswap.h\<close> and the conversions of \<open>netinet/in.h\<close> and \<open>endian.h\<close> that the
  programs use through \<open>htons\<close>, in the little-endian configuration of the target, and the
  kernel's \<open>linux/swab.h\<close>. The specification of all of them is on the bytes of a value in
  memory, lowest address first.
\<close>

section \<open>The bytes of a value\<close>

definition octets :: "nat \<Rightarrow> 'a::len word \<Rightarrow> 8 word list" where
  "octets n x = map (\<lambda>k. ucast (drop_bit (8 * k) x)) [0..<n]"

lemma length_octets [simp]: "length (octets n x) = n"
  by (simp add: octets_def)

section \<open>Byte swaps of the C library\<close>

definition bswap_constant_16 :: "32 word \<Rightarrow> 32 word" where
  "bswap_constant_16 x = (drop_bit 8 x AND 0xff) OR push_bit 8 (x AND 0xff)"

definition bswap_16 :: "16 word \<Rightarrow> 16 word" where
  "bswap_16 x = ucast (bswap_constant_16 (ucast x))"

definition bswap_constant_32 :: "32 word \<Rightarrow> 32 word" where
  "bswap_constant_32 x =
     drop_bit 24 (x AND 0xff000000) OR drop_bit 8 (x AND 0x00ff0000) OR
     push_bit 8 (x AND 0x0000ff00) OR push_bit 24 (x AND 0x000000ff)"

definition bswap_32 :: "32 word \<Rightarrow> 32 word" where
  "bswap_32 bsx = bswap_constant_32 bsx"

definition bswap_constant_64 :: "64 word \<Rightarrow> 64 word" where
  "bswap_constant_64 x =
     drop_bit 56 (x AND 0xff00000000000000) OR drop_bit 40 (x AND 0x00ff000000000000) OR
     drop_bit 24 (x AND 0x0000ff0000000000) OR drop_bit 8 (x AND 0x000000ff00000000) OR
     push_bit 8 (x AND 0x00000000ff000000) OR push_bit 24 (x AND 0x0000000000ff0000) OR
     push_bit 40 (x AND 0x000000000000ff00) OR push_bit 56 (x AND 0x00000000000000ff)"

text \<open>
  The union of a 64 bit value with its two words: on the little-endian target \<open>l[0]\<close> is the low
  word. The first argument says whether the compiler takes \<open>x\<close> for a constant.
\<close>

definition bswap_64 :: "bool \<Rightarrow> 64 word \<Rightarrow> 64 word" where
  "bswap_64 constante x =
     (if constante then bswap_constant_64 x
      else
        let w0 = ucast x :: 32 word; w1 = ucast (drop_bit 32 x) :: 32 word;
            r0 = bswap_32 w1; r1 = bswap_32 w0
        in ucast r0 OR push_bit 32 (ucast r1))"

section \<open>Conversions of the network and of the file formats\<close>

definition ntohl :: "32 word \<Rightarrow> 32 word" where "ntohl x = bswap_32 x"
definition ntohs :: "16 word \<Rightarrow> 16 word" where "ntohs x = bswap_16 x"
definition htonl :: "32 word \<Rightarrow> 32 word" where "htonl x = bswap_32 x"
definition htons :: "16 word \<Rightarrow> 16 word" where "htons x = bswap_16 x"

definition htobe16 :: "16 word \<Rightarrow> 16 word" where "htobe16 x = bswap_16 x"
definition htole16 :: "16 word \<Rightarrow> 16 word" where "htole16 x = x"
definition be16toh :: "16 word \<Rightarrow> 16 word" where "be16toh x = bswap_16 x"
definition le16toh :: "16 word \<Rightarrow> 16 word" where "le16toh x = x"
definition htobe32 :: "32 word \<Rightarrow> 32 word" where "htobe32 x = bswap_32 x"
definition htole32 :: "32 word \<Rightarrow> 32 word" where "htole32 x = x"
definition be32toh :: "32 word \<Rightarrow> 32 word" where "be32toh x = bswap_32 x"
definition le32toh :: "32 word \<Rightarrow> 32 word" where "le32toh x = x"
definition htobe64 :: "bool \<Rightarrow> 64 word \<Rightarrow> 64 word" where "htobe64 c x = bswap_64 c x"
definition htole64 :: "64 word \<Rightarrow> 64 word" where "htole64 x = x"
definition be64toh :: "bool \<Rightarrow> 64 word \<Rightarrow> 64 word" where "be64toh c x = bswap_64 c x"
definition le64toh :: "64 word \<Rightarrow> 64 word" where "le64toh x = x"

section \<open>Byte swaps of the kernel headers\<close>

definition constant_swab16 :: "16 word \<Rightarrow> 16 word" where
  "constant_swab16 x = push_bit 8 (x AND 0x00ff) OR drop_bit 8 (x AND 0xff00)"

definition constant_swab32 :: "32 word \<Rightarrow> 32 word" where
  "constant_swab32 x =
     push_bit 24 (x AND 0x000000ff) OR push_bit 8 (x AND 0x0000ff00) OR
     drop_bit 8 (x AND 0x00ff0000) OR drop_bit 24 (x AND 0xff000000)"

definition constant_swab64 :: "64 word \<Rightarrow> 64 word" where
  "constant_swab64 x =
     push_bit 56 (x AND 0x00000000000000ff) OR push_bit 40 (x AND 0x000000000000ff00) OR
     push_bit 24 (x AND 0x0000000000ff0000) OR push_bit 8 (x AND 0x00000000ff000000) OR
     drop_bit 8 (x AND 0x000000ff00000000) OR drop_bit 24 (x AND 0x0000ff0000000000) OR
     drop_bit 40 (x AND 0x00ff000000000000) OR drop_bit 56 (x AND 0xff00000000000000)"

definition constant_swahw32 :: "32 word \<Rightarrow> 32 word" where
  "constant_swahw32 x = push_bit 16 (x AND 0x0000ffff) OR drop_bit 16 (x AND 0xffff0000)"

definition constant_swahb32 :: "32 word \<Rightarrow> 32 word" where
  "constant_swahb32 x = push_bit 8 (x AND 0x00ff00ff) OR drop_bit 8 (x AND 0xff00ff00)"

text \<open>
  \<open>asm/swab.h\<close> of ARM: the 32 bit swap by rotations and an exclusive or. The assembly
  instruction \<open>eor t, x, x, ror #16\<close> computes what the C line beside it does.
\<close>

definition arch_swab32 :: "32 word \<Rightarrow> 32 word" where
  "arch_swab32 x =
     (let t = x XOR (push_bit 16 x OR drop_bit 16 x);
          x = push_bit 24 x OR drop_bit 8 x;
          t = t AND NOT 0x00FF0000
      in x XOR drop_bit 8 t)"

text \<open>
  The functions, in the configuration of the target: \<open>__arch_swab32\<close> is defined, 64 bit values
  are swapped through their 32 bit halves, and none of the other \<open>__arch_\<close> variants exists.
\<close>

definition fswab16 :: "16 word \<Rightarrow> 16 word" where "fswab16 val = constant_swab16 val"
definition fswab32 :: "32 word \<Rightarrow> 32 word" where "fswab32 val = arch_swab32 val"

definition fswab64 :: "64 word \<Rightarrow> 64 word" where
  "fswab64 val =
     (let h = ucast (drop_bit 32 val) :: 32 word;
          l = ucast (val AND (push_bit 32 1 - 1)) :: 32 word
      in push_bit 32 (ucast (fswab32 l)) OR ucast (fswab32 h))"

definition fswahw32 :: "32 word \<Rightarrow> 32 word" where "fswahw32 val = constant_swahw32 val"
definition fswahb32 :: "32 word \<Rightarrow> 32 word" where "fswahb32 val = constant_swahb32 val"

text \<open>The macros choose by \<open>__builtin_constant_p\<close>, the first argument.\<close>

definition swab16 :: "bool \<Rightarrow> 16 word \<Rightarrow> 16 word" where
  "swab16 constante x = (if constante then constant_swab16 x else fswab16 x)"
definition swab32 :: "bool \<Rightarrow> 32 word \<Rightarrow> 32 word" where
  "swab32 constante x = (if constante then constant_swab32 x else fswab32 x)"
definition swab64 :: "bool \<Rightarrow> 64 word \<Rightarrow> 64 word" where
  "swab64 constante x = (if constante then constant_swab64 x else fswab64 x)"
definition swahw32 :: "bool \<Rightarrow> 32 word \<Rightarrow> 32 word" where
  "swahw32 constante x = (if constante then constant_swahw32 x else fswahw32 x)"
definition swahb32 :: "bool \<Rightarrow> 32 word \<Rightarrow> 32 word" where
  "swahb32 constante x = (if constante then constant_swahb32 x else fswahb32 x)"

text \<open>Through a pointer, in a memory of values of the type pointed to: read, and swap in place.\<close>

definition swab16p :: "'p \<Rightarrow> ('p \<Rightarrow> 16 word) \<Rightarrow> 16 word" where "swab16p p m = swab16 False (m p)"
definition swab32p :: "'p \<Rightarrow> ('p \<Rightarrow> 32 word) \<Rightarrow> 32 word" where "swab32p p m = swab32 False (m p)"
definition swab64p :: "'p \<Rightarrow> ('p \<Rightarrow> 64 word) \<Rightarrow> 64 word" where "swab64p p m = swab64 False (m p)"
definition swahw32p :: "'p \<Rightarrow> ('p \<Rightarrow> 32 word) \<Rightarrow> 32 word" where "swahw32p p m = swahw32 False (m p)"
definition swahb32p :: "'p \<Rightarrow> ('p \<Rightarrow> 32 word) \<Rightarrow> 32 word" where "swahb32p p m = swahb32 False (m p)"
definition swab16s :: "'p \<Rightarrow> ('p \<Rightarrow> 16 word) \<Rightarrow> 'p \<Rightarrow> 16 word" where "swab16s p m = m(p := swab16p p m)"
definition swab32s :: "'p \<Rightarrow> ('p \<Rightarrow> 32 word) \<Rightarrow> 'p \<Rightarrow> 32 word" where "swab32s p m = m(p := swab32p p m)"
definition swab64s :: "'p \<Rightarrow> ('p \<Rightarrow> 64 word) \<Rightarrow> 'p \<Rightarrow> 64 word" where "swab64s p m = m(p := swab64p p m)"
definition swahw32s :: "'p \<Rightarrow> ('p \<Rightarrow> 32 word) \<Rightarrow> 'p \<Rightarrow> 32 word" where "swahw32s p m = m(p := swahw32p p m)"
definition swahb32s :: "'p \<Rightarrow> ('p \<Rightarrow> 32 word) \<Rightarrow> 'p \<Rightarrow> 32 word" where "swahb32s p m = m(p := swahb32p p m)"

section \<open>Bit level\<close>

lemma word8_eqI: "(\<And>n. n < 8 \<Longrightarrow> bit a n = bit b n) \<Longrightarrow> a = (b :: 8 word)"
  by (rule bit_word_eqI) simp

lemma masques_32:
  "0xff = (push_bit 0 (mask 8) :: 32 word)" "0xff00 = (push_bit 8 (mask 8) :: 32 word)"
  "0xff0000 = (push_bit 16 (mask 8) :: 32 word)" "0xff000000 = (push_bit 24 (mask 8) :: 32 word)"
  by (simp_all add: mask_eq_exp_minus_1 push_bit_eq_mult)

lemma masques_16: "0xff = (push_bit 0 (mask 8) :: 16 word)" "0xff00 = (push_bit 8 (mask 8) :: 16 word)"
  by (simp_all add: mask_eq_exp_minus_1 push_bit_eq_mult)

lemma masques_64:
  "0xff = (push_bit 0 (mask 8) :: 64 word)" "0xff00 = (push_bit 8 (mask 8) :: 64 word)"
  "0xff0000 = (push_bit 16 (mask 8) :: 64 word)" "0xff000000 = (push_bit 24 (mask 8) :: 64 word)"
  "0xff00000000 = (push_bit 32 (mask 8) :: 64 word)" "0xff0000000000 = (push_bit 40 (mask 8) :: 64 word)"
  "0xff000000000000 = (push_bit 48 (mask 8) :: 64 word)" "0xff00000000000000 = (push_bit 56 (mask 8) :: 64 word)"
  by (simp_all add: mask_eq_exp_minus_1 push_bit_eq_mult)

lemma bit_octet_masque:
  "bit (x AND push_bit a (mask 8)) n \<longleftrightarrow> a \<le> n \<and> n < a + 8 \<and> bit (x :: 'a::len word) n"
  by (auto simp: bit_simps dest: bit_imp_le_length)

lemma bit_bswap_32:
  assumes "j < 8" and "k < 4"
  shows "bit (bswap_32 x) (8 * k + j) \<longleftrightarrow> bit x (8 * (3 - k) + j)"
proof -
  from assms(2) consider "k = 0" | "k = 1" | "k = 2" | "k = 3" by linarith
  then show ?thesis
    unfolding bswap_32_def bswap_constant_32_def masques_32 bit_or_iff bit_drop_bit_eq o_def bit_push_bit_iff bit_octet_masque
    by cases (use assms in \<open>simp_all add: impossible_bit add.commute\<close>)
qed

lemma octets_eqI:
  assumes "\<And>k j. \<lbrakk>k < n; j < 8\<rbrakk> \<Longrightarrow> bit y (8 * k + j) = bit x (8 * (n - Suc k) + j)"
  shows "octets n y = rev (octets n x)"
proof (rule nth_equalityI)
  fix k assume k: "k < length (octets n y)"
  show "octets n y ! k = rev (octets n x) ! k"
  proof (rule word8_eqI)
    fix j :: nat assume "j < 8"
    with k show "bit (octets n y ! k) j = bit (rev (octets n x) ! k) j"
      using assms [of k j] by (simp add: octets_def rev_nth bit_ucast_iff bit_drop_bit_eq)
  qed
qed simp

lemma octets_bswap_32: "octets 4 (bswap_32 x) = rev (octets 4 x)"
  by (rule octets_eqI) (simp add: bit_bswap_32)

lemma bit_bswap_constant_64:
  assumes "j < 8" and "k < 8"
  shows "bit (bswap_constant_64 x) (8 * k + j) \<longleftrightarrow> bit x (8 * (7 - k) + j)"
proof -
  from assms(2) consider "k = 0" | "k = 1" | "k = 2" | "k = 3" | "k = 4" | "k = 5" | "k = 6" | "k = 7" by linarith
  then show ?thesis
    unfolding bswap_constant_64_def masques_64 bit_or_iff bit_drop_bit_eq o_def bit_push_bit_iff bit_octet_masque
    by cases (use assms in \<open>simp_all add: impossible_bit add.commute\<close>)
qed

lemma octets_bswap_constant_64: "octets 8 (bswap_constant_64 x) = rev (octets 8 x)"
  by (rule octets_eqI) (simp add: bit_bswap_constant_64)

lemma octets_bswap_16: "octets 2 (bswap_16 x) = rev (octets 2 x)"
proof (rule octets_eqI)
  fix k j :: nat assume "k < 2" and j: "j < 8"
  then consider "k = 0" | "k = 1" by linarith
  then show "bit (bswap_16 x) (8 * k + j) = bit x (8 * (2 - Suc k) + j)"
    unfolding bswap_16_def bswap_constant_16_def masques_32
    by cases (use j in \<open>simp_all add: bit_or_iff bit_and_iff bit_mask_iff bit_drop_bit_eq bit_push_bit_iff bit_ucast_iff impossible_bit add.commute\<close>)
qed

text \<open>A 64 bit value is its low word followed by its high word.\<close>

lemma octets_64: "octets 8 (x :: 64 word) = octets 4 (ucast x :: 32 word) @ octets 4 (ucast (drop_bit 32 x) :: 32 word)"
proof -
  have "[0..<8] = [0..<4] @ map ((+) 4) [0..<4::nat]" by (simp add: upt_rec)
  moreover have "ucast (drop_bit (8 * k) x) = (ucast (drop_bit (8 * k) (ucast x :: 32 word)) :: 8 word)"
    and "ucast (drop_bit (8 * (4 + k)) x) = (ucast (drop_bit (8 * k) (ucast (drop_bit 32 x) :: 32 word)) :: 8 word)"
    if "k < 4" for k
    using that by (auto intro!: word8_eqI simp: bit_ucast_iff bit_drop_bit_eq algebra_simps)
  ultimately show ?thesis by (simp add: octets_def)
qed

lemma octets_double:
  "octets 8 (ucast (a :: 32 word) OR push_bit 32 (ucast (b :: 32 word)) :: 64 word) = octets 4 a @ octets 4 b"
proof -
  define x :: "64 word" where "x = ucast a OR push_bit 32 (ucast b)"
  have "ucast x = a" "ucast (drop_bit 32 x) = b"
    by (rule bit_word_eqI; auto simp: x_def bit_ucast_iff bit_or_iff bit_push_bit_iff bit_drop_bit_eq dest: bit_imp_le_length)+
  then show ?thesis by (simp add: octets_64 flip: x_def)
qed

lemma bswap_64_meme: "octets 8 (bswap_64 c x) = rev (octets 8 x)"
proof (cases c)
  case False
  then show ?thesis
    by (simp add: bswap_64_def Let_def octets_double octets_bswap_32 octets_64 [of x])
qed (simp add: bswap_64_def octets_bswap_constant_64)

section \<open>The swaps agree\<close>

lemma octets_inj:
  fixes x y :: "'a::len word"
  assumes "LENGTH('a) = 8 * n" and "octets n x = octets n y"
  shows "x = y"
proof (rule bit_word_eqI)
  fix i assume "i < LENGTH('a)"
  with assms(1) have "i div 8 < n" by (simp add: less_mult_imp_div_less mult.commute)
  with arg_cong [OF assms(2), of "\<lambda>l. bit (l ! (i div 8)) (i mod 8)"] show "bit x i = bit y i"
    by (simp add: octets_def bit_ucast_iff bit_drop_bit_eq)
qed

lemma constant_swab: "constant_swab16 x = bswap_16 x" "constant_swab32 y = bswap_32 y"
    "constant_swab64 z = bswap_constant_64 z"
proof -
  show "constant_swab16 x = bswap_16 x"
  proof (rule octets_inj [of 2], simp, unfold octets_bswap_16, rule octets_eqI)
    fix k j :: nat assume "k < 2" and j: "j < 8"
    then consider "k = 0" | "k = 1" by linarith
    then show "bit (constant_swab16 x) (8 * k + j) = bit x (8 * (2 - Suc k) + j)"
      unfolding constant_swab16_def masques_16 bit_or_iff bit_drop_bit_eq o_def bit_push_bit_iff bit_octet_masque
      by cases (use j in \<open>simp_all add: impossible_bit add.commute\<close>)
  qed
  show "constant_swab32 y = bswap_32 y"
    by (simp only: constant_swab32_def bswap_32_def bswap_constant_32_def or.assoc or.commute or.left_commute)
  show "constant_swab64 z = bswap_constant_64 z"
    by (simp only: constant_swab64_def bswap_constant_64_def or.assoc or.commute or.left_commute)
qed

lemma arch_swab32: "arch_swab32 x = bswap_32 x"
proof (rule octets_inj [of 4], simp, unfold octets_bswap_32, rule octets_eqI)
  fix k j :: nat assume "k < 4" and j: "j < 8"
  then consider "k = 0" | "k = 1" | "k = 2" | "k = 3" by linarith
  then show "bit (arch_swab32 x) (8 * k + j) = bit x (8 * (4 - Suc k) + j)"
    unfolding arch_swab32_def Let_def masques_32 bit_xor_iff bit_or_iff bit_and_iff bit_not_iff bit_drop_bit_eq o_def bit_push_bit_iff bit_mask_iff
    by cases (use j in \<open>auto simp: impossible_bit add.commute\<close>)
qed

lemma fswab64: "octets 8 (fswab64 x) = rev (octets 8 x)"
proof -
  have "ucast (x AND (push_bit 32 1 - 1)) = (ucast x :: 32 word)"
  proof -
    have m: "push_bit 32 1 - 1 = (mask 32 :: 64 word)" by (simp only: mask_eq_exp_minus_1 push_bit_of_1)
    show ?thesis unfolding m
      by (rule bit_word_eqI) (simp add: bit_ucast_iff bit_and_iff bit_mask_iff del: mask_numeral)
  qed
  then show ?thesis
    unfolding fswab64_def Let_def fswab32_def arch_swab32 or.commute [of "push_bit 32 _"] octets_double
    by (simp add: octets_bswap_32 octets_64 [of x])
qed

text \<open> C37: Every byte swap reverses the bytes in memory, whichever way it is computed: the masks and
  shifts of the C library and of the kernel, the rotations with an exclusive or of ARM, and the
  64 bit swaps through two 32 bit words, on constants and on variables. \<close>

theorem echanges_octets:
  "octets 2 (bswap_16 a) = rev (octets 2 a) \<and> octets 2 (swab16 c a) = rev (octets 2 a) \<and>
   octets 4 (bswap_32 b) = rev (octets 4 b) \<and> octets 4 (swab32 c b) = rev (octets 4 b) \<and>
   octets 8 (bswap_64 c x) = rev (octets 8 x) \<and> octets 8 (swab64 c x) = rev (octets 8 x)"
  by (simp add: octets_bswap_16 octets_bswap_32 bswap_64_meme swab16_def swab32_def swab64_def fswab16_def
      fswab32_def fswab64 constant_swab arch_swab32 octets_bswap_constant_64)

text \<open>Swaps of half words and of the bytes inside half words compose to the full swap.\<close>

lemma masques_demi:
  "0x0000ffff = (push_bit 0 (mask 16) :: 32 word)" "0xffff0000 = (push_bit 16 (mask 16) :: 32 word)"
  "0x00ff00ff = (push_bit 0 (mask 8) OR push_bit 16 (mask 8) :: 32 word)"
  "0xff00ff00 = (push_bit 8 (mask 8) OR push_bit 24 (mask 8) :: 32 word)"
  by (simp_all add: mask_eq_exp_minus_1 push_bit_eq_mult)

lemma bit_swahw32:
  assumes "k < 4" and "j < 8"
  shows "bit (swahw32 c x) (8 * k + j) = bit x (8 * (if k < 2 then k + 2 else k - 2) + j)"
proof -
  have *: "swahw32 c x = constant_swahw32 x" by (simp add: swahw32_def fswahw32_def)
  from assms(1) consider "k = 0" | "k = 1" | "k = 2" | "k = 3" by linarith
  then show ?thesis
    unfolding * constant_swahw32_def masques_demi bit_or_iff bit_and_iff bit_drop_bit_eq o_def bit_push_bit_iff bit_mask_iff
    by cases (use assms in \<open>simp_all add: impossible_bit add.commute\<close>)
qed

lemma bit_swahb32:
  assumes "k < 4" and "j < 8"
  shows "bit (swahb32 c x) (8 * k + j) = bit x (8 * (if even k then k + 1 else k - 1) + j)"
proof -
  have *: "swahb32 c x = constant_swahb32 x" by (simp add: swahb32_def fswahb32_def)
  from assms(1) consider "k = 0" | "k = 1" | "k = 2" | "k = 3" by linarith
  then show ?thesis
    unfolding * constant_swahb32_def masques_demi bit_or_iff bit_and_iff bit_drop_bit_eq o_def bit_push_bit_iff bit_mask_iff
    by cases (use assms in \<open>simp_all add: impossible_bit add.commute\<close>)
qed

lemma mot32_eqI:
  assumes "\<And>k j. \<lbrakk>k < 4; j < 8\<rbrakk> \<Longrightarrow> bit x (8 * k + j) = bit y (8 * k + j)"
  shows "x = (y :: 32 word)"
proof (rule bit_word_eqI)
  fix n assume "n < LENGTH(32)"
  then have "n div 8 < 4" by simp
  with assms [of "n div 8" "n mod 8"] show "bit x n = bit y n" by simp
qed

text \<open>
  Swapping the half words and then the bytes of each half word is the full 32 bit swap, and so
  is the other order; each of the two partial swaps undoes itself.
\<close>

theorem demi_echanges:
  "swahb32 c (swahw32 d x) = bswap_32 x \<and> swahw32 d (swahb32 c x) = bswap_32 x \<and>
   swahw32 c (swahw32 d x) = x \<and> swahb32 c (swahb32 d x) = x"
proof -
  define w b where "w k = (if k < 2 then k + 2 else k - 2)" and "b k = (if even k then k + 1 else k - 1)" for k :: nat
  have W: "\<lbrakk>k < 4; j < 8\<rbrakk> \<Longrightarrow> bit (swahw32 c x) (8 * k + j) = bit x (8 * w k + j)"
    and B: "\<lbrakk>k < 4; j < 8\<rbrakk> \<Longrightarrow> bit (swahb32 c x) (8 * k + j) = bit x (8 * b k + j)" for k j c x
    using bit_swahw32 [of k j c x] bit_swahb32 [of k j c x] by (simp_all only: w_def b_def)
  have "k = 0 \<or> k = 1 \<or> k = 2 \<or> k = 3" if "k < 4" for k :: nat using that by linarith
  then have i: "w k < 4" "b k < 4" "w (b k) = 3 - k" "b (w k) = 3 - k" "w (w k) = k" "b (b k) = k" if "k < 4" for k
    using that unfolding w_def b_def by fastforce+
  show ?thesis
    by (intro conjI; rule mot32_eqI) (simp_all add: W B i bit_bswap_32)
qed

section \<open>Conversions and their inverses\<close>

lemma bswap_bswap: "bswap_16 (bswap_16 a) = a" "bswap_32 (bswap_32 b) = b" "bswap_64 c (bswap_64 d x) = x"
  by (rule octets_inj [of 2] octets_inj [of 4] octets_inj [of 8];
      simp add: octets_bswap_16 octets_bswap_32 bswap_64_meme)+

text \<open> Each conversion to a byte order is undone by the conversion from it; the big-endian ones put
  the most significant byte first in memory, the little-endian ones leave the value alone, and a port
  given to htons has its high byte first on the wire. \<close>

theorem conversions_aller_retour:
  "ntohs (htons p) = p \<and> ntohl (htonl a) = a \<and> be16toh (htobe16 p) = p \<and> le16toh (htole16 p) = p \<and>
   be32toh (htobe32 a) = a \<and> le32toh (htole32 a) = a \<and>
   be64toh c (htobe64 c x) = x \<and> le64toh (htole64 x) = x \<and>
   octets 2 (htons p) = [ucast (drop_bit 8 p), ucast p] \<and>
   octets 2 (htobe16 p) = octets 2 (htons p) \<and> octets 4 (htobe32 a) = octets 4 (htonl a) \<and>
   octets 4 (htobe32 a) = rev (octets 4 (htole32 a)) \<and> octets 8 (htobe64 c x) = rev (octets 8 (htole64 x))"
  by (simp add: ntohs_def htons_def ntohl_def htonl_def be16toh_def htobe16_def le16toh_def htole16_def
      be32toh_def htobe32_def le32toh_def htole32_def be64toh_def htobe64_def le64toh_def htole64_def
      bswap_bswap octets_bswap_16 octets_bswap_32 bswap_64_meme)
     (simp add: octets_def upt_rec)

text \<open>
  Swapping in place through a pointer changes the value pointed to and nothing else, and doing
  it twice changes nothing.
\<close>

theorem echange_sur_place:
  "swab16s p (swab16s p m) = m \<and> swab32s q (swab32s q n) = n \<and> swab64s r (swab64s r l) = l \<and>
   swahw32s q (swahw32s q n) = n \<and> swahb32s q (swahb32s q n) = n \<and>
   swab32s q (swahw32s q n) = swahb32s q n"
proof -
  have 64: "swab64 False (swab64 False z) = z" for z
    by (rule octets_inj [of 8]) (simp_all add: swab64_def fswab64)
  have 16: "swab16 False z = bswap_16 z" and 32: "swab32 False y = bswap_32 y" for z y
    by (simp_all add: swab16_def fswab16_def swab32_def fswab32_def constant_swab arch_swab32)
  have "bswap_32 (swahw32 False z) = swahb32 False z" for z
    using demi_echanges [of False False z] demi_echanges [of False False "swahw32 False z"] by metis
  then show ?thesis
    by (simp add: swab16s_def swab16p_def swab32s_def swab32p_def swab64s_def swab64p_def swahw32s_def
        swahw32p_def swahb32s_def swahb32p_def 16 32 64 bswap_bswap demi_echanges)
qed

section \<open>Integers as bytes\<close>

text \<open>
  A C \<open>int\<close> in memory: four bytes, two's complement, lowest first. \<open>ecraser\<close> is what a call that
  writes the first bytes of an object leaves in it.
\<close>

definition mot_octets :: "8 word list \<Rightarrow> 32 word" where
  "mot_octets bs = foldr (\<lambda>b x. ucast b OR push_bit 8 x) bs 0"

definition octets_int :: "int \<Rightarrow> 8 word list" where
  "octets_int n = octets 4 (word_of_int n :: 32 word)"

definition int_octets :: "8 word list \<Rightarrow> int" where
  "int_octets bs = sint (mot_octets bs)"

definition ecraser :: "'a list \<Rightarrow> 'a list \<Rightarrow> 'a list" where
  "ecraser bs memoire = bs @ drop (length bs) memoire"

definition tableau_octets :: "int list \<Rightarrow> 8 word list" where
  "tableau_octets xs = concat (map octets_int xs)"

fun octets_tableau :: "nat \<Rightarrow> 8 word list \<Rightarrow> int list" where
  "octets_tableau 0 bs = []"
| "octets_tableau (Suc n) bs = int_octets (take 4 bs) # octets_tableau n (drop 4 bs)"

lemma length_octets_int [simp]: "length (octets_int n) = 4"
  by (simp add: octets_int_def)

lemma length_tableau_octets [simp]: "length (tableau_octets xs) = 4 * length xs"
  by (induction xs) (simp_all add: tableau_octets_def)

lemma mot_octets_octets: "mot_octets (octets 4 x) = x"
proof (rule mot32_eqI)
  fix k j :: nat assume "k < 4" and j: "j < 8"
  then consider "k = 0" | "k = 1" | "k = 2" | "k = 3" by linarith
  then show "bit (mot_octets (octets 4 x)) (8 * k + j) = bit x (8 * k + j)"
    unfolding mot_octets_def octets_def
    by cases (use j in \<open>simp_all add: upt_rec bit_or_iff bit_push_bit_iff bit_ucast_iff bit_drop_bit_eq impossible_bit add.commute\<close>)
qed

lemma int_octets_int: "c_int_ok n \<Longrightarrow> int_octets (octets_int n) = n"
  by (simp add: int_octets_def octets_int_def mot_octets_octets c_int_ok_def signed_take_bit_int_eq_self sint_sbintrunc')

lemma ecraser_tout [simp]: "length m \<le> length bs \<Longrightarrow> ecraser bs m = bs"
  by (simp add: ecraser_def)

lemma octets_tableau_octets: "\<forall>x \<in> set xs. c_int_ok x \<Longrightarrow> octets_tableau (length xs) (tableau_octets xs) = xs"
  by (induction xs) (simp_all add: tableau_octets_def int_octets_int)

end
