(* ===== verification/Tableaux.thy ===== *)
theory Tableaux
  imports Prelude
begin

text \<open>
  C arrays as lists of a fixed length. An access is guarded by the length: reading or writing an
  index outside the array is undefined in C and \<^term>\<open>None\<close> here. An operation written with
  guarded accesses is related to the same operation on total lists by one equation, which holds
  where its indices are inside the arrays.
\<close>

definition acces :: "'a list \<Rightarrow> nat \<Rightarrow> 'a option" where
  "acces xs i = (if i < length xs then Some (xs ! i) else None)"

definition modifie :: "'a list \<Rightarrow> nat \<Rightarrow> 'a \<Rightarrow> 'a list option" where
  "modifie xs i x = (if i < length xs then Some (xs[i := x]) else None)"

lemma acces_dedans [simp]: "i < length xs \<Longrightarrow> acces xs i = Some (xs ! i)"
  and modifie_dedans [simp]: "i < length xs \<Longrightarrow> modifie xs i x = Some (xs[i := x])"
  by (simp_all add: acces_def modifie_def)

lemma acces_Some: "acces xs i = Some x \<longleftrightarrow> i < length xs \<and> x = xs ! i"
  and modifie_Some: "modifie xs i x = Some ys \<longleftrightarrow> i < length xs \<and> ys = xs[i := x]"
  by (auto simp: acces_def modifie_def)

text \<open>A loop whose turns never leave the arrays is the loop of the total turns.\<close>

lemma foldM_libre:
  assumes "P s" and "\<And>x s. \<lbrakk>x \<in> set xs; P s\<rbrakk> \<Longrightarrow> f x s = Some (g x s) \<and> P (g x s)"
  shows "foldM f xs s = Some (fold g xs s)" and "P (fold g xs s)"
proof -
  have "foldM f xs s = Some (fold g xs s) \<and> P (fold g xs s)"
    using assms by (induction xs arbitrary: s) auto
  then show "foldM f xs s = Some (fold g xs s)" "P (fold g xs s)" by simp_all
qed

lemma foldM_sans_etat:
  assumes "\<And>x s. x \<in> set xs \<Longrightarrow> f x s = Some (g x s)"
  shows "foldM f xs s = Some (fold g xs s)"
  by (rule foldM_libre(1) [where P = "\<lambda>_. True"]) (simp_all add: assms)

end
