(* ===== verification/Serveur.thy ===== *)
theory Serveur
  imports Jeu Fdset Octets Boucles Tableaux
begin

text \<open>
  \<open>serveur.c\<close>: the server of the network game. The theory models every function of the file.

  State: the file-scope variables \<open>clients\<close>, \<open>nb_clients\<close> and \<open>clients_actifs\<close>, on top of the
  journal of the process. Every read and write of an array of the file, these two and the local
  \<open>client_pret\<close>, \<open>indices\<close>, \<open>temps\<close>, \<open>reponses_correctes\<close> and \<open>choix\<close>, is guarded by the length of
  the array: outside it the operation is \<^term>\<open>None\<close>. A loop over the clients is a \<^const>\<open>foldM\<close> over
  the indices it takes, any other loop a \<^const>\<open>boucle\<close> of its turn.
\<close>

abbreviation (input) SERVEUR_PORT :: int where "SERVEUR_PORT \<equiv> 12345"
abbreviation (input) MAX_CLIENTS :: int where "MAX_CLIENTS \<equiv> 10"
abbreviation (input) DELAI_CONNEXION :: int where "DELAI_CONNEXION \<equiv> 5"

section \<open>State\<close>

record serveur = processus +
  clients :: "int list"
  nb_clients :: int
  clients_actifs :: "bool list"

definition serveur_initial :: serveur where
  "serveur_initial = \<lparr>journal = [], clients = replicate 10 0, nb_clients = 0, clients_actifs = replicate 10 False\<rparr>"

text \<open>\<open>clients[nb_clients] = socket; clients_actifs[nb_clients] = true; nb_clients++\<close>\<close>

definition ajouter_client :: "int \<Rightarrow> serveur \<Rightarrow> serveur option" where
  "ajouter_client client_socket w =
     (let k = nat (nb_clients w)
      in if 0 \<le> nb_clients w \<and> k < length (clients w) \<and> k < length (clients_actifs w) then
           Some (w\<lparr>clients := (clients w)[k := client_socket], clients_actifs := (clients_actifs w)[k := True],
             nb_clients := nb_clients w + 1\<rparr>)
         else None)"

text \<open>\<open>clients_actifs[i] = false; close(clients[i])\<close>\<close>

definition desactiver :: "nat \<Rightarrow> serveur \<Rightarrow> serveur option" where
  "desactiver i w = do {
     marques \<leftarrow> modifie (clients_actifs w) i False;
     let w = w\<lparr>clients_actifs := marques\<rparr>;
     c \<leftarrow> acces (clients w) i;
     Some (close c w)
   }"

section \<open>select on an fd_set\<close>

text \<open>
  The call \<open>select(nfds, &read_fds, NULL, NULL, &timeout)\<close>: the kernel reads the descriptors below
  \<open>nfds\<close> and writes back those that are ready.
\<close>

definition surveiller ::
    "hote \<Rightarrow> int \<Rightarrow> fd_set \<Rightarrow> int \<Rightarrow> serveur \<Rightarrow> (int \<times> fd_set \<times> int \<times> serveur) option" where
  "surveiller E nfds read_fds timeout w = do {
     let surveilles = filter (\<lambda>d. FD_ISSET d read_fds = Some True) [0..nfds - 1];
     let ((activity, prets, timeout), w) = select E surveilles timeout w;
     read_fds \<leftarrow> foldM FD_SET prets (FD_ZERO read_fds);
     Some (activity, read_fds, timeout, w)
   }"

section \<open>Waiting for the players\<close>

definition tour_premier :: "hote \<Rightarrow> int \<Rightarrow> serveur \<Rightarrow> (serveur + serveur) option" where
  "tour_premier E server_socket w =
     (if nb_clients w = 0 then do {
        let (client_socket, w) = accept E server_socket w;
        w \<leftarrow> (if client_socket \<ge> 0 then ajouter_client client_socket w else Some w);
        Some (Inl w)
      }
      else Some (Inr w))"

text \<open>
  The \<open>fd_set\<close> starts with whatever the stack holds; \<open>FD_ZERO\<close> clears it before each use, so
  the model starts from any set of the right size.
\<close>

definition tour_autres ::
    "hote \<Rightarrow> int \<Rightarrow> fd_set \<times> int \<times> serveur \<Rightarrow> (fd_set \<times> int \<times> serveur + serveur) option" where
  "tour_autres E server_socket s =
     (case s of (read_fds, timeout, w) \<Rightarrow>
        if nb_clients w < MAX_CLIENTS then do {
          read_fds \<leftarrow> FD_SET server_socket (FD_ZERO read_fds);
          (activity, read_fds, timeout, w) \<leftarrow> surveiller E (server_socket + 1) read_fds timeout w;
          if activity \<le> 0 then Some (Inr w)
          else do {
            arrivee \<leftarrow> FD_ISSET server_socket read_fds;
            if arrivee then
              let (client_socket, w) = accept E server_socket w
              in if client_socket \<ge> 0 then do {
                   w \<leftarrow> ajouter_client client_socket w;
                   Some (Inl (read_fds, DELAI_CONNEXION * 1000000 + 0, w))
                 }
                 else Some (Inl (read_fds, timeout, w))
            else Some (Inl (read_fds, timeout, w))
          }
        }
        else Some (Inr w))"

definition fd_set_pile :: fd_set where
  "fd_set_pile = \<lparr>fds_bits = replicate 32 0\<rparr>"

definition attendre_clients :: "hote \<Rightarrow> int \<Rightarrow> serveur \<Rightarrow> serveur option" where
  "attendre_clients E server_socket w = do {
     w \<leftarrow> boucle (tour_premier E server_socket) w;
     boucle (tour_autres E server_socket) (fd_set_pile, DELAI_CONNEXION * 1000000 + 0, w)
   }"

section \<open>Waiting for the touch sensors\<close>

definition ajouter_actif :: "nat \<Rightarrow> serveur \<Rightarrow> fd_set \<times> int \<Rightarrow> (fd_set \<times> int) option" where
  "ajouter_actif i w s =
     (case s of (read_fds, max_fd) \<Rightarrow> do {
        actif \<leftarrow> acces (clients_actifs w) i;
        if actif then do {
          c \<leftarrow> acces (clients w) i;
          read_fds \<leftarrow> FD_SET c read_fds;
          Some (read_fds, if c > max_fd then c else max_fd)
        }
        else Some (read_fds, max_fd)
      })"

definition preparer_ensemble :: "int \<Rightarrow> fd_set \<Rightarrow> serveur \<Rightarrow> (fd_set \<times> int) option" where
  "preparer_ensemble server_socket read_fds w = do {
     read_fds \<leftarrow> FD_SET server_socket (FD_ZERO read_fds);
     foldM (\<lambda>i. ajouter_actif i w) [0..<nat (nb_clients w)] (read_fds, server_socket)
   }"

definition nouvelle_connexion ::
    "hote \<Rightarrow> int \<Rightarrow> bool list \<Rightarrow> serveur \<Rightarrow> (bool list \<times> serveur) option" where
  "nouvelle_connexion E server_socket client_pret w =
     (let (new_socket, w) = accept E server_socket w
      in if new_socket \<ge> 0 then
           if nb_clients w < MAX_CLIENTS then
             if nat (nb_clients w) < length client_pret then do {
               let client_pret = client_pret[nat (nb_clients w) := False];
               w \<leftarrow> ajouter_client new_socket w;
               Some (client_pret, w)
             }
             else None
           else Some (client_pret, close new_socket w)
         else Some (client_pret, w))"

definition lire_confirmation ::
    "hote \<Rightarrow> fd_set \<Rightarrow> nat \<Rightarrow> bool list \<times> serveur \<Rightarrow> (bool list \<times> serveur) option" where
  "lire_confirmation E read_fds i s =
     (case s of (client_pret, w) \<Rightarrow> do {
        actif \<leftarrow> acces (clients_actifs w) i;
        pret \<leftarrow> (if actif then acces client_pret i else Some False);
        if actif \<and> \<not> pret then do {
          c \<leftarrow> acces (clients w) i;
          arrive \<leftarrow> FD_ISSET c read_fds;
          if arrive then
            let (res, w) = recevoir_donnees E c 1 w
            in case res of
                 Some (x # _) \<Rightarrow> do {
                   client_pret \<leftarrow> (if x = octet_de CHR ''1'' then modifie client_pret i True else Some client_pret);
                   Some (client_pret, w)
                 }
               | _ \<Rightarrow> do {
                   w \<leftarrow> desactiver i w;
                   Some (client_pret, w)
                 }
          else Some (client_pret, w)
        }
        else Some (client_pret, w)
      })"

text \<open>The two counters: the active clients, and the active clients that are ready.\<close>

definition compter_prets :: "bool list \<Rightarrow> serveur \<Rightarrow> (int \<times> int) option" where
  "compter_prets client_pret w =
     foldM (\<lambda>i (tous_prets, total). do {
         actif \<leftarrow> acces (clients_actifs w) i;
         if actif then do {
           pret \<leftarrow> acces client_pret i;
           Some (if pret then tous_prets + 1 else tous_prets, total + 1)
         }
         else Some (tous_prets, total)
       }) [0..<nat (nb_clients w)] (0, 0)"

definition tour_prets ::
    "hote \<Rightarrow> int \<Rightarrow> fd_set \<times> bool list \<times> serveur \<Rightarrow> (fd_set \<times> bool list \<times> serveur + bool \<times> serveur) option" where
  "tour_prets E server_socket s =
     (case s of (read_fds, client_pret, w) \<Rightarrow> do {
        (read_fds, max_fd) \<leftarrow> preparer_ensemble server_socket read_fds w;
        (activity, read_fds, _, w) \<leftarrow> surveiller E (max_fd + 1) read_fds (0 * 1000000 + 500000) w;
        if activity < 0 then Some (Inr (False, w))
        else do {
          arrivee \<leftarrow> FD_ISSET server_socket read_fds;
          (client_pret, w) \<leftarrow>
            (if arrivee then nouvelle_connexion E server_socket client_pret w else Some (client_pret, w));
          (client_pret, w) \<leftarrow> foldM (lire_confirmation E read_fds) [0..<nat (nb_clients w)] (client_pret, w);
          (tous_prets, total) \<leftarrow> compter_prets client_pret w;
          if total = 0 then Some (Inr (False, w))
          else if tous_prets = total \<and> total > 0 then Some (Inr (True, w))
          else Some (Inl (read_fds, client_pret, w))
        }
      })"

text \<open>Sending the same bytes to every active client, in order.\<close>

definition diffuser :: "hote \<Rightarrow> octet list list \<Rightarrow> serveur \<Rightarrow> serveur option" where
  "diffuser E messages w =
     foldM (\<lambda>i w. do {
         actif \<leftarrow> acces (clients_actifs w) i;
         if actif then do {
           c \<leftarrow> acces (clients w) i;
           Some (fold (\<lambda>m v. snd (envoyer_donnees E c m v)) messages w)
         }
         else Some w
       }) [0..<nat (nb_clients w)] w"

definition attendre_pression_touch :: "hote \<Rightarrow> int \<Rightarrow> serveur \<Rightarrow> (bool \<times> serveur) option" where
  "attendre_pression_touch E server_socket w = do {
     (prets, w) \<leftarrow> boucle (tour_prets E server_socket) (fd_set_pile, replicate 10 False, w);
     if \<not> prets then Some (False, w)
     else do {
       w \<leftarrow> diffuser E [[octet_de CHR ''1'']] w;
       Some (True, w)
     }
   }"

section \<open>One round\<close>

definition indices_serveur :: "hote \<Rightarrow> serveur \<Rightarrow> (int list \<times> serveur) option" where
  "indices_serveur E w =
     foldM (\<lambda>i (indices, w).
         let (r, w) = rand E w; j = r smod (int i + 1)
         in if j < 0 then None else do {
           temp \<leftarrow> acces indices i;
           x \<leftarrow> acces indices (nat j);
           indices \<leftarrow> modifie indices i x;
           indices \<leftarrow> modifie indices (nat j) temp;
           Some (indices, w)
         })
       (rev [1..<16]) (map int [0..<16], w)"

definition envoyer_grille_et_forme :: "hote \<Rightarrow> serveur \<Rightarrow> serveur option" where
  "envoyer_grille_et_forme E w = do {
     let w = srand_time w;
     let (r, w) = rand E w;
     let forme = r smod 16;
     (indices, w) \<leftarrow> indices_serveur E w;
     diffuser E [octets_int forme, tableau_octets indices] w
   }"

text \<open>A call \<open>recevoir_donnees(socket, &x, sizeof(int))\<close>: the bytes received replace the first ones of \<open>x\<close>.\<close>

definition recevoir_int :: "hote \<Rightarrow> int \<Rightarrow> int \<Rightarrow> 'a processus_scheme \<Rightarrow> int \<times> int \<times> 'a processus_scheme" where
  "recevoir_int E fd x w =
     (let (r, w) = recevoir_donnees E fd 4 w
      in case r of
           None \<Rightarrow> (-1, x, w)
         | Some bs \<Rightarrow> (int (length bs), int_octets (ecraser bs (octets_int x)), w))"

definition recevoir_temps_client ::
    "hote \<Rightarrow> nat \<Rightarrow> int list \<times> bool list \<times> serveur \<Rightarrow> (int list \<times> bool list \<times> serveur) option" where
  "recevoir_temps_client E i s =
     (case s of (temps, reponses_correctes, w) \<Rightarrow> do {
        actif \<leftarrow> acces (clients_actifs w) i;
        if actif then do {
          c \<leftarrow> acces (clients w) i;
          let (res, est_correct, w) = recevoir_int E c 0 w;
          if res \<le> 0 then do {
            w \<leftarrow> desactiver i w;
            Some (temps, reponses_correctes, w)
          }
          else do {
            reponses_correctes \<leftarrow> modifie reponses_correctes i (est_correct = 1);
            x \<leftarrow> acces temps i;
            let (res, t, w) = recevoir_int E c x w;
            temps \<leftarrow> modifie temps i t;
            if res \<le> 0 then do {
              w \<leftarrow> desactiver i w;
              temps \<leftarrow> modifie temps i 100;
              reponses_correctes \<leftarrow> modifie reponses_correctes i False;
              Some (temps, reponses_correctes, w)
            }
            else Some (temps, reponses_correctes, w)
          }
        }
        else Some (temps, reponses_correctes, w)
      })"

definition recevoir_temps ::
    "hote \<Rightarrow> int list \<Rightarrow> bool list \<Rightarrow> serveur \<Rightarrow> (int list \<times> bool list \<times> serveur) option" where
  "recevoir_temps E temps reponses_correctes w = do {
     (temps, reponses_correctes) \<leftarrow>
       foldM (\<lambda>i (t, r). do {
           t \<leftarrow> modifie t i 100;
           r \<leftarrow> modifie r i False;
           Some (t, r)
         }) [0..<nat (nb_clients w)] (temps, reponses_correctes);
     foldM (recevoir_temps_client E) [0..<nat (nb_clients w)] (temps, reponses_correctes, w)
   }"

text \<open>The best time, over correct answers, and the worst, over all, of the active clients.\<close>

definition meilleur_et_pire :: "int list \<Rightarrow> bool list \<Rightarrow> serveur \<Rightarrow> (int \<times> int) option" where
  "meilleur_et_pire temps reponses_correctes w =
     foldM (\<lambda>i (meilleur_temps, pire_temps). do {
         actif \<leftarrow> acces (clients_actifs w) i;
         if actif then do {
           correcte \<leftarrow> acces reponses_correctes i;
           t \<leftarrow> acces temps i;
           Some (if correcte \<and> t < meilleur_temps then t else meilleur_temps,
             if t > pire_temps then t else pire_temps)
         }
         else Some (meilleur_temps, pire_temps)
       }) [0..<nat (nb_clients w)] (100, 0)"

definition envoyer_resultats :: "hote \<Rightarrow> int list \<Rightarrow> bool list \<Rightarrow> serveur \<Rightarrow> serveur option" where
  "envoyer_resultats E temps reponses_correctes w = do {
     (meilleur_temps, pire_temps) \<leftarrow> meilleur_et_pire temps reponses_correctes w;
     diffuser E [octets_int meilleur_temps, octets_int pire_temps] w
   }"

section \<open>Playing again\<close>

definition compter_actifs :: "serveur \<Rightarrow> int option" where
  "compter_actifs w =
     foldM (\<lambda>i n. do {
         actif \<leftarrow> acces (clients_actifs w) i;
         Some (if actif then n + 1 else n)
       }) [0..<nat (nb_clients w)] 0"

text \<open>
  The array \<open>choix\<close> is on the stack and each of its entries is written before it is read: the model
  starts it from zeros.
\<close>

definition choix_pile :: "octet list" where
  "choix_pile = replicate 10 0"

definition recevoir_choix ::
    "hote \<Rightarrow> nat \<Rightarrow> octet list \<times> int \<times> serveur \<Rightarrow> (octet list \<times> int \<times> serveur) option" where
  "recevoir_choix E i s =
     (case s of (choix, rejouer_count, w) \<Rightarrow> do {
        actif \<leftarrow> acces (clients_actifs w) i;
        if actif then do {
          c \<leftarrow> acces (clients w) i;
          let (res, w) = recevoir_donnees E c 1 w;
          case res of
            Some (x # _) \<Rightarrow> do {
              choix \<leftarrow> modifie choix i x;
              lu \<leftarrow> acces choix i;
              if lu = octet_de CHR ''o'' then Some (choix, rejouer_count + 1, w)
              else do {
                w \<leftarrow> desactiver i w;
                Some (choix, rejouer_count, w)
              }
            }
          | _ \<Rightarrow> do {
              w \<leftarrow> desactiver i w;
              Some (choix, rejouer_count, w)
            }
        }
        else Some (choix, rejouer_count, w)
      })"

definition recevoir_choix_rejouer :: "hote \<Rightarrow> serveur \<Rightarrow> (bool \<times> serveur) option" where
  "recevoir_choix_rejouer E w = do {
     actifs_count \<leftarrow> compter_actifs w;
     if actifs_count = 0 then Some (False, w)
     else do {
       (choix, rejouer_count, w) \<leftarrow> foldM (recevoir_choix E) [0..<nat (nb_clients w)] (choix_pile, 0, w);
       Some (rejouer_count > 0, w)
     }
   }"

section \<open>The program\<close>

text \<open>
  The loop of \<open>main\<close>. The arrays \<open>temps\<close> and \<open>reponses_correctes\<close> are not initialised; their
  first contents are arguments of the model.
\<close>

definition tour_serveur ::
    "hote \<Rightarrow> int \<Rightarrow> int list \<times> bool list \<times> serveur \<Rightarrow> (int list \<times> bool list \<times> serveur + serveur) option" where
  "tour_serveur E server_socket s =
     (case s of (temps, reponses_correctes, w) \<Rightarrow> do {
        (prets, w) \<leftarrow> attendre_pression_touch E server_socket w;
        if \<not> prets then Some (Inr w)
        else do {
          w \<leftarrow> envoyer_grille_et_forme E w;
          (temps, reponses_correctes, w) \<leftarrow> recevoir_temps E temps reponses_correctes w;
          w \<leftarrow> envoyer_resultats E temps reponses_correctes w;
          (continuer, w) \<leftarrow> recevoir_choix_rejouer E w;
          if \<not> continuer then Some (Inr w) else Some (Inl (temps, reponses_correctes, w))
        }
      })"

definition lire_port :: "string \<Rightarrow> int" where
  "lire_port arg = (let port = atoi arg in if port \<le> 0 \<or> port > 65535 then SERVEUR_PORT else port)"

definition fermer_clients :: "serveur \<Rightarrow> serveur option" where
  "fermer_clients w =
     foldM (\<lambda>i w. do {
         actif \<leftarrow> acces (clients_actifs w) i;
         if actif then do {
           c \<leftarrow> acces (clients w) i;
           Some (close c w)
         }
         else Some w
       }) [0..<nat (nb_clients w)] w"

definition serveur_main :: "hote \<Rightarrow> string list \<Rightarrow> int list \<Rightarrow> bool list \<Rightarrow> serveur \<Rightarrow> (int \<times> serveur) option" where
  "serveur_main E argv temps reponses_correctes w =
     (let port = (if 1 < length argv then lire_port (argv ! 1) else SERVEUR_PORT);
          (server_socket, w) = socket_tcp E w
      in if server_socket < 0 then Some (1, w)
         else
           let w = setsockopt server_socket w;
               (r, w) = bind_adresse E server_socket (htons (word_of_int port)) w
           in if r < 0 then Some (1, close server_socket w)
              else
                let (r, w) = listen E server_socket MAX_CLIENTS w
                in if r < 0 then Some (1, close server_socket w)
                   else do {
                     w \<leftarrow> attendre_clients E server_socket w;
                     w \<leftarrow> boucle (tour_serveur E server_socket) (temps, reponses_correctes, w);
                     w \<leftarrow> fermer_clients w;
                     Some (0, close server_socket w)
                   })"

end
