(* ===== verification/Bornes.thy ===== *)
theory Bornes
  imports Serveur
begin

text \<open>
  The bounds of the server. The operations of \<open>Serveur\<close> guard each access to an array; here each of
  them is related to a total reading of it, named \<open>_libre\<close>, which accesses lists without a
  guard. The equation of an operation holds for every state whose arrays have ten entries and whose
  number of clients is at most ten, and for local arrays of ten entries: inside these bounds no access
  faults. The rest of the development reasons on the total readings.
\<close>

definition serveur_ok :: "serveur \<Rightarrow> bool" where
  "serveur_ok w \<longleftrightarrow> length (clients w) = 10 \<and> length (clients_actifs w) = 10 \<and>
     0 \<le> nb_clients w \<and> nb_clients w \<le> 10"

lemma consigne_serveur [simp]:
  "clients (consigne es w) = clients w" "nb_clients (consigne es w) = nb_clients w"
  "clients_actifs (consigne es w) = clients_actifs w"
  by (simp_all add: consigne_def)

lemma serveur_ok_consigne [simp]: "serveur_ok (consigne es w) \<longleftrightarrow> serveur_ok w"
  by (simp add: serveur_ok_def)

lemma serveur_okD:
  assumes "serveur_ok w"
  shows "i < nat (nb_clients w) \<Longrightarrow> i < 10" and "i < 10 \<Longrightarrow> i < length (clients w)"
    and "i < 10 \<Longrightarrow> i < length (clients_actifs w)"
  using assms by (auto simp: serveur_ok_def)

section \<open>One client\<close>

definition desactiver_libre :: "nat \<Rightarrow> serveur \<Rightarrow> serveur" where
  "desactiver_libre i w = close (clients w ! i) (w\<lparr>clients_actifs := (clients_actifs w)[i := False]\<rparr>)"

lemma desactiver_dedans:
  assumes "serveur_ok w" and "i < 10"
  shows "desactiver i w = Some (desactiver_libre i w)"
    and "serveur_ok (desactiver_libre i w)" and "nb_clients (desactiver_libre i w) = nb_clients w"
  using assms by (auto simp: desactiver_def desactiver_libre_def close_def serveur_ok_def)

lemma ajouter_actif_dedans:
  assumes "serveur_ok w" and "i < 10"
  shows "ajouter_actif i w (t, k) = (if clients_actifs w ! i
     then map_option (\<lambda>u. (u, max k (clients w ! i))) (FD_SET (clients w ! i) t) else Some (t, k))"
  using serveur_okD(2,3) [OF assms(1)] assms(2)
  by (cases "FD_SET (clients w ! i) t") (simp_all add: ajouter_actif_def max_def)

lemma recevoir_donnees_consigne:
  "\<exists>r. recevoir_donnees E fd n w = (r, consigne [Net (Recv fd n r)] w)"
  by (simp add: recevoir_donnees_def recv_def Let_def)

lemma lire_confirmation_dedans:
  assumes "serveur_ok w" and "i < 10" and "length client_pret = 10"
  shows "lire_confirmation E read_fds i (client_pret, w) =
    (if clients_actifs w ! i \<and> \<not> client_pret ! i then do {
       arrive \<leftarrow> FD_ISSET (clients w ! i) read_fds;
       if arrive then
         let (res, w) = recevoir_donnees E (clients w ! i) 1 w
         in case res of
              Some (c # _) \<Rightarrow> Some (if c = octet_de CHR ''1'' then client_pret[i := True] else client_pret, w)
            | _ \<Rightarrow> Some (client_pret, desactiver_libre i w)
       else Some (client_pret, w)
     }
     else Some (client_pret, w))"
proof -
  obtain r where r: "recevoir_donnees E (clients w ! i) 1 w = (r, consigne [Net (Recv (clients w ! i) 1 r)] w)"
    using recevoir_donnees_consigne by blast
  have "desactiver i (consigne [Net (Recv (clients w ! i) 1 r)] w) =
      Some (desactiver_libre i (consigne [Net (Recv (clients w ! i) 1 r)] w))"
    using desactiver_dedans(1) assms by simp
  then show ?thesis
    using serveur_okD(2,3) [OF assms(1,2)] assms(3,2)
    by (cases "FD_ISSET (clients w ! i) read_fds") (auto simp: lire_confirmation_def r [unfolded One_nat_def] split: option.splits list.splits)
qed

section \<open>The loops over the clients\<close>

definition compter_prets_libre :: "bool list \<Rightarrow> serveur \<Rightarrow> int \<times> int" where
  "compter_prets_libre client_pret w =
     fold (\<lambda>i (tous_prets, total).
         if clients_actifs w ! i then (if client_pret ! i then tous_prets + 1 else tous_prets, total + 1)
         else (tous_prets, total))
       [0..<nat (nb_clients w)] (0, 0)"

lemma compter_prets_dedans:
  assumes "serveur_ok w" and "length client_pret = 10"
  shows "compter_prets client_pret w = Some (compter_prets_libre client_pret w)"
  unfolding compter_prets_def compter_prets_libre_def
  by (rule foldM_sans_etat) (use assms serveur_okD [OF assms(1)] in auto)

definition diffuser_libre :: "hote \<Rightarrow> octet list list \<Rightarrow> serveur \<Rightarrow> serveur" where
  "diffuser_libre E messages w =
     fold (\<lambda>i w. if clients_actifs w ! i
         then fold (\<lambda>m v. snd (envoyer_donnees E (clients w ! i) m v)) messages w else w)
       [0..<nat (nb_clients w)] w"

lemma serveur_ok_envois: "serveur_ok (fold (\<lambda>m v. snd (envoyer_donnees E c m v)) ms w) = serveur_ok w"
  by (induction ms arbitrary: w) (simp_all add: envoyer_donnees_def send_def Let_def)

lemma diffuser_dedans:
  assumes "serveur_ok w"
  shows "diffuser E messages w = Some (diffuser_libre E messages w)"
  unfolding diffuser_def diffuser_libre_def
  by (rule foldM_libre(1) [where P = serveur_ok])
    (use assms serveur_okD(1) [OF assms] serveur_okD(2,3) in \<open>auto simp: serveur_ok_envois\<close>)

definition recevoir_temps_client_libre ::
    "hote \<Rightarrow> nat \<Rightarrow> int list \<times> bool list \<times> serveur \<Rightarrow> int list \<times> bool list \<times> serveur" where
  "recevoir_temps_client_libre E i s =
     (case s of (temps, reponses_correctes, w) \<Rightarrow>
        if clients_actifs w ! i then
          let (res, est_correct, w) = recevoir_int E (clients w ! i) 0 w
          in if res \<le> 0 then (temps, reponses_correctes, desactiver_libre i w)
             else
               let reponses_correctes = reponses_correctes[i := (est_correct = 1)];
                   (res, t, w) = recevoir_int E (clients w ! i) (temps ! i) w;
                   temps = temps[i := t]
               in if res \<le> 0 then (temps[i := 100], reponses_correctes[i := False], desactiver_libre i w)
                  else (temps, reponses_correctes, w)
        else (temps, reponses_correctes, w))"

lemma recevoir_int_consigne: "\<exists>n y r. recevoir_int E fd x w = (n, y, consigne [Net (Recv fd 4 r)] w)"
  by (simp add: recevoir_int_def recevoir_donnees_def recv_def Let_def split: option.splits)

lemma recevoir_temps_client_dedans:
  assumes "serveur_ok w" and "i < 10" and "length t = 10" and "length b = 10"
  shows "recevoir_temps_client E i (t, b, w) = Some (recevoir_temps_client_libre E i (t, b, w)) \<and>
    (case recevoir_temps_client_libre E i (t, b, w) of (t', b', w') \<Rightarrow>
       serveur_ok w' \<and> length t' = 10 \<and> length b' = 10)"
proof -
  let ?c = "clients w ! i"
  obtain n x r where 1: "recevoir_int E ?c 0 w = (n, x, consigne [Net (Recv ?c 4 r)] w)"
    using recevoir_int_consigne by blast
  define w1 where "w1 = consigne [Net (Recv ?c 4 r)] w"
  obtain n' x' r' where 2: "recevoir_int E ?c (t ! i) w1 = (n', x', consigne [Net (Recv ?c 4 r')] w1)"
    using recevoir_int_consigne by blast
  have d: "serveur_ok w1" "serveur_ok (consigne [Net (Recv ?c 4 r')] w1)" "clients w1 = clients w"
    using assms(1) by (simp_all add: w1_def)
  show ?thesis
    using serveur_okD(2,3) [OF assms(1,2)] assms 2 desactiver_dedans [OF d(1) assms(2)] desactiver_dedans [OF d(2) assms(2)] d
    by (simp add: recevoir_temps_client_def recevoir_temps_client_libre_def 1 Let_def flip: w1_def)
qed

definition recevoir_temps_libre ::
    "hote \<Rightarrow> int list \<Rightarrow> bool list \<Rightarrow> serveur \<Rightarrow> int list \<times> bool list \<times> serveur" where
  "recevoir_temps_libre E temps reponses_correctes w =
     (let (temps, reponses_correctes) =
            fold (\<lambda>i (t, r). (t[i := 100], r[i := False])) [0..<nat (nb_clients w)] (temps, reponses_correctes)
      in fold (recevoir_temps_client_libre E) [0..<nat (nb_clients w)] (temps, reponses_correctes, w))"

lemma recevoir_temps_debut:
  assumes "\<forall>i \<in> set xs. i < 10" and "length t = 10" and "length b = 10"
  shows "\<exists>t' b'. fold (\<lambda>i (t, r). (t[i := 100], r[i := False])) xs (t, b) = (t', b') \<and> length t' = 10 \<and> length b' = 10 \<and>
    foldM (\<lambda>i (t, r). modifie t i 100 \<bind> (\<lambda>t. modifie r i False \<bind> (\<lambda>r. Some (t, r)))) xs (t, b) = Some (t', b')"
  using assms by (induction xs arbitrary: t b) auto

lemma recevoir_temps_dedans:
  assumes "serveur_ok w" and "length t = 10" and "length b = 10"
  shows "recevoir_temps E t b w = Some (recevoir_temps_libre E t b w)"
    and "case recevoir_temps_libre E t b w of (t', b', w') \<Rightarrow> serveur_ok w' \<and> length t' = 10 \<and> length b' = 10"
proof -
  let ?xs = "[0..<nat (nb_clients w)]"
  let ?Q = "\<lambda>s. serveur_ok (snd (snd s)) \<and> length (fst s) = 10 \<and> length (fst (snd s)) = 10"
  have i: "\<forall>i \<in> set ?xs. i < 10" using serveur_okD(1) [OF assms(1)] by simp
  from recevoir_temps_debut [OF i assms(2,3)] obtain t1 b1 where
    1: "fold (\<lambda>i (t, r). (t[i := 100], r[i := False])) ?xs (t, b) = (t1, b1)" "length t1 = 10" "length b1 = 10"
      "foldM (\<lambda>i (t, r). modifie t i 100 \<bind> (\<lambda>t. modifie r i False \<bind> (\<lambda>r. Some (t, r)))) ?xs (t, b) = Some (t1, b1)"
    by blast
  have c: "recevoir_temps_client E i s = Some (recevoir_temps_client_libre E i s) \<and> ?Q (recevoir_temps_client_libre E i s)"
    if "i \<in> set ?xs" "?Q s" for i s
  proof -
    obtain t2 b2 v where s: "s = (t2, b2, v)" by (metis prod_cases3)
    obtain t3 b3 v3 where l: "recevoir_temps_client_libre E i (t2, b2, v) = (t3, b3, v3)" by (metis prod_cases3)
    show ?thesis
      using recevoir_temps_client_dedans [OF _ bspec [OF i that(1)], of v t2 b2 E] that(2) unfolding s l by simp
  qed
  have q: "?Q (t1, b1, w)" using 1 assms(1) by simp
  have "foldM (recevoir_temps_client E) ?xs (t1, b1, w) = Some (fold (recevoir_temps_client_libre E) ?xs (t1, b1, w))"
    by (rule foldM_libre(1) [where P = ?Q, OF q c])
  then show "recevoir_temps E t b w = Some (recevoir_temps_libre E t b w)"
    unfolding recevoir_temps_def recevoir_temps_libre_def 1(1,4) by simp
  have "?Q (fold (recevoir_temps_client_libre E) ?xs (t1, b1, w))"
    by (rule foldM_libre(2) [where P = ?Q, OF q c])
  then show "case recevoir_temps_libre E t b w of (t', b', w') \<Rightarrow> serveur_ok w' \<and> length t' = 10 \<and> length b' = 10"
    unfolding recevoir_temps_libre_def 1(1) by (simp add: case_prod_beta)
qed

definition meilleur_et_pire_libre :: "int list \<Rightarrow> bool list \<Rightarrow> serveur \<Rightarrow> int \<times> int" where
  "meilleur_et_pire_libre temps reponses_correctes w =
     fold (\<lambda>i (meilleur_temps, pire_temps).
         if clients_actifs w ! i then
           (if reponses_correctes ! i \<and> temps ! i < meilleur_temps then temps ! i else meilleur_temps,
            if temps ! i > pire_temps then temps ! i else pire_temps)
         else (meilleur_temps, pire_temps))
       [0..<nat (nb_clients w)] (100, 0)"

lemma meilleur_et_pire_dedans:
  assumes "serveur_ok w" and "length t = 10" and "length b = 10"
  shows "meilleur_et_pire t b w = Some (meilleur_et_pire_libre t b w)"
  unfolding meilleur_et_pire_def meilleur_et_pire_libre_def
  by (rule foldM_sans_etat) (use assms serveur_okD [OF assms(1)] in auto)

definition envoyer_resultats_libre :: "hote \<Rightarrow> int list \<Rightarrow> bool list \<Rightarrow> serveur \<Rightarrow> serveur" where
  "envoyer_resultats_libre E temps reponses_correctes w =
     (let (meilleur_temps, pire_temps) = meilleur_et_pire_libre temps reponses_correctes w
      in diffuser_libre E [octets_int meilleur_temps, octets_int pire_temps] w)"

lemma envoyer_resultats_dedans:
  assumes "serveur_ok w" and "length t = 10" and "length b = 10"
  shows "envoyer_resultats E t b w = Some (envoyer_resultats_libre E t b w)"
  by (simp add: envoyer_resultats_def envoyer_resultats_libre_def meilleur_et_pire_dedans [OF assms]
      diffuser_dedans [OF assms(1)] split: prod.splits)

definition compter_actifs_libre :: "serveur \<Rightarrow> int" where
  "compter_actifs_libre w = fold (\<lambda>i n. if clients_actifs w ! i then n + 1 else n) [0..<nat (nb_clients w)] 0"

lemma compter_actifs_dedans: "serveur_ok w \<Longrightarrow> compter_actifs w = Some (compter_actifs_libre w)"
  unfolding compter_actifs_def compter_actifs_libre_def
  by (rule foldM_sans_etat) (simp add: serveur_okD)

definition recevoir_choix_libre :: "hote \<Rightarrow> nat \<Rightarrow> int \<times> serveur \<Rightarrow> int \<times> serveur" where
  "recevoir_choix_libre E i s =
     (case s of (rejouer_count, w) \<Rightarrow>
        if clients_actifs w ! i then
          let (res, w) = recevoir_donnees E (clients w ! i) 1 w
          in case res of
               Some (choix # _) \<Rightarrow>
                 if choix = octet_de CHR ''o'' then (rejouer_count + 1, w) else (rejouer_count, desactiver_libre i w)
             | _ \<Rightarrow> (rejouer_count, desactiver_libre i w)
        else (rejouer_count, w))"

lemma recevoir_choix_dedans:
  assumes "serveur_ok w" and "i < 10" and "length ch = 10"
  shows "\<exists>ch'. recevoir_choix E i (ch, n, w) = Some (ch', recevoir_choix_libre E i (n, w)) \<and> length ch' = 10 \<and>
    serveur_ok (snd (recevoir_choix_libre E i (n, w)))"
proof -
  let ?c = "clients w ! i"
  obtain r where r: "recevoir_donnees E ?c 1 w = (r, consigne [Net (Recv ?c 1 r)] w)"
    using recevoir_donnees_consigne by blast
  define w1 where "w1 = consigne [Net (Recv ?c 1 r)] w"
  have ok: "serveur_ok w1" using assms(1) by (simp add: w1_def)
  note d = serveur_okD(2,3) [OF assms(1,2)] desactiver_dedans [OF ok assms(2)]
  show ?thesis
  proof (cases "\<exists>x xs. r = Some (x # xs)")
    case True
    with d ok assms show ?thesis
      by (auto simp: recevoir_choix_def recevoir_choix_libre_def r [unfolded One_nat_def] simp flip: w1_def [unfolded One_nat_def])
  next
    case False
    then have "r = None \<or> r = Some []" by (metis list.exhaust option.exhaust)
    with d ok assms show ?thesis
      by (auto simp: recevoir_choix_def recevoir_choix_libre_def r [unfolded One_nat_def] simp flip: w1_def [unfolded One_nat_def])
  qed
qed

lemma recevoir_choix_tous:
  assumes "serveur_ok w" and "\<forall>i \<in> set xs. i < 10" and "length ch = 10"
  shows "\<exists>ch'. foldM (recevoir_choix E) xs (ch, n, w) = Some (ch', fold (recevoir_choix_libre E) xs (n, w)) \<and>
    serveur_ok (snd (fold (recevoir_choix_libre E) xs (n, w)))"
  using assms
proof (induction xs arbitrary: ch n w)
  case (Cons i xs)
  from recevoir_choix_dedans [OF Cons.prems(1) _ Cons.prems(3), of i E n] Cons.prems(2)
  obtain ch' where 1: "recevoir_choix E i (ch, n, w) = Some (ch', recevoir_choix_libre E i (n, w))" "length ch' = 10"
    "serveur_ok (snd (recevoir_choix_libre E i (n, w)))" by auto
  from Cons.IH [OF 1(3) _ 1(2), of "fst (recevoir_choix_libre E i (n, w))"] Cons.prems(2) 1(1) show ?case by simp
qed simp

definition recevoir_choix_rejouer_libre :: "hote \<Rightarrow> serveur \<Rightarrow> bool \<times> serveur" where
  "recevoir_choix_rejouer_libre E w =
     (if compter_actifs_libre w = 0 then (False, w)
      else let (rejouer_count, w) = fold (recevoir_choix_libre E) [0..<nat (nb_clients w)] (0, w)
           in (rejouer_count > 0, w))"

lemma recevoir_choix_rejouer_dedans:
  assumes "serveur_ok w"
  shows "recevoir_choix_rejouer E w = Some (recevoir_choix_rejouer_libre E w)"
proof -
  have "\<forall>i \<in> set [0..<nat (nb_clients w)]. i < 10" using serveur_okD(1) [OF assms] by simp
  from recevoir_choix_tous [OF assms this, of choix_pile E 0] show ?thesis
    by (auto simp: recevoir_choix_rejouer_def recevoir_choix_rejouer_libre_def compter_actifs_dedans [OF assms] choix_pile_def
        split: prod.splits)
qed

definition fermer_clients_libre :: "serveur \<Rightarrow> serveur" where
  "fermer_clients_libre w =
     fold (\<lambda>i w. if clients_actifs w ! i then close (clients w ! i) w else w) [0..<nat (nb_clients w)] w"

lemma fermer_clients_dedans:
  assumes "serveur_ok w"
  shows "fermer_clients w = Some (fermer_clients_libre w)"
  unfolding fermer_clients_def fermer_clients_libre_def
  by (rule foldM_libre(1) [where P = serveur_ok])
    (use assms serveur_okD(1) [OF assms] serveur_okD(2,3) in \<open>auto simp: close_def\<close>)

end
