(* ===== verification/Ressources.thy ===== *)
theory Ressources
  imports Hote
begin

text \<open>
  The file descriptors of a process, read off its journal: \<open>socket\<close> and \<open>accept\<close> open one when
  they return a number that is not negative, as does the set-up of an I2C device; \<open>close\<close> closes
  one. The ledger is a multiset, so nothing is assumed of the numbers the kernel chooses; closing a
  descriptor that is not open is \<^term>\<open>None\<close>, for good. A process that closes each of its descriptors
  exactly once ends with the empty ledger.
\<close>

fun registre_pas :: "event \<Rightarrow> int multiset option \<Rightarrow> int multiset option" where
  "registre_pas (Net (Socket r)) M = (if r \<ge> 0 then map_option (add_mset r) M else M)"
| "registre_pas (Net (Accept fd r)) M = (if r \<ge> 0 then map_option (add_mset r) M else M)"
| "registre_pas (I2c (I2CSetup adresse r)) M = (if r \<ge> 0 then map_option (add_mset r) M else M)"
| "registre_pas (Sys (Close fd)) M =
     Option.bind M (\<lambda>M. if fd \<in># M then Some (M - {#fd#}) else None)"
| "registre_pas e M = M"

fun registre_concerne :: "event \<Rightarrow> bool" where
  "registre_concerne (Net (Socket r)) \<longleftrightarrow> True"
| "registre_concerne (Net (Accept fd r)) \<longleftrightarrow> True"
| "registre_concerne (I2c (I2CSetup adresse r)) \<longleftrightarrow> True"
| "registre_concerne (Sys (Close fd)) \<longleftrightarrow> True"
| "registre_concerne e \<longleftrightarrow> False"

interpretation registre: appareil registre_pas registre_concerne
proof
  show "registre_pas e d = d" if "\<not> registre_concerne e" for e d
    using that by (induction e d rule: registre_pas.induct) auto
qed

definition ouverts :: "journal_t \<Rightarrow> int multiset option" where
  "ouverts h = fold registre_pas h (Some {#})"

lemma ouverts_append: "ouverts (h @ es) = fold registre_pas es (ouverts h)"
  by (simp add: ouverts_def)

lemma ouverts_neutre: "(\<And>e. e \<in> set es \<Longrightarrow> \<not> registre_concerne e) \<Longrightarrow> ouverts (h @ es) = ouverts h"
  by (simp add: ouverts_append registre.fold_ignore)

text \<open>What was sent, and to whom.\<close>

fun envoi :: "event \<Rightarrow> (int \<times> octet list) option" where
  "envoi (Net (Send fd bs r)) = Some (fd, bs)"
| "envoi e = None"

definition envois :: "journal_t \<Rightarrow> (int \<times> octet list) list" where
  "envois h = List.map_filter envoi h"

lemma envois_Nil [simp]: "envois [] = []"
  by (simp add: envois_def List.map_filter_simps)

lemma envois_append [simp]: "envois (h @ es) = envois h @ envois es"
  by (simp add: envois_def List.map_filter_def)

lemma envois_Cons [simp]: "envois (e # es) = (case envoi e of None \<Rightarrow> envois es | Some m \<Rightarrow> m # envois es)"
  by (cases "envoi e") (simp_all add: envois_def List.map_filter_simps)

text \<open>What was received, call by call, and from whom.\<close>

fun reception :: "event \<Rightarrow> (int \<times> octet list option) option" where
  "reception (Net (Recv fd n r)) = Some (fd, r)"
| "reception e = None"

definition recus :: "journal_t \<Rightarrow> (int \<times> octet list option) list" where
  "recus h = List.map_filter reception h"

lemma recus_Nil [simp]: "recus [] = []"
  by (simp add: recus_def List.map_filter_simps)

lemma recus_append [simp]: "recus (h @ es) = recus h @ recus es"
  by (simp add: recus_def List.map_filter_def)

lemma recus_Cons [simp]: "recus (e # es) = (case reception e of None \<Rightarrow> recus es | Some m \<Rightarrow> m # recus es)"
  by (cases "reception e") (simp_all add: recus_def List.map_filter_simps)

end
