(* ===== verification/Joueurs.thy ===== *)
theory Joueurs
  imports Bornes Ressources
begin

text \<open>
  The players of the server: the abstraction of the three arrays is the list of the sockets of the
  active clients, in order. The theory proves what each operation of \<open>serveur.c\<close> does on that list,
  on the descriptors of the process and on the messages sent.
\<close>

section \<open>The list of players\<close>

definition actifs :: "serveur \<Rightarrow> nat list" where
  "actifs w = filter (\<lambda>i. clients_actifs w ! i) [0..<nat (nb_clients w)]"

definition joueurs :: "serveur \<Rightarrow> int list" where
  "joueurs w = map (\<lambda>i. clients w ! i) (actifs w)"

definition suite :: "serveur \<Rightarrow> serveur \<Rightarrow> bool" where
  "suite w w' \<longleftrightarrow> nb_clients w \<le> nb_clients w' \<and>
     (\<forall>i < nat (nb_clients w). clients w' ! i = clients w ! i) \<and>
     (\<exists>es. journal w' = journal w @ es)"

definition gere :: "int \<Rightarrow> serveur \<Rightarrow> bool" where
  "gere ss w \<longleftrightarrow> serveur_ok w \<and> ouverts (journal w) = Some (add_mset ss (mset (joueurs w)))"

lemma suite_refl [simp]: "suite w w"
  by (simp add: suite_def)

lemma suite_trans: "\<lbrakk>suite w w'; suite w' w''\<rbrakk> \<Longrightarrow> suite w w''"
  by (auto simp: suite_def intro: order_trans)

lemma actifs_iff [simp]: "i \<in> set (actifs w) \<longleftrightarrow> i < nat (nb_clients w) \<and> clients_actifs w ! i"
  by (auto simp: actifs_def)

lemma actifs_consigne [simp]: "actifs (consigne es w) = actifs w"
  by (simp add: actifs_def)

lemma joueurs_consigne [simp]: "joueurs (consigne es w) = joueurs w"
  by (simp add: joueurs_def)

lemma suite_consigne [simp]: "suite w (consigne es w)"
  by (simp add: suite_def)

lemma gere_consigne: "\<lbrakk>gere ss w; \<And>e. e \<in> set es \<Longrightarrow> \<not> registre_concerne e\<rbrakk> \<Longrightarrow> gere ss (consigne es w)"
  by (simp add: gere_def ouverts_neutre)

section \<open>A client joins or leaves\<close>

lemma ajouter_client_Some:
  assumes "serveur_ok w" and "ajouter_client s w = Some w'"
  shows "serveur_ok w'" and "suite w w'" and "joueurs w' = joueurs w @ [s]" and "journal w' = journal w"
    and "nb_clients w' = nb_clients w + 1"
proof -
  define k where "k = nat (nb_clients w)"
  have k: "0 \<le> nb_clients w" "k < 10"
    and w': "w' = w\<lparr>clients := (clients w)[k := s], clients_actifs := (clients_actifs w)[k := True],
        nb_clients := nb_clients w + 1\<rparr>"
    using assms by (auto simp: ajouter_client_def serveur_ok_def k_def Let_def split: if_splits)
  have l: "length (clients w) = 10" "length (clients_actifs w) = 10" using assms(1) by (simp_all add: serveur_ok_def)
  show "serveur_ok w'" using k l by (simp add: w' serveur_ok_def k_def)
  show "suite w w'" by (simp add: w' suite_def k_def)
  show "journal w' = journal w" "nb_clients w' = nb_clients w + 1" by (simp_all add: w')
  have "nat (nb_clients w + 1) = Suc k" using k(1) by (simp add: k_def)
  moreover have "filter (\<lambda>i. (clients_actifs w)[k := True] ! i) [0..<k] = filter (\<lambda>i. clients_actifs w ! i) [0..<k]"
    by (rule filter_cong) auto
  ultimately have "actifs w' = actifs w @ [k]"
    using k l by (simp add: actifs_def w' flip: k_def)
  moreover have "map (\<lambda>i. clients w' ! i) (actifs w) = joueurs w"
    by (simp add: joueurs_def w' k_def)
  ultimately show "joueurs w' = joueurs w @ [s]" using k l by (simp add: joueurs_def w')
qed

lemma ajouter_client_total:
  "\<lbrakk>serveur_ok w; nb_clients w < 10\<rbrakk> \<Longrightarrow> \<exists>w'. ajouter_client s w = Some w'"
  by (auto simp: serveur_ok_def ajouter_client_def Let_def)

lemma mset_filter_distinct:
  "\<lbrakk>distinct xs; i \<in> set xs; P i\<rbrakk> \<Longrightarrow>
    mset (map f (filter P xs)) = add_mset (f i) (mset (map f (filter (\<lambda>j. P j \<and> j \<noteq> i) xs)))"
proof (induction xs)
  case (Cons x xs)
  show ?case
  proof (cases "x = i")
    case True
    with Cons.prems have "filter (\<lambda>j. P j \<and> j \<noteq> i) xs = filter P xs" by (auto intro: filter_cong)
    with True Cons.prems show ?thesis by simp
  qed (use Cons in auto)
qed simp

lemma desactiver_faits:
  assumes "serveur_ok w" and "i \<in> set (actifs w)"
  shows "serveur_ok (desactiver_libre i w)" and "suite w (desactiver_libre i w)"
    and "nb_clients (desactiver_libre i w) = nb_clients w" and "clients (desactiver_libre i w) = clients w"
    and "journal (desactiver_libre i w) = journal w @ [Sys (Close (clients w ! i))]"
    and "actifs (desactiver_libre i w) = filter (\<lambda>j. j \<noteq> i) (actifs w)"
    and "mset (joueurs w) = add_mset (clients w ! i) (mset (joueurs (desactiver_libre i w)))"
proof -
  note d = desactiver_libre_def close_def
  have i: "i < length (clients_actifs w)" using assms by (auto simp: serveur_ok_def)
  show "serveur_ok (desactiver_libre i w)" "suite w (desactiver_libre i w)" "nb_clients (desactiver_libre i w) = nb_clients w"
      "journal (desactiver_libre i w) = journal w @ [Sys (Close (clients w ! i))]" "clients (desactiver_libre i w) = clients w"
    using assms(1) by (simp_all add: d serveur_ok_def suite_def)
  show a: "actifs (desactiver_libre i w) = filter (\<lambda>j. j \<noteq> i) (actifs w)"
    using i by (auto simp: d actifs_def nth_list_update conj_commute intro!: filter_cong)
  have "distinct [0..<nat (nb_clients w)]" "i \<in> set [0..<nat (nb_clients w)]" "clients_actifs w ! i" using assms(2) by auto
  from mset_filter_distinct [OF this(1,2), of "\<lambda>i. clients_actifs w ! i", OF this(3), of "\<lambda>i. clients w ! i"]
  show "mset (joueurs w) = add_mset (clients w ! i) (mset (joueurs (desactiver_libre i w)))"
    unfolding joueurs_def a by (simp add: actifs_def d conj_commute)
qed

lemma gere_desactiver:
  assumes "gere ss w" and "i \<in> set (actifs w)"
  shows "gere ss (desactiver_libre i w)"
  using assms desactiver_faits [of w i] by (simp add: gere_def ouverts_append)

lemma gere_accepte:
  assumes "gere ss w" and "accept E fd w = (s, w1)"
  shows "s < 0 \<Longrightarrow> gere ss w1"
    and "\<lbrakk>s \<ge> 0; ajouter_client s w1 = Some w2\<rbrakk> \<Longrightarrow> gere ss w2"
    and "s \<ge> 0 \<Longrightarrow> gere ss (close s w1)"
proof -
  from assms(2) have w1: "w1 = consigne [Net (Accept fd s)] w" by (auto simp: accept_def Let_def)
  show "s < 0 \<Longrightarrow> gere ss w1" using assms(1) by (simp add: w1 gere_def ouverts_append)
  show "gere ss w2" if "s \<ge> 0" "ajouter_client s w1 = Some w2"
  proof -
    from assms(1) have "serveur_ok w1" by (simp add: w1 gere_def)
    from ajouter_client_Some [OF this that(2)] that(1) assms(1) show ?thesis
      by (simp add: gere_def w1 ouverts_append add_mset_commute)
  qed
  show "s \<ge> 0 \<Longrightarrow> gere ss (close s w1)" using assms(1) by (simp add: w1 close_def gere_def ouverts_append)
qed

section \<open>Messages to all players\<close>

lemma envoyer_liste:
  "\<exists>es. fold (\<lambda>m w. snd (envoyer_donnees E fd m w)) ms w = consigne es w \<and> envois es = map (Pair fd) ms \<and>
     recus es = [] \<and> (\<forall>e \<in> set es. \<not> registre_concerne e)"
proof (induction ms arbitrary: w)
  case Nil
  show ?case by (auto intro!: exI [of _ "[]"])
next
  case (Cons m ms)
  define e where "e = Net (Send fd m (h_send E (journal w) fd m))"
  have e: "snd (envoyer_donnees E fd m w) = consigne [e] w"
    by (simp add: envoyer_donnees_def send_def e_def Let_def)
  obtain es where "fold (\<lambda>m w. snd (envoyer_donnees E fd m w)) ms (consigne [e] w) = consigne es (consigne [e] w)"
      "envois es = map (Pair fd) ms" "recus es = []" "\<forall>e \<in> set es. \<not> registre_concerne e"
    using Cons.IH [of "consigne [e] w"] by blast
  then show ?case by (auto intro!: exI [of _ "e # es"] simp: e e_def)
qed

lemma diffuser_libre_journal:
  "\<exists>es. diffuser_libre E ms w = consigne es w \<and> envois es = concat (map (\<lambda>j. map (Pair j) ms) (joueurs w)) \<and>
     recus es = [] \<and> (\<forall>e \<in> set es. \<not> registre_concerne e)"
proof -
  let ?f = "\<lambda>i (v :: serveur). if clients_actifs v ! i then fold (\<lambda>m w. snd (envoyer_donnees E (clients v ! i) m w)) ms v else v"
  have "\<exists>es. fold ?f xs v = consigne es v \<and>
      envois es = concat (map (\<lambda>j. map (Pair j) ms) (map (\<lambda>i. clients w ! i) (filter (\<lambda>i. clients_actifs w ! i) xs))) \<and>
      recus es = [] \<and> (\<forall>e \<in> set es. \<not> registre_concerne e)"
    if "clients v = clients w" "clients_actifs v = clients_actifs w" for xs v
    using that
  proof (induction xs arbitrary: v)
    case Nil
    show ?case by (auto intro!: exI [of _ "[]"])
  next
    case (Cons i xs)
    show ?case
    proof (cases "clients_actifs w ! i")
      case True
      obtain es where es: "fold (\<lambda>m w. snd (envoyer_donnees E (clients v ! i) m w)) ms v = consigne es v"
          "envois es = map (Pair (clients w ! i)) ms" "recus es = []" "\<forall>e \<in> set es. \<not> registre_concerne e"
        using envoyer_liste [of E "clients v ! i" ms v] Cons.prems by auto
      obtain es' where "fold ?f xs (consigne es v) = consigne es' (consigne es v)"
          "envois es' = concat (map (\<lambda>j. map (Pair j) ms) (map (\<lambda>i. clients w ! i) (filter (\<lambda>i. clients_actifs w ! i) xs)))"
          "recus es' = []" "\<forall>e \<in> set es'. \<not> registre_concerne e"
        using Cons.IH [of "consigne es v"] Cons.prems by auto
      with True Cons.prems es show ?thesis by (auto intro!: exI [of _ "es @ es'"])
    next
      case False
      with Cons show ?thesis by simp
    qed
  qed
  from this [of w "[0..<nat (nb_clients w)]"] show ?thesis
    by (simp add: diffuser_libre_def joueurs_def actifs_def)
qed

lemma diffuser_journal:
  assumes "serveur_ok w"
  shows "\<exists>es. diffuser E ms w = Some (consigne es w) \<and> envois es = concat (map (\<lambda>j. map (Pair j) ms) (joueurs w)) \<and>
     recus es = [] \<and> (\<forall>e \<in> set es. \<not> registre_concerne e)"
  using diffuser_libre_journal [of E ms w] by (simp add: diffuser_dedans [OF assms])

section \<open>The set given to select\<close>

lemma fd_set_ok_zero [simp]: "fd_set_ok s \<Longrightarrow> fd_set_ok (FD_ZERO s)"
  using fds.vider_bon by blast

lemma fd_set_pile_ok [simp]: "fd_set_ok fd_set_pile"
  by (simp add: fd_set_ok_def fd_set_pile_def)

lemma foldM_FD_SET:
  assumes "fd_set_ok s" and "foldM FD_SET ds s = Some s'"
  shows "fd_set_ok s' \<and> descripteurs s' = set ds \<union> descripteurs s"
  using assms
proof (induction ds arbitrary: s)
  case (Cons d ds)
  from Cons.prems(2) obtain t where t: "FD_SET d s = Some t" "foldM FD_SET ds t = Some s'"
    by (auto simp: bind_Some_iff)
  from fds.ajouter_Some [OF Cons.prems(1) t(1)] Cons.IH [OF _ t(2)] show ?case by auto
qed simp

lemma surveiller_Some:
  assumes "fd_set_ok rf" and "surveiller E n rf t w = Some (a, rf', t', w')"
  shows "fd_set_ok rf'" and "\<exists>fds r p. w' = consigne [Net (Select fds t r p)] w"
    and "descripteurs rf' \<subseteq> descripteurs rf"
proof -
  define fs where "fs = filter (\<lambda>d. FD_ISSET d rf = Some True) [0..n - 1]"
  obtain p where s: "select E fs t w = ((a, p, t'), w')" and p: "foldM FD_SET p (FD_ZERO rf) = Some rf'"
    using assms(2) by (auto simp: surveiller_def Let_def bind_Some_iff fs_def split: prod.splits)
  have "fd_set_ok (FD_ZERO rf)" "descripteurs (FD_ZERO rf) = {}" using fds.vider_bon [OF assms(1)] by simp_all
  from foldM_FD_SET [OF this(1) p] this(2) have rf': "fd_set_ok rf'" "descripteurs rf' = set p" by simp_all
  from s have sp: "set p \<subseteq> set fs" "w' = consigne [Net (Select fs t a p)] w"
    by (auto simp: select_def Let_def split: prod.splits if_splits)
  have "set fs \<subseteq> descripteurs rf"
    using fds.present_Some [OF assms(1)] by (auto simp: fs_def)
  with sp rf' show "fd_set_ok rf'" "\<exists>fds r p. w' = consigne [Net (Select fds t r p)] w" "descripteurs rf' \<subseteq> descripteurs rf"
    by blast+
qed

lemma preparer_ensemble_Some:
  assumes "fd_set_ok rf" and "preparer_ensemble ss rf w = Some (rf', m)" and "serveur_ok w"
  shows "fd_set_ok rf'" and "descripteurs rf' = insert ss (set (joueurs w))"
    and "ss \<le> m" and "\<forall>j \<in> set (joueurs w). j \<le> m"
proof -
  obtain s where s: "FD_SET ss (FD_ZERO rf) = Some s"
    and f: "foldM (\<lambda>i. ajouter_actif i w) [0..<nat (nb_clients w)] (s, ss) = Some (rf', m)"
    using assms(2) by (auto simp: preparer_ensemble_def bind_Some_iff)
  have "fd_set_ok (FD_ZERO rf)" "descripteurs (FD_ZERO rf) = {}" using fds.vider_bon [OF assms(1)] by simp_all
  from fds.ajouter_Some [OF this(1) s] this(2) have s: "fd_set_ok s" "descripteurs s = {ss}" by simp_all
  have "fd_set_ok rf' \<and> descripteurs rf' = descripteurs t \<union> {clients w ! i |i. i \<in> set xs \<and> clients_actifs w ! i} \<and> k \<le> m \<and>
      (\<forall>i \<in> set xs. clients_actifs w ! i \<longrightarrow> clients w ! i \<le> m)"
    if "foldM (\<lambda>i. ajouter_actif i w) xs (t, k) = Some (rf', m)" "fd_set_ok t" "\<forall>i \<in> set xs. i < 10" for xs t k
    using that
  proof (induction xs arbitrary: t k)
    case (Cons i xs)
    then have "i < 10" by simp
    note ajouter_actif_eq = ajouter_actif_dedans [OF assms(3) this]
    show ?case
    proof (cases "clients_actifs w ! i")
      case True
      with Cons.prems obtain u where u: "FD_SET (clients w ! i) t = Some u"
          "foldM (\<lambda>i. ajouter_actif i w) xs (u, max k (clients w ! i)) = Some (rf', m)"
        by (auto simp: ajouter_actif_eq bind_Some_iff)
      from fds.ajouter_Some [OF Cons.prems(2) u(1)] Cons.IH [OF u(2)] Cons.prems(3) True show ?thesis by auto
    next
      case False
      with Cons.prems Cons.IH [of t k] show ?thesis by (auto simp: ajouter_actif_eq)
    qed
  qed auto
  from this [OF f s(1)] s(2) serveur_okD(1) [OF assms(3)] show "fd_set_ok rf'" "descripteurs rf' = insert ss (set (joueurs w))" "ss \<le> m"
      "\<forall>j \<in> set (joueurs w). j \<le> m"
    by (auto simp: joueurs_def)
qed

section \<open>Waiting for players\<close>

lemma tour_premier_gere:
  assumes "gere ss w" and "tour_premier E ss w = Some r"
  shows "case r of Inl w' \<Rightarrow> gere ss w' | Inr w' \<Rightarrow> w' = w \<and> nb_clients w \<noteq> 0"
proof (cases "nb_clients w = 0")
  case True
  obtain c w1 where a: "accept E ss w = (c, w1)" by fastforce
  show ?thesis
  proof (cases "c \<ge> 0")
    case c: True
    with True a assms(2) obtain w2 where "ajouter_client c w1 = Some w2" "r = Inl w2"
      by (auto simp: tour_premier_def bind_Some_iff)
    with gere_accepte(2) [OF assms(1) a c] show ?thesis by simp
  next
    case False
    with True a assms(2) gere_accepte(1) [OF assms(1) a] show ?thesis by (auto simp: tour_premier_def)
  qed
qed (use assms(2) in \<open>auto simp: tour_premier_def\<close>)

lemma tour_autres_gere:
  assumes "gere ss w" and "fd_set_ok rf" and "tour_autres E ss (rf, t, w) = Some r"
  shows "case r of Inl (rf', t', w') \<Rightarrow> gere ss w' \<and> fd_set_ok rf' \<and> nb_clients w \<le> nb_clients w'
    | Inr w' \<Rightarrow> gere ss w' \<and> nb_clients w \<le> nb_clients w'"
proof (cases "nb_clients w < 10")
  case True
  with assms(3) obtain rf1 a rf2 t2 w1 where rf1: "FD_SET ss (FD_ZERO rf) = Some rf1"
    and s: "surveiller E (ss + 1) rf1 t w = Some (a, rf2, t2, w1)"
    and r: "(if a \<le> 0 then Some (Inr w1)
          else FD_ISSET ss rf2 \<bind> (\<lambda>arrivee. if arrivee then
              let (c, w) = accept E ss w1
              in if c \<ge> 0 then ajouter_client c w \<bind> (\<lambda>w. Some (Inl (rf2, 5 * 1000000 + 0, w)))
                 else Some (Inl (rf2, t2, w))
            else Some (Inl (rf2, t2, w1)))) = Some r"
    by (auto simp: tour_autres_def bind_Some_iff)
  have "fd_set_ok rf1" using fds.ajouter_Some(2) [OF _ rf1] assms(2) by simp
  from surveiller_Some [OF this s] have rf2: "fd_set_ok rf2"
    and w1: "\<exists>fds r p. w1 = consigne [Net (Select fds t r p)] w" by simp_all
  then have g: "gere ss w1" "nb_clients w1 = nb_clients w" by (auto intro!: gere_consigne [OF assms(1)])
  obtain c w2 where ac: "accept E ss w1 = (c, w2)" by fastforce
  then have nb: "nb_clients w2 = nb_clients w" "serveur_ok w2"
    using g by (auto simp: accept_def Let_def gere_def)
  note ga = gere_accepte [OF g(1) ac]
  show ?thesis
  proof (cases "a > 0 \<and> FD_ISSET ss rf2 = Some True")
    case a: True
    show ?thesis
    proof (cases "c \<ge> 0")
      case c: True
      with a r ac obtain w3 where w3: "ajouter_client c w2 = Some w3" "r = Inl (rf2, 5000000, w3)"
        by (auto simp: bind_Some_iff)
      with ga(2) [OF c w3(1)] ajouter_client_Some(5) [OF nb(2) w3(1)] nb(1) rf2 show ?thesis by simp
    next
      case False
      with a r ac ga(1) nb rf2 show ?thesis by auto
    qed
  next
    case False
    with r g rf2 show ?thesis by (auto simp: bind_Some_iff split: if_splits)
  qed
next
  case False
  with assms show ?thesis by (auto simp: tour_autres_def)
qed

lemma attendre_clients_gere:
  assumes "gere ss w" and "attendre_clients E ss w = Some w'"
  shows "gere ss w' \<and> 1 \<le> nb_clients w'"
proof -
  obtain w1 where w1: "boucle (tour_premier E ss) w = Some w1"
    and w': "boucle (tour_autres E ss) (fd_set_pile, 5 * 1000000 + 0, w1) = Some w'"
    using assms(2) by (auto simp: attendre_clients_def bind_Some_iff)
  from w1 assms(1) have "gere ss w1 \<and> nb_clients w1 \<noteq> 0"
    by (rule boucle_invariant [where P = "gere ss"]) (use tour_premier_gere in fastforce)+
  then have "gere ss w1 \<and> 1 \<le> nb_clients w1" by (auto simp: gere_def serveur_ok_def)
  from w' this show ?thesis
  proof (elim boucle_invariant [where P = "\<lambda>(rf, t, w). fd_set_ok rf \<and> gere ss w \<and> 1 \<le> nb_clients w"])
    show "(case s' of (rf, t, w) \<Rightarrow> fd_set_ok rf \<and> gere ss w \<and> 1 \<le> nb_clients w)"
      if "case s of (rf, t, w) \<Rightarrow> fd_set_ok rf \<and> gere ss w \<and> 1 \<le> nb_clients w" "tour_autres E ss s = Some (Inl s')" for s s'
      using that tour_autres_gere by (cases s; cases s') fastforce
    show "gere ss r \<and> 1 \<le> nb_clients r"
      if "case s of (rf, t, w) \<Rightarrow> fd_set_ok rf \<and> gere ss w \<and> 1 \<le> nb_clients w" "tour_autres E ss s = Some (Inr r)" for s r
      using that tour_autres_gere by (cases s) fastforce
  qed auto
qed

section \<open>Waiting for the confirmations\<close>

text \<open>
  The invariant of the wait that began in \<open>w0\<close>: nothing was sent since, and a player is marked
  ready only when it has sent the character \<open>1\<close> since.
\<close>

definition attente :: "int \<Rightarrow> serveur \<Rightarrow> bool list \<Rightarrow> serveur \<Rightarrow> bool" where
  "attente ss w0 pret w \<longleftrightarrow> gere ss w \<and> suite w0 w \<and> length pret = 10 \<and>
     (\<exists>es. journal w = journal w0 @ es \<and> envois es = [] \<and>
       (\<forall>i < nat (nb_clients w). pret ! i \<longrightarrow> (clients w ! i, Some [octet_de CHR ''1'']) \<in> set (recus es)))"

lemma attente_depart: "gere ss w \<Longrightarrow> attente ss w (replicate 10 False) w"
  by (auto simp: attente_def gere_def serveur_ok_def)

lemma attente_consigne:
  assumes "attente ss w0 pret w" and "\<And>e. e \<in> set es \<Longrightarrow> \<not> registre_concerne e" and "envois es = []"
  shows "attente ss w0 pret (consigne es w)"
proof -
  obtain es0 where "journal w = journal w0 @ es0" "envois es0 = []"
      "\<forall>i < nat (nb_clients w). pret ! i \<longrightarrow> (clients w ! i, Some [octet_de CHR ''1'']) \<in> set (recus es0)"
    using assms(1) by (auto simp: attente_def)
  moreover have "gere ss (consigne es w)" "suite w0 (consigne es w)" "length pret = 10"
    using assms gere_consigne suite_trans by (auto simp: attente_def intro: suite_trans suite_consigne)
  ultimately show ?thesis
    using assms(3) by (auto simp: attente_def intro!: exI [of _ "es0 @ es"])
qed

lemma nouvelle_connexion_attente:
  assumes "attente ss w0 pret w" and "nouvelle_connexion E ss pret w = Some (pret', w')"
  shows "attente ss w0 pret' w'"
proof -
  obtain c w1 where ac: "accept E ss w = (c, w1)" by fastforce
  then have w1: "w1 = consigne [Net (Accept ss c)] w" by (auto simp: accept_def Let_def)
  from assms(1) obtain es where g: "gere ss w" and s: "suite w0 w" and l: "length pret = 10"
    and es: "journal w = journal w0 @ es" "envois es = []"
      "\<forall>i < nat (nb_clients w). pret ! i \<longrightarrow> (clients w ! i, Some [octet_de CHR ''1'']) \<in> set (recus es)"
    by (auto simp: attente_def)
  have s1: "suite w0 w1" using s by (auto simp: w1 intro: suite_trans)
  note ga = gere_accepte [OF g ac]
  consider "c < 0" | "c \<ge> 0" "nb_clients w < 10" | "c \<ge> 0" "\<not> nb_clients w < 10" by linarith
  then show ?thesis
  proof cases
    case 1
    with assms(2) ac have "pret' = pret" "w' = w1" by (auto simp: nouvelle_connexion_def)
    with ga(1) 1 s1 l es show ?thesis by (auto simp: attente_def w1)
  next
    case 2
    define k where "k = nat (nb_clients w)"
    from 2 assms(2) ac have p: "pret' = pret[k := False]" and w': "ajouter_client c w1 = Some w'"
      by (auto simp: nouvelle_connexion_def w1 k_def bind_Some_iff split: if_splits)
    have "serveur_ok w1" using g by (simp add: w1 gere_def)
    note a = ajouter_client_Some [OF this w']
    from a(5) g have "nat (nb_clients w') = Suc k" by (simp add: k_def w1 gere_def serveur_ok_def nat_add_distrib)
    moreover have "clients w' ! i = clients w ! i" if "i < k" for i
      using a(2) that by (auto simp: suite_def w1 k_def)
    ultimately have "\<forall>i < nat (nb_clients w'). pret' ! i \<longrightarrow> (clients w' ! i, Some [octet_de CHR ''1'']) \<in> set (recus es)"
      using es(3) l 2(2) by (auto simp: p k_def nth_list_update less_Suc_eq)
    with ga(2) [OF 2(1) w'] suite_trans [OF s1 a(2)] a(4) l es show ?thesis
      by (auto simp: attente_def w1 p)
  next
    case 3
    with assms(2) ac have "pret' = pret" "w' = consigne [Sys (Close c)] w1"
      by (auto simp: nouvelle_connexion_def close_def w1)
    with ga(3) [OF 3(1)] suite_trans [OF s suite_consigne] l es show ?thesis
      by (auto simp: attente_def w1 close_def)
  qed
qed

lemma take_1_Cons: "take (Suc 0) xs = c # cs \<Longrightarrow> cs = []"
  by (cases xs) auto

lemma attente_lire:
  assumes "attente ss w0 pret w" and "i < nat (nb_clients w)"
  shows "lire_confirmation E rf i (pret, w) =
    (if clients_actifs w ! i \<and> \<not> pret ! i then do {
       arrive \<leftarrow> FD_ISSET (clients w ! i) rf;
       if arrive then
         let (res, w) = recevoir_donnees E (clients w ! i) 1 w
         in case res of
              Some (c # _) \<Rightarrow> Some (if c = octet_de CHR ''1'' then pret[i := True] else pret, w)
            | _ \<Rightarrow> Some (pret, desactiver_libre i w)
       else Some (pret, w)
     }
     else Some (pret, w))"
proof -
  have "serveur_ok w" "length pret = 10" using assms(1) by (simp_all add: attente_def gere_def)
  then show ?thesis using serveur_okD(1) assms(2) by (intro lire_confirmation_dedans)
qed

lemma lire_confirmation_attente:
  assumes "attente ss w0 pret w" and "i < nat (nb_clients w)"
    and "lire_confirmation E rf i (pret, w) = Some (pret', w')"
  shows "attente ss w0 pret' w' \<and> nb_clients w' = nb_clients w"
proof (cases "clients_actifs w ! i \<and> \<not> pret ! i \<and> FD_ISSET (clients w ! i) rf = Some True")
  case True
  note l = attente_lire [OF assms(1,2)]
  let ?c = "clients w ! i" and ?un = "octet_de CHR ''1''"
  from assms(2) True have i: "i \<in> set (actifs w)" by simp
  obtain r w1 where r: "recevoir_donnees E ?c 1 w = (r, w1)" by fastforce
  then have w1: "w1 = consigne [Net (Recv ?c 1 r)] w" and r1: "\<And>c cs. r = Some (c # cs) \<Longrightarrow> cs = []"
    by (auto simp: recevoir_donnees_def recv_def Let_def dest: take_1_Cons)
  have a1: "attente ss w0 pret w1" unfolding w1 by (rule attente_consigne [OF assms(1)]) auto
  have i1: "i \<in> set (actifs w1)" using i by (simp add: w1)
  show ?thesis
  proof (cases "\<exists>c cs. r = Some (c # cs)")
    case t: True
    then obtain c where c: "r = Some [c]" using r1 by auto
    with r True assms(3) have p: "pret' = (if c = ?un then pret[i := True] else pret)" "w' = w1"
      by (auto simp: l split: if_splits)
    from assms(1) obtain es where es: "journal w = journal w0 @ es" "envois es = []"
      "\<forall>i < nat (nb_clients w). pret ! i \<longrightarrow> (clients w ! i, Some [?un]) \<in> set (recus es)" "length pret = 10"
      by (auto simp: attente_def)
    have "\<forall>j < nat (nb_clients w). pret' ! j \<longrightarrow> (clients w ! j, Some [?un]) \<in> set (recus (es @ [Net (Recv ?c 1 r)]))"
      using es(3,4) c by (auto simp: p nth_list_update_eq nth_list_update split: if_splits) (metis nth_list_update_neq)
    with a1 es p show ?thesis
      by (auto simp: attente_def w1 intro!: exI [of _ "es @ [Net (Recv ?c 1 r)]"])
  next
    case False
    with r True assms(3) have p: "pret' = pret" "w' = desactiver_libre i w1"
      by (auto simp: l split: option.splits list.splits)
    have "serveur_ok w1" using a1 by (simp add: attente_def gere_def)
    note d = desactiver_faits [OF this i1]
    have "gere ss w1" using a1 by (simp add: attente_def)
    note g = gere_desactiver [OF this i1]
    from a1 obtain es where es: "suite w0 w1" "length pret = 10" "journal w1 = journal w0 @ es" "envois es = []"
      "\<forall>i < nat (nb_clients w1). pret ! i \<longrightarrow> (clients w1 ! i, Some [?un]) \<in> set (recus es)"
      by (auto simp: attente_def)
    have "attente ss w0 pret (desactiver_libre i w1)"
      unfolding attente_def d(3-5)
      using g es suite_trans [OF es(1) d(2)] by (auto intro!: exI [of _ "es @ [Sys (Close (clients w1 ! i))]"])
    with p d(3) show ?thesis by (simp add: w1)
  qed
next
  case False
  note l = attente_lire [OF assms(1,2)]
  from False assms show ?thesis by (auto simp: l bind_Some_iff split: if_splits)
qed

lemma lire_confirmations_attente:
  assumes "foldM (lire_confirmation E rf) xs (pret, w) = Some (pret', w')"
    and "attente ss w0 pret w" and "\<forall>i \<in> set xs. i < nat (nb_clients w)"
  shows "attente ss w0 pret' w' \<and> nb_clients w' = nb_clients w"
  using assms
proof (induction xs arbitrary: pret w)
  case (Cons i xs)
  then obtain p1 w1 where 1: "lire_confirmation E rf i (pret, w) = Some (p1, w1)"
      "foldM (lire_confirmation E rf) xs (p1, w1) = Some (pret', w')"
    by (auto simp: bind_Some_iff)
  from lire_confirmation_attente [OF Cons.prems(2) _ 1(1)] Cons.prems(3) Cons.IH [OF 1(2)] show ?case by auto
qed simp

lemma compter_prets_eq:
  "compter_prets_libre pret w = (int (length (filter (\<lambda>i. pret ! i) (actifs w))), int (length (actifs w)))"
proof -
  have "fold (\<lambda>i (p, t). if clients_actifs w ! i then (if pret ! i then p + 1 else p, t + 1) else (p, t)) xs (a, b) =
      (a + int (length (filter (\<lambda>i. pret ! i) (filter (\<lambda>i. clients_actifs w ! i) xs))),
       b + int (length (filter (\<lambda>i. clients_actifs w ! i) xs)))" for xs a b
    by (induction xs arbitrary: a b) auto
  then show ?thesis by (simp add: compter_prets_libre_def actifs_def)
qed

lemma tous_prets_iff:
  "compter_prets_libre pret w = (t, t) \<Longrightarrow> i \<in> set (actifs w) \<Longrightarrow> pret ! i"
proof -
  assume "compter_prets_libre pret w = (t, t)" and i: "i \<in> set (actifs w)"
  then have "length (filter (\<lambda>i. pret ! i) (actifs w)) = length (actifs w)"
    by (auto simp: compter_prets_eq)
  with i show "pret ! i" using length_filter_less [of i "actifs w" "\<lambda>i. pret ! i"] by fastforce
qed

text \<open>One turn keeps the invariant; it ends with all players ready, with none left, or on an error of \<open>select\<close>.\<close>

lemma tour_prets_attente:
  assumes "attente ss w0 pret w" and "fd_set_ok rf" and "tour_prets E ss (rf, pret, w) = Some r"
  shows "case r of
      Inl (rf', pret', w') \<Rightarrow> fd_set_ok rf' \<and> attente ss w0 pret' w'
    | Inr (b, w') \<Rightarrow> \<exists>pret'. attente ss w0 pret' w' \<and>
        (b \<longrightarrow> joueurs w' \<noteq> [] \<and> (\<forall>i \<in> set (actifs w'). pret' ! i))"
proof -
  obtain rf1 m a rf2 t w1 where p: "preparer_ensemble ss rf w = Some (rf1, m)"
    and s: "surveiller E (m + 1) rf1 (0 * 1000000 + 500000) w = Some (a, rf2, t, w1)"
    and r: "(if a < 0 then Some (Inr (False, w1))
       else FD_ISSET ss rf2 \<bind> (\<lambda>arrivee.
         (if arrivee then nouvelle_connexion E ss pret w1 else Some (pret, w1)) \<bind> (\<lambda>(pret, w).
         foldM (lire_confirmation E rf2) [0..<nat (nb_clients w)] (pret, w) \<bind> (\<lambda>(pret, w).
         compter_prets pret w \<bind> (\<lambda>(tous_prets, total).
           if total = 0 then Some (Inr (False, w))
           else if tous_prets = total \<and> total > 0 then Some (Inr (True, w))
           else Some (Inl (rf2, pret, w))))))) = Some r"
    using assms(3) by (auto simp: tour_prets_def bind_Some_iff)
  have ok: "serveur_ok w" using assms(1) by (simp add: attente_def gere_def)
  from surveiller_Some [OF preparer_ensemble_Some(1) [OF assms(2) p ok] s]
  obtain fds b q where rf2: "fd_set_ok rf2" and w1: "w1 = consigne [Net (Select fds (0 * 1000000 + 500000) b q)] w"
    by blast
  have a1: "attente ss w0 pret w1" unfolding w1 by (rule attente_consigne [OF assms(1)]) auto
  show ?thesis
  proof (cases "a < 0")
    case True
    with r a1 show ?thesis by auto
  next
    case False
    with r obtain arr p2 w2 p3 w3 where
        n: "(if arr then nouvelle_connexion E ss pret w1 else Some (pret, w1)) = Some (p2, w2)"
      and f: "foldM (lire_confirmation E rf2) [0..<nat (nb_clients w2)] (p2, w2) = Some (p3, w3)"
      and r: "compter_prets p3 w3 \<bind> (\<lambda>(tous_prets, total).
           if total = 0 then Some (Inr (False, w3))
           else if tous_prets = total \<and> total > 0 then Some (Inr (True, w3))
           else Some (Inl (rf2, p3, w3))) = Some r"
      by (fastforce simp: bind_Some_iff)
    from n a1 nouvelle_connexion_attente have "attente ss w0 p2 w2" by (auto split: if_splits)
    with lire_confirmations_attente [OF f] have a3: "attente ss w0 p3 w3" by simp
    obtain t u where c: "compter_prets_libre p3 w3 = (t, u)" by fastforce
    have "compter_prets p3 w3 = Some (t, u)"
      using compter_prets_dedans a3 c by (simp add: attente_def gere_def)
    with r have r: "(if u = 0 then Some (Inr (False, w3)) else if t = u \<and> u > 0 then Some (Inr (True, w3))
        else Some (Inl (rf2, p3, w3))) = Some r" by simp
    from c have "u = int (length (actifs w3))" by (simp add: compter_prets_eq)
    moreover from c tous_prets_iff [of p3 w3] have "t = u \<Longrightarrow> \<forall>i \<in> set (actifs w3). p3 ! i" by blast
    ultimately show ?thesis using r c a3 rf2 by (auto simp: joueurs_def split: if_splits)
  qed
qed

text \<open>The end of the wait.\<close>

lemma attente_finie:
  assumes "gere ss w" and "boucle (tour_prets E ss) (fd_set_pile, replicate 10 False, w) = Some (b, w1)"
  shows "\<exists>pret'. attente ss w pret' w1 \<and> (b \<longrightarrow> joueurs w1 \<noteq> [] \<and> (\<forall>i \<in> set (actifs w1). pret' ! i))"
  using boucle_invariant [where P = "\<lambda>(rf, pret, v). fd_set_ok rf \<and> attente ss w pret v" and
      Q = "\<lambda>(b, v). \<exists>pret'. attente ss w pret' v \<and> (b \<longrightarrow> joueurs v \<noteq> [] \<and> (\<forall>i \<in> set (actifs v). pret' ! i))", OF assms(2)]
    attente_depart [OF assms(1)] tour_prets_attente by fastforce

lemma attendre_pression_touch_faits:
  assumes "gere ss w" and "attendre_pression_touch E ss w = Some (b, w')"
  shows "gere ss w' \<and> suite w w' \<and> (\<exists>es es'. journal w' = journal w @ es @ es' \<and> envois es = [] \<and>
     (if b then joueurs w' \<noteq> [] \<and> (\<forall>j \<in> set (joueurs w'). (j, Some [octet_de CHR ''1'']) \<in> set (recus es)) \<and>
        envois es' = map (\<lambda>j. (j, [octet_de CHR ''1''])) (joueurs w')
      else es' = []))"
proof -
  obtain w1 where l: "boucle (tour_prets E ss) (fd_set_pile, replicate 10 False, w) = Some (b, w1)"
    and w': "if b then diffuser E [[octet_de CHR ''1'']] w1 = Some w' else w' = w1"
    using assms(2) by (auto simp: attendre_pression_touch_def bind_Some_iff split: if_splits)
  from attente_finie [OF assms(1) l] obtain pret' es where a: "attente ss w pret' w1" "b \<longrightarrow> joueurs w1 \<noteq> [] \<and> (\<forall>i \<in> set (actifs w1). pret' ! i)"
    and es: "journal w1 = journal w @ es" "envois es = []"
      "\<forall>i < nat (nb_clients w1). pret' ! i \<longrightarrow> (clients w1 ! i, Some [octet_de CHR ''1'']) \<in> set (recus es)"
    by (auto simp: attente_def)
  have g: "gere ss w1" "suite w w1" using a by (simp_all add: attente_def)
  show ?thesis
  proof (cases b)
    case True
    obtain es' where d: "diffuser E [[octet_de CHR ''1'']] w1 = Some (consigne es' w1)"
        "envois es' = concat (map (\<lambda>j. map (Pair j) [[octet_de CHR ''1'']]) (joueurs w1))" "\<forall>e \<in> set es'. \<not> registre_concerne e"
      using diffuser_journal [of w1] g(1) unfolding gere_def by blast
    have "(j, Some [octet_de CHR ''1'']) \<in> set (recus es)" if "j \<in> set (joueurs w1)" for j
      using that a(2) True es(3) by (auto simp: joueurs_def)
    moreover have "envois es' = map (\<lambda>j. (j, [octet_de CHR ''1''])) (joueurs w1)"
      by (simp add: d concat_map_singleton)
    moreover have "w' = consigne es' w1" using True w' d(1) by simp
    moreover have "gere ss (consigne es' w1)" using gere_consigne [OF g(1)] d(3) by blast
    moreover have "suite w (consigne es' w1)" using suite_trans [OF g(2) suite_consigne] .
    ultimately show ?thesis
      using True a(2) es(1,2) by (intro conjI exI [of _ es] exI [of _ es']) simp_all
  qed (use w' es g in auto)
qed

section \<open>Answers and times\<close>

text \<open>
  What the server knows of a player whose socket is \<open>c\<close>: two consecutive receptions that are
  not empty, the answer over four zero bytes and the time over the bytes of 100.
\<close>

definition recu :: "event list \<Rightarrow> int \<Rightarrow> int \<Rightarrow> bool \<Rightarrow> bool" where
  "recu es c t b \<longleftrightarrow> (\<exists>xs ys bs bs'. recus es = xs @ [(c, Some bs), (c, Some bs')] @ ys \<and> bs \<noteq> [] \<and> bs' \<noteq> [] \<and>
     b = (int_octets (ecraser bs (octets_int 0)) = 1) \<and> t = int_octets (ecraser bs' (octets_int 100)))"

lemma recu_append: "recu es c t b \<Longrightarrow> recu (es @ es') c t b"
  unfolding recu_def by (metis append.assoc recus_append)

lemma recevoir_int_cas:
  obtains (echec) x' r where "recevoir_int E fd x w = (if r = None then -1 else 0, x', consigne [Net (Recv fd 4 r)] w)"
      "r = None \<or> r = Some []"
  | (recu) bs where "bs \<noteq> []" "recevoir_int E fd x w =
      (int (length bs), int_octets (ecraser bs (octets_int x)), consigne [Net (Recv fd 4 (Some bs))] w)"
proof -
  define r where "r = map_option (take 4) (h_recv E (journal w) fd 4)"
  have d: "recevoir_donnees E fd 4 w = (r, consigne [Net (Recv fd 4 r)] w)"
    by (simp add: recevoir_donnees_def recv_def Let_def r_def)
  show thesis
  proof (cases "r = None \<or> r = Some []")
    case True
    then show thesis
      by (intro echec [of r "if r = None then x else int_octets (octets_int x)"]) (auto simp: recevoir_int_def d ecraser_def)
  next
    case False
    then obtain bs where "r = Some bs" "bs \<noteq> []" by auto
    then show thesis by (intro recu [of bs]) (simp_all add: recevoir_int_def d)
  qed
qed

lemma recevoir_temps_client_cas:
  obtains (inactif) "\<not> clients_actifs w ! i" "recevoir_temps_client_libre E i (t, b, w) = (t, b, w)"
  | (parti) es t' b' where "clients_actifs w ! i" "t' = t \<and> b' = b \<or> t' = t[i := 100] \<and> b' = b[i := False]"
      "recevoir_temps_client_libre E i (t, b, w) = (t', b', desactiver_libre i (consigne es w))"
      "envois es = []" "\<forall>e \<in> set es. \<not> registre_concerne e"
  | (reste) es bs bs' where "clients_actifs w ! i" "bs \<noteq> []" "bs' \<noteq> []"
      "recevoir_temps_client_libre E i (t, b, w) = (t[i := int_octets (ecraser bs' (octets_int (t ! i)))],
         b[i := (int_octets (ecraser bs (octets_int 0)) = 1)], consigne es w)"
      "recus es = [(clients w ! i, Some bs), (clients w ! i, Some bs')]"
      "envois es = []" "\<forall>e \<in> set es. \<not> registre_concerne e"
proof (cases "clients_actifs w ! i")
  case True
  let ?c = "clients w ! i"
  show thesis
  proof (cases rule: recevoir_int_cas [of E ?c 0 w])
    case (echec x' r)
    with True show thesis
      by (intro parti [of t b "[Net (Recv ?c 4 r)]"]) (auto simp: recevoir_temps_client_libre_def)
  next
    case r1: (recu bs)
    define w1 where "w1 = consigne [Net (Recv ?c 4 (Some bs))] w"
    show thesis
    proof (cases rule: recevoir_int_cas [of E ?c "t ! i" w1])
      case (echec x' r)
      with True r1 show thesis
        by (intro parti [of "t[i := 100]" "b[i := False]" "[Net (Recv ?c 4 (Some bs)), Net (Recv ?c 4 r)]"])
          (auto simp: recevoir_temps_client_libre_def w1_def)
    next
      case (recu bs')
      with True r1 show thesis
        by (intro reste [of bs bs' "[Net (Recv ?c 4 (Some bs)), Net (Recv ?c 4 (Some bs'))]"])
          (auto simp: recevoir_temps_client_libre_def w1_def)
    qed
  qed
qed (simp add: inactif recevoir_temps_client_libre_def)

lemma recevoir_temps_invariant:
  assumes "gere ss w" and "length t0 = 10" and "length b0 = 10"
    and "k \<le> nat (nb_clients w)" and init: "\<forall>i < nat (nb_clients w). t0 ! i = 100 \<and> \<not> b0 ! i"
    and "fold (recevoir_temps_client_libre E) [0..<k] (t0, b0, w) = (t, b, v)"
  shows "gere ss v \<and> suite w v \<and> nb_clients v = nb_clients w \<and> clients v = clients w \<and> length t = 10 \<and> length b = 10 \<and>
     (\<forall>i \<ge> k. clients_actifs v ! i = clients_actifs w ! i) \<and> (\<forall>i. clients_actifs v ! i \<longrightarrow> clients_actifs w ! i) \<and>
     (\<exists>es. journal v = journal w @ es \<and> envois es = [] \<and>
       (\<forall>i < nat (nb_clients w). if i < k \<and> clients_actifs v ! i then recu es (clients w ! i) (t ! i) (b ! i)
          else t ! i = 100 \<and> \<not> b ! i))"
  using assms(4,6)
proof (induction k arbitrary: t b v)
  case 0
  with assms show ?case by simp
next
  case (Suc k)
  obtain t1 b1 v1 where f: "fold (recevoir_temps_client_libre E) [0..<k] (t0, b0, w) = (t1, b1, v1)"
    by (metis prod_cases3)
  with Suc.prems have step: "recevoir_temps_client_libre E k (t1, b1, v1) = (t, b, v)" and k: "k < nat (nb_clients w)" by simp_all
  from Suc.IH [OF less_imp_le [OF k] f] obtain es where g: "gere ss v1" "suite w v1" and nc: "nb_clients v1 = nb_clients w" "clients v1 = clients w"
    and l: "length t1 = 10" "length b1 = 10"
    and a: "\<forall>i \<ge> k. clients_actifs v1 ! i = clients_actifs w ! i" "\<forall>i. clients_actifs v1 ! i \<longrightarrow> clients_actifs w ! i"
    and es: "journal v1 = journal w @ es" "envois es = []"
      "\<forall>i < nat (nb_clients w). if i < k \<and> clients_actifs v1 ! i then recu es (clients w ! i) (t1 ! i) (b1 ! i)
          else t1 ! i = 100 \<and> \<not> b1 ! i"
    by blast
  have k10: "k < 10" using g(1) nc k by (auto simp: gere_def serveur_ok_def)
  show ?case
  proof (cases rule: recevoir_temps_client_cas [of v1 k E t1 b1])
    case inactif
    with step g nc l a es show ?thesis by (auto simp: less_Suc_eq)
  next
    case (parti es' t' b')
    define v2 where "v2 = consigne es' v1"
    from parti step have v: "v = desactiver_libre k v2" "t = t'" "b = b'" by (simp_all add: v2_def)
    have g2: "gere ss v2" unfolding v2_def by (rule gere_consigne [OF g(1)]) (use parti in auto)
    have ka: "k \<in> set (actifs v2)" using parti(1) k nc by (simp add: v2_def)
    from g2 have "serveur_ok v2" by (simp add: gere_def)
    note d = desactiver_faits [OF this ka]
    have act: "clients_actifs v ! i = (if i = k then False else clients_actifs v1 ! i)" for i
      using k10 g2 by (auto simp: v desactiver_libre_def close_def v2_def gere_def serveur_ok_def)
    have "t ! k = 100" "\<not> b ! k" "\<And>i. i \<noteq> k \<Longrightarrow> t ! i = t1 ! i \<and> b ! i = b1 ! i" "length t = 10" "length b = 10"
      using parti(2) v k es(3) l k10 by auto
    then have "\<forall>i < nat (nb_clients w). if i < Suc k \<and> clients_actifs v ! i
        then recu (es @ es' @ [Sys (Close (clients w ! k))]) (clients w ! i) (t ! i) (b ! i) else t ! i = 100 \<and> \<not> b ! i"
      using es(3) by (auto simp: act less_Suc_eq intro: recu_append)
    moreover have "suite w v" using suite_trans [OF g(2)] d(2) suite_trans v v2_def by (metis suite_consigne)
    moreover have "\<forall>i \<ge> Suc k. clients_actifs v ! i = clients_actifs w ! i" "\<forall>i. clients_actifs v ! i \<longrightarrow> clients_actifs w ! i"
      using a by (auto simp: act)
    moreover have "gere ss v" unfolding v(1) by (rule gere_desactiver [OF g2 ka])
    moreover have "nb_clients v = nb_clients w" "clients v = clients w"
      "journal v = journal w @ es @ es' @ [Sys (Close (clients w ! k))]"
      using d(3-5) nc es(1) by (simp_all add: v(1) v2_def)
    moreover have "envois (es @ es' @ [Sys (Close (clients w ! k))]) = []" using es(2) parti(4) by simp
    ultimately show ?thesis using \<open>length t = 10\<close> \<open>length b = 10\<close> by blast
  next
    case (reste es' bs bs')
    with step have v: "v = consigne es' v1" and tb: "t = t1[k := int_octets (ecraser bs' (octets_int 100))]"
        "b = b1[k := (int_octets (ecraser bs (octets_int 0)) = 1)]"
      using es(3) k by auto
    have g2: "gere ss v" unfolding v by (rule gere_consigne [OF g(1)]) (use reste in auto)
    have "recu (es @ es') (clients w ! k) (t ! k) (b ! k)"
      unfolding recu_def
      by (rule exI [of _ "recus es"], rule exI [of _ "[]"], rule exI [of _ bs], rule exI [of _ bs'])
        (use reste l k10 nc in \<open>simp add: tb\<close>)
    moreover have "t ! i = t1 ! i \<and> b ! i = b1 ! i" if "i \<noteq> k" for i using that by (simp add: tb)
    ultimately have "if i < Suc k \<and> clients_actifs v ! i
        then recu (es @ es') (clients w ! i) (t ! i) (b ! i) else t ! i = 100 \<and> \<not> b ! i"
      if "i < nat (nb_clients w)" for i
      using es(3) reste(1) that by (cases "i = k") (auto simp: v less_Suc_eq intro: recu_append)
    then have "\<forall>i < nat (nb_clients w). if i < Suc k \<and> clients_actifs v ! i
        then recu (es @ es') (clients w ! i) (t ! i) (b ! i) else t ! i = 100 \<and> \<not> b ! i" by blast
    moreover have "suite w v" using suite_trans [OF g(2)] by (simp add: v)
    moreover have "nb_clients v = nb_clients w" "clients v = clients w" "journal v = journal w @ es @ es'"
        "envois (es @ es') = []" "length t = 10" "length b = 10"
        "\<forall>i \<ge> Suc k. clients_actifs v ! i = clients_actifs w ! i" "\<forall>i. clients_actifs v ! i \<longrightarrow> clients_actifs w ! i"
      using nc l a es(1,2) reste(6) by (simp_all add: v tb)
    ultimately show ?thesis using g2 by blast
  qed
qed

lemma recevoir_temps_initial:
  assumes "n \<le> length t" and "n \<le> length b"
  shows "case fold (\<lambda>i (t, r). (t[i := 100], r[i := False])) [0..<n] (t, b) of (t', b') \<Rightarrow>
    length t' = length t \<and> length b' = length b \<and> (\<forall>i < n. t' ! i = (100 :: int) \<and> \<not> b' ! i)"
  using assms
proof (induction n)
  case (Suc n)
  then show ?case
    by (cases "fold (\<lambda>i (t, r). (t[i := 100], r[i := False])) [0..<n] (t, b)") (auto simp: less_Suc_eq nth_list_update)
qed simp

lemma recevoir_temps_faits:
  assumes "gere ss w" and "length t0 = 10" and "length b0 = 10" and "recevoir_temps E t0 b0 w = Some (t, b, v)"
  shows "gere ss v" and "suite w v" and "nb_clients v = nb_clients w" and "clients v = clients w"
    and "length t = 10" and "length b = 10" and "set (actifs v) \<subseteq> set (actifs w)"
    and "\<exists>es. journal v = journal w @ es \<and> envois es = [] \<and>
       (\<forall>i < nat (nb_clients w). if i \<in> set (actifs v) then recu es (clients w ! i) (t ! i) (b ! i)
          else t ! i = 100 \<and> \<not> b ! i)"
proof -
  let ?n = "nat (nb_clients w)"
  have n: "?n \<le> 10" using assms(1) by (auto simp: gere_def serveur_ok_def)
  obtain t1 b1 where i: "fold (\<lambda>i (t, r). (t[i := 100], r[i := False])) [0..<?n] (t0, b0) = (t1, b1)" by fastforce
  with recevoir_temps_initial [of ?n t0 b0] n assms(2,3)
  have l: "length t1 = 10" "length b1 = 10" "\<forall>i < ?n. t1 ! i = 100 \<and> \<not> b1 ! i" by auto
  have "recevoir_temps_libre E t0 b0 w = (t, b, v)"
    using assms(4) recevoir_temps_dedans(1) [OF _ assms(2,3)] assms(1) by (simp add: gere_def)
  with i have "fold (recevoir_temps_client_libre E) [0..<?n] (t1, b1, w) = (t, b, v)"
    by (simp add: recevoir_temps_libre_def)
  note r = recevoir_temps_invariant [OF assms(1) l(1,2) order_refl l(3) this]
  from r show nb: "nb_clients v = nb_clients w" by blast
  from r show "gere ss v" "suite w v" "clients v = clients w" "length t = 10" "length b = 10" by blast+
  from r nb show "set (actifs v) \<subseteq> set (actifs w)" by auto
  from r show "\<exists>es. journal v = journal w @ es \<and> envois es = [] \<and>
       (\<forall>i < nat (nb_clients w). if i \<in> set (actifs v) then recu es (clients w ! i) (t ! i) (b ! i)
          else t ! i = 100 \<and> \<not> b ! i)"
    unfolding actifs_iff nb by blast
qed

section \<open>Results\<close>

lemma meilleur_et_pire_eq:
  "meilleur_et_pire_libre t b w =
    (Min (insert 100 {t ! i |i. i \<in> set (actifs w) \<and> b ! i}), Max (insert 0 {t ! i |i. i \<in> set (actifs w)}))"
proof -
  define A where "A xs = {t ! i |i. i \<in> set xs \<and> clients_actifs w ! i \<and> b ! i}" for xs
  define B where "B xs = {t ! i |i. i \<in> set xs \<and> clients_actifs w ! i}" for xs
  have A: "A (i # xs) = (if clients_actifs w ! i \<and> b ! i then insert (t ! i) (A xs) else A xs)"
    and B: "B (i # xs) = (if clients_actifs w ! i then insert (t ! i) (B xs) else B xs)"
    and fin: "finite (A xs)" "finite (B xs)" "A [] = {}" "B [] = {}" for i xs
    by (auto simp: A_def B_def)
  let ?f = "\<lambda>i (m, p). if clients_actifs w ! i then
      (if b ! i \<and> t ! i < m then t ! i else m, if t ! i > p then t ! i else p) else (m, p)"
  have min: "Min (insert (if x < m then x else m) S) = Min (insert m (insert x S))"
    and max: "Max (insert (if x > p then x else p) S) = Max (insert p (insert x S))" if "finite S" for x m p and S :: "int set"
    using that by (cases "S = {}"; auto simp: min_def max_def)+
  have "fold ?f xs (m, p) = (Min (insert m (A xs)), Max (insert p (B xs)))" for xs m p
  proof (induction xs arbitrary: m p)
    case (Cons i xs)
    show ?case
      using Cons.IH min [OF fin(1)] max [OF fin(2)] by (simp add: A B del: Min_insert Max_insert)
  qed (simp add: fin)
  from this [of "[0..<nat (nb_clients w)]" 100 0] show ?thesis
    by (simp add: meilleur_et_pire_libre_def A_def B_def conj_assoc)
qed

section \<open>Playing again\<close>

lemma compter_actifs_eq: "compter_actifs_libre w = int (length (actifs w))"
proof -
  have "fold (\<lambda>i n. if clients_actifs w ! i then n + 1 else n) xs k = k + int (length (filter (\<lambda>i. clients_actifs w ! i) xs))"
    for xs k by (induction xs arbitrary: k) auto
  then show ?thesis by (simp add: compter_actifs_libre_def actifs_def)
qed

lemma recevoir_choix_cas:
  obtains (inactif) "\<not> clients_actifs w ! i" "recevoir_choix_libre E i (n, w) = (n, w)"
  | (oui) "clients_actifs w ! i" "recevoir_choix_libre E i (n, w) =
      (n + 1, consigne [Net (Recv (clients w ! i) 1 (Some [octet_de CHR ''o'']))] w)"
  | (non) r where "clients_actifs w ! i" "r \<noteq> Some [octet_de CHR ''o'']"
      "recevoir_choix_libre E i (n, w) = (n, desactiver_libre i (consigne [Net (Recv (clients w ! i) 1 r)] w))"
proof (cases "clients_actifs w ! i")
  case True
  let ?c = "clients w ! i"
  define r where "r = map_option (take 1) (h_recv E (journal w) ?c 1)"
  have d: "recevoir_donnees E ?c 1 w = (r, consigne [Net (Recv ?c 1 r)] w)"
    by (simp add: recevoir_donnees_def recv_def Let_def r_def)
  have 1: "c # cs = [c]" if "r = Some (c # cs)" for c cs
    using that by (auto simp: r_def dest: take_1_Cons)
  show thesis
  proof (cases "r = Some [octet_de CHR ''o'']")
    case True
    with \<open>clients_actifs w ! i\<close> d show thesis by (intro oui) (auto simp: recevoir_choix_libre_def)
  next
    case False
    with \<open>clients_actifs w ! i\<close> d 1 show thesis
      by (intro non [of r]) (auto simp: recevoir_choix_libre_def split: option.splits list.splits)
  qed
qed (simp add: inactif recevoir_choix_libre_def)

text \<open>The players after the choices are those whose answer was the letter o.\<close>

lemma recevoir_choix_invariant:
  assumes "gere ss w" and "k \<le> nat (nb_clients w)" and "fold (recevoir_choix_libre E) [0..<k] (0, w) = (n, v)"
  shows "gere ss v \<and> suite w v \<and> nb_clients v = nb_clients w \<and> clients v = clients w \<and>
     (\<forall>i \<ge> k. clients_actifs v ! i = clients_actifs w ! i) \<and>
     n = int (length (filter (\<lambda>i. clients_actifs v ! i) [0..<k])) \<and>
     (\<exists>es. journal v = journal w @ es \<and> envois es = [] \<and>
        map fst (recus es) = map (\<lambda>i. clients w ! i) (filter (\<lambda>i. clients_actifs w ! i) [0..<k]) \<and>
        map (\<lambda>i. clients w ! i) (filter (\<lambda>i. clients_actifs v ! i) [0..<k]) =
          map fst (filter (\<lambda>(j, r). r = Some [octet_de CHR ''o'']) (recus es)))"
  using assms(2,3)
proof (induction k arbitrary: n v)
  case 0
  with assms show ?case by simp
next
  case (Suc k)
  obtain n1 v1 where f: "fold (recevoir_choix_libre E) [0..<k] (0, w) = (n1, v1)" by fastforce
  with Suc.prems have step: "recevoir_choix_libre E k (n1, v1) = (n, v)" and k: "k < nat (nb_clients w)" by simp_all
  from Suc.IH [OF less_imp_le [OF k] f] obtain es where g: "gere ss v1" "suite w v1"
    and nc: "nb_clients v1 = nb_clients w" "clients v1 = clients w"
    and a: "\<forall>i \<ge> k. clients_actifs v1 ! i = clients_actifs w ! i"
    and n1: "n1 = int (length (filter (\<lambda>i. clients_actifs v1 ! i) [0..<k]))"
    and es: "journal v1 = journal w @ es" "envois es = []"
      "map fst (recus es) = map (\<lambda>i. clients w ! i) (filter (\<lambda>i. clients_actifs w ! i) [0..<k])"
      "map (\<lambda>i. clients w ! i) (filter (\<lambda>i. clients_actifs v1 ! i) [0..<k]) =
          map fst (filter (\<lambda>(j, r). r = Some [octet_de CHR ''o'']) (recus es))"
    by blast
  show ?case
  proof (cases rule: recevoir_choix_cas [of v1 k E n1])
    case inactif
    with step a have v: "v = v1" "n = n1" "\<not> clients_actifs w ! k" by auto
    with inactif g nc a n1 es show ?thesis by auto
  next
    case oui
    define e where "e = Net (Recv (clients w ! k) 1 (Some [octet_de CHR ''o'']))"
    with oui step nc a have v: "v = consigne [e] v1" "n = n1 + 1" "clients_actifs w ! k" by auto
    have "gere ss v" unfolding v(1) by (rule gere_consigne [OF g(1)]) (simp add: e_def)
    moreover have "suite w v" using suite_trans [OF g(2)] by (simp add: v)
    ultimately show ?thesis
      using v oui(1) nc a n1 es by (auto simp: e_def intro!: exI [of _ "es @ [e]"])
  next
    case (non r)
    define e where "e = Net (Recv (clients w ! k) 1 r)"
    define v2 where "v2 = consigne [e] v1"
    from non step nc a have v: "v = desactiver_libre k v2" "n = n1" "clients_actifs w ! k" by (auto simp: v2_def e_def)
    have g2: "gere ss v2" unfolding v2_def by (rule gere_consigne [OF g(1)]) (simp add: e_def)
    have ka: "k \<in> set (actifs v2)" using non(1) k nc by (simp add: v2_def)
    from g2 have "serveur_ok v2" by (simp add: gere_def)
    note d = desactiver_faits [OF this ka]
    have act: "clients_actifs v ! i = (if i = k then False else clients_actifs v1 ! i)" for i
      using k g2 nc by (auto simp: v desactiver_libre_def close_def v2_def gere_def serveur_ok_def)
    then have fl: "filter (\<lambda>i. clients_actifs v ! i) [0..<k] = filter (\<lambda>i. clients_actifs v1 ! i) [0..<k]"
      by (intro filter_cong) auto
    have a2: "\<not> clients_actifs v ! k" "\<forall>i \<ge> Suc k. clients_actifs v ! i = clients_actifs w ! i"
      using act a by auto
    have "gere ss v" unfolding v(1) by (rule gere_desactiver [OF g2 ka])
    moreover have "suite w v" using suite_trans [OF g(2)] suite_trans [OF _ d(2)] by (auto simp: v v2_def)
    moreover have "journal v = journal w @ es @ [e, Sys (Close (clients w ! k))]" "nb_clients v = nb_clients w" "clients v = clients w"
      using d(3-5) nc es(1) by (simp_all add: v(1) v2_def)
    ultimately show ?thesis
      using v(2,3) non(2) a2 n1 es by (auto simp: e_def fl intro!: exI [of _ "es @ [e, Sys (Close (clients w ! k))]"])
  qed
qed

lemma recevoir_choix_rejouer_faits:
  assumes "gere ss w" and "recevoir_choix_rejouer E w = Some (b, v)"
  shows "gere ss v \<and> suite w v \<and> b = (joueurs v \<noteq> []) \<and>
     (\<exists>es. journal v = journal w @ es \<and> envois es = [] \<and> map fst (recus es) = joueurs w \<and>
        joueurs v = map fst (filter (\<lambda>(j, r). r = Some [octet_de CHR ''o'']) (recus es)))"
proof -
  have l: "recevoir_choix_rejouer_libre E w = (b, v)" using assms recevoir_choix_rejouer_dedans by (simp add: gere_def)
  show ?thesis
  proof (cases "actifs w = []")
    case True
    with l assms(1) show ?thesis
      by (auto simp: recevoir_choix_rejouer_libre_def compter_actifs_eq joueurs_def intro!: exI [of _ "[]"])
  next
    case False
    with l obtain n where f: "fold (recevoir_choix_libre E) [0..<nat (nb_clients w)] (0, w) = (n, v)" "b = (n > 0)"
      by (auto simp: recevoir_choix_rejouer_libre_def compter_actifs_eq split: prod.splits)
    from recevoir_choix_invariant [OF assms(1) order_refl f(1)] f(2) show ?thesis
      by (simp add: joueurs_def actifs_def)
  qed
qed

end
