(* ===== verification/Session.thy ===== *)
theory Session
  imports Joueurs Grillage
begin

text \<open>
  The properties of the server: its descriptors, the protocol of a round, the results it computes,
  its behaviour on errors, and that no array is read or written outside its bounds.
\<close>

section \<open>One round\<close>

lemma smod_dedans: "x smod (int i + 1) < int i + 1"
  using smod_int_range [of "int i + 1" x] by simp

text \<open>The shuffle of the server stays inside \<open>indices\<close>: it is the shuffle of the local game.\<close>

lemma indices_serveur_eq: "indices_serveur E w = melanger E w"
proof -
  let ?f = "\<lambda>i (indices, w). let (r, w) = rand E w; j = r smod (int i + 1)
      in if j < 0 then None else acces indices i \<bind> (\<lambda>temp. acces indices (nat j) \<bind> (\<lambda>x.
        modifie indices i x \<bind> (\<lambda>indices. modifie indices (nat j) temp \<bind> (\<lambda>indices. Some (indices, w)))))"
  have pas: "?f i (indices, w) = melange_pas E i (indices, w)" if "i < length indices" for i indices and w :: serveur
  proof -
    obtain r v where r: "rand E w = (r, v)" by fastforce
    have "nat (r smod (int i + 1)) < length indices" if "\<not> r smod (int i + 1) < 0"
      using smod_dedans [of r i] that \<open>i < length indices\<close> by linarith
    with that r show ?thesis by (auto simp: melange_pas_def echange_def Let_def)
  qed
  have "foldM ?f xs (indices, w) = foldM (melange_pas E) xs (indices, w)"
    if "\<forall>i \<in> set xs. i < length indices" for xs indices and w :: serveur
    using that
  proof (induction xs arbitrary: indices w)
    case (Cons i xs)
    have l: "length indices' = length indices" if "melange_pas E i (indices, w) = Some (indices', w')" for indices' and w' :: serveur
      using that by (auto simp: melange_pas_def echange_def Let_def split: if_splits prod.splits)
    have "i < length indices" using Cons.prems by simp
    from pas [OF this, of w] Cons.IH Cons.prems l show ?case
      by (cases "melange_pas E i (indices, w)") auto
  qed simp
  then show ?thesis by (simp add: indices_serveur_def melanger_def)
qed

lemma tirages_neutres:
  assumes "\<forall>e \<in> set es. est_tirage e"
  shows "envois es = []" and "recus es = []" and "e \<in> set es \<Longrightarrow> \<not> registre_concerne e"
  using assms by (induction es) (auto simp: est_tirage_def)

lemma envoyer_grille_et_forme_faits:
  assumes "hasard_ok E" and "gere ss w"
  shows "\<exists>forme indices w' es. envoyer_grille_et_forme E w = Some w' \<and> journal w' = journal w @ es \<and>
    gere ss w' \<and> suite w w' \<and> actifs w' = actifs w \<and> clients w' = clients w \<and> nb_clients w' = nb_clients w \<and>
    0 \<le> forme \<and> forme < 16 \<and> indices_ok indices \<and> recus es = [] \<and>
    envois es = concat (map (\<lambda>j. [(j, octets_int forme), (j, tableau_octets indices)]) (joueurs w))"
proof -
  let ?r = "h_rand E (journal w @ [Sys Srand])"
  define w1 where "w1 = consigne [Sys Srand, Sys (Rand ?r)] w"
  obtain indices es where m: "melanger E w1 = Some (indices, consigne es w1)" "indices_ok indices" "\<forall>e \<in> set es. est_tirage e"
    using melanger_ok [OF assms(1), of w1] by blast
  note n = tirages_neutres [OF m(3)]
  have ok: "serveur_ok (consigne es w1)" using assms(2) by (simp add: gere_def w1_def)
  have f: "0 \<le> ?r smod 16" "?r smod 16 < 16" using assms(1) by (simp_all add: hasard_ok_def smod_nonneg)
  obtain es' where d: "diffuser E [octets_int (?r smod 16), tableau_octets indices] (consigne es w1) = Some (consigne es' (consigne es w1))"
      "envois es' = concat (map (\<lambda>j. map (Pair j) [octets_int (?r smod 16), tableau_octets indices]) (joueurs w1))"
      "recus es' = []" "\<forall>e \<in> set es'. \<not> registre_concerne e"
    using diffuser_journal [OF ok, of E "[octets_int (?r smod 16), tableau_octets indices]"] by auto
  have e: "envoyer_grille_et_forme E w = Some (consigne es' (consigne es w1))"
    using m(1) d(1) by (simp add: envoyer_grille_et_forme_def rand_def srand_time_def Let_def indices_serveur_eq w1_def)
  have "gere ss (consigne ([Sys Srand, Sys (Rand ?r)] @ es @ es') w)"
    by (rule gere_consigne [OF assms(2)]) (use n(3) d(4) in auto)
  with e f m(2) n(1,2) d(2,3) show ?thesis by (auto simp: w1_def)
qed

lemma envoyer_resultats_faits:
  assumes "gere ss w" and "length t = 10" and "length b = 10"
  shows "\<exists>es. envoyer_resultats E t b w = Some (consigne es w) \<and> gere ss (consigne es w) \<and> recus es = [] \<and>
    envois es = concat (map (\<lambda>j. [(j, octets_int (Min (insert 100 {t ! i |i. i \<in> set (actifs w) \<and> b ! i}))),
      (j, octets_int (Max (insert 0 {t ! i |i. i \<in> set (actifs w)})))]) (joueurs w))"
proof -
  have ok: "serveur_ok w" using assms(1) by (simp add: gere_def)
  obtain es where "diffuser E [octets_int (Min (insert 100 {t ! i |i. i \<in> set (actifs w) \<and> b ! i})),
      octets_int (Max (insert 0 {t ! i |i. i \<in> set (actifs w)}))] w = Some (consigne es w)"
      "envois es = concat (map (\<lambda>j. map (Pair j) [octets_int (Min (insert 100 {t ! i |i. i \<in> set (actifs w) \<and> b ! i})),
      octets_int (Max (insert 0 {t ! i |i. i \<in> set (actifs w)}))]) (joueurs w))" "recus es = []" "\<forall>e \<in> set es. \<not> registre_concerne e"
    using diffuser_journal [OF ok] by blast
  then show ?thesis
    using gere_consigne [OF assms(1)] meilleur_et_pire_dedans [OF ok assms(2,3)]
    by (auto simp: envoyer_resultats_def meilleur_et_pire_eq)
qed

text \<open>A round once every player is ready: the grid, the answers, the verdict and who plays again.\<close>

lemma suite_manche:
  assumes "hasard_ok E" and "gere ss w1" and "length t = 10" and "length b = 10"
    and r: "envoyer_grille_et_forme E w1 \<bind> (\<lambda>w. recevoir_temps E t b w \<bind> (\<lambda>(temps, rep, w).
          envoyer_resultats E temps rep w \<bind> (\<lambda>w. recevoir_choix_rejouer E w \<bind> (\<lambda>(continuer, w).
            if \<not> continuer then Some (Inr w) else Some (Inl (temps, rep, w)))))) = Some r"
  shows "\<exists>t' b' w5 es forme indices J' m q. r = (if joueurs w5 \<noteq> [] then Inl (t', b', w5) else Inr w5) \<and>
    length t' = 10 \<and> length b' = 10 \<and> gere ss w5 \<and> suite w1 w5 \<and> journal w5 = journal w1 @ es \<and>
    envois es = concat (map (\<lambda>j. [(j, octets_int forme), (j, tableau_octets indices)]) (joueurs w1)) @
      concat (map (\<lambda>j. [(j, octets_int m), (j, octets_int q)]) J') \<and>
    0 \<le> forme \<and> forme < 16 \<and> indices_ok indices \<and> set J' \<subseteq> set (joueurs w1) \<and> set (joueurs w5) \<subseteq> set J' \<and>
    (\<forall>j \<in> set (joueurs w5). (j, Some [octet_de CHR ''o'']) \<in> set (recus es))"
proof -
  from envoyer_grille_et_forme_faits [OF assms(1,2)] obtain forme indices w2 es2 where
      w2: "envoyer_grille_et_forme E w1 = Some w2" and j2: "journal w2 = journal w1 @ es2"
    and g2: "gere ss w2" "suite w1 w2" "actifs w2 = actifs w1" "clients w2 = clients w1" "nb_clients w2 = nb_clients w1"
    and f: "0 \<le> forme" "forme < 16" "indices_ok indices" "recus es2 = []"
    and e2: "envois es2 = concat (map (\<lambda>j. [(j, octets_int forme), (j, tableau_octets indices)]) (joueurs w1))"
    by blast
  have "recevoir_temps E t b w2 \<noteq> None"
    using recevoir_temps_dedans(1) [OF _ assms(3,4)] g2(1) by (simp add: gere_def)
  then obtain t' b' w3 where w3: "recevoir_temps E t b w2 = Some (t', b', w3)" by (metis not_None_eq prod_cases3)
  note g3 = recevoir_temps_faits [OF g2(1) assms(3,4) w3]
  from g3(8) obtain es3 where j3: "journal w3 = journal w2 @ es3" "envois es3 = []" by blast
  from envoyer_resultats_faits [OF g3(1,5,6), of E] obtain es4 m q where w4: "envoyer_resultats E t' b' w3 = Some (consigne es4 w3)"
    and g4: "gere ss (consigne es4 w3)" "recus es4 = []"
    and e4: "envois es4 = concat (map (\<lambda>j. [(j, octets_int m), (j, octets_int q)]) (joueurs w3))"
    by blast
  obtain c w5 where w5: "recevoir_choix_rejouer E (consigne es4 w3) = Some (c, w5)"
    using recevoir_choix_rejouer_dedans g4(1) unfolding gere_def by (metis surj_pair)
  from recevoir_choix_rejouer_faits [OF g4(1) w5] obtain es5 where g5: "gere ss w5" "suite (consigne es4 w3) w5"
      "c = (joueurs w5 \<noteq> [])" and j5: "journal w5 = journal w3 @ es4 @ es5" "envois es5 = []" "map fst (recus es5) = joueurs w3"
      "joueurs w5 = map fst (filter (\<lambda>(j, r). r = Some [octet_de CHR ''o'']) (recus es5))"
    by auto
  have "suite w1 w5"
    using suite_trans [OF suite_trans [OF g2(2) g3(2)] suite_trans [OF suite_consigne g5(2)]] .
  moreover have "r = (if joueurs w5 \<noteq> [] then Inl (t', b', w5) else Inr w5)" using r w2 w3 w4 w5 g5(3) by auto
  moreover have "set (joueurs w3) \<subseteq> set (joueurs w1)" using g3(4,7) g2(3,4) by (auto simp: joueurs_def)
  moreover have "set (joueurs w5) \<subseteq> set (joueurs w3)" unfolding j5(3) [symmetric] j5(4) by auto
  moreover have "\<forall>j \<in> set (joueurs w5). (j, Some [octet_de CHR ''o'']) \<in> set (recus (es2 @ es3 @ es4 @ es5))" by (auto simp: j5(4))
  moreover have "journal w5 = journal w1 @ (es2 @ es3 @ es4 @ es5)" using j2 j3 j5 by simp
  moreover have "envois (es2 @ es3 @ es4 @ es5) = concat (map (\<lambda>j. [(j, octets_int forme), (j, tableau_octets indices)]) (joueurs w1)) @
      concat (map (\<lambda>j. [(j, octets_int m), (j, octets_int q)]) (joueurs w3))"
    using e2 j3 e4 j5 by simp
  ultimately show ?thesis using f g3(5,6) g5(1) by blast
qed

lemma tour_serveur_faits:
  assumes "hasard_ok E" and "gere ss w" and "length t = 10" and "length b = 10"
    and "tour_serveur E ss (t, b, w) = Some r"
  shows "case r of
      Inr w' \<Rightarrow> gere ss w' \<and> suite w w'
    | Inl (t', b', w') \<Rightarrow> length t' = 10 \<and> length b' = 10 \<and> gere ss w' \<and> suite w w' \<and> joueurs w' \<noteq> [] \<and>
        (\<exists>es J J' forme indices meilleur pire. journal w' = journal w @ es \<and>
          envois es = map (\<lambda>j. (j, [octet_de CHR ''1''])) J @
            concat (map (\<lambda>j. [(j, octets_int forme), (j, tableau_octets indices)]) J) @
            concat (map (\<lambda>j. [(j, octets_int meilleur), (j, octets_int pire)]) J') \<and>
          0 \<le> forme \<and> forme < 16 \<and> indices_ok indices \<and> J \<noteq> [] \<and>
          (\<forall>j \<in> set J. (j, Some [octet_de CHR ''1'']) \<in> set (recus es)) \<and>
          set J' \<subseteq> set J \<and> set (joueurs w') \<subseteq> set J' \<and>
          (\<forall>j \<in> set (joueurs w'). (j, Some [octet_de CHR ''o'']) \<in> set (recus es)))"
proof -
  obtain p w1 where p: "attendre_pression_touch E ss w = Some (p, w1)"
    and r: "(if \<not> p then Some (Inr w1)
        else envoyer_grille_et_forme E w1 \<bind> (\<lambda>w. recevoir_temps E t b w \<bind> (\<lambda>(temps, rep, w).
          envoyer_resultats E temps rep w \<bind> (\<lambda>w. recevoir_choix_rejouer E w \<bind> (\<lambda>(continuer, w).
            if \<not> continuer then Some (Inr w) else Some (Inl (temps, rep, w))))))) = Some r"
    using assms(5) by (auto simp: tour_serveur_def bind_Some_iff)
  from attendre_pression_touch_faits [OF assms(2) p] obtain es es' where g1: "gere ss w1" "suite w w1"
    and j1: "journal w1 = journal w @ es @ es'" "envois es = []"
    and d1: "p \<Longrightarrow> joueurs w1 \<noteq> []" "p \<Longrightarrow> \<forall>j \<in> set (joueurs w1). (j, Some [octet_de CHR ''1'']) \<in> set (recus es)"
      "p \<Longrightarrow> envois es' = map (\<lambda>j. (j, [octet_de CHR ''1''])) (joueurs w1)"
    by (auto split: if_splits)
  show ?thesis
  proof (cases p)
    case True
    with r have "envoyer_grille_et_forme E w1 \<bind> (\<lambda>w. recevoir_temps E t b w \<bind> (\<lambda>(temps, rep, w).
          envoyer_resultats E temps rep w \<bind> (\<lambda>w. recevoir_choix_rejouer E w \<bind> (\<lambda>(continuer, w).
            if \<not> continuer then Some (Inr w) else Some (Inl (temps, rep, w)))))) = Some r" by simp
    from suite_manche [OF assms(1) g1(1) assms(3,4) this] obtain t' b' w5 es5 forme indices J' m q where
      m: "r = (if joueurs w5 \<noteq> [] then Inl (t', b', w5) else Inr w5)" "length t' = 10" "length b' = 10" "gere ss w5" "suite w1 w5"
        "journal w5 = journal w1 @ es5" "envois es5 = concat (map (\<lambda>j. [(j, octets_int forme), (j, tableau_octets indices)]) (joueurs w1)) @
          concat (map (\<lambda>j. [(j, octets_int m), (j, octets_int q)]) J')"
        "0 \<le> forme" "forme < 16" "indices_ok indices" "set J' \<subseteq> set (joueurs w1)" "set (joueurs w5) \<subseteq> set J'"
        "\<forall>j \<in> set (joueurs w5). (j, Some [octet_de CHR ''o'']) \<in> set (recus es5)" by blast
    have "journal w5 = journal w @ (es @ es' @ es5)" using j1 m(6) by simp
    moreover have "envois (es @ es' @ es5) = map (\<lambda>j. (j, [octet_de CHR ''1''])) (joueurs w1) @
        concat (map (\<lambda>j. [(j, octets_int forme), (j, tableau_octets indices)]) (joueurs w1)) @
        concat (map (\<lambda>j. [(j, octets_int m), (j, octets_int q)]) J')"
      using j1(2) d1(3) True m(7) by simp
    moreover have "\<forall>j \<in> set (joueurs w1). (j, Some [octet_de CHR ''1'']) \<in> set (recus (es @ es' @ es5))"
      "\<forall>j \<in> set (joueurs w5). (j, Some [octet_de CHR ''o'']) \<in> set (recus (es @ es' @ es5))"
      using d1(2) True m(13) by auto
    ultimately have "\<exists>es J J' forme indices meilleur pire. journal w5 = journal w @ es \<and>
        envois es = map (\<lambda>j. (j, [octet_de CHR ''1''])) J @
          concat (map (\<lambda>j. [(j, octets_int forme), (j, tableau_octets indices)]) J) @
          concat (map (\<lambda>j. [(j, octets_int meilleur), (j, octets_int pire)]) J') \<and>
        0 \<le> forme \<and> forme < 16 \<and> indices_ok indices \<and> J \<noteq> [] \<and>
        (\<forall>j \<in> set J. (j, Some [octet_de CHR ''1'']) \<in> set (recus es)) \<and>
        set J' \<subseteq> set J \<and> set (joueurs w5) \<subseteq> set J' \<and>
        (\<forall>j \<in> set (joueurs w5). (j, Some [octet_de CHR ''o'']) \<in> set (recus es))"
      using m(8-12) d1(1) True by blast
    with m(1-4) suite_trans [OF g1(2) m(5)] show ?thesis by simp
  next
    case False
    with r g1 show ?thesis by auto
  qed
qed

section \<open>Properties of a round\<close>

text \<open> C1: The protocol of a round. When a round of the server ends with another one to play, the messages
  sent during it were, in this order: the start signal to every player, once all of them had sent their
  confirmation; the same shape and the same arrangement of the sixteen shapes to all of them; the
  same best and worst time to those who still answered. The players of the next round are
  among these, and each has sent the letter o. \<close>

theorem manche_protocole:
  assumes "hasard_ok E" and "gere ss w" and "length t = 10" and "length b = 10"
    and "tour_serveur E ss (t, b, w) = Some (Inl (t', b', w'))"
  shows "\<exists>es J J' forme indices meilleur pire. journal w' = journal w @ es \<and>
    envois es = map (\<lambda>j. (j, [octet_de CHR ''1''])) J @
      concat (map (\<lambda>j. [(j, octets_int forme), (j, tableau_octets indices)]) J) @
      concat (map (\<lambda>j. [(j, octets_int meilleur), (j, octets_int pire)]) J') \<and>
    0 \<le> forme \<and> forme < 16 \<and> indices_ok indices \<and> J \<noteq> [] \<and>
    (\<forall>j \<in> set J. (j, Some [octet_de CHR ''1'']) \<in> set (recus es)) \<and>
    set J' \<subseteq> set J \<and> set (joueurs w') \<subseteq> set J' \<and> joueurs w' \<noteq> [] \<and>
    (\<forall>j \<in> set (joueurs w'). (j, Some [octet_de CHR ''o'']) \<in> set (recus es))"
  using tour_serveur_faits [OF assms] by simp

text \<open> C8: Nobody starts alone. The start signal is sent only by a wait that succeeds; at that moment every
  connected player has sent the character 1 since the wait began, each of them then receives the
  signal once, and nothing else was sent before. \<close>

theorem depart_synchronise:
  assumes "gere ss w" and "attendre_pression_touch E ss w = Some (True, w')"
  shows "\<exists>es es'. journal w' = journal w @ es @ es' \<and> envois es = [] \<and> joueurs w' \<noteq> [] \<and>
    (\<forall>j \<in> set (joueurs w'). (j, Some [octet_de CHR ''1'']) \<in> set (recus es)) \<and>
    envois es' = map (\<lambda>j. (j, [octet_de CHR ''1''])) (joueurs w')"
  using attendre_pression_touch_faits [OF assms] by simp

text \<open> C20: What the server keeps of the answers. A player still connected afterwards has sent two
  messages, from which the answer and the time are read; every other client counts as a wrong answer in
  ten seconds. Complete messages are read as sent. \<close>

theorem temps_recus:
  assumes "gere ss w" and "length t0 = 10" and "length b0 = 10" and "recevoir_temps E t0 b0 w = Some (t, b, w')"
    and "i < nat (nb_clients w)"
  shows "if i \<in> set (actifs w') then
      i \<in> set (actifs w) \<and> (\<exists>es xs ys bs bs'. journal w' = journal w @ es \<and>
        recus es = xs @ [(clients w ! i, Some bs), (clients w ! i, Some bs')] @ ys \<and> bs \<noteq> [] \<and> bs' \<noteq> [] \<and>
        (\<forall>c. c_int_ok c \<and> bs = octets_int c \<longrightarrow> b ! i = (c = 1)) \<and>
        (\<forall>d. c_int_ok d \<and> bs' = octets_int d \<longrightarrow> t ! i = d))
    else t ! i = 100 \<and> \<not> b ! i"
proof (cases "i \<in> set (actifs w')")
  case True
  note f = recevoir_temps_faits [OF assms(1-4)]
  from f(8) obtain es where es: "journal w' = journal w @ es" "recu es (clients w ! i) (t ! i) (b ! i)"
    using True assms(5) by auto
  from es(2) obtain xs ys bs bs' where r: "recus es = xs @ [(clients w ! i, Some bs), (clients w ! i, Some bs')] @ ys"
      "bs \<noteq> []" "bs' \<noteq> []" "b ! i = (int_octets (ecraser bs (octets_int 0)) = 1)" "t ! i = int_octets (ecraser bs' (octets_int 100))"
    unfolding recu_def by blast
  have "\<forall>c. c_int_ok c \<and> bs = octets_int c \<longrightarrow> b ! i = (c = 1)" "\<forall>d. c_int_ok d \<and> bs' = octets_int d \<longrightarrow> t ! i = d"
    using r(4,5) by (auto simp: int_octets_int)
  moreover have "i \<in> set (actifs w)" using f(7) True by blast
  ultimately show ?thesis unfolding if_P [OF True] using es(1) r(1-3) by blast
next
  case False
  with recevoir_temps_faits(8) [OF assms(1-4)] assms(5) show ?thesis by (auto simp del: actifs_iff)
qed

text \<open> C21: Who plays again. Every player is asked once, in order; those who remain are exactly those
  whose answer was the letter o, and the game goes on when there is one. \<close>

theorem rejouer_choix:
  assumes "gere ss w" and "recevoir_choix_rejouer E w = Some (b, w')"
  shows "b = (joueurs w' \<noteq> []) \<and> (\<exists>es. journal w' = journal w @ es \<and> envois es = [] \<and> map fst (recus es) = joueurs w \<and>
    joueurs w' = map fst (filter (\<lambda>(j, r). r = Some [octet_de CHR ''o'']) (recus es)))"
  using recevoir_choix_rejouer_faits [OF assms] by blast

section \<open>The whole program\<close>

lemma registre_fermetures:
  "fold registre_pas (map (\<lambda>j. Sys (Close j)) js) (Some (M + mset js)) = Some M"
  by (induction js) auto

lemma fermer_clients_eq:
  assumes "serveur_ok w"
  shows "fermer_clients w = Some (consigne (map (\<lambda>j. Sys (Close j)) (joueurs w)) w)"
proof -
  have "fold (\<lambda>i w. if clients_actifs w ! i then close (clients w ! i) w else w) xs v =
      consigne (map (\<lambda>i. Sys (Close (clients v ! i))) (filter (\<lambda>i. clients_actifs v ! i) xs)) v" for xs and v :: serveur
    by (induction xs arbitrary: v) (simp_all add: close_def)
  then show ?thesis
    by (simp add: fermer_clients_dedans [OF assms] fermer_clients_libre_def joueurs_def actifs_def comp_def)
qed

lemma boucle_serveur_gere:
  assumes "hasard_ok E" and "gere ss w" and "length t = 10" and "length b = 10"
    and "boucle (tour_serveur E ss) (t, b, w) = Some w'"
  shows "gere ss w'"
  using assms(5)
proof (rule boucle_invariant [where P = "\<lambda>(t, b, w). gere ss w \<and> length t = 10 \<and> length b = 10"])
  show "case (t, b, w) of (t, b, w) \<Rightarrow> gere ss w \<and> length t = 10 \<and> length b = 10" using assms by simp
  show "case s' of (t, b, w) \<Rightarrow> gere ss w \<and> length t = 10 \<and> length b = 10"
    if "case s of (t, b, w) \<Rightarrow> gere ss w \<and> length t = 10 \<and> length b = 10" "tour_serveur E ss s = Some (Inl s')" for s s'
    using that tour_serveur_faits [OF assms(1), of ss] by (cases s; cases s') fastforce
  show "gere ss r"
    if "case s of (t, b, w) \<Rightarrow> gere ss w \<and> length t = 10 \<and> length b = 10" "tour_serveur E ss s = Some (Inr r)" for s r
    using that tour_serveur_faits [OF assms(1), of ss] by (cases s) fastforce
qed

lemma gere_initial:
  assumes "ss \<ge> 0"
  shows "gere ss (consigne [Net (Socket ss)] serveur_initial)"
  using assms by (simp add: gere_def serveur_ok_def serveur_initial_def joueurs_def actifs_def ouverts_def)

text \<open>The three ways \<open>main\<close> fails, and the normal course.\<close>

lemma serveur_main_cas:
  assumes "serveur_main E argv t b serveur_initial = Some (r, w')"
  obtains (socket) ss where "ss < 0" "r = 1" "w' = consigne [Net (Socket ss)] serveur_initial"
  | (refus) ss es where "ss \<ge> 0" "r = 1" "\<forall>e \<in> set es. \<not> registre_concerne e" "envois es = []"
      "w' = close ss (consigne es (consigne [Net (Socket ss)] serveur_initial))"
  | (jeu) ss es w1 w2 w3 where "ss \<ge> 0" "r = 0" "\<forall>e \<in> set es. \<not> registre_concerne e" "envois es = []"
      "attendre_clients E ss (consigne es (consigne [Net (Socket ss)] serveur_initial)) = Some w1"
      "boucle (tour_serveur E ss) (t, b, w1) = Some w2" "fermer_clients w2 = Some w3" "w' = close ss w3"
proof -
  define port where "port = (if 1 < length argv then lire_port (argv ! 1) else 12345)"
  define ss where "ss = h_socket E []"
  define w0 where "w0 = consigne [Net (Socket ss)] serveur_initial"
  have so: "socket_tcp E serveur_initial = (ss, w0)"
    by (simp add: socket_tcp_def ss_def w0_def serveur_initial_def Let_def)
  note m = assms [unfolded serveur_main_def port_def [symmetric], unfolded Let_def so prod.case]
  show thesis
  proof (cases "ss < 0")
    case True
    with m show thesis by (intro socket [of ss]) (auto simp: w0_def)
  next
    case ss: False
    obtain r1 w1 where b: "bind_adresse E ss (htons (word_of_int port)) (setsockopt ss w0) = (r1, w1)" by fastforce
    then have w1: "w1 = consigne [Net (SetSockOpt ss), Net (Bind ss (uint (htons (word_of_int port))) r1)] w0"
      by (auto simp: bind_adresse_def setsockopt_def Let_def)
    obtain r2 w2 where l: "listen E ss 10 w1 = (r2, w2)" by fastforce
    then have w2: "w2 = consigne [Net (SetSockOpt ss), Net (Bind ss (uint (htons (word_of_int port))) r1), Net (Listen ss 10 r2)] w0"
      by (auto simp: listen_def Let_def w1)
    consider "r1 < 0" | "r1 \<ge> 0" "r2 < 0" | "r1 \<ge> 0" "r2 \<ge> 0" by linarith
    then show thesis
    proof cases
      case 1
      with m ss b have "r = 1" "w' = close ss w1" by auto
      with ss w1 show thesis by (intro refus [of ss "[Net (SetSockOpt ss), Net (Bind ss (uint (htons (word_of_int port))) r1)]"]) (auto simp: w0_def)
    next
      case 2
      with m ss b l have "r = 1" "w' = close ss w2" by auto
      with ss w2 show thesis
        by (intro refus [of ss "[Net (SetSockOpt ss), Net (Bind ss (uint (htons (word_of_int port))) r1), Net (Listen ss 10 r2)]"])
          (auto simp: w0_def)
    next
      case 3
      with m ss b l obtain w3 w4 w5 where "attendre_clients E ss w2 = Some w3"
          "boucle (tour_serveur E ss) (t, b, w3) = Some w4" "r = 0" "fermer_clients w4 = Some w5" "w' = close ss w5"
        by (auto simp: bind_Some_iff)
      with ss w2 show thesis
        by (intro jeu [of ss "[Net (SetSockOpt ss), Net (Bind ss (uint (htons (word_of_int port))) r1), Net (Listen ss 10 r2)]" w3 w4 w5])
          (auto simp: w0_def)
    qed
  qed
qed

text \<open> C2: No descriptor leaks. Whenever the server ends, whatever the network and the clients did and
  on the error paths of its start too, every socket it opened has been closed, and none was closed
  twice. \<close>

theorem serveur_ressources:
  assumes "hasard_ok E" and "length t = 10" and "length b = 10"
    and "serveur_main E argv t b serveur_initial = Some (r, w')"
  shows "ouverts (journal w') = Some {#} \<and> (r = 0 \<or> r = 1)"
  using assms(4)
proof (cases rule: serveur_main_cas)
  case socket
  then show ?thesis by (simp add: serveur_initial_def ouverts_def)
next
  case (refus ss es)
  then have "gere ss (consigne es (consigne [Net (Socket ss)] serveur_initial))"
    by (intro gere_consigne gere_initial) auto
  then have "ouverts (journal (consigne es (consigne [Net (Socket ss)] serveur_initial))) = Some {#ss#}"
    by (simp add: gere_def joueurs_def actifs_def serveur_initial_def)
  with refus show ?thesis by (simp only: close_def journal_consigne ouverts_append) simp
next
  case (jeu ss es w1 w2 w3)
  then have "gere ss (consigne es (consigne [Net (Socket ss)] serveur_initial))"
    by (intro gere_consigne gere_initial) auto
  from attendre_clients_gere [OF this jeu(5)] have "gere ss w1" by simp
  from boucle_serveur_gere [OF assms(1) this assms(2,3) jeu(6)]
  have "ouverts (journal w2) = Some ({#ss#} + mset (joueurs w2))" "serveur_ok w2" by (simp_all add: gere_def)
  with jeu(2,7,8) registre_fermetures [of "joueurs w2" "{#ss#}"] show ?thesis
    by (auto simp: close_def fermer_clients_eq ouverts_append)
qed

section \<open>No fault\<close>

text \<open>
  The faults of the model are writes and reads outside an array, descriptors outside an \<open>fd_set\<close>
  and negative draws. None happens as long as the descriptors are below 1024, the default limit of a
  Linux process.
\<close>

definition fds_bornes :: "int \<Rightarrow> serveur \<Rightarrow> bool" where
  "fds_bornes ss w \<longleftrightarrow> fd_borne ss \<and> (\<forall>j \<in> set (joueurs w). fd_borne j)"

definition accept_borne :: "hote \<Rightarrow> bool" where
  "accept_borne E \<longleftrightarrow> (\<forall>h fd. h_accept E h fd < 1024)"

lemma fds_bornes_consigne [simp]: "fds_bornes ss (consigne es w) = fds_bornes ss w"
  by (simp add: fds_bornes_def)

lemma surveiller_total:
  assumes "fd_set_ok rf"
  shows "\<exists>a rf' t' fds p. surveiller E n rf t w = Some (a, rf', t', consigne [Net (Select fds t a p)] w) \<and>
    fd_set_ok rf' \<and> descripteurs rf' = set p \<and>
    set fds = {d. d \<in> descripteurs rf \<and> 0 \<le> d \<and> d < n} \<and>
    a = fst (h_select E (journal w) fds t) \<and>
    p = (if a \<le> 0 then [] else filter (\<lambda>d. d \<in> set fds) (fst (snd (h_select E (journal w) fds t))))"
proof -
  define fds where "fds = filter (\<lambda>d. FD_ISSET d rf = Some True) [0..n - 1]"
  have sf: "set fds = {d. d \<in> descripteurs rf \<and> 0 \<le> d \<and> d < n}"
    using fds.present_Some [OF assms] fds.present_bon [OF assms]
    by (auto simp: fds_def) (simp add: descripteurs_def)
  obtain a p' t' where h: "h_select E (journal w) fds t = (a, p', t')" by (metis prod_cases3)
  define p where "p = (if a \<le> 0 then [] else filter (\<lambda>d. d \<in> set fds) p')"
  have "\<And>d. d \<in> set p \<Longrightarrow> fd_borne d" using sf by (auto simp: p_def descripteurs_def split: if_splits)
  then obtain rf' where rf': "foldM FD_SET p (FD_ZERO rf) = Some rf'" "fd_set_ok rf'" "descripteurs rf' = set p"
    using fds.vider_puis_ajouter [OF assms, of p] by auto
  have "surveiller E n rf t w = Some (a, rf', t', consigne [Net (Select fds t a p)] w)"
    using rf'(1) h by (simp add: surveiller_def select_def p_def Let_def flip: fds_def)
  moreover have "a = fst (h_select E (journal w) fds t)"
      "p = (if a \<le> 0 then [] else filter (\<lambda>d. d \<in> set fds) (fst (snd (h_select E (journal w) fds t))))"
    by (simp_all add: h p_def)
  ultimately show ?thesis using rf'(2,3) sf by blast
qed

lemma preparer_total:
  assumes "fd_set_ok rf" and "fds_bornes ss w" and "serveur_ok w"
  shows "\<exists>rf' m. preparer_ensemble ss rf w = Some (rf', m)"
proof -
  obtain s where s: "FD_SET ss (FD_ZERO rf) = Some s" "fd_set_ok s"
    using fds.ajouter_bon [of "FD_ZERO rf" ss] assms by (auto simp: fds_bornes_def)
  have "\<exists>rf' m. foldM (\<lambda>i. ajouter_actif i w) xs (t, k) = Some (rf', m)"
    if "fd_set_ok t" "\<forall>i \<in> set xs. i < 10 \<and> (clients_actifs w ! i \<longrightarrow> fd_borne (clients w ! i))" for xs t k
    using that
  proof (induction xs arbitrary: t k)
    case (Cons i xs)
    then show ?case
      using fds.ajouter_bon [of t "clients w ! i"] by (cases "clients_actifs w ! i") (auto simp: ajouter_actif_dedans [OF assms(3)])
  qed simp
  from this [OF s(2)] assms(2) s(1) serveur_okD(1) [OF assms(3)] show ?thesis
    by (auto simp: preparer_ensemble_def fds_bornes_def joueurs_def)
qed

lemma accepte_total:
  assumes "accept_borne E" and "fds_bornes ss w" and "serveur_ok w"
  shows "\<exists>c w1. accept E ss w = (c, w1) \<and> w1 = consigne [Net (Accept ss c)] w \<and> c = h_accept E (journal w) ss \<and>
    (c \<ge> 0 \<longrightarrow> fds_bornes ss (close c w1) \<and>
      (nb_clients w < 10 \<longrightarrow> (\<exists>w2. ajouter_client c w1 = Some w2 \<and> fds_bornes ss w2)))"
proof -
  define c where "c = h_accept E (journal w) ss"
  define w1 where "w1 = consigne [Net (Accept ss c)] w"
  have a: "accept E ss w = (c, w1)" by (simp add: accept_def c_def w1_def Let_def)
  have "\<exists>w2. ajouter_client c w1 = Some w2 \<and> fds_bornes ss w2" if "c \<ge> 0" "nb_clients w < 10"
  proof -
    have ok: "serveur_ok w1" using assms(3) by (simp add: w1_def)
    with that obtain w2 where w2: "ajouter_client c w1 = Some w2" using ajouter_client_total [of w1 c] by (auto simp: w1_def)
    from ajouter_client_Some(3) [OF ok w2] assms(1,2) that(1) show ?thesis
      using w2 by (auto simp: fds_bornes_def w1_def fd_borne_def accept_borne_def c_def)
  qed
  with a assms(2) show ?thesis by (auto simp: w1_def c_def close_def)
qed

lemma tour_premier_total:
  assumes "accept_borne E" and "fds_bornes ss w" and "gere ss w"
  shows "case tour_premier E ss w of None \<Rightarrow> False | Some (Inl w') \<Rightarrow> fds_bornes ss w' | Some (Inr w') \<Rightarrow> fds_bornes ss w'"
proof -
  have "serveur_ok w" using assms(3) by (simp add: gere_def)
  from accepte_total [OF assms(1,2) this] obtain c where "accept E ss w = (c, consigne [Net (Accept ss c)] w)"
      "c \<ge> 0 \<Longrightarrow> nb_clients w < 10 \<Longrightarrow> \<exists>w2. ajouter_client c (consigne [Net (Accept ss c)] w) = Some w2 \<and> fds_bornes ss w2"
    by auto
  with assms(2) show ?thesis by (auto simp: tour_premier_def)
qed

lemma tour_autres_total:
  assumes "accept_borne E" and "fds_bornes ss w" and "gere ss w" and "fd_set_ok rf"
  shows "case tour_autres E ss (rf, t, w) of None \<Rightarrow> False | Some (Inl (rf', t', w')) \<Rightarrow> fds_bornes ss w' | Some (Inr w') \<Rightarrow> fds_bornes ss w'"
proof (cases "nb_clients w < 10")
  case True
  have b: "fd_borne ss" using assms(2) by (simp add: fds_bornes_def)
  obtain rf1 where rf1: "FD_SET ss (FD_ZERO rf) = Some rf1" "fd_set_ok rf1"
    using fds.ajouter_bon [of "FD_ZERO rf" ss] assms(4) b by auto
  from surveiller_total [OF rf1(2)] obtain a rf2 t2 fds p where
      s: "surveiller E (ss + 1) rf1 t w = Some (a, rf2, t2, consigne [Net (Select fds t a p)] w)" and rf2: "fd_set_ok rf2"
    by blast
  let ?w = "consigne [Net (Select fds t a p)] w"
  have "fds_bornes ss ?w" "serveur_ok ?w" using assms(2,3) by (simp_all add: gere_def)
  from accepte_total [OF assms(1) this] obtain c where ac: "accept E ss ?w = (c, consigne [Net (Accept ss c)] ?w)"
      "c \<ge> 0 \<Longrightarrow> \<exists>w2. ajouter_client c (consigne [Net (Accept ss c)] ?w) = Some w2 \<and> fds_bornes ss w2"
    using True by auto
  from True rf1(1) s fds.present_bon [OF rf2 b] ac assms(2) show ?thesis
    by (cases "c \<ge> 0") (auto simp: tour_autres_def)
qed (use assms in \<open>auto simp: tour_autres_def\<close>)

lemma nouvelle_connexion_total:
  assumes "accept_borne E" and "fds_bornes ss w" and "gere ss w" and "length pret = 10"
  shows "\<exists>pret' w'. nouvelle_connexion E ss pret w = Some (pret', w') \<and> fds_bornes ss w'"
proof -
  have ok: "serveur_ok w" using assms(3) by (simp add: gere_def)
  from accepte_total [OF assms(1,2) ok] obtain c where ac: "accept E ss w = (c, consigne [Net (Accept ss c)] w)"
      "c \<ge> 0 \<Longrightarrow> fds_bornes ss (close c (consigne [Net (Accept ss c)] w))"
      "c \<ge> 0 \<Longrightarrow> nb_clients w < 10 \<Longrightarrow> \<exists>w2. ajouter_client c (consigne [Net (Accept ss c)] w) = Some w2 \<and> fds_bornes ss w2"
    by auto
  have "nat (nb_clients w) < length pret" if "nb_clients w < 10" using that assms(4) ok by (auto simp: serveur_ok_def)
  with ac assms(2) show ?thesis
    by (cases "c \<ge> 0"; cases "nb_clients w < 10") (auto simp: nouvelle_connexion_def)
qed

lemma fds_bornes_desactiver:
  assumes "fds_bornes ss w" and "serveur_ok w" and "i \<in> set (actifs w)"
  shows "fds_bornes ss (desactiver_libre i w)"
proof -
  have "set (joueurs (desactiver_libre i w)) \<subseteq> set (joueurs w)"
    using desactiver_faits(4,6) [OF assms(2,3)] by (auto simp: joueurs_def)
  with assms(1) show ?thesis by (auto simp: fds_bornes_def)
qed

lemma lire_confirmation_total:
  assumes "fds_bornes ss w" and "attente ss w0 pret w" and "fd_set_ok rf" and "i < nat (nb_clients w)"
  shows "\<exists>pret' w'. lire_confirmation E rf i (pret, w) = Some (pret', w') \<and> fds_bornes ss w' \<and> nb_clients w' = nb_clients w"
proof (cases "clients_actifs w ! i \<and> \<not> pret ! i")
  case True
  let ?c = "clients w ! i"
  have i: "i \<in> set (actifs w)" using True assms(4) by simp
  then have b: "fd_borne ?c" using assms(1) by (auto simp: fds_bornes_def joueurs_def)
  obtain r where r: "recevoir_donnees E ?c 1 w = (r, consigne [Net (Recv ?c 1 r)] w)"
    by (simp add: recevoir_donnees_def recv_def Let_def)
  have d: "fds_bornes ss (desactiver_libre i (consigne [Net (Recv ?c 1 r)] w))"
      "nb_clients (desactiver_libre i (consigne [Net (Recv ?c 1 r)] w)) = nb_clients w"
    using fds_bornes_desactiver [of ss "consigne [Net (Recv ?c 1 r)] w" i] i assms(1,2)
    by (auto simp: attente_def gere_def desactiver_libre_def close_def)
  from True r d assms(1) fds.present_bon [OF assms(3) b] show ?thesis
    by (cases "?c \<in> descripteurs rf") (auto simp: attente_lire [OF assms(2,4)] split: option.splits list.splits)
qed (use assms in \<open>auto simp: attente_lire [OF assms(2,4)]\<close>)

lemma lire_confirmations_total:
  assumes "fds_bornes ss w" and "attente ss w0 pret w" and "fd_set_ok rf" and "\<forall>i \<in> set xs. i < nat (nb_clients w)"
  shows "\<exists>pret' w'. foldM (lire_confirmation E rf) xs (pret, w) = Some (pret', w') \<and> fds_bornes ss w'"
  using assms
proof (induction xs arbitrary: pret w)
  case (Cons i xs)
  from lire_confirmation_total [OF Cons.prems(1-3), of i E] Cons.prems(4)
  obtain p1 w1 where 1: "lire_confirmation E rf i (pret, w) = Some (p1, w1)" "fds_bornes ss w1" "nb_clients w1 = nb_clients w"
    by auto
  from lire_confirmation_attente [OF Cons.prems(2) _ 1(1)] Cons.prems(4) have "attente ss w0 p1 w1" by simp
  from Cons.IH [OF 1(2) this Cons.prems(3)] Cons.prems(4) 1 show ?case by simp
qed simp

lemma tour_prets_total:
  assumes "accept_borne E" and "fds_bornes ss w" and "attente ss w0 pret w" and "fd_set_ok rf"
  shows "case tour_prets E ss (rf, pret, w) of None \<Rightarrow> False
    | Some (Inl (rf', pret', w')) \<Rightarrow> fds_bornes ss w' | Some (Inr (b, w')) \<Rightarrow> fds_bornes ss w'"
proof -
  have ok: "serveur_ok w" using assms(3) by (simp add: attente_def gere_def)
  obtain rf1 m where p: "preparer_ensemble ss rf w = Some (rf1, m)" using preparer_total [OF assms(4,2) ok] by blast
  have "fd_set_ok rf1" by (rule preparer_ensemble_Some(1) [OF assms(4) p ok])
  from surveiller_total [OF this] obtain a rf2 t2 fds q where
      s: "surveiller E (m + 1) rf1 (0 * 1000000 + 500000) w = Some (a, rf2, t2, consigne [Net (Select fds (0 * 1000000 + 500000) a q)] w)"
    and rf2: "fd_set_ok rf2" by blast
  define w1 where "w1 = consigne [Net (Select fds (0 * 1000000 + 500000) a q)] w"
  have a1: "attente ss w0 pret w1" unfolding w1_def by (rule attente_consigne [OF assms(3)]) auto
  have b1: "fds_bornes ss w1" using assms(2) by (simp add: w1_def)
  have i: "FD_ISSET ss rf2 = Some (ss \<in> descripteurs rf2)"
    using fds.present_bon [OF rf2] assms(2) by (simp add: fds_bornes_def)
  obtain p2 w2 where n: "(if ss \<in> descripteurs rf2 then nouvelle_connexion E ss pret w1 else Some (pret, w1)) = Some (p2, w2)"
    and b2: "fds_bornes ss w2" and a2: "attente ss w0 p2 w2"
    using nouvelle_connexion_total [OF assms(1) b1, of pret] nouvelle_connexion_attente [OF a1] a1 b1
    by (cases "ss \<in> descripteurs rf2") (fastforce simp: attente_def)+
  from lire_confirmations_total [OF b2 a2 rf2, of "[0..<nat (nb_clients w2)]" E] obtain p3 w3 where
      f: "foldM (lire_confirmation E rf2) [0..<nat (nb_clients w2)] (p2, w2) = Some (p3, w3)" "fds_bornes ss w3"
    by auto
  have "attente ss w0 p3 w3" using lire_confirmations_attente [OF f(1) a2] by simp
  then have "compter_prets p3 w3 = Some (compter_prets_libre p3 w3)"
    by (intro compter_prets_dedans) (simp_all add: attente_def gere_def)
  with p s i n f b1 show ?thesis
    by (cases "compter_prets_libre p3 w3") (auto simp: tour_prets_def w1_def simp del: mult_zero_left)
qed

text \<open>The operations of a round that have no loop of their own to wait in.\<close>

lemma fds_bornes_suite:
  "\<lbrakk>fds_bornes ss w; set (joueurs w') \<subseteq> set (joueurs w)\<rbrakk> \<Longrightarrow> fds_bornes ss w'"
  by (auto simp: fds_bornes_def)

lemma recevoir_temps_total:
  assumes "gere ss w" and "fds_bornes ss w" and "length t = 10" and "length b = 10"
  shows "\<exists>t' b' w'. recevoir_temps E t b w = Some (t', b', w') \<and> length t' = 10 \<and> length b' = 10 \<and> gere ss w' \<and> fds_bornes ss w'"
proof -
  have "recevoir_temps E t b w \<noteq> None"
    using recevoir_temps_dedans(1) [OF _ assms(3,4)] assms(1) by (simp add: gere_def)
  then obtain t' b' w' where r: "recevoir_temps E t b w = Some (t', b', w')" by (metis not_None_eq prod_cases3)
  note f = recevoir_temps_faits [OF assms(1,3,4) r]
  have "set (joueurs w') \<subseteq> set (joueurs w)" using f(4,7) by (auto simp: joueurs_def)
  with r f(1,5,6) fds_bornes_suite [OF assms(2)] show ?thesis by blast
qed

lemma envoyer_resultats_total:
  assumes "gere ss w" and "fds_bornes ss w" and "length t = 10" and "length b = 10"
  shows "\<exists>w'. envoyer_resultats E t b w = Some w' \<and> gere ss w' \<and> fds_bornes ss w'"
  using envoyer_resultats_faits [OF assms(1,3,4), of E] assms(2) by auto

lemma recevoir_choix_rejouer_total:
  assumes "gere ss w" and "fds_bornes ss w"
  shows "\<exists>c w'. recevoir_choix_rejouer E w = Some (c, w') \<and> gere ss w' \<and> fds_bornes ss w'"
proof -
  obtain c w' where r: "recevoir_choix_rejouer E w = Some (c, w')"
    using recevoir_choix_rejouer_dedans assms(1) unfolding gere_def by (metis surj_pair)
  from recevoir_choix_rejouer_faits [OF assms(1) r] obtain es where
    "gere ss w'" "map fst (recus es) = joueurs w" "joueurs w' = map fst (filter (\<lambda>(j, r). r = Some [octet_de CHR ''o'']) (recus es))"
    by blast
  moreover from this(2) have "fst ` set (recus es) = set (joueurs w)" by (metis list.set_map)
  ultimately have "set (joueurs w') \<subseteq> set (joueurs w)" by auto
  with r \<open>gere ss w'\<close> fds_bornes_suite [OF assms(2)] show ?thesis by blast
qed

text \<open>Outside the wait for the sensors, a round of the server always comes to its end.\<close>

lemma attendre_pression_touch_None:
  assumes "gere ss w"
  shows "attendre_pression_touch E ss w = None \<longleftrightarrow> boucle (tour_prets E ss) (fd_set_pile, replicate 10 False, w) = None"
proof (cases "boucle (tour_prets E ss) (fd_set_pile, replicate 10 False, w)")
  case (Some r)
  obtain p w1 where r: "r = (p, w1)" by fastforce
  from attente_finie [OF assms Some [unfolded r]] have "serveur_ok w1" by (auto simp: attente_def gere_def)
  with Some show ?thesis by (cases p) (auto simp: attendre_pression_touch_def r diffuser_dedans)
qed (simp add: attendre_pression_touch_def)

lemma tour_serveur_None:
  assumes "hasard_ok E" and "gere ss w" and "length t = 10" and "length b = 10"
  shows "tour_serveur E ss (t, b, w) = None \<longleftrightarrow> attendre_pression_touch E ss w = None"
proof (cases "attendre_pression_touch E ss w")
  case (Some r)
  obtain p w1 where r: "r = (p, w1)" by fastforce
  have g1: "gere ss w1" using attendre_pression_touch_faits [OF assms(2)] Some r by simp
  from envoyer_grille_et_forme_faits [OF assms(1) g1] obtain w2 where w2: "envoyer_grille_et_forme E w1 = Some w2" "gere ss w2"
    by blast
  have "recevoir_temps E t b w2 \<noteq> None"
    using recevoir_temps_dedans(1) [OF _ assms(3,4)] w2(2) by (simp add: gere_def)
  then obtain t' b' w3 where w3: "recevoir_temps E t b w2 = Some (t', b', w3)" by (metis not_None_eq prod_cases3)
  note g3 = recevoir_temps_faits [OF w2(2) assms(3,4) w3]
  from envoyer_resultats_faits [OF g3(1,5,6), of E] obtain w4 where w4: "envoyer_resultats E t' b' w3 = Some w4" "gere ss w4"
    by blast
  obtain c w5 where "recevoir_choix_rejouer E w4 = Some (c, w5)"
    using recevoir_choix_rejouer_dedans w4(2) unfolding gere_def by (metis surj_pair)
  with Some r w2(1) w3 w4(1) show ?thesis by (simp add: tour_serveur_def)
qed (simp add: tour_serveur_def)

text \<open> C9: No access outside the arrays. Every read and write of an array of the server is guarded by its
  length, in the two file-scope arrays, in the local ones and in the words of the \<open>fd_set\<close>. As long as
  descriptors stay below 1024 and draws are not negative, no operation faults and each keeps these
  conditions: the turns of the three waiting loops, up to the tenth client and past it, the sending
  of a grid, the reception of the answers, the sending of the results, the reception of the
  choices and the closing of the clients. The wait for the sensors returns exactly when its loop ends,
  and a round exactly when this wait returns. \<close>

theorem serveur_sans_debordement:
  assumes "hasard_ok E" and "accept_borne E" and "gere ss w" and "fds_bornes ss w"
    and "attente ss w0 pret w" and "fd_set_ok rf" and "length temps = 10" and "length rep = 10"
  shows "(\<exists>r. tour_premier E ss w = Some r \<and> (\<forall>w'. r = Inl w' \<or> r = Inr w' \<longrightarrow> gere ss w' \<and> fds_bornes ss w')) \<and>
    (\<exists>r. tour_autres E ss (rf, t, w) = Some r \<and>
      (\<forall>rf' t' w'. r = Inl (rf', t', w') \<or> r = Inr w' \<longrightarrow> gere ss w' \<and> fds_bornes ss w')) \<and>
    (\<exists>r. tour_prets E ss (rf, pret, w) = Some r \<and>
      (\<forall>rf' pret' b w'. r = Inl (rf', pret', w') \<or> r = Inr (b, w') \<longrightarrow> gere ss w' \<and> fds_bornes ss w')) \<and>
    (\<exists>w'. envoyer_grille_et_forme E w = Some w' \<and> gere ss w' \<and> fds_bornes ss w') \<and>
    (\<exists>t' b' w'. recevoir_temps E temps rep w = Some (t', b', w') \<and> length t' = 10 \<and> length b' = 10 \<and>
      gere ss w' \<and> fds_bornes ss w') \<and>
    (\<exists>w'. envoyer_resultats E temps rep w = Some w' \<and> gere ss w' \<and> fds_bornes ss w') \<and>
    (\<exists>c w'. recevoir_choix_rejouer E w = Some (c, w') \<and> gere ss w' \<and> fds_bornes ss w') \<and>
    fermer_clients w \<noteq> None \<and>
    (attendre_pression_touch E ss w = None \<longleftrightarrow> boucle (tour_prets E ss) (fd_set_pile, replicate 10 False, w) = None) \<and>
    (tour_serveur E ss (temps, rep, w) = None \<longleftrightarrow> attendre_pression_touch E ss w = None)"
proof (intro conjI)
  show "\<exists>r. tour_premier E ss w = Some r \<and> (\<forall>w'. r = Inl w' \<or> r = Inr w' \<longrightarrow> gere ss w' \<and> fds_bornes ss w')"
    using tour_premier_total [OF assms(2,4,3)] tour_premier_gere [OF assms(3)] assms(3)
    by (fastforce split: option.splits sum.splits)
  show "\<exists>r. tour_autres E ss (rf, t, w) = Some r \<and>
      (\<forall>rf' t' w'. r = Inl (rf', t', w') \<or> r = Inr w' \<longrightarrow> gere ss w' \<and> fds_bornes ss w')"
    using tour_autres_total [OF assms(2,4,3,6), of t] tour_autres_gere [OF assms(3,6), of E t]
    by (fastforce split: option.splits sum.splits)
  show "\<exists>r. tour_prets E ss (rf, pret, w) = Some r \<and>
      (\<forall>rf' pret' b w'. r = Inl (rf', pret', w') \<or> r = Inr (b, w') \<longrightarrow> gere ss w' \<and> fds_bornes ss w')"
    using tour_prets_total [OF assms(2,4,5,6)] tour_prets_attente [OF assms(5,6)]
    by (fastforce simp: attente_def split: option.splits sum.splits)
  show "\<exists>w'. envoyer_grille_et_forme E w = Some w' \<and> gere ss w' \<and> fds_bornes ss w'"
    using envoyer_grille_et_forme_faits [OF assms(1,3)] assms(4) by (fastforce simp: fds_bornes_def joueurs_def)
  show "fermer_clients w \<noteq> None" using assms(3) by (simp add: fermer_clients_dedans gere_def)
qed (rule recevoir_temps_total [OF assms(3,4,7,8)] envoyer_resultats_total [OF assms(3,4,7,8)]
    recevoir_choix_rejouer_total [OF assms(3,4)] attendre_pression_touch_None [OF assms(3)]
    tour_serveur_None [OF assms(1,3,7,8)])+

section \<open>The wait for players ends\<close>

text \<open>
  What \<open>select\<close> promises, and a listening socket on which \<open>accept\<close> always gives a new descriptor.
\<close>

definition select_ok :: "hote \<Rightarrow> bool" where
  "select_ok E \<longleftrightarrow> (\<forall>h fds t r p s. h_select E h fds t = (r, p, s) \<longrightarrow> r > 0 \<longrightarrow> (\<exists>d \<in> set p. d \<in> set fds))"

definition accept_ok :: "hote \<Rightarrow> bool" where
  "accept_ok E \<longleftrightarrow> (\<forall>h fd. 0 \<le> h_accept E h fd \<and> h_accept E h fd < 1024)"

lemma tour_autres_avance:
  assumes "accept_ok E" and "select_ok E" and "gere ss w" and "fds_bornes ss w" and "fd_set_ok rf"
    and "tour_autres E ss (rf, t, w) = Some (Inl (rf', t', w'))"
  shows "nb_clients w' = nb_clients w + 1 \<and> nb_clients w' \<le> 10"
proof -
  have nb: "nb_clients w < 10" using assms(6) by (auto simp: tour_autres_def split: if_splits)
  have b: "fd_borne ss" using assms(4) by (simp add: fds_bornes_def)
  obtain rf1 where rf1: "FD_SET ss (FD_ZERO rf) = Some rf1" "fd_set_ok rf1" "descripteurs rf1 = {ss}"
    using fds.ajouter_bon [of "FD_ZERO rf" ss] fds.vider_bon [OF assms(5)] assms(5) b by auto
  from surveiller_total [OF rf1(2)] obtain a rf2 t2 fds p where
      s: "surveiller E (ss + 1) rf1 t w = Some (a, rf2, t2, consigne [Net (Select fds t a p)] w)"
    and rf2: "fd_set_ok rf2" "descripteurs rf2 = set p" and f: "set fds = {d \<in> descripteurs rf1. 0 \<le> d \<and> d < ss + 1}"
    and h: "a = fst (h_select E (journal w) fds t)"
      "p = (if a \<le> 0 then [] else filter (\<lambda>d. d \<in> set fds) (fst (snd (h_select E (journal w) fds t))))"
    by blast
  let ?w = "consigne [Net (Select fds t a p)] w"
  obtain c where ac: "accept E ss ?w = (c, consigne [Net (Accept ss c)] ?w)" "c \<ge> 0"
    using assms(1) by (simp add: accept_def accept_ok_def Let_def)
  have a: "\<not> a \<le> 0" using assms(6) nb rf1(1) s by (auto simp: tour_autres_def)
  with h assms(2) obtain d where "d \<in> set p"
    unfolding select_ok_def by (cases "h_select E (journal w) fds t") fastforce
  moreover have "set p \<subseteq> {ss}" using h a f rf1(3) by (auto split: prod.splits)
  ultimately have "ss \<in> descripteurs rf2" using rf2 by auto
  with fds.present_bon [OF rf2(1) b] nb rf1(1) s a ac assms(6)
  have "ajouter_client c (consigne [Net (Accept ss c)] ?w) = Some w'" by (auto simp: tour_autres_def bind_Some_iff)
  from ajouter_client_Some(1,5) [OF _ this] assms(3) nb show ?thesis by (simp add: gere_def)
qed

lemma tour_premier_accepte:
  assumes "accept_ok E" and "gere ss w" "fds_bornes ss w" "nb_clients w = 0"
  shows "\<exists>w1. boucle (tour_premier E ss) w = Some w1 \<and> gere ss w1 \<and> fds_bornes ss w1 \<and> nb_clients w1 = 1"
proof -
  have ab: "accept_borne E" using assms(1) by (simp add: accept_ok_def accept_borne_def)
  obtain c where c: "accept E ss w = (c, consigne [Net (Accept ss c)] w)" "c \<ge> 0"
    using assms(1) by (simp add: accept_def accept_ok_def Let_def)
  have ok: "serveur_ok w" using assms(2) by (simp add: gere_def)
  from accepte_total [OF ab _ ok] assms(3,4) c
  obtain w1 where w1: "ajouter_client c (consigne [Net (Accept ss c)] w) = Some w1" "fds_bornes ss w1" by auto
  have n1: "nb_clients w1 = 1" using ajouter_client_Some(5) [OF _ w1(1)] assms(4) ok by simp
  have "boucle (tour_premier E ss) w = Some w1"
    using w1(1) c assms(4) n1 by (simp add: boucle_suite [of _ w w1] boucle_fin [of _ w1 w1] tour_premier_def)
  with gere_accepte(2) [OF assms(2) c w1(1)] w1(2) n1 show ?thesis by blast
qed

text \<open>Every turn of the second wait either ends it or adds a player.\<close>

lemma tour_autres_progres:
  assumes "accept_ok E" "select_ok E" and "gere ss v" "fds_bornes ss v" "fd_set_ok rf" "1 \<le> nb_clients v"
  shows "(\<exists>rf' t' v'. tour_autres E ss (rf, t, v) = Some (Inl (rf', t', v')) \<and> fd_set_ok rf' \<and> gere ss v' \<and> fds_bornes ss v' \<and>
      1 \<le> nb_clients v' \<and> nat (10 - nb_clients v') < nat (10 - nb_clients v)) \<or>
    (\<exists>r. tour_autres E ss (rf, t, v) = Some (Inr r) \<and> gere ss r \<and> 1 \<le> nb_clients r)"
proof -
  have ab: "accept_borne E" using assms(1) by (simp add: accept_ok_def accept_borne_def)
  note tot = tour_autres_total [OF ab assms(4,3,5), of t] and av = tour_autres_avance [OF assms(1-5)]
    and ge = tour_autres_gere [OF assms(3,5)]
  show ?thesis
  proof (cases "tour_autres E ss (rf, t, v)")
    case None
    with tot show ?thesis by simp
  next
    case (Some r)
    show ?thesis
    proof (cases r)
      case (Inl s')
      obtain rf' t' v' where "s' = (rf', t', v')" by (metis prod_cases3)
      with Some Inl have "tour_autres E ss (rf, t, v) = Some (Inl (rf', t', v'))" by simp
      from tot av [OF this] ge [OF this] assms(6) this show ?thesis by auto
    next
      case (Inr r')
      with Some ge [of E t r] assms(6) show ?thesis by auto
    qed
  qed
qed

lemma attendre_clients_rend:
  assumes "accept_ok E" "select_ok E" and "0 \<le> ss" "ss < 1024" and "gere ss w" and "joueurs w = []" and "nb_clients w = 0"
  shows "\<exists>w'. attendre_clients E ss w = Some w' \<and> 1 \<le> nb_clients w' \<and> nb_clients w' \<le> 10"
proof -
  have "fds_bornes ss w" using assms by (simp add: fds_bornes_def fd_borne_def)
  from tour_premier_accepte [OF assms(1,5) this assms(7)] obtain w1 where
    w1: "boucle (tour_premier E ss) w = Some w1" "gere ss w1" "fds_bornes ss w1" "nb_clients w1 = 1" by blast
  let ?P = "\<lambda>(rf, t, w). fd_set_ok rf \<and> gere ss w \<and> fds_bornes ss w \<and> 1 \<le> nb_clients w"
  have "\<exists>r. boucle (tour_autres E ss) (fd_set_pile, 5 * 1000000 + 0, w1) = Some r \<and> (gere ss r \<and> 1 \<le> nb_clients r)"
  proof (rule boucle_termine [where P = ?P and R = "measure (\<lambda>(rf, t, w). nat (10 - nb_clients w))"])
    fix s :: "fd_set \<times> int \<times> serveur" assume "?P s"
    then obtain rf t v where s: "s = (rf, t, v)" and "gere ss v" "fds_bornes ss v" "fd_set_ok rf" "1 \<le> nb_clients v"
      by (cases s) auto
    from tour_autres_progres [OF assms(1,2) this(2-5), of t] show "(\<exists>s'. tour_autres E ss s = Some (Inl s') \<and> ?P s' \<and>
        (s', s) \<in> measure (\<lambda>(rf, t, w). nat (10 - nb_clients w))) \<or>
      (\<exists>r. tour_autres E ss s = Some (Inr r) \<and> gere ss r \<and> 1 \<le> nb_clients r)"
      unfolding s by auto
  qed (use w1 in auto)
  with w1(1) show ?thesis by (auto simp: attendre_clients_def gere_def serveur_ok_def)
qed

lemma attendre_clients_sans_fin:
  assumes "\<forall>h fd. h_accept E h fd < 0" and "nb_clients w = 0"
  shows "attendre_clients E ss w = None"
proof -
  have "boucle (tour_premier E ss) w = None"
  proof (rule boucle_sans_fin [where P = "\<lambda>w. nb_clients w = 0"])
    fix v :: serveur assume "nb_clients v = 0"
    moreover from assms(1) have "\<not> 0 \<le> h_accept E (journal v) ss" by (simp add: not_le)
    ultimately show "\<exists>s'. tour_premier E ss v = Some (Inl s') \<and> nb_clients s' = 0"
      by (simp add: tour_premier_def accept_def Let_def)
  qed (rule assms(2))
  then show ?thesis by (simp add: attendre_clients_def)
qed

text \<open> C19: The wait for players ends. When \<open>accept\<close> succeeds, the server accepts a first client at once
  and then at most nine others, then stops waiting; it has between one and ten clients, all of
  them active. When \<open>accept\<close> always fails it waits for ever. \<close>

theorem attendre_clients_termine:
  assumes "0 \<le> ss" "ss < 1024" and "gere ss w" and "joueurs w = []" and "nb_clients w = 0"
  shows "(accept_ok E \<and> select_ok E \<longrightarrow> (\<exists>w'. attendre_clients E ss w = Some w' \<and> 1 \<le> nb_clients w' \<and> nb_clients w' \<le> 10)) \<and>
    ((\<forall>h fd. h_accept E h fd < 0) \<longrightarrow> attendre_clients E ss w = None)"
  using attendre_clients_rend [OF _ _ assms] attendre_clients_sans_fin assms(5) by blast

section \<open>Uninitialised arrays and the port\<close>

lemma recevoir_temps_client_independant:
  assumes "i < length t" "i < length t'" "i < length b" "i < length b'" "t ! i = t' ! i"
    and "recevoir_temps_client_libre E i (t, b, w) = (u, c, v)"
  shows "\<exists>u' c'. recevoir_temps_client_libre E i (t', b', w) = (u', c', v) \<and> length u = length t \<and> length u' = length t' \<and>
    length c = length b \<and> length c' = length b' \<and>
    (\<forall>j. t ! j = t' ! j \<and> b ! j = b' ! j \<longrightarrow> u ! j = u' ! j \<and> c ! j = c' ! j)"
  using assms
  by (auto simp: recevoir_temps_client_libre_def Let_def nth_list_update split: if_splits prod.splits)

lemma valeurs_cong:
  assumes "\<And>i. Q i = Q' i" and "\<And>i. Q' i \<Longrightarrow> f i = g i"
  shows "{f i |i. Q i} = {g i |i. Q' i}"
proof -
  have "(\<exists>i. x = f i \<and> Q i) = (\<exists>i. x = g i \<and> Q' i)" for x using assms by metis
  then show ?thesis by blast
qed

text \<open> The uninitialised arrays of \<open>main\<close> have no influence. Whatever \<open>temps\<close> and
  \<open>reponses_correctes\<close> hold, the receptions are the same, the entries of the clients are the same
  afterwards, and so are the results sent. \<close>

theorem tableaux_non_initialises:
  assumes "gere ss w" and "length t = 10" "length b = 10" and "length t' = 10" "length b' = 10"
    and "recevoir_temps E t b w = Some (u, c, v)"
  shows "\<exists>u' c'. recevoir_temps E t' b' w = Some (u', c', v) \<and>
    (\<forall>i < nat (nb_clients w). u ! i = u' ! i \<and> c ! i = c' ! i) \<and>
    envoyer_resultats E u c v = envoyer_resultats E u' c' v"
proof -
  let ?n = "nat (nb_clients w)"
  have ok: "serveur_ok w" using assms(1) by (simp add: gere_def)
  have l0: "recevoir_temps_libre E t b w = (u, c, v)" using assms(6) recevoir_temps_dedans(1) [OF ok assms(2,3)] by simp
  have n: "?n \<le> 10" using assms(1) by (auto simp: gere_def serveur_ok_def)
  obtain t1 b1 where i: "fold (\<lambda>i (t, r). (t[i := 100], r[i := False])) [0..<?n] (t, b) = (t1, b1)" by fastforce
  obtain t2 b2 where i': "fold (\<lambda>i (t, r). (t[i := 100], r[i := False])) [0..<?n] (t', b') = (t2, b2)" by fastforce
  have l: "length t1 = 10" "length b1 = 10" "length t2 = 10" "length b2 = 10"
    and eq: "\<forall>j < ?n. t1 ! j = t2 ! j \<and> b1 ! j = b2 ! j"
    using recevoir_temps_initial [of ?n t b] recevoir_temps_initial [of ?n t' b'] i i' n assms(2-5) by auto
  have f: "\<exists>u' c'. fold (recevoir_temps_client_libre E) xs (t2, b2, x) = (u', c', y) \<and> length u' = 10 \<and> length c' = 10 \<and>
      (\<forall>j < ?n. u ! j = u' ! j \<and> c ! j = c' ! j)"
    if "set xs \<subseteq> {0..<?n}" "length t1 = 10" "length b1 = 10" "length t2 = 10" "length b2 = 10"
      "\<forall>j < ?n. t1 ! j = t2 ! j \<and> b1 ! j = b2 ! j" "fold (recevoir_temps_client_libre E) xs (t1, b1, x) = (u, c, y)"
    for xs t1 b1 t2 b2 x u c y
    using that
  proof (induction xs arbitrary: t1 b1 t2 b2 x)
    case (Cons i xs)
    obtain t3 b3 x3 where s: "recevoir_temps_client_libre E i (t1, b1, x) = (t3, b3, x3)" by (metis prod_cases3)
    have "i < ?n" using Cons.prems(1) by simp
    then obtain t4 b4 where s': "recevoir_temps_client_libre E i (t2, b2, x) = (t4, b4, x3)"
        "length t3 = 10" "length t4 = 10" "length b3 = 10" "length b4 = 10"
        "\<forall>j. t1 ! j = t2 ! j \<and> b1 ! j = b2 ! j \<longrightarrow> t3 ! j = t4 ! j \<and> b3 ! j = b4 ! j"
      using recevoir_temps_client_independant [OF _ _ _ _ _ s, of t2 b2] Cons.prems(2-6) n by auto
    with Cons.prems s show ?case by (auto intro!: Cons.IH [of t3 b3 t4 b4])
  qed auto
  from l0 i have "fold (recevoir_temps_client_libre E) [0..<?n] (t1, b1, w) = (u, c, v)" by (simp add: recevoir_temps_libre_def)
  from f [OF _ l eq this] obtain u' c' where u': "fold (recevoir_temps_client_libre E) [0..<?n] (t2, b2, w) = (u', c', v)"
      "\<forall>j < ?n. u ! j = u' ! j \<and> c ! j = c' ! j" by auto
  then have r: "recevoir_temps_libre E t' b' w = (u', c', v)" using i' by (simp add: recevoir_temps_libre_def)
  then have r': "recevoir_temps E t' b' w = Some (u', c', v)" using recevoir_temps_dedans(1) [OF ok assms(4,5)] by simp
  note faits = recevoir_temps_faits [OF assms(1-3,6)] and faits' = recevoir_temps_faits [OF assms(1,4,5) r']
  have okv: "serveur_ok v" using faits(1) by (simp add: gere_def)
  have nb: "nb_clients v = nb_clients w" by (rule recevoir_temps_faits(3) [OF assms(1-3,6)])
  have on: "i \<in> set (actifs v) \<Longrightarrow> u ! i = u' ! i \<and> c ! i = c' ! i" for i using u'(2) nb by simp
  have "{u ! i |i. i \<in> set (actifs v) \<and> c ! i} = {u' ! i |i. i \<in> set (actifs v) \<and> c' ! i}"
      "{u ! i |i. i \<in> set (actifs v)} = {u' ! i |i. i \<in> set (actifs v)}"
    by (rule valeurs_cong; use on in blast)+
  then have "envoyer_resultats E u c v = envoyer_resultats E u' c' v"
    by (simp add: envoyer_resultats_def meilleur_et_pire_eq meilleur_et_pire_dedans [OF okv faits(5,6)]
        meilleur_et_pire_dedans [OF okv faits'(5,6)])
  with r' u'(2) show ?thesis by blast
qed

lemma chiffres_non_blancs: "c \<in> set (chiffres_nat n) \<Longrightarrow> \<not> est_blanc c \<and> c \<noteq> CHR ''-'' \<and> c \<noteq> CHR ''+''"
proof -
  assume "c \<in> set (chiffres_nat n)"
  then have c: "est_chiffre c" using chiffres_nat_digits by blast
  have "c \<noteq> CHR ''-''" "c \<noteq> CHR ''+''" using c by (auto simp: est_chiffre_def)
  with c show ?thesis by (auto simp: est_chiffre_def est_blanc_def)
qed

lemma atoi_format_d: "atoi (format_d n) = max (- (2 ^ 31)) (min (2 ^ 31 - 1) n)"
proof (cases "n < 0")
  case True
  then show ?thesis
    by (simp add: atoi_def strtol_10_def format_d_def est_blanc_def lire_chiffres_chiffres_nat)
next
  case False
  obtain c cs where c: "chiffres_nat (nat n) = c # cs" using chiffres_nat_nonempty [of "nat n"] by (cases "chiffres_nat (nat n)") auto
  with chiffres_non_blancs [of c "nat n"] have "\<not> est_blanc c" "c \<noteq> CHR ''-''" "c \<noteq> CHR ''+''" by auto
  with False c lire_chiffres_chiffres_nat [of "nat n"] show ?thesis
    by (simp add: atoi_def strtol_10_def format_d_def)
qed

lemma octets_htons:
  assumes "0 \<le> q" and "q < 2 ^ 16"
  shows "octets 2 (htons (word_of_int q)) = [word_of_int (q div 256), word_of_int (q mod 256)]"
proof -
  have "octets 2 (htons x) = [ucast (drop_bit 8 x), ucast x]" for x
    by (simp add: htons_def octets_bswap_16) (simp add: octets_def upt_rec)
  moreover have "drop_bit 8 (word_of_int q :: 16 word) = word_of_int (q div 256)"
    using assms by (intro word_uint_eqI) (simp add: uint_div_distrib uint_word_of_int_eq take_bit_eq_mod drop_bit_eq_div)
  moreover have "ucast (word_of_int r :: 16 word) = (word_of_int r :: 8 word)" for r
    by (rule bit_word_eqI) (simp add: bit_ucast_iff bit_of_int_iff)
  moreover have "(word_of_int (q mod 256) :: 8 word) = word_of_int q"
    by (intro word_uint_eqI) (simp add: uint_word_of_int_eq take_bit_eq_mod)
  ultimately show ?thesis by simp
qed

text \<open> C22: The port. A port written in decimal on the command line is the one asked for when it is
  between 1 and 65535, and 12345 otherwise, however large the number; the socket is then bound
  to it with its high byte first in memory. \<close>

theorem port_demande:
  "lire_port (format_d p) = (if 1 \<le> p \<and> p \<le> 65535 then p else 12345) \<and>
   octets 2 (htons (word_of_int (lire_port (format_d p)))) =
     [word_of_int (lire_port (format_d p) div 256), word_of_int (lire_port (format_d p) mod 256)]"
proof
  show l: "lire_port (format_d p) = (if 1 \<le> p \<and> p \<le> 65535 then p else 12345)"
    by (auto simp: lire_port_def atoi_format_d Let_def max_def min_def)
  have "0 \<le> lire_port (format_d p)" "lire_port (format_d p) < 2 ^ 16" by (simp_all add: l)
  then show "octets 2 (htons (word_of_int (lire_port (format_d p)))) =
      [word_of_int (lire_port (format_d p) div 256), word_of_int (lire_port (format_d p) mod 256)]"
    by (rule octets_htons)
qed

section \<open>A host with one player\<close>

text \<open>
  One client on the descriptor 4, always ready, who answers right in a tenth of a second and then
  answers \<open>c\<close>.
\<close>

definition hote_un :: "char \<Rightarrow> hote" where
  "hote_un c = hote_calme\<lparr>h_select := \<lambda>h fds t. let p = filter (\<lambda>fd. fd \<noteq> 3) fds in (int (length p), p, 0),
     h_recv := \<lambda>h fd n. Some (if n = 4 then octets_int 1
       else if envois h = [] then [octet_de CHR ''1''] else [octet_de c])\<rparr>"

definition etat_un :: serveur where
  "etat_un = \<lparr>journal = [Net (Socket 3), Net (Accept 3 4)], clients = 4 # replicate 9 0, nb_clients = 1,
     clients_actifs = True # replicate 9 False\<rparr>"

definition etat_un_pret :: serveur where
  "etat_un_pret = consigne [Net (Select [3, 4] 500000 1 [4]), Net (Recv 4 1 (Some [49])), Net (Send 4 [49] 1)] etat_un"

lemma etat_un_ok: "gere 3 etat_un" "fds_bornes 3 etat_un"
  by (simp_all add: gere_def serveur_ok_def etat_un_def ouverts_def joueurs_def actifs_def fds_bornes_def fd_borne_def)

lemma hote_un_hasard: "hasard_ok (hote_un c)"
  by (simp add: hasard_ok_def hote_un_def hote_calme_def)

lemma etat_un_attente: "attendre_pression_touch (hote_un CHR ''o'') 3 etat_un = Some (True, etat_un_pret)"
proof -
  have "tour_prets (hote_un CHR ''o'') 3 (fd_set_pile, replicate 10 False, etat_un) =
      Some (Inr (True, consigne [Net (Select [3, 4] 500000 1 [4]), Net (Recv 4 1 (Some [49]))] etat_un))"
    by code_simp
  note b = boucle_fin [of "tour_prets (hote_un CHR ''o'') 3", OF this]
  have "diffuser (hote_un CHR ''o'') [[octet_de CHR ''1'']]
      (consigne [Net (Select [3, 4] 500000 1 [4]), Net (Recv 4 1 (Some [49]))] etat_un) = Some etat_un_pret"
    by code_simp
  with b show ?thesis by (simp add: attendre_pression_touch_def)
qed

lemma etat_un_manche:
  "\<exists>t b w. tour_serveur (hote_un CHR ''o'') 3 (replicate 10 0, replicate 10 False, etat_un) = Some (Inl (t, b, w))"
proof -
  let ?reste = "envoyer_grille_et_forme (hote_un CHR ''o'') etat_un_pret \<bind> (\<lambda>w.
      recevoir_temps (hote_un CHR ''o'') (replicate 10 0) (replicate 10 False) w \<bind> (\<lambda>(temps, rep, w).
        envoyer_resultats (hote_un CHR ''o'') temps rep w \<bind> (\<lambda>w. recevoir_choix_rejouer (hote_un CHR ''o'') w \<bind>
          (\<lambda>(continuer, w). if \<not> continuer then Some (Inr w) else Some (Inl (temps, rep, w))))))"
  have "case ?reste of Some (Inl (t, b, w)) \<Rightarrow> True | _ \<Rightarrow> False"
    by code_simp
  then obtain t b w where "?reste = Some (Inl (t, b, w))"
    by (cases "?reste") (auto split: sum.splits)
  moreover have "tour_serveur (hote_un CHR ''o'') 3 (replicate 10 0, replicate 10 False, etat_un) = ?reste"
    by (simp add: tour_serveur_def etat_un_attente)
  ultimately show ?thesis by metis
qed

theorem manche_protocole_temoin:
  "\<exists>t b w' es J. tour_serveur (hote_un CHR ''o'') 3 (replicate 10 0, replicate 10 False, etat_un) = Some (Inl (t, b, w')) \<and>
    journal w' = journal etat_un @ es \<and> J \<noteq> [] \<and>
    (\<forall>j \<in> set J. (j, Some [octet_de CHR ''1'']) \<in> set (recus es)) \<and> joueurs w' \<noteq> []"
proof -
  obtain t b w' where m: "tour_serveur (hote_un CHR ''o'') 3 (replicate 10 0, replicate 10 False, etat_un) = Some (Inl (t, b, w'))"
    using etat_un_manche by blast
  from manche_protocole [OF hote_un_hasard etat_un_ok(1) _ _ m] m show ?thesis by simp blast
qed

theorem depart_synchronise_temoin:
  "\<exists>es es'. journal etat_un_pret = journal etat_un @ es @ es' \<and> envois es = [] \<and> joueurs etat_un_pret \<noteq> [] \<and>
    envois es' = map (\<lambda>j. (j, [octet_de CHR ''1''])) (joueurs etat_un_pret)"
  using depart_synchronise [OF etat_un_ok(1) etat_un_attente] by blast

theorem temps_recus_temoin:
  "\<exists>t b w'. recevoir_temps (hote_un CHR ''o'') (replicate 10 0) (replicate 10 False) etat_un = Some (t, b, w') \<and>
    t ! 0 = 1 \<and> b ! 0 \<and> actifs w' = [0]"
proof -
  obtain t b w' where r: "recevoir_temps (hote_un CHR ''o'') (replicate 10 0) (replicate 10 False) etat_un = Some (t, b, w')"
    using recevoir_temps_total [OF etat_un_ok, of "replicate 10 0" "replicate 10 False" "hote_un CHR ''o''"] by auto
  have "case recevoir_temps (hote_un CHR ''o'') (replicate 10 0) (replicate 10 False) etat_un of None \<Rightarrow> False | Some (t, b, w') \<Rightarrow>
      actifs w' = [0] \<and> journal w' = journal etat_un @ [Net (Recv 4 4 (Some (octets_int 1))), Net (Recv 4 4 (Some (octets_int 1)))]"
    by code_simp
  with r have w': "actifs w' = [0]"
      "journal w' = journal etat_un @ [Net (Recv 4 4 (Some (octets_int 1))), Net (Recv 4 4 (Some (octets_int 1)))]" by auto
  have "0 < nat (nb_clients etat_un)" by (simp add: etat_un_def)
  note tr = temps_recus [OF etat_un_ok(1) _ _ r this]
  have a0: "0 \<in> set (actifs w')" unfolding w'(1) by simp
  from tr have "\<exists>es xs ys bs bs'. journal w' = journal etat_un @ es \<and>
        recus es = xs @ [(clients etat_un ! 0, Some bs), (clients etat_un ! 0, Some bs')] @ ys \<and>
        (\<forall>c. c_int_ok c \<and> bs = octets_int c \<longrightarrow> b ! 0 = (c = 1)) \<and> (\<forall>d. c_int_ok d \<and> bs' = octets_int d \<longrightarrow> t ! 0 = d)"
    unfolding if_P [OF a0] by simp blast
  then obtain xs ys bs bs' where "[(4 :: int, Some (octets_int 1)), (4, Some (octets_int 1))] = xs @ [(4, Some bs), (4, Some bs')] @ ys"
      "\<forall>c. c_int_ok c \<and> bs = octets_int c \<longrightarrow> b ! 0 = (c = 1)" "\<forall>d. c_int_ok d \<and> bs' = octets_int d \<longrightarrow> t ! 0 = d"
    using w'(2) by (auto simp: etat_un_def)
  moreover from this(1) have "bs = octets_int 1" "bs' = octets_int 1"
    by (auto simp: append_eq_Cons_conv Cons_eq_append_conv)
  moreover have "c_int_ok 1" by (simp add: c_int_ok_def)
  ultimately have "t ! 0 = 1" "b ! 0" by blast+
  with r w'(1) show ?thesis by blast
qed

theorem rejouer_choix_temoin:
  "\<exists>b w'. recevoir_choix_rejouer (hote_un CHR ''n'') etat_un_pret = Some (b, w') \<and> b = (joueurs w' \<noteq> [])"
proof -
  have g: "gere 3 etat_un_pret"
    unfolding etat_un_pret_def by (rule gere_consigne [OF etat_un_ok(1)]) auto
  obtain b w' where r: "recevoir_choix_rejouer (hote_un CHR ''n'') etat_un_pret = Some (b, w')"
    using recevoir_choix_rejouer_dedans g unfolding gere_def by (metis surj_pair)
  from rejouer_choix [OF g r] r show ?thesis by blast
qed

theorem serveur_ressources_temoin:
  "\<exists>w'. serveur_main (hote_calme\<lparr>h_listen := \<lambda>_ _. -1\<rparr>) [] (replicate 10 0) (replicate 10 False) serveur_initial = Some (1, w') \<and>
    ouverts (journal w') = Some {#}"
proof -
  let ?E = "hote_calme\<lparr>h_listen := \<lambda>_ _. -1\<rparr>"
  obtain w' where w': "serveur_main ?E [] (replicate 10 0) (replicate 10 False) serveur_initial = Some (1, w')"
    by (simp add: serveur_main_def socket_tcp_def bind_adresse_def listen_def hote_calme_def Let_def)
  from serveur_ressources [OF _ _ _ w'] w' show ?thesis by (simp add: hasard_ok_def hote_calme_def)
qed

theorem serveur_sans_debordement_temoin:
  "tour_premier (hote_un CHR ''o'') 3 etat_un \<noteq> None \<and> tour_prets (hote_un CHR ''o'') 3 (fd_set_pile, replicate 10 False, etat_un) \<noteq> None \<and>
   tour_serveur (hote_un CHR ''o'') 3 (replicate 10 0, replicate 10 False, etat_un) \<noteq> None"
proof -
  have "accept_borne (hote_un CHR ''o'')" by (simp add: accept_borne_def hote_un_def hote_calme_def)
  note d = serveur_sans_debordement [OF hote_un_hasard this etat_un_ok attente_depart [OF etat_un_ok(1)] fd_set_pile_ok, of "replicate 10 0" "replicate 10 False"]
  from d have "tour_premier (hote_un CHR ''o'') 3 etat_un \<noteq> None" "tour_prets (hote_un CHR ''o'') 3 (fd_set_pile, replicate 10 False, etat_un) \<noteq> None"
    by (metis length_replicate option.distinct(1))+
  moreover from d etat_un_attente have "tour_serveur (hote_un CHR ''o'') 3 (replicate 10 0, replicate 10 False, etat_un) \<noteq> None"
    by simp
  ultimately show ?thesis by blast
qed

theorem attendre_clients_termine_temoin:
  "\<exists>w'. attendre_clients (hote_un CHR ''o'') 3 (consigne [Net (Socket 3)] serveur_initial) = Some w' \<and> 1 \<le> nb_clients w'"
proof -
  have "accept_ok (hote_un CHR ''o'')" by (simp add: accept_ok_def hote_un_def hote_calme_def)
  moreover have "select_ok (hote_un CHR ''o'')"
    by (auto simp: select_ok_def hote_un_def hote_calme_def Let_def filter_empty_conv)
  ultimately show ?thesis
    using attendre_clients_termine [of 3 "consigne [Net (Socket 3)] serveur_initial" "hote_un CHR ''o''"]
      gere_initial [of 3] by (auto simp: serveur_initial_def joueurs_def actifs_def)
qed
theorem tableaux_non_initialises_temoin:
  "\<exists>u c u' c' w'. recevoir_temps (hote_un CHR ''o'') (replicate 10 0) (replicate 10 False) etat_un = Some (u, c, w') \<and>
    recevoir_temps (hote_un CHR ''o'') (replicate 10 7) (replicate 10 True) etat_un = Some (u', c', w') \<and> u ! 0 = u' ! 0"
proof -
  obtain u c w' where r: "recevoir_temps (hote_un CHR ''o'') (replicate 10 0) (replicate 10 False) etat_un = Some (u, c, w')"
    using recevoir_temps_total [OF etat_un_ok, of "replicate 10 0" "replicate 10 False" "hote_un CHR ''o''"] by auto
  have "0 < nat (nb_clients etat_un)" by (simp add: etat_un_def)
  with tableaux_non_initialises [OF etat_un_ok(1) _ _ _ _ r, of "replicate 10 7" "replicate 10 True"] r show ?thesis
    by (metis length_replicate)
qed

end
