(* ===== verification/Client.thy ===== *)
theory Client
  imports Jeu Octets Serveur
begin

text \<open>
  \<open>client.c\<close>: the client of the network game, over the models of the peripheral libraries and of
  \<open>lib/jeu.c\<close>. \<open>main\<close> is cut where its comments cut it; each definition names its lines.

  The variables \<open>synchro\<close>, \<open>forme\<close>, \<open>indices\<close>, \<open>meilleur_temps\<close> and \<open>pire_temps\<close> are not
  initialised and the results of the receptions are not looked at: when a reception fails or is
  shorter than the variable, the program goes on with a value that C leaves indeterminate and about
  which nothing can be said, so the model stops there: these cases are \<^term>\<open>None\<close>, and a theorem on a round
  that returns is about a round whose receptions are whole; \<open>formes[forme]\<close> outside the table and a
  text too long for \<open>message\<close> are \<^term>\<open>None\<close> too.
\<close>

abbreviation (input) DEFAULT_SERVER_IP :: string where "DEFAULT_SERVER_IP \<equiv> ''127.0.0.1''"

section \<open>Receptions\<close>

definition recevoir_char :: "hote \<Rightarrow> int \<Rightarrow> 'a processus_scheme \<Rightarrow> (octet \<times> 'a processus_scheme) option" where
  "recevoir_char E fd w =
     (let (r, w) = recevoir_donnees E fd 1 w
      in case r of Some (c # _) \<Rightarrow> Some (c, w) | _ \<Rightarrow> None)"

definition recevoir_entier :: "hote \<Rightarrow> int \<Rightarrow> 'a processus_scheme \<Rightarrow> (int \<times> 'a processus_scheme) option" where
  "recevoir_entier E fd w =
     (let (r, w) = recevoir_donnees E fd 4 w
      in case r of Some bs \<Rightarrow> if length bs = 4 then Some (int_octets bs, w) else None | None \<Rightarrow> None)"

definition recevoir_indices :: "hote \<Rightarrow> int \<Rightarrow> 'a processus_scheme \<Rightarrow> (int list \<times> 'a processus_scheme) option" where
  "recevoir_indices E fd w =
     (let (r, w) = recevoir_donnees E fd (16 * 4) w
      in case r of Some bs \<Rightarrow> if length bs = 64 then Some (octets_tableau 16 bs, w) else None | None \<Rightarrow> None)"

section \<open>One round\<close>

text \<open>The contact, the confirmation and the start signal.\<close>

definition client_attente :: "hote \<Rightarrow> int \<Rightarrow> peripheriques \<Rightarrow> (bool \<times> peripheriques) option" where
  "client_attente E client_socket w = do {
     let w = touch_cleanup w;
     let w = matrice_btn_cleanup w;
     let w = delay 200 w;
     let w = matrice_btn_init w;
     let w = touch_init w;
     let w = delay 100 w;
     (_, w) \<leftarrow> attendre_contact_tactile E w;
     let confirmation = octet_de CHR ''1'';
     let (_, w) = envoyer_donnees E client_socket [confirmation] w;
     w \<leftarrow> lcd_effacer w;
     w \<leftarrow> lcd_ecrire 0 0 ''Attente des'' w;
     w \<leftarrow> lcd_ecrire 0 1 ''autres joueurs..'' w;
     (synchro, w) \<leftarrow> recevoir_char E client_socket w;
     if synchro \<noteq> octet_de CHR ''1'' then do {
       w \<leftarrow> lcd_effacer w;
       w \<leftarrow> lcd_ecrire 0 0 ''Erreur de synchro'' w;
       w \<leftarrow> lcd_ecrire 0 1 ''avec le serveur'' w;
       Some (False, delay 2000 w)
     }
     else Some (True, w)
   }"

text \<open>The shape and the grid.\<close>

definition client_grille :: "hote \<Rightarrow> int \<Rightarrow> peripheriques \<Rightarrow> (int \<times> peripheriques) option" where
  "client_grille E client_socket w = do {
     (forme, w) \<leftarrow> recevoir_entier E client_socket w;
     (indices, w) \<leftarrow> recevoir_indices E client_socket w;
     f \<leftarrow> formes_lire forme;
     let w = matrice_led_afficher_motif f w;
     (position_correcte, w) \<leftarrow> afficher_grille_predefinie forme indices w;
     w \<leftarrow> lcd_effacer w;
     w \<leftarrow> lcd_ecrire 0 0 ''Cherchez la forme'' w;
     w \<leftarrow> lcd_ecrire 0 1 ''dans la grille!'' w;
     let w = segment7_effacer w;
     w \<leftarrow> segment7_afficher_nombre 0 w;
     Some (position_correcte, w)
   }"

text \<open>The stopwatch: its loop is that of \<open>jouer_partie\<close>, line for line.\<close>

definition client_chrono :: "hote \<Rightarrow> peripheriques \<Rightarrow> (int \<times> int \<times> peripheriques) option" where
  "client_chrono E w = do {
     let (debut, w) = gettimeofday E w;
     (rep, w) \<leftarrow> boucle (chrono_tour E debut) (0, 0, -1, w);
     let (maintenant, w) = gettimeofday E w;
     let temps_secondes = secondes E maintenant debut;
     temps_final \<leftarrow> double_to_int (h_arrondi E (temps_secondes * 10));
     Some (rep, temps_final, w)
   }"

definition client_effacer :: "peripheriques \<Rightarrow> peripheriques" where
  "client_effacer w =
     (let w = segment7_effacer w;
          w = matrice_led_effacer w;
          w = fold (\<lambda>i. fold (\<lambda>j. clear_cell (int i) (int j)) [0..<4]) [0..<4] w
      in refresh_display w)"

definition format_temps_client :: "string \<Rightarrow> int \<Rightarrow> string" where
  "format_temps_client titre t = titre @ format_d (t sdiv 10) @ ''.'' @ format_d (t smod 10) @ ''s''"

definition client_resultat :: "int \<Rightarrow> bool \<Rightarrow> int \<Rightarrow> peripheriques \<Rightarrow> peripheriques option" where
  "client_resultat temps_final reponse_correcte position_correcte w =
     (if temps_final > 99 then do {
        w \<leftarrow> lcd_effacer w;
        w \<leftarrow> lcd_ecrire 0 0 ''Trop lent!'' w;
        message \<leftarrow> sprintf_buf 16 (format_temps_client ''Temps: '' temps_final);
        lcd_ecrire 0 1 message w
      }
      else if \<not> reponse_correcte then do {
        w \<leftarrow> lcd_effacer w;
        w \<leftarrow> lcd_ecrire 0 0 ''Mauvaise reponse!'' w;
        message \<leftarrow> sprintf_buf 16 (''Position: '' @ format_d position_correcte);
        lcd_ecrire 0 1 message w
      }
      else do {
        w \<leftarrow> lcd_effacer w;
        message \<leftarrow> sprintf_buf 16 (format_temps_client ''Temps: '' temps_final);
        w \<leftarrow> lcd_ecrire 0 0 message w;
        lcd_ecrire 0 1 ''Attente resultat'' w
      })"

text \<open>Sending the result, receiving and showing the comparison.\<close>

definition client_comparaison :: "hote \<Rightarrow> int \<Rightarrow> bool \<Rightarrow> int \<Rightarrow> peripheriques \<Rightarrow> peripheriques option" where
  "client_comparaison E client_socket reponse_correcte temps_final w = do {
     let est_correct = (if reponse_correcte then 1 else 0);
     let (_, w) = envoyer_donnees E client_socket (octets_int est_correct) w;
     let (_, w) = envoyer_donnees E client_socket (octets_int temps_final) w;
     (meilleur_temps, w) \<leftarrow> recevoir_entier E client_socket w;
     (pire_temps, w) \<leftarrow> recevoir_entier E client_socket w;
     let w = delay 2000 w;
     w \<leftarrow> lcd_effacer w;
     message \<leftarrow> sprintf_buf 16 (format_temps_client ''Meilleur: '' meilleur_temps);
     w \<leftarrow> lcd_ecrire 0 0 message w;
     message \<leftarrow> sprintf_buf 16 (format_temps_client ''Pire: '' pire_temps);
     w \<leftarrow> lcd_ecrire 0 1 message w;
     Some (delay 3000 w)
   }"

text \<open>The choice to play again: the result says whether to go on.\<close>

definition client_choix :: "hote \<Rightarrow> int \<Rightarrow> peripheriques \<Rightarrow> (bool \<times> peripheriques) option" where
  "client_choix E client_socket w = do {
     w \<leftarrow> lcd_effacer w;
     w \<leftarrow> lcd_ecrire 0 0 ''Rejouer ?'' w;
     w \<leftarrow> lcd_ecrire 0 1 ''O:BTN1  N:BTN2'' w;
     (choix, w) \<leftarrow> boucle (choix_tour E) (0, w);
     let reponse = octet_de (if choix = 1 then CHR ''o'' else CHR ''n'');
     let (_, w) = envoyer_donnees E client_socket [reponse] w;
     if reponse = octet_de CHR ''n'' then do {
       w \<leftarrow> lcd_effacer w;
       w \<leftarrow> lcd_ecrire 0 0 ''Fin du jeu!'' w;
       w \<leftarrow> lcd_ecrire 0 1 ''Au revoir!'' w;
       Some (False, w)
     }
     else Some (True, w)
   }"

definition tour_client :: "hote \<Rightarrow> int \<Rightarrow> peripheriques \<Rightarrow> (peripheriques + peripheriques) option" where
  "tour_client E client_socket w = do {
     (synchronise, w) \<leftarrow> client_attente E client_socket w;
     if \<not> synchronise then Some (Inr w)
     else do {
       (position_correcte, w) \<leftarrow> client_grille E client_socket w;
       (rep, temps_final, w) \<leftarrow> client_chrono E w;
       let reponse_correcte = (rep = position_correcte);
       let w = client_effacer w;
       w \<leftarrow> client_resultat temps_final reponse_correcte position_correcte w;
       w \<leftarrow> client_comparaison E client_socket reponse_correcte temps_final w;
       (continuer, w) \<leftarrow> client_choix E client_socket w;
       if continuer then Some (Inl w) else Some (Inr w)
     }
   }"

section \<open>The program\<close>

definition client_adresse :: "string list \<Rightarrow> string \<times> int" where
  "client_adresse argv =
     (if 1 < length argv then argv ! 1 else DEFAULT_SERVER_IP,
      if 2 < length argv then lire_port (argv ! 2) else SERVEUR_PORT)"

definition client_connexion :: "hote \<Rightarrow> string \<Rightarrow> int \<Rightarrow> int \<Rightarrow> peripheriques \<Rightarrow> (bool \<times> peripheriques) option" where
  "client_connexion E server_ip port client_socket w = do {
     w \<leftarrow> lcd_effacer w;
     w \<leftarrow> lcd_ecrire 0 0 ''Connexion au'' w;
     w \<leftarrow> lcd_ecrire 0 1 ''serveur...'' w;
     let (r, w) = connect E client_socket server_ip (htons (word_of_int port)) w;
     if r < 0 then do {
       w \<leftarrow> lcd_effacer w;
       w \<leftarrow> lcd_ecrire 0 0 ''Erreur connexion'' w;
       w \<leftarrow> lcd_ecrire 0 1 ''serveur!'' w;
       let w = delay 2000 w;
       let w = close client_socket w;
       w \<leftarrow> nettoyer_peripheriques w;
       Some (False, w)
     }
     else do {
       w \<leftarrow> lcd_effacer w;
       w \<leftarrow> lcd_ecrire 0 0 ''Connecte!'' w;
       w \<leftarrow> lcd_ecrire 0 1 ''En attente...'' w;
       Some (True, delay 1000 w)
     }
   }"

definition client_main :: "hote \<Rightarrow> string list \<Rightarrow> peripheriques \<Rightarrow> (int \<times> peripheriques) option" where
  "client_main E argv w = do {
     let (server_ip, port) = client_adresse argv;
     (r, w) \<leftarrow> initialiser_peripheriques E w;
     if r \<noteq> 0 then Some (1, w)
     else do {
       let w = matrice_led_luminosite 3 w;
       let (client_socket, w) = socket_tcp E w;
       if client_socket < 0 then do {
         w \<leftarrow> nettoyer_peripheriques w;
         Some (1, w)
       }
       else do {
         (connecte, w) \<leftarrow> client_connexion E server_ip port client_socket w;
         if \<not> connecte then Some (1, w)
         else do {
           w \<leftarrow> boucle (tour_client E client_socket) w;
           let w = close client_socket w;
           w \<leftarrow> nettoyer_peripheriques w;
           Some (0, w)
         }
       }
     }
   }"

end
