(* ===== verification/Traces.thy ===== *)
theory Traces
  imports Client Ressources Grillage
begin

text \<open>
  Footprints: which kinds of events each operation of the peripheral libraries may append to the
  journal, and which static variables it may assign. An operation that makes no call of some kind
  leaves alone everything that depends only on these calls and on the variables that go with them:
  what was sent, what the display and the terminal show, how often the clock was read.
\<close>

datatype sorte =
    Sortie | Broche_lcd | Broche_led | Bus_i2c | Entree | Terminal | Fenetre | Horloge | Tirage | Reseau | Fichier

fun genre :: "event \<Rightarrow> sorte" where
  "genre (Gpio (DigitalRead p v)) = Entree"
| "genre (Gpio (DigitalWrite p v)) =
     (if 101 \<le> p \<and> p \<le> 106 then Broche_lcd else if p = MOSI \<or> p = SCLK \<or> p = GPIO7 then Broche_led else Sortie)"
| "genre (Gpio e) = Sortie"
| "genre (I2c (I2CSetup a fd)) = Fichier"
| "genre (I2c (I2CWrite fd d)) = Bus_i2c"
| "genre (I2c (I2CWriteReg8 fd r d)) = Bus_i2c"
| "genre (I2c e) = Sortie"
| "genre (Nc (Getmaxyx h l)) = Fenetre"
| "genre (Nc e) = Terminal"
| "genre (Net (Socket fd)) = Fichier"
| "genre (Net (Accept ss fd)) = Fichier"
| "genre (Net e) = Reseau"
| "genre (Sys (Gettimeofday s u)) = Horloge"
| "genre (Sys (Rand r)) = Tirage"
| "genre (Sys Srand) = Tirage"
| "genre (Sys (Close fd)) = Fichier"
| "genre (Sys e) = Sortie"

text \<open>The variables of \<open>my_ncurses.c\<close>, \<open>my_lcd.c\<close> and \<open>my_7_segment.c\<close> go with their calls.\<close>

definition cadre :: "sorte set \<Rightarrow> peripheriques \<Rightarrow> peripheriques \<Rightarrow> bool" where
  "cadre A w w' \<longleftrightarrow>
     (Fenetre \<notin> A \<longrightarrow> screen_height w' = screen_height w \<and> screen_width w' = screen_width w \<and>
        start_x w' = start_x w \<and> start_y w' = start_y w) \<and>
     (Broche_lcd \<notin> A \<longrightarrow> lcds w' = lcds w \<and> lcdHandle w' = lcdHandle w \<and> lcdControl w' = lcdControl w \<and>
        initialised w' = initialised w) \<and>
     (Bus_i2c \<notin> A \<longrightarrow> display_buffer w' = display_buffer w \<and> i2c_fd w' = i2c_fd w)"

definition trace :: "sorte set \<Rightarrow> peripheriques \<Rightarrow> peripheriques \<Rightarrow> bool" where
  "trace A w w' \<longleftrightarrow> (\<exists>es. journal w' = journal w @ es \<and> genre ` set es \<subseteq> A) \<and> cadre A w w'"

abbreviation (input) sortes_lcd :: "sorte set" where "sortes_lcd \<equiv> {Sortie, Broche_lcd, Broche_led}"
abbreviation (input) sortes_led :: "sorte set" where "sortes_led \<equiv> {Sortie, Broche_led}"
abbreviation (input) sortes_segment :: "sorte set" where "sortes_segment \<equiv> {Sortie, Bus_i2c}"
abbreviation (input) sortes_boutons :: "sorte set" where "sortes_boutons \<equiv> {Sortie, Entree}"

named_theorems trace_intros
  \<open>an operation appends events of some kinds only\<close>

lemma traceE:
  assumes "trace A w w'"
  obtains es where "journal w' = journal w @ es" and "genre ` set es \<subseteq> A"
  using assms by (auto simp: trace_def)

lemma trace_evts:
  assumes "trace A w w'"
  obtains es where "journal w' = journal w @ es" and "\<forall>e \<in> set es. genre e \<in> A"
  using assms by (elim traceE) (simp add: image_subset_iff)

lemma trace_refl [trace_intros, simp]: "trace A w w"
  by (simp add: trace_def cadre_def)

lemma trace_trans:
  assumes "trace A w v" and "trace A v u"
  shows "trace A w u"
proof -
  obtain es where es: "journal v = journal w @ es" "genre ` set es \<subseteq> A" using assms(1) by (rule traceE)
  obtain fs where fs: "journal u = journal v @ fs" "genre ` set fs \<subseteq> A" using assms(2) by (rule traceE)
  have "journal u = journal w @ es @ fs" "genre ` set (es @ fs) \<subseteq> A" using es fs by auto
  moreover have "cadre A w u" using assms by (auto simp: trace_def cadre_def)
  ultimately show ?thesis unfolding trace_def by blast
qed

lemma trace_mono: "\<lbrakk>trace A w v; A \<subseteq> B\<rbrakk> \<Longrightarrow> trace B w v"
  unfolding trace_def cadre_def by blast

lemma trace_consigne [trace_intros]:
  assumes "trace A w v" and "genre ` set es \<subseteq> A"
  shows "trace A w (consigne es v)"
proof -
  obtain es' where es': "journal v = journal w @ es'" "genre ` set es' \<subseteq> A" using assms(1) by (rule traceE)
  have "journal (consigne es v) = journal w @ es' @ es" "genre ` set (es' @ es) \<subseteq> A" using es' assms(2) by auto
  moreover have "cadre A w (consigne es v)" using assms(1) by (simp add: trace_def cadre_def)
  ultimately show ?thesis unfolding trace_def by blast
qed

lemma trace_champs [simp]:
  "Bus_i2c \<in> A \<Longrightarrow> trace A w (v\<lparr>display_buffer := b\<rparr>) = trace A w v"
  "Bus_i2c \<in> A \<Longrightarrow> trace A w (v\<lparr>i2c_fd := f\<rparr>) = trace A w v"
  "Broche_lcd \<in> A \<Longrightarrow> trace A w (v\<lparr>lcds := l\<rparr>) = trace A w v"
  "Broche_lcd \<in> A \<Longrightarrow> trace A w (v\<lparr>lcdControl := c\<rparr>) = trace A w v"
  "Broche_lcd \<in> A \<Longrightarrow> trace A w (v\<lparr>lcdHandle := h\<rparr>) = trace A w v"
  "Broche_lcd \<in> A \<Longrightarrow> trace A w (v\<lparr>initialised := i\<rparr>) = trace A w v"
  "Fenetre \<in> A \<Longrightarrow> trace A w (v\<lparr>screen_height := sh\<rparr>) = trace A w v"
  "Fenetre \<in> A \<Longrightarrow> trace A w (v\<lparr>screen_width := sw\<rparr>) = trace A w v"
  "Fenetre \<in> A \<Longrightarrow> trace A w (v\<lparr>start_x := sx\<rparr>) = trace A w v"
  "Fenetre \<in> A \<Longrightarrow> trace A w (v\<lparr>start_y := sy\<rparr>) = trace A w v"
  by (simp_all add: trace_def cadre_def)

lemma trace_fold [trace_intros]:
  assumes "trace A w v" and "\<And>x u. x \<in> set xs \<Longrightarrow> trace A w u \<Longrightarrow> trace A w (f x u)"
  shows "trace A w (fold f xs v)"
  using assms by (induction xs arbitrary: v) auto

lemma foldM_conserve:
  assumes "foldM f xs s = Some s'" and "P s"
    and "\<And>x u u'. \<lbrakk>x \<in> set xs; P u; f x u = Some u'\<rbrakk> \<Longrightarrow> P u'"
  shows "P s'"
  using assms by (induction xs arbitrary: s) (auto simp: bind_Some_iff)

lemmas trace_foldM = foldM_conserve [where P = "trace A w" for A w]

section \<open>The calls\<close>

lemma trace_appels [trace_intros]:
  assumes "trace A w v" and "Sortie \<in> A"
  shows "trace A w (pinMode p m v)" "trace A w (pullUpDnControl p x v)"
    "trace A w (delay d v)" "trace A w (delayMicroseconds d v)" "trace A w (wiringPiSetupSys v)"
    "trace A w (mcp23008Setup b a v)" "trace A w (free v)"
  using assms by (auto simp: appels_def intro!: trace_consigne)

lemma trace_digitalWrite [trace_intros]:
  "\<lbrakk>trace A w v; if 101 \<le> p \<and> p \<le> 106 then Broche_lcd \<in> A
      else if p = MOSI \<or> p = SCLK \<or> p = GPIO7 then Broche_led \<in> A else Sortie \<in> A\<rbrakk> \<Longrightarrow> trace A w (digitalWrite p x v)"
  by (auto simp: appels_def intro!: trace_consigne)

lemma trace_bus [trace_intros]:
  assumes "trace A w v" and "Bus_i2c \<in> A"
  shows "trace A w (wiringPiI2CWrite f c v)" "trace A w (wiringPiI2CWriteReg8 f r c v)"
  using assms by (auto simp: appels_def intro!: trace_consigne)

lemma trace_mvaddch [trace_intros]: "\<lbrakk>trace A w v; Terminal \<in> A\<rbrakk> \<Longrightarrow> trace A w (mvaddch y x c v)"
  and trace_refresh [trace_intros]: "\<lbrakk>trace A w v; Terminal \<in> A\<rbrakk> \<Longrightarrow> trace A w (refresh v)"
  and trace_srand [trace_intros]: "\<lbrakk>trace A w v; Tirage \<in> A\<rbrakk> \<Longrightarrow> trace A w (srand_time v)"
  and trace_close [trace_intros]: "\<lbrakk>trace A w v; Fichier \<in> A\<rbrakk> \<Longrightarrow> trace A w (close fd v)"
  by (auto simp: appels_def intro!: trace_consigne)

lemma trace_digitalRead [trace_intros]: "\<lbrakk>trace A w v; Entree \<in> A\<rbrakk> \<Longrightarrow> trace A w (snd (digitalRead E p v))"
  and trace_gettimeofday [trace_intros]: "\<lbrakk>trace A w v; Horloge \<in> A\<rbrakk> \<Longrightarrow> trace A w (snd (gettimeofday E v))"
  and trace_rand [trace_intros]: "\<lbrakk>trace A w v; Tirage \<in> A\<rbrakk> \<Longrightarrow> trace A w (snd (rand E v))"
  and trace_malloc [trace_intros]: "\<lbrakk>trace A w v; Sortie \<in> A\<rbrakk> \<Longrightarrow> trace A w (snd (malloc E v))"
  and trace_i2cSetup [trace_intros]: "\<lbrakk>trace A w v; Fichier \<in> A\<rbrakk> \<Longrightarrow> trace A w (snd (wiringPiI2CSetup E a v))"
  and trace_wiringPiSetup [trace_intros]: "\<lbrakk>trace A w v; Sortie \<in> A\<rbrakk> \<Longrightarrow> trace A w (snd (wiringPiSetup E v))"
  by (auto simp: lectures_def Let_def intro!: trace_consigne)

lemma trace_snd: "p = (x, u) \<Longrightarrow> trace A w (snd p) \<Longrightarrow> trace A w u"
  by simp

section \<open>The LCD\<close>

lemma trace_lcd_bas [trace_intros]:
  assumes "trace A w v" and "sortes_lcd \<subseteq> A"
  shows "trace A w (ecrire_bits ps d v)" "trace A w (strobe l v)" "trace A w (sendDataCmd l c v)"
    "trace A w (putCommand l c v)" "trace A w (put4Command l c v)" "trace A w (lcd_broches l v)"
proof -
  have e: "trace A w (ecrire_bits ps d v)" if "trace A w v" for ps d v
    using that
  proof (induction ps d v rule: ecrire_bits.induct)
    case (2 pin pins d v)
    have "trace A w (digitalWrite pin (uint (d AND 1)) v)" using 2(2) assms(2) by (auto intro!: trace_digitalWrite)
    from 2(1) [OF this] show ?case by simp
  qed simp
  have s: "trace A w (strobe l v)" if "trace A w v" for l v
    using that assms(2) by (auto simp: strobe_def Let_def intro!: trace_intros)
  have d: "trace A w (sendDataCmd l c v)" if "trace A w v" for l c v
    using that assms(2) by (auto simp: sendDataCmd_def Let_def intro!: trace_intros e s)
  show "trace A w (ecrire_bits ps d v)" "trace A w (strobe l v)" "trace A w (sendDataCmd l c v)"
    using assms(1) by (rule e s d)+
  show "trace A w (putCommand l c v)" "trace A w (put4Command l c v)" "trace A w (lcd_broches l v)"
    using assms by (auto simp: putCommand_def put4Command_def lcd_broches_def Let_def intro!: trace_intros e s d)
qed

lemma trace_ranger [simp]: "Broche_lcd \<in> A \<Longrightarrow> trace A w (ranger_lcd l v) = trace A w v"
  by (simp add: ranger_lcd_def)

lemma trace_lcd:
  assumes "trace A w v" and "sortes_lcd \<subseteq> A"
  shows "lcd_effacer v = Some u \<Longrightarrow> trace A w u" "lcd_position x y v = Some u \<Longrightarrow> trace A w u"
    "lcd_caractere c v = Some u \<Longrightarrow> trace A w u" "lcd_affichage b v = Some u \<Longrightarrow> trace A w u"
    "lcd_curseur b v = Some u \<Longrightarrow> trace A w u" "lcd_curseur_clignote b v = Some u \<Longrightarrow> trace A w u"
  using assms
  by (auto simp: lcd_effacer_def lcd_position_def lcd_caractere_def lcd_affichage_def lcd_curseur_def lcd_curseur_clignote_def
      Let_def bind_Some_iff split: if_splits intro!: trace_intros)

lemma trace_lcd_ecrire:
  assumes "trace A w v" and "sortes_lcd \<subseteq> A" and "lcd_ecrire x y m v = Some u"
  shows "trace A w u"
proof -
  from assms(3) obtain v1 where 1: "lcd_position x y v = Some v1" "foldM (\<lambda>c. lcd_caractere (octet_de c)) (chaine_c m) v1 = Some u"
    by (auto simp: lcd_ecrire_def lcd_chaine_def bind_Some_iff)
  from 1(2) trace_lcd(2) [OF assms(1,2) 1(1)] show ?thesis
    by (rule trace_foldM) (use trace_lcd(3) assms(2) in blast)
qed

lemma trace_lcd_page:
  "\<lbrakk>trace A w v; sortes_lcd \<subseteq> A; lcd_page a b v = Some u\<rbrakk> \<Longrightarrow> trace A w u"
  by (auto simp: lcd_page_def bind_Some_iff dest!: trace_lcd(1) [rotated 2] trace_lcd_ecrire [rotated 2])

lemma trace_lcd_cleanup:
  "\<lbrakk>trace A w v; sortes_lcd \<subseteq> A; lcd_cleanup v = Some u\<rbrakk> \<Longrightarrow> trace A w u"
  by (auto simp: lcd_cleanup_def Let_def bind_Some_iff split: option.splits dest!: trace_lcd(1,4) [rotated 2] intro!: trace_intros)

lemma trace_lcd_demarrer:
  assumes "trace A w v" and "sortes_lcd \<subseteq> A" and "lcd_demarrer l v = Some (r, u)"
  shows "trace A w u"
proof -
  define v0 where "v0 = delay 35 (putCommand (l\<lparr>bits := 4\<rparr>) (LCD_FUNC OR LCD_FUNC_N) (ranger_lcd (l\<lparr>bits := 4\<rparr>)
    (delay 35 (put4Command (l) (drop_bit 4 LCD_FUNC) (delay 35 (put4Command l (drop_bit 4 (LCD_FUNC OR LCD_FUNC_DL))
    (delay 35 (put4Command l (drop_bit 4 (LCD_FUNC OR LCD_FUNC_DL)) (delay 35 (put4Command l (drop_bit 4 (LCD_FUNC OR LCD_FUNC_DL))
    (lcd_broches l v)))))))))))"
  have 0: "trace A w v0" unfolding v0_def using assms(1) assms(2) by (auto intro!: trace_intros)
  from assms(3) obtain a b c e l' where 1: "lcd_affichage 1 v0 = Some a" "lcd_curseur 0 a = Some b" "lcd_curseur_clignote 0 b = Some c"
    "lcd_effacer c = Some e" "u = putCommand l' (LCD_CDSHIFT OR LCD_CDSHIFT_RL) (putCommand l' (LCD_ENTRY OR LCD_ENTRY_ID) e)"
    unfolding lcd_demarrer_def v0_def Let_def bind_Some_iff by blast
  have "trace A w e"
    using 1(1-4) trace_lcd(1,4-6) [OF _ assms(2)] 0 by blast
  with 1(5) assms(2) show ?thesis by (auto intro!: trace_intros)
qed

lemma trace_lcd_init:
  assumes "trace A w v" and "sortes_lcd \<subseteq> A" and "{Bus_i2c, Fichier} \<subseteq> A" and "lcd_init E v = Some (r, u)"
  shows "trace A w u"
proof -
  obtain fd v1 where f: "wiringPiI2CSetup E ADRESSE_LCD (if initialised v = 0
              then v\<lparr>initialised := 1, lcds := fold (\<lambda>i l. l[i := None]) [0..<MAX_LCDS] (lcds v)\<rparr>
              else v) = (fd, v1)" by fastforce
  have 1: "trace A w v1" by (rule trace_snd [OF f]) (use assms in \<open>auto intro!: trace_intros\<close>)
  define v2 where "v2 = pinMode AF_BLUE OUTPUT (mcp23008Setup AF_BASE ADRESSE_LCD (wiringPiSetupSys
    (fold (\<lambda>i. wiringPiI2CWriteReg8 fd (int i) 0xFF) [0..<9] v1)))"
  have 2: "trace A w v2" unfolding v2_def using 1 assms(2,3) by (auto intro!: trace_intros)
  define v3 where "v3 = v2\<lparr>lcdHandle := chercher_libre 0 (lcds v2) (lcdHandle v2)\<rparr>"
  obtain ok v4 where m: "malloc E v3 = (ok, v4)" by fastforce
  have 4: "trace A w v4" by (rule trace_snd [OF m]) (use 2 assms(2) in \<open>auto simp: v3_def intro!: trace_intros\<close>)
  have "lcd_init E v = (if fd < 0 then Some (-1, v1) else if lcdHandle v3 = -1 then Some (-1, v3)
      else if \<not> ok then Some (-1, v4) else lcd_demarrer nouveau_lcd (ranger_lcd nouveau_lcd v4))"
    by (simp only: lcd_init_def Let_def f prod.case v2_def [symmetric] v3_def [symmetric] m)
  with assms(4) consider "u = v1" | "u = v3" | "u = v4" | "lcd_demarrer nouveau_lcd (ranger_lcd nouveau_lcd v4) = Some (r, u)"
    by (auto split: if_splits)
  then show ?thesis using 1 2 4 trace_lcd_demarrer [of A w "ranger_lcd nouveau_lcd v4"] assms(2) by cases (auto simp: v3_def)
qed

section \<open>The other peripherals\<close>

lemma trace_segment7 [trace_intros]:
  assumes "trace A w v" and "sortes_segment \<subseteq> A"
  shows "trace A w (envoyer_commande c v)" "trace A w (maj_affichage v)" "trace A w (segment7_effacer v)"
    "trace A w (segment7_ecrire_chiffre p x v)" "trace A w (segment7_luminosite l v)"
proof -
  have m: "trace A w (maj_affichage v)" if "trace A w v" for v
    using that assms(2) by (auto simp: maj_affichage_def Let_def intro!: trace_intros)
  show "trace A w (maj_affichage v)" "trace A w (segment7_effacer v)" "trace A w (segment7_ecrire_chiffre p x v)"
    using assms by (auto simp: segment7_effacer_def segment7_ecrire_chiffre_def Let_def intro!: m)
  show "trace A w (envoyer_commande c v)" "trace A w (segment7_luminosite l v)"
    using assms by (auto simp: envoyer_commande_def segment7_luminosite_def Let_def intro!: trace_intros)
qed

lemma trace_segment7_fichier [trace_intros]:
  assumes "trace A w v" and "sortes_segment \<subseteq> A" and "Fichier \<in> A"
  shows "trace A w (segment7_init E v)" "trace A w (segment7_cleanup v)"
proof -
  obtain fd v1 where f: "wiringPiI2CSetup E HT16K33_ADDRESS v = (fd, v1)" by fastforce
  have "trace A w v1" by (rule trace_snd [OF f]) (use assms in \<open>auto intro!: trace_intros\<close>)
  with f assms(2) show "trace A w (segment7_init E v)"
    by (auto simp: segment7_init_def Let_def intro!: trace_intros)
  show "trace A w (segment7_cleanup v)"
    using assms by (auto simp: segment7_cleanup_def Let_def intro!: trace_intros)
qed

lemma trace_afficher_nombre:
  assumes "trace A w v" and "sortes_segment \<subseteq> A" and "segment7_afficher_nombre n v = Some u"
  shows "trace A w u"
proof -
  have c: "trace A w (snd (afficher_chiffres n p v))" if "trace A w v" for n p v
    using that assms(2)
    by (induction n p v rule: afficher_chiffres.induct) (subst afficher_chiffres.simps, auto intro!: trace_intros)
  have e: "trace A w (segment7_effacer v)" using assms by (auto intro!: trace_intros)
  show ?thesis
  proof (cases "n = 0")
    case True
    with assms(2,3) e show ?thesis by (auto simp: segment7_afficher_nombre_def intro!: trace_intros)
  next
    case False
    have d: "trace A w x" if "afficher_chiffres k 3 (segment7_effacer v) = (p, x)" for k p x
      using c [OF e, of k 3] that by simp
    from False assms(2,3) show ?thesis
      by (auto simp: segment7_afficher_nombre_def Let_def bind_Some_iff split: if_splits prod.splits dest: d intro!: trace_intros)
  qed
qed

lemma trace_led [trace_intros]:
  assumes "trace A w v" and "sortes_led \<subseteq> A"
  shows "trace A w (matrice_led_envoyer_cmd a d v)" "trace A w (matrice_led_afficher_motif m v)" "trace A w (matrice_led_effacer v)"
    "trace A w (matrice_led_luminosite l v)" "trace A w (matrice_led_init v)" "trace A w (matrice_led_cleanup v)"
proof -
  have b: "trace A w (bit_write_boucle n d v)" if "trace A w v" for n d v
    using that
  proof (induction n arbitrary: d v)
    case (Suc n)
    show ?case unfolding bit_write_boucle.simps Let_def
      by (intro Suc.IH trace_digitalWrite Suc.prems) (use assms(2) in simp_all)
  qed simp
  have c: "trace A w (matrice_led_envoyer_cmd a d v)" if "trace A w v" for a d v
    using that assms(2) by (auto simp: matrice_led_envoyer_cmd_def bit_write_def Let_def intro!: trace_intros b)
  have m: "trace A w (matrice_led_afficher_motif m v)" if "trace A w v" for m v
    using that by (auto simp: matrice_led_afficher_motif_def matrice_led_ecrire_ligne_def intro!: trace_fold c)
  show "trace A w (matrice_led_envoyer_cmd a d v)" "trace A w (matrice_led_afficher_motif m v)" "trace A w (matrice_led_effacer v)"
    "trace A w (matrice_led_luminosite l v)" "trace A w (matrice_led_init v)" "trace A w (matrice_led_cleanup v)"
    using assms by (auto simp: matrice_led_effacer_def matrice_led_luminosite_def matrice_led_init_def matrice_led_cleanup_def
        Let_def intro!: c m trace_appels)
qed

lemma trace_boutons [trace_intros]:
  assumes "trace A w v" and "Sortie \<in> A"
  shows "trace A w (matrice_btn_init v)" "trace A w (matrice_btn_cleanup v)" "trace A w (lignes_inactives v)"
    "trace A w (activer_ligne l v)" "trace A w (touch_init v)" "trace A w (touch_cleanup v)"
  using assms
  by (auto simp: matrice_btn_init_def matrice_btn_cleanup_def lignes_inactives_def activer_ligne_def touch_init_def touch_cleanup_def
      Let_def intro!: trace_appels trace_digitalWrite)

lemma trace_lecture_boutons [trace_intros]:
  assumes "trace A w v" and "Sortie \<in> A" and "Entree \<in> A"
  shows "trace A w (snd (matrice_btn_lire E v))" "trace A w (snd (touch_read E v))"
proof -
  have c: "trace A w (snd (lire_colonnes E l v))" if "trace A w v" for l v
    using that assms(3) by (auto simp: lire_colonnes_def digitalRead_def Let_def intro!: trace_consigne)
  have "trace A w (snd (lire_lignes E ls v))" if "trace A w v" for ls v
    using that
  proof (induction E ls v rule: lire_lignes.induct)
    case (2 E l ls v)
    define v1 where "v1 = delay 2 (activer_ligne l (lignes_inactives v))"
    have 1: "trace A w v1" unfolding v1_def using 2(2) assms(2) by (intro trace_intros)
    obtain b v2 where b: "lire_colonnes E l v1 = (b, v2)" by fastforce
    have "trace A w (snd (lire_colonnes E l v1))" using 1 assms(3)
      by (auto simp: lire_colonnes_def digitalRead_def Let_def intro!: trace_consigne)
    then have "trace A w v2" using b by simp
    with 2(1) [OF refl refl] b show ?case by (auto simp: Let_def v1_def)
  qed simp
  from this [OF assms(1), of "[0, 1, 2, 3]"] show "trace A w (snd (matrice_btn_lire E v))"
    using assms(2) by (auto simp: matrice_btn_lire_def split: prod.splits intro!: trace_intros)
  show "trace A w (snd (touch_read E v))"
    using assms by (auto simp: touch_read_eq intro!: trace_consigne)
qed

lemma trace_grille [trace_intros]:
  assumes "trace A w v" and "Terminal \<in> A"
  shows "trace A w (draw_grid v)" "trace A w (display_pattern r c m v)" "trace A w (clear_cell r c v)" "trace A w (refresh_display v)"
    "trace A w (cleanup_ncurses v)"
  using assms
  by (auto simp: draw_grid_def display_pattern_def clear_cell_def refresh_display_def cleanup_ncurses_def Let_def
      intro!: trace_intros)

lemma trace_init_ncurses [trace_intros]:
  "\<lbrakk>trace A w v; {Terminal, Fenetre} \<subseteq> A\<rbrakk> \<Longrightarrow> trace A w (init_ncurses E v)"
  by (auto simp: init_ncurses_def Let_def split: prod.splits intro!: trace_consigne)

section \<open>What a footprint leaves alone\<close>

text \<open>The events that concern a device are of its own kind, and a device not concerned stays as it is.\<close>

lemma genre_appareils:
  "hd44780_concerne e \<Longrightarrow> genre e = Broche_lcd"
  "max7219_concerne e \<Longrightarrow> genre e = Broche_led"
  "ht16k33_concerne fd e \<Longrightarrow> genre e = Bus_i2c"
  "terminal_concerne e \<Longrightarrow> genre e = Terminal \<or> genre e = Fenetre"
  "registre_concerne e \<Longrightarrow> genre e = Fichier"
proof -
  show "hd44780_concerne e \<Longrightarrow> genre e = Broche_lcd" by (elim hd44780_concerne.elims(2)) simp_all
  show "max7219_concerne e \<Longrightarrow> genre e = Broche_led" by (elim max7219_concerne.elims(2)) auto
  show "ht16k33_concerne fd e \<Longrightarrow> genre e = Bus_i2c" by (elim ht16k33_concerne.elims(2)) simp_all
  show "registre_concerne e \<Longrightarrow> genre e = Fichier" by (elim registre_concerne.elims(2)) simp_all
  assume "terminal_concerne e"
  then show "genre e = Terminal \<or> genre e = Fenetre"
  proof (elim terminal_concerne.elims(2))
    fix n assume "e = Nc n"
    then show ?thesis by (cases n) simp_all
  qed
qed

lemma trace_sans:
  assumes "trace A w u" and "\<And>e. C e \<Longrightarrow> genre e \<notin> A"
  obtains es where "journal u = journal w @ es" and "\<And>e. e \<in> set es \<Longrightarrow> \<not> C e"
proof -
  obtain es where es: "journal u = journal w @ es" "\<forall>e \<in> set es. genre e \<in> A" using assms(1) by (rule trace_evts)
  have "\<not> C e" if "e \<in> set es" for e using assms(2) [of e] bspec [OF es(2) that] by blast
  with es(1) show thesis by (rule that)
qed

lemma lcd_pret_meme:
  "\<lbrakk>journal u = journal w; lcds u = lcds w; lcdHandle u = lcdHandle w\<rbrakk> \<Longrightarrow> lcd_pret D u = lcd_pret D w"
  by (simp add: lcd_pret_def lcd_struct_ok_def lcd_courant_def)

text \<open>The display, if no pin of its bus is written.\<close>

lemma trace_lcd_pret:
  assumes "trace A w u" and "Broche_lcd \<notin> A"
  shows "lcd_pret D u = lcd_pret D w" "lcd_texte D u = lcd_texte D w"
    and "hd44780_de D (journal u) = hd44780_de D (journal w)" "lcd_courant u = lcd_courant w"
proof -
  obtain es where es: "journal u = journal w @ es" "\<And>e. e \<in> set es \<Longrightarrow> \<not> hd44780_concerne e"
    by (rule trace_sans [OF assms(1), where C = hd44780_concerne]) (auto simp: genre_appareils assms(2))
  note autres = lcd_autres(1,2) [OF es(2)]
  have c: "lcds u = lcds w" "lcdHandle u = lcdHandle w" using assms by (simp_all add: trace_def cadre_def)
  show "lcd_pret D u = lcd_pret D w"
    using lcd_pret_meme [where u = u and w = "consigne es w" and D = D] c es(1) autres(1) [where d = D and w = w] by simp
  show "lcd_texte D u = lcd_texte D w"
    using es(1) autres(2) [where d = D and w = w] by (simp add: lcd_texte_def)
  show "hd44780_de D (journal u) = hd44780_de D (journal w)" using es by (simp add: hd44780.fold_ignore)
  show "lcd_courant u = lcd_courant w" using c by (simp add: lcd_courant_def)
qed

text \<open>The size of the terminal and the place of the grid, set by \<open>init_ncurses\<close>; what it shows.\<close>

lemma trace_fenetre:
  assumes "trace A w u" and "Fenetre \<notin> A"
  shows "grille_visible u = grille_visible w"
proof -
  obtain es where es: "journal u = journal w @ es" "\<forall>e \<in> set es. genre e \<in> A" using assms(1) by (rule trace_evts)
  have "hauteur (fold terminal_pas es t) = hauteur t \<and> largeur (fold terminal_pas es t) = largeur t" for t
    using es(2)
  proof (induction es arbitrary: t)
    case (Cons e es)
    have "hauteur (terminal_pas e t) = hauteur t \<and> largeur (terminal_pas e t) = largeur t"
      using Cons.prems assms(2) by (cases "(e, t)" rule: terminal_pas.cases) auto
    with Cons show ?case by simp
  qed simp
  then show ?thesis using assms es(1) by (simp add: grille_visible_def trace_def cadre_def)
qed

lemma trace_terminal:
  assumes "trace A w u" and "Terminal \<notin> A" "Fenetre \<notin> A"
  shows "terminal_de (journal u) = terminal_de (journal w)" "cellule_montre u = cellule_montre w"
    and "filter terminal_concerne (journal u) = filter terminal_concerne (journal w)"
proof -
  have sans: "genre e \<notin> A" if "terminal_concerne e" for e using genre_appareils(4) [OF that] assms(2,3) by auto
  obtain es where es: "journal u = journal w @ es" "\<And>e. e \<in> set es \<Longrightarrow> \<not> terminal_concerne e"
    by (rule trace_sans [OF assms(1), where C = terminal_concerne]) (simp_all add: sans)
  then show t: "terminal_de (journal u) = terminal_de (journal w)" by (simp add: terminal.fold_ignore)
  have c: "start_x u = start_x w" "start_y u = start_y w" using assms by (simp_all add: trace_def cadre_def)
  with t show "cellule_montre u = cellule_montre w"
    by (simp add: cellule_montre_def coin_y_def coin_x_def fun_eq_iff)
  show "filter terminal_concerne (journal u) = filter terminal_concerne (journal w)"
    using es by (simp add: filter_empty_conv)
qed

text \<open>The four digits and the matrix of LEDs.\<close>

lemma trace_controleur:
  assumes "trace A w u" and "Bus_i2c \<notin> A"
  shows "fold (ht16k33_pas fd) (journal u) d = fold (ht16k33_pas fd) (journal w) d"
    and "i2c_fd u = i2c_fd w" "display_buffer u = display_buffer w"
proof -
  obtain es where es: "journal u = journal w @ es" "\<And>e. e \<in> set es \<Longrightarrow> \<not> ht16k33_concerne fd e"
    by (rule trace_sans [OF assms(1), where C = "ht16k33_concerne fd"]) (auto simp: genre_appareils(3) assms(2))
  have "fold (ht16k33_pas fd) es x = x" for x by (rule ht16k33.fold_ignore) (rule es(2))
  with es(1) show "fold (ht16k33_pas fd) (journal u) d = fold (ht16k33_pas fd) (journal w) d" by simp
  show "i2c_fd u = i2c_fd w" "display_buffer u = display_buffer w" using assms by (simp_all add: trace_def cadre_def)
qed

lemma trace_max7219:
  assumes "trace A w u" and "Broche_led \<notin> A"
  shows "max7219_de d (journal u) = max7219_de d (journal w)"
proof -
  obtain es where es: "journal u = journal w @ es" "\<And>e. e \<in> set es \<Longrightarrow> \<not> max7219_concerne e"
    by (rule trace_sans [OF assms(1), where C = max7219_concerne]) (auto simp: genre_appareils(2) assms(2))
  then show ?thesis by (simp add: max7219_de_def max7219.fold_ignore)
qed

text \<open>The open descriptors.\<close>

lemma trace_ouverts:
  assumes "trace A w u" and "Fichier \<notin> A"
  shows "ouverts (journal u) = ouverts (journal w)"
proof -
  obtain es where "journal u = journal w @ es" "\<And>e. e \<in> set es \<Longrightarrow> \<not> registre_concerne e"
    by (rule trace_sans [OF assms(1), where C = registre_concerne]) (auto simp: genre_appareils(5) assms(2))
  then show ?thesis by (simp add: ouverts_neutre)
qed

end
