(* ===== verification/Horloge.thy ===== *)
theory Horloge
  imports Traces
begin

text \<open>
  The clock of the game. Durations are differences of two readings of \<open>gettimeofday\<close>, computed in
  \<open>double\<close> by \<^const>\<open>secondes\<close>. What the proofs use of the rounding of \<open>double\<close> and of the clock is
  stated by two predicates; nothing else is assumed of them.
\<close>

section \<open>Rounding\<close>

text \<open>
  IEEE 754, binary64: rounding is monotone, the integers up to $2^{53}$ are exact, and the error is
  at most half a unit in the last place, far from overflow.
\<close>

definition arrondi_ieee :: "hote \<Rightarrow> bool" where
  "arrondi_ieee E \<longleftrightarrow> mono (h_arrondi E) \<and> (\<forall>n. \<bar>n\<bar> \<le> 2 ^ 53 \<longrightarrow> h_arrondi E (of_int n) = of_int n) \<and>
     (\<forall>x. \<bar>x\<bar> \<le> 2 ^ 1000 \<longrightarrow> \<bar>h_arrondi E x - x\<bar> \<le> \<bar>x\<bar> / 2 ^ 53 + 1 / 2 ^ 1074)"

lemma arrondi_erreur:
  assumes "arrondi_ieee E" and "\<bar>x\<bar> \<le> 2000000000"
  shows "\<bar>h_arrondi E x - x\<bar> \<le> 3 / 10000000"
proof -
  have "(2000000000::real) \<le> 2 ^ 31" by simp
  also have "(2::real) ^ 31 \<le> 2 ^ 1000" by (rule power_increasing) simp_all
  finally have "\<bar>x\<bar> \<le> 2 ^ 1000" using assms(2) by linarith
  with assms(1) have "\<bar>h_arrondi E x - x\<bar> \<le> \<bar>x\<bar> / 2 ^ 53 + 1 / 2 ^ 1074" by (simp add: arrondi_ieee_def)
  moreover have "1 / 2 ^ 1074 \<le> 1 / (2::real) ^ 40"
    by (rule divide_left_mono) (simp_all add: power_increasing)
  moreover have "\<bar>x\<bar> / 2 ^ 53 \<le> 2000000000 / 2 ^ 53" using assms(2) by (rule divide_right_mono) simp
  moreover have "2000000000 / 2 ^ 53 + 1 / 2 ^ 40 \<le> (3 / 10000000 :: real)" by simp
  ultimately show ?thesis by linarith
qed

lemma arrondi_bornes:
  assumes "arrondi_ieee E" and "\<bar>n\<bar> \<le> 2 ^ 53"
  shows "of_int n \<le> x \<Longrightarrow> of_int n \<le> h_arrondi E x" and "x \<le> of_int n \<Longrightarrow> h_arrondi E x \<le> of_int n"
  using assms unfolding arrondi_ieee_def mono_def by metis+

definition microsecondes :: "int \<times> int \<Rightarrow> int" where
  "microsecondes t = fst t * 1000000 + snd t"

lemma million_bornes:
  fixes x :: int
  assumes "\<bar>x\<bar> \<le> 10 ^ 15"
  shows "\<bar>x div 1000000\<bar> \<le> 2 ^ 53" and "\<bar>- ((- x) div 1000000)\<bar> \<le> 2 ^ 53"
proof -
  have "\<bar>y div 1000000\<bar> \<le> 2 ^ 53" if "\<bar>y\<bar> \<le> 10 ^ 15" for y :: int
    using zdiv_mono1 [of "- (10 ^ 15)" y 1000000] zdiv_mono1 [of y "10 ^ 15" 1000000] that by simp
  from this [of x] this [of "- x"] assms show "\<bar>x div 1000000\<bar> \<le> 2 ^ 53" and "\<bar>- ((- x) div 1000000)\<bar> \<le> 2 ^ 53"
    by simp_all
qed

text \<open>The computed duration lies between the whole seconds below and above the exact one.\<close>

lemma secondes_encadrees:
  assumes r: "arrondi_ieee E"
    and m: "0 \<le> snd m" "snd m < 1000000" and d: "0 \<le> snd d" "snd d < 1000000"
    and D: "D = microsecondes m - microsecondes d" "\<bar>D\<bar> \<le> 10 ^ 15"
  shows "of_int (D div 1000000) \<le> secondes E m d" and "secondes E m d \<le> of_int (- ((- D) div 1000000))"
proof -
  define a b where "a = fst m - fst d" and "b = snd m - snd d"
  have D': "D = a * 1000000 + b" using D(1) by (simp add: a_def b_def microsecondes_def algebra_simps)
  have b: "- 1000000 < b" "b < 1000000" using m d by (auto simp: b_def)
  define x where "x = h_arrondi E (of_int b / 1000000)"
  have bas: "of_int (b div 1000000) \<le> x"
    unfolding x_def
  proof (rule arrondi_bornes(1) [OF r])
    show "\<bar>b div 1000000\<bar> \<le> 2 ^ 53" using b by (intro million_bornes) simp
    have "b div 1000000 * 1000000 \<le> b"
      using div_mult_mod_eq [of b 1000000] pos_mod_sign [of 1000000 b] by linarith
    then show "real_of_int (b div 1000000) \<le> of_int b / 1000000" by linarith
  qed
  have haut: "x \<le> of_int (- ((- b) div 1000000))"
    unfolding x_def
  proof (rule arrondi_bornes(2) [OF r])
    show "\<bar>- ((- b) div 1000000)\<bar> \<le> 2 ^ 53" using b by (intro million_bornes) simp
    have "(- b) div 1000000 * 1000000 \<le> - b"
      using div_mult_mod_eq [of "- b" 1000000] pos_mod_sign [of 1000000 "- b"] by linarith
    then show "of_int b / 1000000 \<le> real_of_int (- ((- b) div 1000000))" by linarith
  qed
  have s: "secondes E m d = h_arrondi E (of_int a + x)"
    by (simp add: secondes_def a_def b_def x_def)
  have "D div 1000000 = a + b div 1000000" unfolding D' by simp
  with bas have "of_int (D div 1000000) \<le> of_int a + x" by simp
  moreover have "\<bar>D div 1000000\<bar> \<le> 2 ^ 53" using D(2) by (intro million_bornes)
  ultimately show "of_int (D div 1000000) \<le> secondes E m d"
    unfolding s by (intro arrondi_bornes(1) [OF r])
  have "(- D) div 1000000 = - a + (- b) div 1000000" unfolding D' by (simp add: algebra_simps)
  with haut have "of_int a + x \<le> of_int (- ((- D) div 1000000))" by simp
  moreover have "\<bar>- ((- D) div 1000000)\<bar> \<le> 2 ^ 53" using D(2) by (intro million_bornes)
  ultimately show "secondes E m d \<le> of_int (- ((- D) div 1000000))"
    unfolding s by (intro arrondi_bornes(2) [OF r])
qed

text \<open>
  The tenths of a second that the program computes: \<open>(int)(secondes * 10)\<close>. They are the whole
  tenths of the exact duration, except that a duration of exactly \<open>k\<close> tenths may give \<open>k - 1\<close>.
\<close>

lemma secondes_proches:
  assumes r: "arrondi_ieee E"
    and m: "0 \<le> snd m" "snd m < 1000000" and d: "0 \<le> snd d" "snd d < 1000000"
    and D: "D = microsecondes m - microsecondes d" "0 \<le> D" "D \<le> 150000000000000"
  shows "\<bar>h_arrondi E (secondes E m d * 10) - of_int D / 100000\<bar> < 1 / 100000"
proof -
  define a b where "a = fst m - fst d" and "b = snd m - snd d"
  have D': "D = a * 1000000 + b" using D(1) by (simp add: a_def b_def microsecondes_def algebra_simps)
  have b: "- 1000000 < b" "b < 1000000" using m d by (auto simp: b_def)
  have a: "- 1 \<le> a" "a \<le> 150000001" using D(2,3) b unfolding D' by linarith+
  define x where "x = h_arrondi E (of_int b / 1000000)"
  define y where "y = h_arrondi E (of_int a + x)"
  define z where "z = h_arrondi E (y * 10)"
  have "\<bar>real_of_int b / 1000000\<bar> \<le> 1" using b by (simp add: abs_le_iff)
  then have x: "\<bar>x - of_int b / 1000000\<bar> \<le> 3 / 10000000"
    unfolding x_def by (intro arrondi_erreur [OF r]) linarith
  have e: "of_int D / 1000000 = of_int a + of_int b / (1000000 :: real)" unfolding D' by (simp add: add_divide_distrib)
  have DD: "0 \<le> of_int D / (1000000 :: real)" "of_int D / (1000000 :: real) \<le> 150000000" using D(2,3) by simp_all
  have "\<bar>y - (of_int a + x)\<bar> \<le> 3 / 10000000"
    unfolding y_def by (rule arrondi_erreur [OF r]) (use x e DD in linarith)
  with x e have y: "\<bar>y - of_int D / 1000000\<bar> \<le> 6 / 10000000" by linarith
  have "\<bar>z - y * 10\<bar> \<le> 3 / 10000000"
    unfolding z_def by (rule arrondi_erreur [OF r]) (use y DD in linarith)
  moreover have "of_int D / 100000 = of_int D / (1000000 :: real) * 10" by simp
  ultimately have "\<bar>z - of_int D / 100000\<bar> < 1 / 100000" using y by linarith
  then show ?thesis by (simp add: secondes_def z_def y_def x_def a_def b_def)
qed

lemma dixiemes_calcules:
  assumes "arrondi_ieee E" "0 \<le> snd m" "snd m < 1000000" "0 \<le> snd d" "snd d < 1000000"
    and D: "D = microsecondes m - microsecondes d" "0 \<le> D" "D \<le> 150000000000000"
  shows "\<exists>t. double_to_int (h_arrondi E (secondes E m d * 10)) = Some t \<and> 0 \<le> t \<and>
    (D - 1) div 100000 \<le> t \<and> t \<le> D div 100000"
proof -
  define z where "z = h_arrondi E (secondes E m d * 10)"
  have z: "\<bar>z - of_int D / 100000\<bar> < 1 / 100000" unfolding z_def by (rule secondes_proches [OF assms])
  have "\<bar>D\<bar> \<le> 10 ^ 15" using D(2,3) by simp
  from secondes_encadrees(1) [OF assms(1-5) D(1) this] have "0 \<le> secondes E m d"
    using pos_imp_zdiv_nonneg_iff [of 1000000 D] D(2) by linarith
  then have z0: "0 \<le> z" using arrondi_bornes(1) [OF assms(1), of 0 "secondes E m d * 10"] by (simp add: z_def)
  then have t: "trunc z = \<lfloor>z\<rfloor>" by (simp add: trunc_def)
  define q where "q = D div 100000"
  have q1: "D \<le> q * 100000 + 99999"
    using div_mult_mod_eq [of D 100000] pos_mod_bound [of 100000 D] unfolding q_def by linarith
  have "z < of_int q + 1"
  proof -
    have "of_int D / 100000 \<le> of_int q + (99999 / 100000 :: real)" using q1 by linarith
    with z show ?thesis by linarith
  qed
  then have haut: "\<lfloor>z\<rfloor> \<le> q" by (simp add: floor_le_iff)
  have "of_int ((D - 1) div 100000) \<le> z"
  proof -
    have "(D - 1) div 100000 * 100000 \<le> D - 1"
      using div_mult_mod_eq [of "D - 1" 100000] pos_mod_sign [of 100000 "D - 1"] by linarith
    then have "of_int ((D - 1) div 100000 * 100000) \<le> (of_int (D - 1) :: real)" by (simp only: of_int_le_iff)
    then have "of_int ((D - 1) div 100000) \<le> (of_int D - 1) / (100000 :: real)" by simp
    with z show ?thesis by linarith
  qed
  then have bas: "(D - 1) div 100000 \<le> \<lfloor>z\<rfloor>" by (simp add: le_floor_iff)
  have "q \<le> 1500000000" using zdiv_mono1 [OF D(3), of 100000] by (simp add: q_def)
  then have "q < 2 ^ 31" by simp
  with haut have "\<lfloor>z\<rfloor> < 2 ^ 31" by (rule le_less_trans)
  then have "c_int_ok \<lfloor>z\<rfloor>" using z0 by (simp add: c_int_ok_def del: floor_less_numeral)
  with t bas haut z0 show ?thesis by (simp add: double_to_int_def q_def flip: z_def)
qed

section \<open>The clock\<close>

text \<open>
  What a journal says of the clock: its last reading in microseconds, and whether the program has
  asked for a pause of at least ten milliseconds since.
\<close>

fun montre_pas :: "event \<Rightarrow> (int \<times> bool) option \<Rightarrow> (int \<times> bool) option" where
  "montre_pas (Sys (Gettimeofday s u)) m = Some (microsecondes (s, u), False)"
| "montre_pas (Sys (Delay n)) m = map_option (\<lambda>(l, p). (l, p \<or> 10 \<le> n)) m"
| "montre_pas e m = m"

fun montre_concerne :: "event \<Rightarrow> bool" where
  "montre_concerne (Sys (Gettimeofday s u)) \<longleftrightarrow> True"
| "montre_concerne (Sys (Delay n)) \<longleftrightarrow> True"
| "montre_concerne e \<longleftrightarrow> False"

interpretation montre: appareil montre_pas montre_concerne
proof
  show "montre_pas e m = m" if "\<not> montre_concerne e" for e m
    using that by (induction e m rule: montre_pas.induct) auto
qed

definition montre :: "journal_t \<Rightarrow> (int \<times> bool) option" where
  "montre h = fold montre_pas h None"

lemma montre_append [simp]: "montre (h @ es) = fold montre_pas es (montre h)"
  by (simp add: montre_def)

text \<open>
  The clock gives microseconds below a million, never goes back, moves on by ten milliseconds at
  least over such a pause, and by at most \<open>saut\<close> microseconds between two readings; $10^7$
  seconds is far more than the game can wait for.
\<close>

definition horloge_jusque :: "int \<Rightarrow> hote \<Rightarrow> bool" where
  "horloge_jusque saut E \<longleftrightarrow> (\<forall>h. 0 \<le> snd (h_horloge E h) \<and> snd (h_horloge E h) < 1000000 \<and>
     (case montre h of None \<Rightarrow> True | Some (l, pause) \<Rightarrow>
        l + (if pause then 10000 else 0) \<le> microsecondes (h_horloge E h) \<and>
        microsecondes (h_horloge E h) \<le> l + saut))"

abbreviation horloge_reguliere :: "hote \<Rightarrow> bool" where
  "horloge_reguliere \<equiv> horloge_jusque (10 ^ 13)"

lemma horloge_reguliereD:
  assumes "horloge_jusque saut E"
  shows "0 \<le> snd (h_horloge E h)" "snd (h_horloge E h) < 1000000"
    and "montre h = Some (l, pause) \<Longrightarrow> l + (if pause then 10000 else 0) \<le> microsecondes (h_horloge E h)"
    and "montre h = Some (l, pause) \<Longrightarrow> microsecondes (h_horloge E h) \<le> l + saut"
proof -
  have h: "0 \<le> snd (h_horloge E h) \<and> snd (h_horloge E h) < 1000000 \<and>
     (case montre h of None \<Rightarrow> True | Some (l, pause) \<Rightarrow>
        l + (if pause then 10000 else 0) \<le> microsecondes (h_horloge E h) \<and>
        microsecondes (h_horloge E h) \<le> l + saut)"
    using assms unfolding horloge_jusque_def by (rule spec)
  then show "0 \<le> snd (h_horloge E h)" "snd (h_horloge E h) < 1000000" by simp_all
  show "l + (if pause then 10000 else 0) \<le> microsecondes (h_horloge E h)" if "montre h = Some (l, pause)"
    using h unfolding that by simp
  show "microsecondes (h_horloge E h) \<le> l + saut" if "montre h = Some (l, pause)"
    using h unfolding that by simp
qed

lemma horloge_jusque_positif: "horloge_jusque saut E \<Longrightarrow> 10000 \<le> saut"
  using horloge_reguliereD(3,4) [of saut E "[Sys (Gettimeofday 0 0), Sys (Delay 10)]" 0 True]
  by (simp add: montre_def microsecondes_def)

lemma horloge_jusque_mono: "\<lbrakk>horloge_jusque saut E; saut \<le> saut'\<rbrakk> \<Longrightarrow> horloge_jusque saut' E"
  unfolding horloge_jusque_def by (fastforce split: option.splits)

text \<open>Calls that do not read the clock keep its last reading.\<close>

lemma montre_sans_lecture:
  assumes "trace A w u" and "Horloge \<notin> A" and "montre (journal w) = Some (l, p)"
  shows "\<exists>p'. montre (journal u) = Some (l, p') \<and> (p \<longrightarrow> p')"
proof -
  from assms(1) obtain es where es: "journal u = journal w @ es" "genre ` set es \<subseteq> A" by (auto simp: trace_def)
  have "\<exists>p'. fold montre_pas es (Some (l, p)) = Some (l, p') \<and> (p \<longrightarrow> p')"
    using es(2) assms(2)
  proof (induction es arbitrary: p)
    case (Cons e es)
    have "\<exists>p'. montre_pas e (Some (l, p)) = Some (l, p') \<and> (p \<longrightarrow> p')"
      using Cons.prems by (cases "(e, Some (l, p))" rule: montre_pas.cases) auto
    then obtain p' where p': "montre_pas e (Some (l, p)) = Some (l, p')" "p \<longrightarrow> p'" by blast
    have "\<exists>p''. fold montre_pas es (Some (l, p')) = Some (l, p'') \<and> (p' \<longrightarrow> p'')"
      using Cons.prems by (intro Cons.IH) auto
    with p' show ?case by auto
  qed simp
  with es(1) assms(3) show ?thesis by simp
qed

text \<open>A host with a clock that moves on by the same step, and exact arithmetic.\<close>

definition hote_horloge :: "int \<Rightarrow> hote" where
  "hote_horloge pas = hote_calme\<lparr>h_horloge := (\<lambda>h. case montre h of None \<Rightarrow> (0, 0)
     | Some (l, p) \<Rightarrow> ((l + pas) div 1000000, (l + pas) mod 1000000))\<rparr>"

lemma hote_horloge_arrondi: "arrondi_ieee (hote_horloge pas)"
  by (simp add: arrondi_ieee_def hote_horloge_def hote_calme_def mono_def)

lemma hote_horloge_regulier: "\<lbrakk>10000 \<le> pas; pas \<le> saut\<rbrakk> \<Longrightarrow> horloge_jusque saut (hote_horloge pas)"
  unfolding horloge_jusque_def
  by (auto simp: hote_horloge_def microsecondes_def mult.commute split: option.split)

end
