(* ===== verification/Contact.thy ===== *)
theory Contact
  imports Horloge
begin

text \<open>
  The wait for the player (\<open>attendre_contact_tactile\<close> of \<open>lib/jeu.c\<close>): what the calls it made show
  when it returns, and that it returns for a player who keeps touching the sensor.
\<close>

section \<open>What the calls show\<close>

text \<open>
  In \<open>es\<close> the sensor was read \<open>HIGH\<close>, the clock then gave \<open>d\<close>, later \<open>m\<close>, and every reading of
  the sensor since then was \<open>HIGH\<close>.
\<close>

definition contact_tenu :: "event list \<Rightarrow> int \<times> int \<Rightarrow> int \<times> int \<Rightarrow> bool" where
  "contact_tenu es d m \<longleftrightarrow> (\<exists>avant milieu fin.
     es = avant @ [Gpio (DigitalRead TOUCH_PIN HIGH), Sys (Gettimeofday (fst d) (snd d))] @ milieu @
       [Sys (Gettimeofday (fst m) (snd m))] @ fin \<and>
     (\<forall>v. Gpio (DigitalRead TOUCH_PIN v) \<in> set (milieu @ fin) \<longrightarrow> v = HIGH))"

lemma contact_tenu_debut:
  "contact_tenu (es @ [Gpio (DigitalRead TOUCH_PIN HIGH), Sys (Gettimeofday (fst d) (snd d)),
     Sys (Gettimeofday (fst m) (snd m))]) d m"
  unfolding contact_tenu_def by (rule exI [of _ es], rule exI [of _ "[]"], rule exI [of _ "[]"]) simp

lemma contact_tenu_suite:
  assumes "contact_tenu es d m" and "\<And>v. Gpio (DigitalRead TOUCH_PIN v) \<in> set fs \<Longrightarrow> v = HIGH"
  shows "contact_tenu (es @ fs) d m"
proof -
  from assms(1) obtain avant milieu fin where
    "es = avant @ [Gpio (DigitalRead TOUCH_PIN HIGH), Sys (Gettimeofday (fst d) (snd d))] @ milieu @
       [Sys (Gettimeofday (fst m) (snd m))] @ fin"
    "\<forall>v. Gpio (DigitalRead TOUCH_PIN v) \<in> set (milieu @ fin) \<longrightarrow> v = HIGH"
    unfolding contact_tenu_def by blast
  with assms(2) show ?thesis
    unfolding contact_tenu_def
    by (intro exI [of _ avant] exI [of _ milieu] exI [of _ "fin @ fs"]) auto
qed

lemma contact_tenu_mesure:
  assumes "contact_tenu es d m"
  shows "contact_tenu (es @ [Sys (Gettimeofday (fst m') (snd m'))]) d m'"
proof -
  from assms obtain avant milieu fin where
    "es = avant @ [Gpio (DigitalRead TOUCH_PIN HIGH), Sys (Gettimeofday (fst d) (snd d))] @ milieu @
       [Sys (Gettimeofday (fst m) (snd m))] @ fin"
    "\<forall>v. Gpio (DigitalRead TOUCH_PIN v) \<in> set (milieu @ fin) \<longrightarrow> v = HIGH"
    unfolding contact_tenu_def by blast
  then show ?thesis
    unfolding contact_tenu_def
    by (intro exI [of _ avant] exI [of _ "milieu @ [Sys (Gettimeofday (fst m) (snd m))] @ fin"] exI [of _ "[]"]) auto
qed

section \<open>One turn\<close>

text \<open>
  The reading of the sensor and of the clock in three cases: no contact, a contact that begins and
  one that goes on.
\<close>

lemma contact_lecture_cas:
  fixes E :: hote and w :: peripheriques
  defines "lu \<equiv> h_digitalRead E (journal w) TOUCH_PIN"
  defines "w1 \<equiv> consigne [Gpio (DigitalRead TOUCH_PIN lu)] w"
  defines "t1 \<equiv> h_horloge E (journal w1)"
  defines "w2 \<equiv> consigne [Sys (Gettimeofday (fst t1) (snd t1))] w1"
  defines "t2 \<equiv> h_horloge E (journal w2)"
  shows "lu \<noteq> HIGH \<Longrightarrow> contact_lecture E d actif t w = (d, False, if actif then 0 else t, w1)"
    and "lu = HIGH \<Longrightarrow> contact_lecture E d True t w = (d, True, secondes E t1 d, w2)"
    and "lu = HIGH \<Longrightarrow> contact_lecture E d False t w =
      (t1, True, secondes E t2 t1, consigne [Sys (Gettimeofday (fst t2) (snd t2))] w2)"
  by (auto simp: contact_lecture_def touch_read_eq gettimeofday_def Let_def w1_def w2_def t1_def t2_def lu_def)

lemma trace_barre:
  "\<lbrakk>barre_progression n v = Some u; trace A w v; sortes_lcd \<subseteq> A\<rbrakk> \<Longrightarrow> trace A w u"
  unfolding barre_progression_def bind_Some_iff
  by (elim exE conjE, erule trace_foldM) (auto intro: trace_lcd)

text \<open>The variables of the loop say what the calls show: the state of a turn after the calls \<open>es\<close>.\<close>

definition contact_suivi :: "hote \<Rightarrow> journal_t \<Rightarrow> (int \<times> int) \<times> bool \<times> real \<times> peripheriques \<Rightarrow> bool" where
  "contact_suivi E h s = (case s of (d, actif, t, w) \<Rightarrow> \<exists>es. journal w = h @ es \<and>
     (if actif then \<exists>m. contact_tenu es d m \<and> t = secondes E m d else t = 0))"

lemma contact_suivi_actif: "\<lbrakk>journal w = h @ es; contact_tenu es d m\<rbrakk> \<Longrightarrow> contact_suivi E h (d, True, secondes E m d, w)"
  and contact_suivi_inactif: "journal w = h @ es \<Longrightarrow> contact_suivi E h (d, False, 0, w)"
  unfolding contact_suivi_def prod.case by (auto simp del: split_paired_Ex)

lemma contact_suiviE:
  assumes "contact_suivi E h (d, actif, t, w)"
  obtains es m where "actif" "journal w = h @ es" "contact_tenu es d m" "t = secondes E m d"
    | es where "\<not> actif" "t = 0" "journal w = h @ es"
  using assms unfolding contact_suivi_def prod.case by (metis (full_types))

lemma contact_suivi_lecture:
  assumes "contact_suivi E h (d, actif, t, w)"
  shows "contact_suivi E h (contact_lecture E d actif t w)"
proof -
  define lu where "lu = h_digitalRead E (journal w) TOUCH_PIN"
  define w1 where "w1 = consigne [Gpio (DigitalRead TOUCH_PIN lu)] w"
  define t1 where "t1 = h_horloge E (journal w1)"
  define w2 where "w2 = consigne [Sys (Gettimeofday (fst t1) (snd t1))] w1"
  define t2 where "t2 = h_horloge E (journal w2)"
  note cas = contact_lecture_cas [of E w, folded lu_def, folded w1_def, folded t1_def, folded w2_def, folded t2_def]
  show ?thesis
  proof (cases "lu = HIGH")
    case False
    obtain es where "journal w = h @ es" "actif \<or> t = 0" using assms by (elim contact_suiviE) auto
    with cas(1) [OF False, of d actif t] show ?thesis
      using contact_suivi_inactif [of w1 h "es @ [Gpio (DigitalRead TOUCH_PIN lu)]" E d] by (auto simp: w1_def)
  next
    case lu: True
    from assms show ?thesis
    proof (cases rule: contact_suiviE)
      case (1 es m)
      have "contact_tenu (es @ [Gpio (DigitalRead TOUCH_PIN lu)]) d m"
        using lu by (intro contact_tenu_suite [OF 1(3)]) simp
      from contact_suivi_actif [OF _ contact_tenu_mesure [OF this, of t1], where E = E and w = w2 and h = h] 1(1,2) cas(2) [OF lu, of d t]
      show ?thesis by (simp add: w2_def w1_def)
    next
      case (2 es)
      from contact_suivi_actif [OF _ contact_tenu_debut [of es t1 t2], where E = E and h = h] 2 cas(3) [OF lu, of d t] lu
      show ?thesis by (simp add: w2_def w1_def)
    qed
  qed
qed

lemma contact_suivi_trace:
  assumes "contact_suivi E h (d, actif, t, w)" and "trace sortes_lcd w u"
  shows "contact_suivi E h (d, actif, t, u)"
proof -
  from assms(2) obtain fs where fs: "journal u = journal w @ fs" "genre ` set fs \<subseteq> sortes_lcd" by (auto simp: trace_def)
  have fs': "v = HIGH" if "Gpio (DigitalRead TOUCH_PIN v) \<in> set fs" for v
    using that fs(2) by force
  from assms(1) show ?thesis
  proof (cases rule: contact_suiviE)
    case (1 es m)
    from contact_suivi_actif [OF _ contact_tenu_suite [OF 1(3) fs'], where E = E and w = u and h = h] 1 fs(1) show ?thesis by simp
  next
    case (2 es)
    with fs(1) show ?thesis using contact_suivi_inactif [of u h "es @ fs" E d] by simp
  qed
qed

lemma contact_suivi_tour:
  assumes "contact_suivi E h s" and "contact_tour E s = Some (Inl s')"
  shows "contact_suivi E h s'"
proof -
  obtain d actif t w where s: "s = (d, actif, t, w)" by (cases s) auto
  obtain d1 actif1 t1 w1 where l: "contact_lecture E d actif t w = (d1, actif1, t1, w1)"
    by (metis prod_cases4)
  from assms(2) s l obtain n u where u: "barre_progression n w1 = Some u" "s' = (d1, actif1, t1, delay 10 u)"
    by (auto simp: contact_tour_def bind_Some_iff split: if_splits)
  have "trace sortes_lcd w1 (delay 10 u)"
    using trace_barre [OF u(1), of sortes_lcd w1] by (intro trace_intros) simp_all
  with contact_suivi_lecture [OF assms(1) [unfolded s], unfolded l] u(2) show ?thesis
    using contact_suivi_trace by blast
qed

lemma contact_suivi_boucle:
  assumes "boucle (contact_tour E) s = Some (t, w')" and "contact_suivi E h s"
  shows "1 \<le> t \<and> (\<exists>es d m. journal w' = h @ es \<and> contact_tenu es d m \<and> t = secondes E m d)"
proof -
  have "1 \<le> fst r \<and> (\<exists>es d m. journal (snd r) = h @ es \<and> contact_tenu es d m \<and> fst r = secondes E m d)"
    if s: "contact_suivi E h s" and r: "contact_tour E s = Some (Inr r)" for s r
  proof -
    obtain d actif t w where eq: "s = (d, actif, t, w)" by (cases s) auto
    with r have "r = (t, w)" "\<not> t < 1" by (auto simp: contact_tour_def bind_Some_iff split: if_splits prod.splits)
    with s show ?thesis unfolding eq by (elim contact_suiviE) (auto simp del: split_paired_Ex)
  qed
  then have "1 \<le> fst (t, w') \<and> (\<exists>es d m. journal (snd (t, w')) = h @ es \<and> contact_tenu es d m \<and> fst (t, w') = secondes E m d)"
    using boucle_invariant [where f = "contact_tour E" and s = s and r = "(t, w')" and P = "contact_suivi E h" and
        Q = "\<lambda>r. 1 \<le> fst r \<and> (\<exists>es d m. journal (snd r) = h @ es \<and> contact_tenu es d m \<and> fst r = secondes E m d)"]
      contact_suivi_tour assms by blast
  then show ?thesis by simp
qed


section \<open>The display during the wait\<close>

lemma reinitialiser_eq: "\<exists>v. reinitialiser_capteur_touch E w = consigne
    ([Gpio (PinMode TOUCH_PIN INPUT), Gpio (PullUpDn TOUCH_PIN PUD_OFF), Sys (Delay 200), Gpio (PinMode TOUCH_PIN INPUT),
      Gpio (PullUpDn TOUCH_PIN PUD_UP), Sys (Delay 100), Gpio (DigitalRead TOUCH_PIN v), Sys (Delay 100)]) w"
  by (simp add: reinitialiser_capteur_touch_def touch_cleanup_eq touch_init_eq touch_read_eq appels_def Let_def)

lemma lcd_pret_appels [simp]:
  "list_all (\<lambda>e. \<not> hd44780_concerne e) es \<Longrightarrow> lcd_pret D (consigne es w) = lcd_pret D w"
  by (rule lcd_autres(1)) (simp add: list_all_iff)

lemma reinitialiser_lcd: "lcd_pret D w \<Longrightarrow> lcd_pret D (reinitialiser_capteur_touch E w)"
proof -
  assume w: "lcd_pret D w"
  obtain v where "reinitialiser_capteur_touch E w = consigne
    ([Gpio (PinMode TOUCH_PIN INPUT), Gpio (PullUpDn TOUCH_PIN PUD_OFF), Sys (Delay 200), Gpio (PinMode TOUCH_PIN INPUT),
      Gpio (PullUpDn TOUCH_PIN PUD_UP), Sys (Delay 100), Gpio (DigitalRead TOUCH_PIN v), Sys (Delay 100)]) w"
    using reinitialiser_eq by blast
  then show ?thesis using w by simp
qed

text \<open>The bar has as many marks as asked for, at most sixteen, and dots up to the edge.\<close>

lemma barre_juste:
  assumes "lcd_pret D w"
  shows "\<exists>u. barre_progression n w = Some u \<and> lcd_pret D u"
proof -
  from lcd.ecrire [OF assms, of 0 1 "\<lambda>i. octet_de (if int i < n then CHR ''#'' else CHR ''.'')" "[0..<16]"]
  show ?thesis unfolding barre_progression_def by auto
qed

lemma points_justes:
  assumes "lcd_pret D w"
  shows "\<exists>u. foldM (\<lambda>i w. Option.bind (lcd_position (int i) 1 w) (lcd_caractere (octet_de CHR ''.''))) [0..<16] w = Some u \<and> lcd_pret D u"
  using assms
proof (rule foldM_invariant)
  fix i :: nat and v
  assume "i \<in> set [0..<16]" "lcd_pret D v"
  then have "0 \<le> int i" "int i < 16" by auto
  from lcd_position_juste [OF \<open>lcd_pret D v\<close> this, of 1]
  obtain v1 where "lcd_position (int i) 1 v = Some v1" "lcd_aligne D v1 (16 + int i)" by auto
  with lcd_caractere_juste [of D v1 "16 + int i" "octet_de CHR ''.''"] lcd_aligne_pret
  show "\<exists>u. Option.bind (lcd_position (int i) 1 v) (lcd_caractere (octet_de CHR ''.'')) = Some u \<and> lcd_pret D u"
    by fastforce
qed

section \<open>The wait ends\<close>

text \<open>
  The state of the loop for a player who keeps touching: the last reading of the clock was at or
  after the beginning of the contact, and a pause has been asked for since.
\<close>

definition contact_en_cours :: "hote \<Rightarrow> hd44780 \<Rightarrow> (int \<times> int) \<times> bool \<times> real \<times> peripheriques \<Rightarrow> bool" where
  "contact_en_cours E D s = (case s of (d, actif, t, w) \<Rightarrow> lcd_pret D w \<and>
     (if actif then 0 \<le> snd d \<and> snd d < 1000000 \<and> (\<exists>m. montre (journal w) = Some (microsecondes m, True) \<and>
          0 \<le> snd m \<and> snd m < 1000000 \<and> microsecondes d \<le> microsecondes m \<and>
          microsecondes m - microsecondes d \<le> 10 ^ 14 + 1000000 \<and> t = secondes E m d)
      else t = 0))"

definition contact_reste :: "(int \<times> int) \<times> bool \<times> real \<times> peripheriques \<Rightarrow> nat" where
  "contact_reste s = (case s of (d, actif, t, w) \<Rightarrow>
     if actif then nat (1000000 - (fst (the (montre (journal w))) - microsecondes d)) else 1000001)"

lemma secondes_courtes:
  assumes "arrondi_ieee E" "0 \<le> snd m" "snd m < 1000000" "0 \<le> snd d" "snd d < 1000000"
    and "microsecondes d \<le> microsecondes m" "microsecondes m - microsecondes d \<le> 10 ^ 14 + 1000000"
  shows "0 \<le> secondes E m d" and "secondes E m d \<le> 100000001"
    and "secondes E m d < 1 \<Longrightarrow> microsecondes m - microsecondes d < 1000000"
proof -
  define D where "D = microsecondes m - microsecondes d"
  have D: "0 \<le> D" "D \<le> 10 ^ 14 + 1000000" using assms(6,7) by (simp_all add: D_def)
  then have "\<bar>D\<bar> \<le> 10 ^ 15" by simp
  note s = secondes_encadrees [OF assms(1-5) D_def this]
  have "0 \<le> D div 1000000" using D(1) by simp
  with s(1) show "0 \<le> secondes E m d" by linarith
  have "- ((- D) div 1000000) \<le> 100000001" using zdiv_mono1 [of "- (10 ^ 14 + 1000000)" "- D" 1000000] D(2) by simp
  with s(2) show "secondes E m d \<le> 100000001" by linarith
  show "microsecondes m - microsecondes d < 1000000" if "secondes E m d < 1"
  proof (rule ccontr)
    assume "\<not> ?thesis"
    then have "1 \<le> D div 1000000" using zdiv_mono1 [of 1000000 D 1000000] by (simp add: D_def)
    with s(1) that show False by linarith
  qed
qed

lemma barres_calculables:
  assumes "arrondi_ieee E" "0 \<le> t" "t \<le> 100000001"
  shows "\<exists>n. double_to_int (h_arrondi E (t * 16)) = Some n"
proof -
  have "0 \<le> h_arrondi E (t * 16)" "h_arrondi E (t * 16) \<le> 1600000016"
    using arrondi_bornes(1) [OF assms(1), of 0 "t * 16"] arrondi_bornes(2) [OF assms(1), of 1600000016 "t * 16"] assms(2,3) by simp_all
  then have "0 \<le> trunc (h_arrondi E (t * 16))" "trunc (h_arrondi E (t * 16)) \<le> 1600000016"
    by (auto simp: trunc_def)
  then show ?thesis by (auto simp: double_to_int_def intro!: c_int_okI)
qed

lemma contact_en_cours_tour:
  assumes r: "arrondi_ieee E" and h: "horloge_reguliere E"
    and touche: "\<And>h. h_digitalRead E h TOUCH_PIN = HIGH"
    and s: "contact_en_cours E D (d, actif, t, w)" and t: "t < 1"
  shows "\<exists>s'. contact_tour E (d, actif, t, w) = Some (Inl s') \<and> contact_en_cours E D s' \<and>
    contact_reste s' < contact_reste (d, actif, t, w)"
proof -
  define w1 where "w1 = consigne [Gpio (DigitalRead TOUCH_PIN HIGH)] w"
  define t1 where "t1 = h_horloge E (journal w1)"
  define w2 where "w2 = consigne [Sys (Gettimeofday (fst t1) (snd t1))] w1"
  define t2 where "t2 = h_horloge E (journal w2)"
  define w3 where "w3 = consigne [Sys (Gettimeofday (fst t2) (snd t2))] w2"
  note cas = contact_lecture_cas [of E w, unfolded touche, folded w1_def, folded t1_def, folded w2_def, folded t2_def, folded w3_def]
  define d' m' v where "d' = (if actif then d else t1)" and "m' = (if actif then t1 else t2)" and "v = (if actif then w2 else w3)"
  have lecture: "contact_lecture E d actif t w = (d', True, secondes E m' d', v)"
    using cas(2,3) by (simp add: d'_def m'_def v_def)
  have lcd: "lcd_pret D w" using s by (simp add: contact_en_cours_def)
  have v: "lcd_pret D v" using lcd by (simp add: v_def w3_def w2_def w1_def)
  have usec: "0 \<le> snd m'" "snd m' < 1000000" by (simp_all add: m'_def t1_def t2_def horloge_reguliereD [OF h])
  have mv: "montre (journal v) = Some (microsecondes m', False)"
    by (auto simp: v_def m'_def w3_def w2_def)
  have d': "0 \<le> snd d' \<and> snd d' < 1000000 \<and> microsecondes d' \<le> microsecondes m' \<and>
    microsecondes m' - microsecondes d' \<le> 10 ^ 14 + 1000000 \<and>
    (actif \<longrightarrow> microsecondes m' \<ge> fst (the (montre (journal w))) + 10000 \<and> fst (the (montre (journal w))) - microsecondes d < 1000000)"
  proof (cases actif)
    case True
    with s obtain m where m: "montre (journal w) = Some (microsecondes m, True)" "0 \<le> snd m" "snd m < 1000000"
      "microsecondes d \<le> microsecondes m" "microsecondes m - microsecondes d \<le> 10 ^ 14 + 1000000" "t = secondes E m d"
      and d: "0 \<le> snd d" "snd d < 1000000" by (auto simp: contact_en_cours_def simp del: split_paired_Ex)
    have "montre (journal w1) = Some (microsecondes m, True)" using m(1) by (simp add: w1_def)
    from horloge_reguliereD(3,4) [OF h this] secondes_courtes(3) [OF r m(2,3) d m(4,5)] t m(1,4,6) d True
    show ?thesis by (simp add: d'_def m'_def t1_def)
  next
    case False
    have "montre (journal w2) = Some (microsecondes t1, False)" by (simp add: w2_def)
    from horloge_reguliereD(3,4) [OF h this] False show ?thesis
      by (simp add: d'_def m'_def t2_def t1_def horloge_reguliereD [OF h])
  qed
  note courte = secondes_courtes [OF r usec, of d']
  obtain n where n: "double_to_int (h_arrondi E (secondes E m' d' * 16)) = Some n"
    using barres_calculables [OF r, of "secondes E m' d'"] courte d' by blast
  obtain u where u: "barre_progression n v = Some u" "lcd_pret D u" using barre_juste [OF v] by blast
  have "trace sortes_lcd v u" using trace_barre [OF u(1)] by simp
  from montre_sans_lecture [OF this _ mv] obtain p where "montre (journal u) = Some (microsecondes m', p)" by auto
  then have mu: "montre (journal (delay 10 u)) = Some (microsecondes m', True)" by (simp add: delay_def)
  have "lcd_pret D (delay 10 u)" using u(2) by (simp add: delay_def)
  then have "contact_en_cours E D (d', True, secondes E m' d', delay 10 u)"
    using mu usec d' unfolding contact_en_cours_def prod.case by (auto simp del: split_paired_Ex)
  moreover have "contact_reste (d', True, secondes E m' d', delay 10 u) < contact_reste (d, actif, t, w)"
    using mu d' by (auto simp: contact_reste_def d'_def)
  ultimately show ?thesis
    using lecture n u(1) t by (simp add: contact_tour_def)
qed

lemma contact_boucle_termine:
  assumes "arrondi_ieee E" "horloge_reguliere E" "\<And>h. h_digitalRead E h TOUCH_PIN = HIGH" and "lcd_pret D w"
  shows "\<exists>t w'. boucle (contact_tour E) ((0, 0), False, 0, w) = Some (t, w') \<and> lcd_pret D w'"
proof -
  have "\<exists>r. boucle (contact_tour E) ((0, 0), False, 0, w) = Some r \<and> lcd_pret D (snd r)"
  proof (rule boucle_termine [where P = "contact_en_cours E D" and R = "measure contact_reste"])
    show "contact_en_cours E D ((0, 0), False, 0, w)" using assms(4) by (simp add: contact_en_cours_def)
  next
    fix s assume s: "contact_en_cours E D s"
    obtain d actif t v where eq: "s = (d, actif, t, v)" by (cases s) auto
    show "(\<exists>s'. contact_tour E s = Some (Inl s') \<and> contact_en_cours E D s' \<and> (s', s) \<in> measure contact_reste) \<or>
      (\<exists>r. contact_tour E s = Some (Inr r) \<and> lcd_pret D (snd r))"
    proof (cases "t < 1")
      case True
      from contact_en_cours_tour [OF assms(1-3) s [unfolded eq] True] show ?thesis unfolding eq by auto
    next
      case False
      with s show ?thesis unfolding eq by (simp add: contact_tour_def contact_en_cours_def)
    qed
  qed simp
  then show ?thesis by auto
qed

lemma attendre_contact_calcul:
  assumes "lcd_pret D w"
  shows "\<exists>v. attendre_contact_tactile E w = boucle (contact_tour E) ((0, 0), False, 0, v) \<and> lcd_pret D v"
proof -
  define w0 where "w0 = reinitialiser_capteur_touch E w"
  have 0: "lcd_pret D w0" unfolding w0_def using assms by (rule reinitialiser_lcd)
  obtain w1 where 1: "lcd_page ''Maintenez TOUCH'' ''pendant 1s'' w0 = Some w1" "lcd_pret D w1"
    using lcd_page_pret [OF 0] by blast
  obtain w2 where 2: "foldM (\<lambda>i w. Option.bind (lcd_position (int i) 1 w) (lcd_caractere (octet_de CHR ''.''))) [0..<16] w1 = Some w2"
    "lcd_pret D w2" using points_justes [OF 1(2)] by blast
  from 1(1) 2(1)
  have "attendre_contact_tactile E w = boucle (contact_tour E) ((0, 0), False, 0, delay 100 w2)"
    by (auto simp: attendre_contact_tactile_def lcd_page_def bind_Some_iff simp flip: w0_def)
  with 2(2) show ?thesis by (auto simp: delay_def)
qed

lemma attendre_contact_depart:
  assumes "attendre_contact_tactile E w = Some r"
  shows "\<exists>v es. boucle (contact_tour E) ((0, 0), False, 0, v) = Some r \<and> journal v = journal w @ es"
proof -
  define w0 where "w0 = reinitialiser_capteur_touch E w"
  from assms obtain w1 w2 where 1: "lcd_page ''Maintenez TOUCH'' ''pendant 1s'' w0 = Some w1"
    and 2: "foldM (\<lambda>i w. Option.bind (lcd_position (int i) 1 w) (lcd_caractere (octet_de CHR ''.''))) [0..<16] w1 = Some w2"
    and r: "boucle (contact_tour E) ((0, 0), False, 0, delay 100 w2) = Some r"
    by (auto simp: attendre_contact_tactile_def lcd_page_def bind_Some_iff w0_def)
  have "trace sortes_lcd w1 w2"
    using 2 by (rule trace_foldM) (auto simp: bind_Some_iff intro: trace_lcd(2,3))
  with trace_lcd_page [OF trace_refl _ 1] have "trace sortes_lcd w0 w2" using trace_trans by blast
  then obtain es where "journal w2 = journal w0 @ es" by (auto simp: trace_def)
  with reinitialiser_eq [of E w] have "\<exists>es. journal (delay 100 w2) = journal w @ es" by (auto simp: w0_def delay_def)
  with r show ?thesis by blast
qed

text \<open> C15: a wait that returns has seen a contact of a second. Whatever the sensor, the clock and the
  rounding do, when \<open>attendre_contact_tactile\<close> returns, the sensor was read \<open>HIGH\<close>, the clock
  was read at once (\<open>d\<close>) and again later (\<open>m\<close>), the sensor was never read \<open>LOW\<close> from the first
  of these readings to the return, and the duration computed between the two, which is the result,
  is at least one second. \<close>

theorem attendre_contact_tenu:
  assumes "attendre_contact_tactile E w = Some (t, w')"
  shows "1 \<le> t \<and> (\<exists>es d m. journal w' = journal w @ es \<and> contact_tenu es d m \<and> t = secondes E m d)"
proof -
  obtain v es where v: "boucle (contact_tour E) ((0, 0), False, 0, v) = Some (t, w')" "journal v = journal w @ es"
    using attendre_contact_depart [OF assms] by blast
  have "contact_suivi E (journal w) ((0, 0), False, 0, v)" by (rule contact_suivi_inactif [OF v(2)])
  from contact_suivi_boucle [OF v(1) this] show ?thesis .
qed

lemma attendre_contact_rend:
  assumes "arrondi_ieee E" "horloge_reguliere E" "\<And>h. h_digitalRead E h TOUCH_PIN = HIGH" and "lcd_pret D w"
  shows "\<exists>t w'. attendre_contact_tactile E w = Some (t, w') \<and> lcd_pret D w'"
proof -
  obtain v where "attendre_contact_tactile E w = boucle (contact_tour E) ((0, 0), False, 0, v)" "lcd_pret D v"
    using attendre_contact_calcul [OF assms(4)] by blast
  with contact_boucle_termine [OF assms(1-3), of D v] show ?thesis by simp
qed

text \<open> The wait is over for a player who keeps touching. On a ready display, with a sensor that
  reads \<open>HIGH\<close>, a clock that moves on during pauses and the rounding of IEEE 754, the wait returns,
  after a contact of one second or more, and leaves the display ready. \<close>

theorem attendre_contact_termine:
  assumes "arrondi_ieee E" and "horloge_reguliere E" and "\<And>h. h_digitalRead E h TOUCH_PIN = HIGH" and "lcd_pret D w"
  shows "\<exists>t w'. attendre_contact_tactile E w = Some (t, w') \<and> 1 \<le> t \<and> lcd_pret D w'"
proof -
  obtain t w' where r: "attendre_contact_tactile E w = Some (t, w')" "lcd_pret D w'"
    using attendre_contact_rend [OF assms] by blast
  then obtain v es where v: "boucle (contact_tour E) ((0, 0), False, 0, v) = Some (t, w')" "journal v = journal w @ es"
    using attendre_contact_depart by blast
  from contact_suivi_boucle [OF v(1) contact_suivi_inactif [OF v(2)]] r show ?thesis by blast
qed

lemma hote_horloge_touche: "h_digitalRead (hote_horloge pas) h p = HIGH"
  by (simp add: hote_horloge_def hote_calme_def)

theorem attendre_contact_termine_temoin:
  "\<exists>t w'. attendre_contact_tactile (hote_horloge 50000) etat_lcd = Some (t, w') \<and> 1 \<le> t \<and> lcd_pret hd_allume w'"
  by (rule attendre_contact_termine [OF hote_horloge_arrondi hote_horloge_regulier]) (simp_all add: hote_horloge_touche etat_lcd_pret)

theorem attendre_contact_tenu_temoin:
  "\<exists>t w'. attendre_contact_tactile (hote_horloge 50000) etat_lcd = Some (t, w') \<and> 1 \<le> t \<and>
     (\<exists>es d m. journal w' = journal etat_lcd @ es \<and> contact_tenu es d m \<and> t = secondes (hote_horloge 50000) m d)"
proof -
  obtain t w' where r: "attendre_contact_tactile (hote_horloge 50000) etat_lcd = Some (t, w')"
    using attendre_contact_rend [OF hote_horloge_arrondi hote_horloge_regulier hote_horloge_touche etat_lcd_pret, of 50000] by auto
  from attendre_contact_tenu [OF r] r show ?thesis by blast
qed

end
