(* ===== verification/Chrono.thy ===== *)
theory Chrono
  imports Contact
begin

text \<open>
  The stopwatch of a game, the loop of \<open>jouer_partie\<close> (\<open>lib/jeu.c\<close>) and of \<open>main\<close> (\<open>client.c\<close>):
  it always ends, and its time is the time that passed.
\<close>

section \<open>The loop\<close>

text \<open>
  The state of the loop: the last reading \<open>m\<close> of the clock, at or after the start \<open>d\<close>, gave the
  tenths shown; a pause has been asked for since, except before the first turn.
\<close>

definition chrono_en_cours :: "int \<Rightarrow> int \<times> int \<Rightarrow> int \<times> int \<times> int \<times> peripheriques \<Rightarrow> bool" where
  "chrono_en_cours saut d s = (case s of (rep, vu, precedent, w) \<Rightarrow> 0 \<le> rep \<and> rep \<le> 16 \<and>
     (\<exists>l p. montre (journal w) = Some (l, p) \<and> microsecondes d \<le> l \<and> l - microsecondes d \<le> saut + 20000000 \<and>
        (if p then 0 \<le> vu \<and> (l - microsecondes d - 1) div 100000 \<le> vu \<and> vu \<le> (l - microsecondes d) div 100000
         else rep = 0 \<and> vu = 0 \<and> l = microsecondes d)))"

definition chrono_reste :: "int \<times> int \<Rightarrow> int \<times> int \<times> int \<times> peripheriques \<Rightarrow> nat" where
  "chrono_reste d s = (case s of (rep, vu, precedent, w) \<Rightarrow> (case montre (journal w) of None \<Rightarrow> 0
     | Some (l, p) \<Rightarrow> if p then nat (10100000 - (l - microsecondes d)) else 10100001))"

lemma afficher_nombre_positif: "0 \<le> n \<Longrightarrow> \<exists>u. segment7_afficher_nombre n w = Some u"
  by (simp add: segment7_afficher_nombre_eq)

lemma chrono_affichage_juste:
  assumes r: "arrondi_ieee E" and h: "horloge_jusque saut E" "saut \<le> 10 ^ 13" and d: "0 \<le> snd d" "snd d < 1000000"
    and l: "montre (journal w) = Some (l, p)" "microsecondes d \<le> l" "l - microsecondes d < 20000000"
  shows "\<exists>t q u l'. chrono_affichage E d precedent w = Some (t, q, u) \<and> montre (journal (delay 10 u)) = Some (l', True) \<and>
     trace {Sortie, Bus_i2c, Horloge} w u \<and> (if p then l + 10000 else l) \<le> l' \<and> l' - microsecondes d \<le> saut + 20000000 \<and>
     0 \<le> t \<and> (l' - microsecondes d - 1) div 100000 \<le> t \<and> t \<le> (l' - microsecondes d) div 100000"
proof -
  define m where "m = h_horloge E (journal w)"
  define v where "v = consigne [Sys (Gettimeofday (fst m) (snd m))] w"
  define D where "D = microsecondes m - microsecondes d"
  have m: "0 \<le> snd m" "snd m < 1000000" by (simp_all add: m_def horloge_reguliereD [OF h(1)])
  have lm: "(if p then l + 10000 else l) \<le> microsecondes m" "microsecondes m \<le> l + saut"
    using horloge_reguliereD(3,4) [OF h(1) l(1)] by (auto simp: m_def)
  then have D: "0 \<le> D" "D \<le> saut + 20000000" using l(2,3) by (auto simp: D_def split: if_splits)
  obtain t where t: "double_to_int (h_arrondi E (secondes E m d * 10)) = Some t" "0 \<le> t"
    "(D - 1) div 100000 \<le> t" "t \<le> D div 100000"
    using dixiemes_calcules [OF r m d D_def D(1)] D(2) h(2) by auto
  have mv: "montre (journal v) = Some (microsecondes m, False)" by (simp add: v_def)
  have tv: "trace {Sortie, Bus_i2c, Horloge} w v" by (auto simp: v_def intro!: trace_intros)
  obtain u q where u: "chrono_affichage E d precedent w = Some (t, q, u)" "trace sortes_segment v u"
  proof (cases "t = precedent")
    case True
    with t(1) have "chrono_affichage E d precedent w = Some (t, precedent, v)"
      by (simp add: chrono_affichage_def gettimeofday_def Let_def flip: m_def v_def)
    then show ?thesis by (rule that) simp
  next
    case False
    obtain u where u: "segment7_afficher_nombre t v = Some u" using afficher_nombre_positif [OF t(2)] by blast
    with False t(1) have "chrono_affichage E d precedent w = Some (t, t, u)"
      by (simp add: chrono_affichage_def gettimeofday_def Let_def flip: m_def v_def)
    then show ?thesis by (rule that) (rule trace_afficher_nombre [OF trace_refl _ u], simp)
  qed
  from montre_sans_lecture [OF u(2) _ mv] obtain p' where "montre (journal u) = Some (microsecondes m, p')" by auto
  then have "montre (journal (delay 10 u)) = Some (microsecondes m, True)" by (simp add: delay_def)
  moreover have "trace {Sortie, Bus_i2c, Horloge} w u" using trace_trans [OF tv trace_mono [OF u(2)]] by simp
  ultimately show ?thesis using u(1) t lm D unfolding D_def by blast
qed

lemma lire_trace: "trace {Sortie, Entree} w (snd (matrice_btn_lire E w))"
  by (rule trace_lecture_boutons(1)) simp_all

lemma lire_borne: "0 \<le> fst (matrice_btn_lire E w)" "fst (matrice_btn_lire E w) \<le> 16"
  by (rule lire_cases [of E w], simp)+

lemma chrono_tour_juste:
  assumes r: "arrondi_ieee E" and h: "horloge_jusque saut E" "saut \<le> 10 ^ 13" and d: "0 \<le> snd d" "snd d < 1000000"
    and s: "chrono_en_cours saut d (0, vu, precedent, w)" and vu: "vu < 100"
  shows "\<exists>s'. chrono_tour E d (0, vu, precedent, w) = Some (Inl s') \<and> chrono_en_cours saut d s' \<and>
    chrono_reste d s' < chrono_reste d (0, vu, precedent, w) \<and>
    trace {Sortie, Bus_i2c, Entree, Horloge} w (snd (snd (snd s')))"
proof -
  from s obtain l p where l: "montre (journal w) = Some (l, p)" "microsecondes d \<le> l"
    "if p then (l - microsecondes d - 1) div 100000 \<le> vu else l = microsecondes d"
    unfolding chrono_en_cours_def prod.case by (metis (full_types))
  have court: "l - microsecondes d < 10100000"
  proof (cases p)
    case True
    then have "(l - microsecondes d - 1) div 100000 < 100" using l(3) vu by simp
    then show ?thesis using zdiv_mono1 [of 10000000 "l - microsecondes d - 1" 100000] by (rule_tac ccontr) simp
  qed (use l(3) in simp)
  obtain rep v where v: "matrice_btn_lire E w = (rep, v)" by fastforce
  have tv: "trace {Sortie, Entree} w v" using lire_trace [of w E] v by simp
  have rep: "0 \<le> rep" "rep \<le> 16" using lire_borne [of E w] v by simp_all
  obtain p1 where p1: "montre (journal v) = Some (l, p1)" "p \<longrightarrow> p1"
    using montre_sans_lecture [OF tv _ l(1)] by auto
  obtain t q u l' where u: "chrono_affichage E d precedent v = Some (t, q, u)" "montre (journal (delay 10 u)) = Some (l', True)"
    "trace {Sortie, Bus_i2c, Horloge} v u" "(if p1 then l + 10000 else l) \<le> l'" "l' - microsecondes d \<le> saut + 20000000"
    "0 \<le> t" "(l' - microsecondes d - 1) div 100000 \<le> t" "t \<le> (l' - microsecondes d) div 100000"
    using chrono_affichage_juste [OF r h d p1(1) l(2)] court by fastforce
  have "chrono_tour E d (0, vu, precedent, w) = Some (Inl (rep, t, q, delay 10 u))"
    using vu v u(1) by (simp add: chrono_tour_def)
  moreover have "microsecondes d \<le> l'" using l(2) u(4) by (auto split: if_splits)
  then have "chrono_en_cours saut d (rep, t, q, delay 10 u)"
    using rep u by (auto simp: chrono_en_cours_def intro: exI [of _ True])
  moreover have "chrono_reste d (rep, t, q, delay 10 u) < chrono_reste d (0, vu, precedent, w)"
    using u(2,4) l(1,2) p1(2) court by (cases p) (auto simp: chrono_reste_def split: if_splits)
  moreover have "trace {Sortie, Bus_i2c, Entree, Horloge} w (delay 10 u)"
    using trace_trans [OF trace_mono [OF tv] trace_mono [OF u(3)], of "{Sortie, Bus_i2c, Entree, Horloge}"] by (intro trace_appels) auto
  ultimately show ?thesis by (intro exI [of _ "(rep, t, q, delay 10 u)"]) simp
qed

text \<open>
  The loop from the reading \<open>d\<close> of the clock: it ends, with a key or with at least ten seconds on
  the clock.
\<close>

lemma chrono_boucle_juste:
  assumes r: "arrondi_ieee E" and h: "horloge_jusque saut E" "saut \<le> 10 ^ 13" and d: "0 \<le> snd d" "snd d < 1000000"
    and w: "montre (journal w) = Some (microsecondes d, False)"
  shows "\<exists>rep v l. boucle (chrono_tour E d) (0, 0, -1, w) = Some (rep, v) \<and> 0 \<le> rep \<and> rep \<le> 16 \<and>
    trace {Sortie, Bus_i2c, Entree, Horloge} w v \<and> montre (journal v) = Some (l, True) \<and>
    microsecondes d \<le> l \<and> l - microsecondes d \<le> saut + 20000000 \<and> (rep = 0 \<longrightarrow> 10000000 \<le> l - microsecondes d)"
proof -
  let ?P = "\<lambda>s. chrono_en_cours saut d s \<and> trace {Sortie, Bus_i2c, Entree, Horloge} w (snd (snd (snd s)))"
  let ?Q = "\<lambda>r. 0 \<le> fst r \<and> fst r \<le> 16 \<and> trace {Sortie, Bus_i2c, Entree, Horloge} w (snd r) \<and> (\<exists>l. montre (journal (snd r)) = Some (l, True) \<and>
    microsecondes d \<le> l \<and> l - microsecondes d \<le> saut + 20000000 \<and> (fst r = 0 \<longrightarrow> 10000000 \<le> l - microsecondes d))"
  have "\<exists>r. boucle (chrono_tour E d) (0, 0, -1, w) = Some r \<and> ?Q r"
  proof (rule boucle_termine [where P = ?P and R = "measure (chrono_reste d)"])
    show "?P (0, 0, -1, w)" using w horloge_jusque_positif [OF h(1)] by (auto simp: chrono_en_cours_def intro: exI [of _ False])
  next
    fix s assume P: "?P s"
    obtain rep vu precedent v where s: "s = (rep, vu, precedent, v)" by (cases s) auto
    show "(\<exists>s'. chrono_tour E d s = Some (Inl s') \<and> ?P s' \<and> (s', s) \<in> measure (chrono_reste d)) \<or>
      (\<exists>r. chrono_tour E d s = Some (Inr r) \<and> ?Q r)"
    proof (cases "rep = 0 \<and> vu < 100")
      case True
      with P s obtain s' where s': "chrono_tour E d s = Some (Inl s')" "chrono_en_cours saut d s'"
        "chrono_reste d s' < chrono_reste d s" "trace {Sortie, Bus_i2c, Entree, Horloge} v (snd (snd (snd s')))"
        using chrono_tour_juste [OF r h d, of vu precedent v] by auto
      with P s trace_trans show ?thesis by fastforce
    next
      case False
      then have "chrono_tour E d s = Some (Inr (rep, v))" by (auto simp: chrono_tour_def s)
      moreover have "?Q (rep, v)"
      proof -
        from P s obtain l p where l: "0 \<le> rep" "rep \<le> 16" "montre (journal v) = Some (l, p)" "microsecondes d \<le> l"
          "l - microsecondes d \<le> saut + 20000000"
          "if p then vu \<le> (l - microsecondes d) div 100000 else rep = 0 \<and> vu = 0"
          by (auto simp: chrono_en_cours_def split: if_splits)
        with False have p: p by (auto split: if_splits)
        have "10000000 \<le> l - microsecondes d" if "rep = 0"
          using l(6) p False that zdiv_mono1 [of "l - microsecondes d" 9999999 100000] by (rule_tac ccontr) simp
        with l p P s show ?thesis by auto
      qed
      ultimately show ?thesis by blast
    qed
  qed simp
  then show ?thesis by force
qed

section \<open>The measured time\<close>

lemma chrono_mesure:
  assumes r: "arrondi_ieee E" and h: "horloge_jusque saut E" "saut \<le> 10 ^ 13"
    and d: "d = h_horloge E (journal w)" and w1: "w1 = consigne [Sys (Gettimeofday (fst d) (snd d))] w"
  shows "\<exists>rep v t. boucle (chrono_tour E d) (0, 0, -1, w1) = Some (rep, v) \<and> 0 \<le> rep \<and> rep \<le> 16 \<and>
    trace {Sortie, Bus_i2c, Entree, Horloge} w1 v \<and>
    (let m = h_horloge E (journal v); D = microsecondes m - microsecondes d in
       double_to_int (h_arrondi E (secondes E m d * 10)) = Some t \<and> 0 \<le> t \<and>
       (D - 1) div 100000 \<le> t \<and> t \<le> D div 100000 \<and> D \<le> 2 * saut + 20000000 \<and> (rep = 0 \<longrightarrow> 100 \<le> t))"
proof -
  have d': "0 \<le> snd d" "snd d < 1000000" by (simp_all add: d horloge_reguliereD [OF h(1)])
  have "montre (journal w1) = Some (microsecondes d, False)" by (simp add: w1)
  from chrono_boucle_juste [OF r h d' this] obtain rep v l where v:
    "boucle (chrono_tour E d) (0, 0, -1, w1) = Some (rep, v)" "0 \<le> rep" "rep \<le> 16" "trace {Sortie, Bus_i2c, Entree, Horloge} w1 v"
    and l: "montre (journal v) = Some (l, True)" "microsecondes d \<le> l" "l - microsecondes d \<le> saut + 20000000"
      "rep = 0 \<longrightarrow> 10000000 \<le> l - microsecondes d" by blast
  define m where "m = h_horloge E (journal v)"
  define D where "D = microsecondes m - microsecondes d"
  have m: "0 \<le> snd m" "snd m < 1000000" by (simp_all add: m_def horloge_reguliereD [OF h(1)])
  have lm: "l + 10000 \<le> microsecondes m" "microsecondes m \<le> l + saut"
    using horloge_reguliereD(3,4) [OF h(1) l(1)] by (simp_all add: m_def)
  have D: "0 \<le> D" "D \<le> 2 * saut + 20000000" "D \<le> 150000000000000" using l lm h(2) by (simp_all add: D_def)
  obtain t where t: "double_to_int (h_arrondi E (secondes E m d * 10)) = Some t" "0 \<le> t"
    "(D - 1) div 100000 \<le> t" "t \<le> D div 100000"
    using dixiemes_calcules [OF r m d' D_def D(1,3)] by blast
  moreover have "100 \<le> t" if "rep = 0"
  proof -
    have "10000001 \<le> D" using l(4) lm(1) that by (simp add: D_def)
    then have "100 \<le> (D - 1) div 100000" using zdiv_mono1 [of 10000000 "D - 1" 100000] by simp
    with t(3) show ?thesis by simp
  qed
  ultimately show ?thesis
    using v D(2) by (intro exI [of _ rep] exI [of _ v] exI [of _ t]) (simp add: Let_def flip: m_def D_def)
qed

lemma client_chrono_rend:
  assumes "arrondi_ieee E" and "horloge_jusque saut E" "saut \<le> 10 ^ 13"
  shows "\<exists>rep t w' d m es. client_chrono E w = Some (rep, t, w') \<and> 0 \<le> rep \<and> rep \<le> 16 \<and>
    trace {Sortie, Bus_i2c, Entree, Horloge} w w' \<and>
    journal w' = journal w @ Sys (Gettimeofday (fst d) (snd d)) # es @ [Sys (Gettimeofday (fst m) (snd m))] \<and>
    0 \<le> t \<and> (microsecondes m - microsecondes d - 1) div 100000 \<le> t \<and>
    t \<le> (microsecondes m - microsecondes d) div 100000 \<and> t \<le> (2 * saut + 20000000) div 100000 \<and> (rep = 0 \<longrightarrow> 100 \<le> t)"
proof -
  define d where "d = h_horloge E (journal w)"
  define w1 where "w1 = consigne [Sys (Gettimeofday (fst d) (snd d))] w"
  obtain rep v t where v: "boucle (chrono_tour E d) (0, 0, -1, w1) = Some (rep, v)" "0 \<le> rep" "rep \<le> 16"
    "trace {Sortie, Bus_i2c, Entree, Horloge} w1 v"
    and t: "let m = h_horloge E (journal v); D = microsecondes m - microsecondes d in
       double_to_int (h_arrondi E (secondes E m d * 10)) = Some t \<and> 0 \<le> t \<and>
       (D - 1) div 100000 \<le> t \<and> t \<le> D div 100000 \<and> D \<le> 2 * saut + 20000000 \<and> (rep = 0 \<longrightarrow> 100 \<le> t)"
    using chrono_mesure [OF assms d_def w1_def] by blast
  define m where "m = h_horloge E (journal v)"
  define w' where "w' = consigne [Sys (Gettimeofday (fst m) (snd m))] v"
  have m: "gettimeofday E v = (m, w')" "gettimeofday E w = (d, w1)"
    by (simp_all add: gettimeofday_def Let_def m_def w'_def d_def w1_def)
  note t' = t [unfolded Let_def, folded m_def]
  have "client_chrono E w = Some (rep, t, w')"
    using m v(1) t' by (simp add: client_chrono_def)
  moreover obtain es where "journal v = journal w1 @ es" using v(4) by (auto simp: trace_def)
  then have "journal w' = journal w @ Sys (Gettimeofday (fst d) (snd d)) # es @ [Sys (Gettimeofday (fst m) (snd m))]"
    by (simp add: w'_def w1_def)
  moreover have "trace {Sortie, Bus_i2c, Entree, Horloge} w1 w'" unfolding w'_def using v(4) by (rule trace_consigne) simp
  then have "trace {Sortie, Bus_i2c, Entree, Horloge} w w'"
    by (rule trace_trans [rotated]) (simp add: w1_def trace_consigne)
  moreover have "t \<le> (2 * saut + 20000000) div 100000"
    using t' zdiv_mono1 [of "microsecondes m - microsecondes d" "2 * saut + 20000000" 100000] by linarith
  ultimately show ?thesis using v(2,3) t' by blast
qed

text \<open> C16: the stopwatch of the client. Whatever the buttons do, with a clock that moves on during
  pauses and the rounding of IEEE 754, the stopwatch ends: a key from 1 to 16, or 0 when none was
  pressed in time. The time it gives is the number of whole tenths of a second between its first
  and its last reading of the clock, where a duration of exactly \<open>k\<close> tenths may count as \<open>k - 1\<close>;
  without a key it is 100 or more, which the game calls too slow. \<close>

theorem client_chrono_juste:
  assumes "arrondi_ieee E" and "horloge_reguliere E"
  shows "\<exists>rep t w' d m es. client_chrono E w = Some (rep, t, w') \<and> 0 \<le> rep \<and> rep \<le> 16 \<and>
    journal w' = journal w @ Sys (Gettimeofday (fst d) (snd d)) # es @ [Sys (Gettimeofday (fst m) (snd m))] \<and>
    0 \<le> t \<and> (microsecondes m - microsecondes d - 1) div 100000 \<le> t \<and>
    t \<le> (microsecondes m - microsecondes d) div 100000 \<and> (rep = 0 \<longrightarrow> 100 \<le> t)"
  using client_chrono_rend [OF assms order_refl] by blast

theorem client_chrono_juste_temoin:
  "\<exists>rep t w' d m es. client_chrono (hote_horloge 50000) etat_initial = Some (rep, t, w') \<and> 0 \<le> rep \<and> rep \<le> 16 \<and>
    journal w' = journal etat_initial @ Sys (Gettimeofday (fst d) (snd d)) # es @ [Sys (Gettimeofday (fst m) (snd m))] \<and>
    0 \<le> t \<and> (microsecondes m - microsecondes d - 1) div 100000 \<le> t \<and>
    t \<le> (microsecondes m - microsecondes d) div 100000 \<and> (rep = 0 \<longrightarrow> 100 \<le> t)"
  by (rule client_chrono_juste [OF hote_horloge_arrondi hote_horloge_regulier]) simp_all

end
