(* ===== verification/Partie.thy ===== *)
theory Partie
  imports Chrono
begin

text \<open>
  A game on the device: what the player sees and what is measured, from the shape asked for to the
  result.
\<close>

section \<open>Footprints of the game\<close>

lemma trace_melanger:
  assumes "melanger E v = Some (indices, u)" and "trace A w v" and "Tirage \<in> A"
  shows "trace A w u"
proof -
  have "trace A w u'" if "foldM (melange_pas E) is (xs, v) = Some (ys, u')" "trace A w v" for "is" xs v ys u'
    using that
  proof (induction "is" arbitrary: xs v)
    case (Cons i js)
    from Cons.prems(1) obtain xs1 v1 where 1: "melange_pas E i (xs, v) = Some (xs1, v1)"
      "foldM (melange_pas E) js (xs1, v1) = Some (ys, u')" by (auto simp: bind_Some_iff)
    then have "v1 = snd (rand E v)" by (auto simp: melange_pas_def Let_def split: prod.splits if_splits)
    then have "trace A w v1" using Cons.prems(2) assms(3) by (simp add: trace_intros)
    from Cons.IH [OF 1(2) this] show ?case .
  qed simp
  from this [OF assms(1) [unfolded melanger_def] assms(2)] show ?thesis .
qed

lemma trace_afficher_formes:
  assumes "afficher_formes forme indices v = Some (p, u)" and "trace A w v" and "Terminal \<in> A"
  shows "trace A w u"
proof -
  have c: "trace A w (snd (snd s'))" if "afficher_cellule forme indices i j s = Some s'" "trace A w (snd (snd s))" for i j s s'
    using that assms(3) by (cases s) (auto simp: afficher_cellule_def bind_Some_iff Let_def split: if_splits intro!: trace_grille)
  have l: "trace A w (snd (snd s'))" if "foldM (afficher_cellule forme indices i) js s = Some s'" "trace A w (snd (snd s))" for i js s s'
    using that by (rule foldM_conserve) (use c in blast)
  have g: "trace A w (snd (snd s'))" if "foldM (\<lambda>i. foldM (afficher_cellule forme indices i) [0..<4]) is s = Some s'" "trace A w (snd (snd s))" for "is" s s'
    using that by (rule foldM_conserve) (use l in blast)
  from assms(1) obtain k p' v1 where "foldM (\<lambda>i. foldM (afficher_cellule forme indices i) [0..<4]) [0..<4] (0, -1, v) = Some (k, p', v1)"
    "u = refresh_display v1" by (auto simp: afficher_formes_def bind_Some_iff)
  with g [of "[0..<4]" "(0, -1, v)" "(k, p', v1)"] assms(2,3) show ?thesis by (auto intro!: trace_grille)
qed

lemma trace_afficher_grille:
  assumes "afficher_grille E forme v = Some (p, u)" and "trace A w v" and "{Terminal, Tirage} \<subseteq> A"
  shows "trace A w u"
proof -
  from assms(1) obtain indices v1 where "melanger E (draw_grid v) = Some (indices, v1)" "afficher_formes forme indices v1 = Some (p, u)"
    by (auto simp: afficher_grille_def bind_Some_iff)
  with assms(2,3) show ?thesis
    using trace_melanger trace_afficher_formes trace_grille(1) [of A w v] by auto
qed

section \<open>One game\<close>

lemma lcd_page_bind:
  "Option.bind (lcd_effacer w) (\<lambda>w. Option.bind (lcd_ecrire 0 0 a w) (\<lambda>w. Option.bind (lcd_ecrire 0 1 b w) f)) =
     Option.bind (lcd_page a b w) f"
  by (simp add: lcd_page_def)

text \<open>The preparation: the instructions, the shape on the LEDs, the grid and the digits at zero.\<close>

lemma jouer_partie_depart:
  assumes "hasard_ok E" and "lcd_pret D w" and "grille_visible w"
  shows "\<exists>v forme indices k. jouer_partie E w = Option.bind (client_chrono E v) (\<lambda>(rep, t, v). Some (rep, t, int k + 1, v)) \<and> 0 \<le> forme \<and> forme < 16 \<and> indices_ok indices \<and> k < 16 \<and> indices ! k = forme \<and>
     (\<forall>k' < 16. cellule_montre v k' (motif_cellule indices k')) \<and>
     (\<forall>i < 8. registres_de L v (1 + int i) = formes ! nat forme ! i mod 256) \<and>
     lcd_pret D v \<and> lcd_texte D v = ligne_lcd ''Trouvez la forme'' @ ligne_lcd ''sur la grille!''"
proof -
  define w0 where "w0 = matrice_led_luminosite 3 w"
  have t0: "trace sortes_led w w0" unfolding w0_def by (intro trace_led) simp_all
  obtain w1 where 1: "lcd_page ''Trouvez la forme'' ''sur la grille!'' w0 = Some w1" "lcd_pret D w1"
    "lcd_texte D w1 = ligne_lcd ''Trouvez la forme'' @ ligne_lcd ''sur la grille!''"
    using lcd_page_texte [of D w0 "''Trouvez la forme''" "''sur la grille!''"] trace_lcd_pret(1) [OF t0] assms(2) by auto
  have t1: "trace sortes_lcd w0 w1" by (rule trace_lcd_page [OF trace_refl _ 1(1)]) simp
  obtain r w2 where 2: "rand E w1 = (r, w2)" by fastforce
  have t2: "trace {Tirage} w1 w2" using trace_rand [of "{Tirage}" w1 w1 E] 2 by simp
  define forme where "forme = r smod 16"
  have forme: "0 \<le> forme" "forme < 16"
  proof -
    have "0 \<le> r" using 2 assms(1) by (auto simp: rand_def hasard_ok_def Let_def)
    then show "0 \<le> forme" "forme < 16" by (simp_all add: forme_def smod_nonneg)
  qed
  obtain f where f: "formes_lire forme = Some f" "f = formes ! nat forme"
    using forme by (auto simp: formes_lire_def)
  define w3 where "w3 = matrice_led_afficher_motif f w2"
  have t3: "trace sortes_led w2 w3" unfolding w3_def by (intro trace_led) simp_all
  have leds: "\<forall>i < 8. registres_de L w3 (1 + int i) = f ! i mod 256"
    unfolding all_less_8 w3_def registres_motif by simp
  have "trace (insert Tirage sortes_lcd) w w3"
    using trace_mono [OF t0] trace_mono [OF t1] trace_mono [OF t2] trace_mono [OF t3]
    by (meson trace_trans subset_insertI2 subset_insertI insert_mono empty_subsetI)
  then have "grille_visible w3" using trace_fenetre assms(3) by fastforce
  from afficher_grille_general [OF assms(1) this forme] obtain indices k w4 where
    4: "afficher_grille E forme w3 = Some (int k + 1, w4)" "indices_ok indices" "k < 16" "indices ! k = forme"
    "\<forall>k' < 16. cellule_montre w4 k' (motif_cellule indices k')" by blast
  have t4: "trace {Terminal, Tirage} w3 w4" by (rule trace_afficher_grille [OF 4(1) trace_refl]) simp
  obtain w5 where 5: "segment7_afficher_nombre 0 (segment7_effacer w4) = Some w5"
    using afficher_nombre_positif [of 0] by blast
  have t5: "trace sortes_segment w4 w5"
    by (rule trace_afficher_nombre [OF _ _ 5]) (auto intro: trace_segment7)
  define v where "v = delay 50 (matrice_btn_init (delay 100 (matrice_btn_cleanup w5)))"
  have t6: "trace {Sortie} w5 v" unfolding v_def by (intro trace_appels trace_boutons) simp_all
  have t36: "trace {Sortie, Bus_i2c, Terminal, Tirage} w3 v"
    using trace_trans [OF trace_mono [OF t4] trace_trans [OF trace_mono [OF t5] trace_mono [OF t6]]] by auto
  have "lcd_pret D v \<and> lcd_texte D v = lcd_texte D w1"
    using 1(2) trace_lcd_pret(1,2) [OF t2, of D] trace_lcd_pret(1,2) [OF t3, of D] trace_lcd_pret(1,2) [OF t36, of D] by simp
  moreover have "\<forall>k' < 16. cellule_montre v k' (motif_cellule indices k')"
    using 4(5) trace_terminal(2) [OF t5] trace_terminal(2) [OF t6] by simp
  moreover have "\<forall>i < 8. registres_de L v (1 + int i) = formes ! nat forme ! i mod 256"
    using leds trace_max7219 [OF t36, of L] f(2) by simp
  moreover have "jouer_partie E w = Option.bind (client_chrono E v) (\<lambda>(rep, t, v). Some (rep, t, int k + 1, v))"
    using f(1)
    by (simp add: jouer_partie_def client_chrono_def case_prod_beta Let_def bind_assoc lcd_page_bind 1(1) 2 4(1) 5 flip: w0_def forme_def w3_def v_def)
      (auto simp: split_beta intro!: bind_option_cong)
  ultimately show ?thesis using 1(3) 4(2-4) forme
    by (intro exI [of _ v] exI [of _ forme] exI [of _ indices] exI [of _ k] conjI) simp_all
qed

lemma jouer_partie_rend:
  assumes "arrondi_ieee E" and "horloge_jusque saut E" "saut \<le> 10 ^ 13" and "hasard_ok E" and "lcd_pret D w" and "grille_visible w"
  shows "\<exists>rep t k indices forme w'. jouer_partie E w = Some (rep, t, int k + 1, w') \<and>
    0 \<le> forme \<and> forme < 16 \<and> indices_ok indices \<and> k < 16 \<and> indices ! k = forme \<and>
    (\<forall>k' < 16. cellule_montre w' k' (motif_cellule indices k')) \<and>
    (\<forall>i < 8. registres_de L w' (1 + int i) = formes ! nat forme ! i mod 256) \<and>
    lcd_pret D w' \<and> lcd_texte D w' = ligne_lcd ''Trouvez la forme'' @ ligne_lcd ''sur la grille!'' \<and>
    0 \<le> rep \<and> rep \<le> 16 \<and> 0 \<le> t \<and> t \<le> (2 * saut + 20000000) div 100000 \<and> (rep = 0 \<longrightarrow> 100 \<le> t)"
proof -
  obtain v forme indices k where j: "jouer_partie E w = Option.bind (client_chrono E v) (\<lambda>(rep, t, v). Some (rep, t, int k + 1, v))"
    and p: "0 \<le> forme" "forme < 16" "indices_ok indices" "k < 16" "indices ! k = forme"
    "\<forall>k' < 16. cellule_montre v k' (motif_cellule indices k')"
    "\<forall>i < 8. registres_de L v (1 + int i) = formes ! nat forme ! i mod 256"
    "lcd_pret D v" "lcd_texte D v = ligne_lcd ''Trouvez la forme'' @ ligne_lcd ''sur la grille!''"
    using jouer_partie_depart [OF assms(4-6), of L] by blast
  from client_chrono_rend [OF assms(1-3), of v] obtain rep t w' where c: "client_chrono E v = Some (rep, t, w')"
    "0 \<le> rep" "rep \<le> 16" and tr: "trace {Sortie, Bus_i2c, Entree, Horloge} v w'"
    and t: "0 \<le> t" "t \<le> (2 * saut + 20000000) div 100000" "rep = 0 \<longrightarrow> 100 \<le> t" by blast
  have "jouer_partie E w = Some (rep, t, int k + 1, w')" by (simp add: j c(1))
  then show ?thesis
    using p c(2,3) t trace_lcd_pret(1,2) [OF tr, of D] trace_terminal(2) [OF tr] trace_max7219 [OF tr, of L]
    by (intro exI [of _ rep] exI [of _ t] exI [of _ k] exI [of _ indices] exI [of _ forme] exI [of _ w'] conjI) simp_all
qed

text \<open> C14: one game. With a ready display, a terminal large enough for the grid, a \<open>rand\<close> that
  answers non-negative numbers, a clock that moves on during pauses and the rounding of IEEE 754,
  \<open>jouer_partie\<close> returns whatever the player does. When it does, the LEDs show one of the sixteen
  shapes, the grid an arrangement of all of them, the display the instructions; the position
  returned is that of the cell with the shape of the LEDs; and the answer is a key, or none after
  ten seconds. \<close>

theorem jouer_partie_juste:
  assumes "arrondi_ieee E" and "horloge_reguliere E" and "hasard_ok E" and "lcd_pret D w" and "grille_visible w"
  shows "\<exists>rep t k indices forme w'. jouer_partie E w = Some (rep, t, int k + 1, w') \<and>
    0 \<le> forme \<and> forme < 16 \<and> indices_ok indices \<and> k < 16 \<and> indices ! k = forme \<and>
    (\<forall>k' < 16. cellule_montre w' k' (motif_cellule indices k')) \<and>
    (\<forall>i < 8. registres_de L w' (1 + int i) = formes ! nat forme ! i mod 256) \<and>
    lcd_pret D w' \<and> lcd_texte D w' = ligne_lcd ''Trouvez la forme'' @ ligne_lcd ''sur la grille!'' \<and>
    0 \<le> rep \<and> rep \<le> 16 \<and> 0 \<le> t \<and> (rep = 0 \<longrightarrow> 100 \<le> t)"
  using jouer_partie_rend [OF assms(1,2) order_refl assms(3-5), of L] by blast

text \<open>A device ready for a game, to use in the examples.\<close>

definition etat_jeu :: peripheriques where
  "etat_jeu = init_ncurses hote_calme etat_lcd"

lemma etat_jeu_pret: "lcd_pret hd_allume etat_jeu" "grille_visible etat_jeu"
proof -
  have "trace {Terminal, Fenetre} etat_lcd etat_jeu" unfolding etat_jeu_def by (rule trace_init_ncurses) simp_all
  from trace_lcd_pret(1) [OF this] etat_lcd_pret show "lcd_pret hd_allume etat_jeu" by simp
  have "trace {Sortie, Broche_lcd} etat_initial etat_lcd"
    by (auto simp: etat_lcd_def trace_def cadre_def etat_initial_def evts_demarrer_def evts_octet_def evts_quartet_def
        evts_strobe_def evts_broches_lcd_def evts_nibble_def evts_commande_def)
  from trace_terminal(1) [OF this] have "terminal_de (journal etat_lcd) = terminal_eteint"
    by (simp add: terminal_de_def etat_initial_def)
  then show "grille_visible etat_jeu"
    by (simp add: etat_jeu_def grille_visible_def init_ncurses_def hote_calme_def sdiv_nonneg Let_def)
qed

lemma hote_horloge_hasard: "hasard_ok (hote_horloge pas)"
  by (simp add: hasard_ok_def hote_horloge_def hote_calme_def)

theorem jouer_partie_juste_temoin:
  "\<exists>rep t k indices forme w'. jouer_partie (hote_horloge 50000) etat_jeu = Some (rep, t, int k + 1, w') \<and>
    0 \<le> forme \<and> forme < 16 \<and> indices_ok indices \<and> k < 16 \<and> indices ! k = forme \<and>
    (\<forall>k' < 16. cellule_montre w' k' (motif_cellule indices k')) \<and>
    (\<forall>i < 8. registres_de d_max7219 w' (1 + int i) = formes ! nat forme ! i mod 256) \<and>
    lcd_pret hd_allume w' \<and> lcd_texte hd_allume w' = ligne_lcd ''Trouvez la forme'' @ ligne_lcd ''sur la grille!'' \<and>
    0 \<le> rep \<and> rep \<le> 16 \<and> 0 \<le> t \<and> (rep = 0 \<longrightarrow> 100 \<le> t)"
  by (rule jouer_partie_juste [OF hote_horloge_arrondi hote_horloge_regulier hote_horloge_hasard etat_jeu_pret]) simp_all

section \<open>The result\<close>

lemma format_d_nul [simp]: "CHR 0x00 \<notin> set (format_d n)"
  using chiffres_nat_digits [of "nat n"] chiffres_nat_digits [of "nat (- n)"]
  by (auto simp: format_d_def est_chiffre_def)

lemma format_d_non_vide [simp]: "format_d n \<noteq> []"
  by (simp add: format_d_def chiffres_nat_nonempty)

lemma format_d_longueur: "\<lbrakk>0 \<le> n; n < 10 ^ k; 0 < k\<rbrakk> \<Longrightarrow> length (format_d n) \<le> k"
  by (simp add: format_d_def length_chiffres_nat nat_less_iff)

text \<open>The time as text: whole seconds, a point and tenths; fifteen characters at most below a thousand seconds.\<close>

lemma temps_longueur:
  assumes "0 \<le> t" "t < 100000"
  shows "length (format_d (t sdiv 10)) \<le> 4" "length (format_d (t smod 10)) \<le> 1"
  using assms format_d_longueur [of "t mod 10" 1] by (simp_all add: sdiv_nonneg smod_nonneg format_d_longueur [of _ 4])

lemma page_suite:
  assumes "lcd_pret D w" and "length a \<le> 17" "length b \<le> 15" "b \<noteq> []" "CHR 0x00 \<notin> set a" "CHR 0x00 \<notin> set b"
  shows "\<exists>w'. Option.bind (lcd_effacer w) (\<lambda>w. Option.bind (lcd_ecrire 0 0 a w)
      (\<lambda>w. Option.bind (sprintf_buf 16 b) (\<lambda>s. lcd_ecrire 0 1 s w))) = Some w' \<and>
    lcd_pret D w' \<and> lcd_texte D w' = ligne_lcd (take 16 a) @ ligne_lcd b"
  using lcd_page_texte [of D w a b] assms by (simp add: sprintf_buf_def lcd_page_def)

lemma afficher_resultat_rend:
  assumes "lcd_pret D w" and "0 \<le> t" "t < 100000" and "1 \<le> position" "position \<le> 16"
  shows "\<exists>w'. afficher_resultat rep position t w = Some w' \<and> lcd_pret D w' \<and> lcd_texte D w' =
    (if t \<ge> 100 then ligne_lcd ''Trop lent!'' @ ligne_lcd (format_temps t)
     else if rep = position then ligne_lcd ''Bravo! Correct!'' @ ligne_lcd (format_temps t)
     else ligne_lcd ''Erreur!'' @ ligne_lcd (''Position: '' @ format_d position))"
proof -
  have l: "length (format_temps t) \<le> 15" "length (''Position: '' @ format_d position) \<le> 15"
    using temps_longueur [OF assms(2,3)] format_d_longueur [of position 2] assms(4,5) by (simp_all add: format_temps_def)
  define titre where "titre = (if t \<ge> 100 then ''Trop lent!'' else if rep = position then ''Bravo! Correct!'' else ''Erreur!'')"
  define texte where "texte = (if t \<ge> 100 \<or> rep = position then format_temps t else ''Position: '' @ format_d position)"
  have "length titre \<le> 17" "length texte \<le> 15" "texte \<noteq> []" "CHR 0x00 \<notin> set titre" "CHR 0x00 \<notin> set texte"
    using l by (simp_all add: titre_def texte_def format_temps_def)
  from page_suite [OF assms(1) this]
  obtain v where v: "Option.bind (lcd_effacer w) (\<lambda>w. Option.bind (lcd_ecrire 0 0 titre w)
      (\<lambda>w. Option.bind (sprintf_buf 16 texte) (\<lambda>s. lcd_ecrire 0 1 s w))) = Some v"
    "lcd_pret D v" "lcd_texte D v = ligne_lcd (take 16 titre) @ ligne_lcd texte" by blast
  define w' where "w' = refresh_display (delay 3000 (refresh_display v))"
  have "trace {Sortie, Terminal} v w'" unfolding w'_def by (intro trace_grille trace_appels) simp_all
  from trace_lcd_pret(1,2) [OF this] v(2,3) have "lcd_pret D w'" "lcd_texte D w' = ligne_lcd (take 16 titre) @ ligne_lcd texte" by simp_all
  moreover have "afficher_resultat rep position t w = Option.bind (Option.bind (lcd_effacer w) (\<lambda>w. Option.bind (lcd_ecrire 0 0 titre w)
      (\<lambda>w. Option.bind (sprintf_buf 16 texte) (\<lambda>s. lcd_ecrire 0 1 s w)))) (\<lambda>v. Some (refresh_display (delay 3000 (refresh_display v))))"
    by (auto simp: afficher_resultat_def titre_def texte_def Let_def)
  then have "afficher_resultat rep position t w = Some w'" unfolding v(1) by (simp add: w'_def)
  ultimately show ?thesis by (auto simp: titre_def texte_def)
qed

text \<open> C17: the result on the display of the device. For a time below ten thousand seconds and a
  position of the grid, \<open>afficher_resultat\<close> returns, and the display shows that the player was too
  slow, from ten seconds on, whatever the answer; otherwise that the answer was right, with the
  time, or wrong, with the right position. \<close>

theorem afficher_resultat_ecran:
  assumes "lcd_pret D w" and "0 \<le> t" "t < 100000" and "1 \<le> position" "position \<le> 16"
  shows "\<exists>w'. afficher_resultat rep position t w = Some w' \<and> lcd_pret D w' \<and> lcd_texte D w' =
    (if t \<ge> 100 then ligne_lcd ''Trop lent!'' @ ligne_lcd (format_temps t)
     else if rep = position then ligne_lcd ''Bravo! Correct!'' @ ligne_lcd (format_temps t)
     else ligne_lcd ''Erreur!'' @ ligne_lcd (''Position: '' @ format_d position))"
  by (rule afficher_resultat_rend [OF assms])

theorem afficher_resultat_ecran_temoin:
  "\<exists>w'. afficher_resultat 7 9 42 etat_lcd = Some w' \<and> lcd_pret hd_allume w' \<and> lcd_texte hd_allume w' =
    (if (42::int) \<ge> 100 then ligne_lcd ''Trop lent!'' @ ligne_lcd (format_temps 42)
     else if (7::int) = 9 then ligne_lcd ''Bravo! Correct!'' @ ligne_lcd (format_temps 42)
     else ligne_lcd ''Erreur!'' @ ligne_lcd (''Position: '' @ format_d 9))"
  by (rule afficher_resultat_ecran [OF etat_lcd_pret]) simp_all

lemma client_resultat_rend:
  assumes "lcd_pret D w" and "0 \<le> t" "t < 100000" and "1 \<le> position" "position \<le> 16"
  shows "\<exists>w'. client_resultat t (rep = position) position w = Some w' \<and> lcd_pret D w' \<and> lcd_texte D w' =
    (if t \<ge> 100 then ligne_lcd ''Trop lent!'' @ ligne_lcd (format_temps_client ''Temps: '' t)
     else if rep = position then ligne_lcd (format_temps_client ''Temps: '' t) @ ligne_lcd ''Attente resultat''
     else ligne_lcd ''Mauvaise reponse'' @ ligne_lcd (''Position: '' @ format_d position))"
proof -
  have l: "length (format_temps_client ''Temps: '' t) \<le> 15" "length (''Position: '' @ format_d position) \<le> 15"
    and n: "CHR 0x00 \<notin> set (format_temps_client ''Temps: '' t)"
    using temps_longueur [OF assms(2,3)] format_d_longueur [of position 2] assms(4,5) by (simp_all add: format_temps_client_def)
  consider "t \<ge> 100" | "t < 100" "rep = position" | "t < 100" "rep \<noteq> position" by linarith
  then show ?thesis
  proof cases
    case 1
    with page_suite [OF assms(1), of "''Trop lent!''" "format_temps_client ''Temps: '' t"] l n show ?thesis
      by (auto simp: client_resultat_def format_temps_client_def)
  next
    case 2
    from lcd_page_texte [OF assms(1), of "format_temps_client ''Temps: '' t" "''Attente resultat''"] l n
    obtain w' where "lcd_page (format_temps_client ''Temps: '' t) ''Attente resultat'' w = Some w'" "lcd_pret D w'"
      "lcd_texte D w' = ligne_lcd (take 16 (format_temps_client ''Temps: '' t)) @ ligne_lcd ''Attente resultat''" by auto
    moreover have "sprintf_buf 16 (format_temps_client ''Temps: '' t) = Some (format_temps_client ''Temps: '' t)"
      using l by (simp add: sprintf_buf_def)
    ultimately show ?thesis using 2 l by (auto simp: client_resultat_def lcd_page_def bind_Some_iff)
  next
    case 3
    with page_suite [OF assms(1), of "''Mauvaise reponse!''" "''Position: '' @ format_d position"] l show ?thesis
      by (auto simp: client_resultat_def)
  qed
qed

text \<open> C18: the result on the display of a client. For a time below ten thousand seconds and a
  position of the grid \<open>main\<close> shows the same three results in its own words; the seventeen
  characters of \<open>Mauvaise reponse!\<close> lose the exclamation mark. \<close>

theorem client_resultat_ecran:
  assumes "lcd_pret D w" and "0 \<le> t" "t < 100000" and "1 \<le> position" "position \<le> 16"
  shows "\<exists>w'. client_resultat t (rep = position) position w = Some w' \<and> lcd_pret D w' \<and> lcd_texte D w' =
    (if t \<ge> 100 then ligne_lcd ''Trop lent!'' @ ligne_lcd (format_temps_client ''Temps: '' t)
     else if rep = position then ligne_lcd (format_temps_client ''Temps: '' t) @ ligne_lcd ''Attente resultat''
     else ligne_lcd ''Mauvaise reponse'' @ ligne_lcd (''Position: '' @ format_d position))"
  by (rule client_resultat_rend [OF assms])

theorem client_resultat_ecran_temoin:
  "\<exists>w'. client_resultat 42 ((9::int) = 9) 9 etat_lcd = Some w' \<and> lcd_pret hd_allume w' \<and> lcd_texte hd_allume w' =
    (if (42::int) \<ge> 100 then ligne_lcd ''Trop lent!'' @ ligne_lcd (format_temps_client ''Temps: '' 42)
     else if (9::int) = 9 then ligne_lcd (format_temps_client ''Temps: '' 42) @ ligne_lcd ''Attente resultat''
     else ligne_lcd ''Mauvaise reponse'' @ ligne_lcd (''Position: '' @ format_d 9))"
  by (rule client_resultat_ecran [OF etat_lcd_pret]) simp_all

end
