(* ===== verification/Invariants.thy ===== *)
theory Invariants
  imports Partie
begin

text \<open>
  Invariants of the game. The functions of \<open>lib/jeu.c\<close> and of \<open>client.c\<close> reach the devices through
  the peripheral libraries only. A property of the state that the operations of these libraries
  keep, as the game calls them, is therefore kept by every function of the game. The locale states
  the contract once; its lemmas follow the code function by function, for runs that return.
\<close>

section \<open>Results of runs that return\<close>

definition garde :: "('r \<Rightarrow> bool) \<Rightarrow> 'r option \<Rightarrow> bool" where
  "garde Q m \<longleftrightarrow> (\<forall>r. m = Some r \<longrightarrow> Q r)"

lemma gardeD: "\<lbrakk>garde Q m; m = Some r\<rbrakk> \<Longrightarrow> Q r"
  by (simp add: garde_def)

lemma garde_Some: "Q r \<Longrightarrow> garde Q (Some r)"
  and garde_None: "garde Q None"
  and garde_if: "\<lbrakk>c \<Longrightarrow> garde Q m; \<not> c \<Longrightarrow> garde Q n\<rbrakk> \<Longrightarrow> garde Q (if c then m else n)"
  by (simp_all add: garde_def)

lemma garde_bind: "\<lbrakk>garde R m; \<And>x. R x \<Longrightarrow> garde Q (f x)\<rbrakk> \<Longrightarrow> garde Q (Option.bind m f)"
  by (auto simp: garde_def bind_Some_iff)

lemma foldM_une: "foldM f [x] = f x"
proof
  show "foldM f [x] s = f x s" for s by (cases "f x s") simp_all
qed

lemma garde_foldM:
  assumes "P s" and "\<And>x u. \<lbrakk>x \<in> set xs; P u\<rbrakk> \<Longrightarrow> garde P (f x u)"
  shows "garde P (foldM f xs s)"
  unfolding garde_def
proof (intro allI impI)
  fix s' assume "foldM f xs s = Some s'"
  then show "P s'" by (rule foldM_conserve) (use assms in \<open>auto simp: garde_def\<close>)
qed

lemma garde_boucle:
  assumes "P s" and "\<And>s. P s \<Longrightarrow> garde (\<lambda>r. case r of Inl s' \<Rightarrow> P s' | Inr x \<Rightarrow> Q x) (f s)"
  shows "garde Q (boucle f s)"
  unfolding garde_def
proof (intro allI impI)
  fix r assume "boucle f s = Some r"
  then show "Q r"
  proof (rule boucle_invariant [where P = P])
    show "P s'" if "P s" "f s = Some (Inl s')" for s s' using gardeD [OF assms(2) [OF that(1)] that(2)] by simp
    show "Q r" if "P s" "f s = Some (Inr r)" for s r using gardeD [OF assms(2) [OF that(1)] that(2)] by simp
  qed (rule assms(1))
qed

section \<open>The contract\<close>

lemma trace_contact_lecture: "trace {Entree, Horloge} w (snd (snd (snd (contact_lecture E d a t w))))"
proof (cases "h_digitalRead E (journal w) TOUCH_PIN = HIGH")
  case True
  then show ?thesis
    by (cases a) (simp_all add: contact_lecture_cas(2,3) [OF True] trace_consigne)
next
  case False
  then show ?thesis by (simp add: contact_lecture_cas(1) [OF False] trace_consigne)
qed

abbreviation (input) sortes_simples :: "sorte set" where
  "sortes_simples \<equiv> {Sortie, Broche_led, Entree, Terminal, Horloge, Tirage}"

locale invariant_jeu =
  fixes P :: "peripheriques \<Rightarrow> bool"
  assumes lcd_effacer: "P w \<Longrightarrow> garde P (lcd_effacer w)"
    and lcd_ecriture: "\<lbrakk>P w; 0 \<le> x; x < 16; 0 \<le> y; y < 2\<rbrakk> \<Longrightarrow> garde P (Option.bind (lcd_position x y w) (foldM lcd_caractere cs))"
    and segment7_effacer: "P w \<Longrightarrow> P (segment7_effacer w)"
    and segment7_nombre: "P w \<Longrightarrow> garde P (segment7_afficher_nombre n w)"
    and simple: "\<lbrakk>P w; trace sortes_simples w u\<rbrakk> \<Longrightarrow> P u"
begin

text \<open>How the property passes from one call to the next.\<close>

lemma suite:
  "\<lbrakk>P m; \<And>u. P u \<Longrightarrow> garde Q (f u)\<rbrakk> \<Longrightarrow> garde Q (Let m f)"
  "\<lbrakk>P (snd m2); \<And>x u. P u \<Longrightarrow> garde Q (f2 x u)\<rbrakk> \<Longrightarrow> garde Q (Let m2 (case_prod f2))"
  "\<lbrakk>garde P m3; \<And>u. P u \<Longrightarrow> garde Q (f u)\<rbrakk> \<Longrightarrow> garde Q (Option.bind m3 f)"
  "\<lbrakk>garde (\<lambda>r. P (snd r)) m4; \<And>x u. P u \<Longrightarrow> garde Q (f2 x u)\<rbrakk> \<Longrightarrow> garde Q (Option.bind m4 (case_prod f2))"
  "\<lbrakk>garde (\<lambda>r. P (snd (snd r))) m5; \<And>x y u. P u \<Longrightarrow> garde Q (f5 x y u)\<rbrakk> \<Longrightarrow>
    garde Q (Option.bind m5 (\<lambda>(x, y, u). f5 x y u))"
  "\<lbrakk>garde (\<lambda>r. P (snd (snd (snd r)))) m6; \<And>x y z u. P u \<Longrightarrow> garde Q (f6 x y z u)\<rbrakk> \<Longrightarrow>
    garde Q (Option.bind m6 (\<lambda>(x, y, z, u). f6 x y z u))"
  by (auto simp: Let_def garde_def bind_Some_iff split: prod.splits)

lemma pur:
  "(\<And>x. garde Q (g x)) \<Longrightarrow> garde Q (Let e g)" "(\<And>x. garde Q (g x)) \<Longrightarrow> garde Q (Option.bind m g)"
  by (auto simp: garde_def bind_Some_iff)

lemma lcd_ecrire: "\<lbrakk>P w; 0 \<le> x; x < 16; 0 \<le> y; y < 2\<rbrakk> \<Longrightarrow> garde P (lcd_ecrire x y m w)"
  unfolding lcd_ecrire_bind foldM_map [where f = lcd_caractere and g = octet_de, symmetric] by (rule lcd_ecriture)

lemma lcd_ligne: "P w \<Longrightarrow> garde P (lcd_ecrire 0 0 m w)" "P w \<Longrightarrow> garde P (lcd_ecrire 0 1 m w)"
  by (simp_all add: lcd_ecrire)

lemma simples:
  assumes "P w"
  shows "P (delay n w)" "P (touch_init w)" "P (touch_cleanup w)" "P (matrice_btn_init w)" "P (matrice_btn_cleanup w)"
    "P (matrice_led_afficher_motif m w)" "P (matrice_led_effacer w)" "P (matrice_led_luminosite l w)" "P (draw_grid w)"
    "P (refresh_display w)" "P (snd (gettimeofday E w))" "P (snd (rand E w))" "P (snd (matrice_btn_lire E w))"
    "P (reinitialiser_capteur_touch E w)" "P (fold (\<lambda>i. fold (\<lambda>j. clear_cell (int i) (int j)) [0..<4]) [0..<4] w)"
proof -
  have "trace sortes_simples w (reinitialiser_capteur_touch E w)"
    using reinitialiser_eq [of E w] by (auto intro!: trace_consigne)
  with assms show "P (reinitialiser_capteur_touch E w)" by (rule simple)
  show "P (delay n w)" "P (touch_init w)" "P (touch_cleanup w)" "P (matrice_btn_init w)" "P (matrice_btn_cleanup w)"
    "P (matrice_led_afficher_motif m w)" "P (matrice_led_effacer w)" "P (matrice_led_luminosite l w)" "P (draw_grid w)"
    "P (refresh_display w)" "P (snd (gettimeofday E w))" "P (snd (rand E w))" "P (snd (matrice_btn_lire E w))"
    "P (fold (\<lambda>i. fold (\<lambda>j. clear_cell (int i) (int j)) [0..<4]) [0..<4] w)"
    by (rule simple [OF assms]; auto intro!: trace_intros)+
qed

lemmas appels = lcd_effacer lcd_ligne segment7_effacer segment7_nombre simples

section \<open>The functions of the game\<close>

lemma choix: "P w \<Longrightarrow> garde (\<lambda>r. P (snd r)) (boucle (choix_tour E) (c, w))"
proof (rule garde_boucle [where P = "\<lambda>s. P (snd s)"])
  fix s :: "int \<times> peripheriques" assume "P (snd s)"
  then show "garde (\<lambda>r. case r of Inl s' \<Rightarrow> P (snd s') | Inr x \<Rightarrow> P (snd x)) (choix_tour E s)"
    unfolding choix_tour_def by (cases s) (simp only: prod.case snd_conv, (rule garde_if suite appels garde_Some | assumption | simp add: appels)+)
qed simp

lemma barre: "P w \<Longrightarrow> garde P (barre_progression n w)"
  unfolding barre_progression_def
    foldM_map [where f = lcd_caractere and g = "\<lambda>i. octet_de (if int i < n then CHR ''#'' else CHR ''.'')", symmetric]
  by (rule lcd_ecriture) simp_all

lemma points: "P w \<Longrightarrow> garde P (foldM (\<lambda>i w. Option.bind (lcd_position (int i) 1 w) (lcd_caractere (octet_de CHR ''.''))) [0..<16] w)"
proof (rule garde_foldM)
  fix i :: nat and v assume "i \<in> set [0..<16]" "P v"
  then show "garde P (Option.bind (lcd_position (int i) 1 v) (lcd_caractere (octet_de CHR ''.'')))"
    using lcd_ecriture [of v "int i" 1 "[octet_de CHR ''.'']"] by (simp add: foldM_une)
qed

lemma contact_boucle: "P w \<Longrightarrow> garde (\<lambda>r. P (snd r)) (boucle (contact_tour E) (d, a, c, w))"
proof (rule garde_boucle [where P = "\<lambda>s. P (snd (snd (snd s)))"])
  fix s :: "(int \<times> int) \<times> bool \<times> real \<times> peripheriques" assume s: "P (snd (snd (snd s)))"
  obtain d a c v where s': "s = (d, a, c, v)" by (cases s) auto
  obtain d' a' c' v' where l: "contact_lecture E d a c v = (d', a', c', v')" by (metis prod_cases4)
  have "trace sortes_simples v v'" using trace_mono [OF trace_contact_lecture [of v E d a c]] l by simp
  then have "P v'" using s s' by (simp add: simple)
  have e: "contact_tour E s = (if c < 1
      then Option.bind (double_to_int (h_arrondi E (c' * 16)))
        (\<lambda>n. Option.bind (barre_progression n v') (\<lambda>w. Some (Inl (d', a', c', delay 10 w))))
      else Some (Inr (c, v)))" by (simp add: contact_tour_def s' l)
  have "P v" using s s' by simp
  then show "garde (\<lambda>r. case r of Inl s' \<Rightarrow> P (snd (snd (snd s'))) | Inr x \<Rightarrow> P (snd x)) (contact_tour E s)"
    unfolding e using \<open>P v'\<close> by - (rule garde_if suite barre pur garde_Some simples | assumption | simp only: snd_conv sum.case)+
qed simp

lemma contact: "P w \<Longrightarrow> garde (\<lambda>r. P (snd r)) (attendre_contact_tactile E w)"
  unfolding attendre_contact_tactile_def by (rule suite appels points contact_boucle | assumption)+

lemma chrono_affichage: "P w \<Longrightarrow> garde (\<lambda>r. P (snd (snd r))) (chrono_affichage E d p w)"
  unfolding chrono_affichage_def
  by (rule suite appels garde_if garde_Some pur | assumption | simp only: snd_conv)+

lemma chrono_boucle: "P w \<Longrightarrow> garde (\<lambda>r. P (snd r)) (boucle (chrono_tour E d) (r, a, p, w))"
proof (rule garde_boucle [where P = "\<lambda>s. P (snd (snd (snd s)))"])
  fix s :: "int \<times> int \<times> int \<times> peripheriques" assume s: "P (snd (snd (snd s)))"
  obtain r a p v where s': "s = (r, a, p, v)" by (cases s) auto
  have "P v" using s s' by simp
  then show "garde (\<lambda>r. case r of Inl s' \<Rightarrow> P (snd (snd (snd s'))) | Inr x \<Rightarrow> P (snd x)) (chrono_tour E d s)"
    unfolding chrono_tour_def s' prod.case
    by - (rule garde_if suite chrono_affichage appels garde_Some | assumption | simp only: snd_conv sum.case)+
qed simp

lemma grille:
  assumes "P w"
  shows "garde (\<lambda>r. P (snd r)) (afficher_grille E forme w)" "garde (\<lambda>r. P (snd r)) (afficher_grille_predefinie forme indices w)"
proof -
  show "garde (\<lambda>r. P (snd r)) (afficher_grille E forme w)"
    unfolding garde_def using trace_afficher_grille [OF _ trace_refl, where A = sortes_simples] simple [OF assms] by auto
  have "trace sortes_simples w u" if "afficher_grille_predefinie forme indices w = Some (p, u)" for p u
    using that trace_afficher_formes [where A = sortes_simples and v = "draw_grid w" and w = w] trace_grille(1) [of sortes_simples w w]
    by (simp add: afficher_grille_predefinie_def Let_def)
  then show "garde (\<lambda>r. P (snd r)) (afficher_grille_predefinie forme indices w)"
    unfolding garde_def using simple [OF assms] by auto
qed

lemma jouer_partie: "P w \<Longrightarrow> garde (\<lambda>r. P (snd (snd (snd r)))) (jouer_partie E w)"
  unfolding jouer_partie_def
  by (rule suite appels grille chrono_boucle garde_Some pur | assumption | simp only: snd_conv)+

lemma afficher_resultat: "P w \<Longrightarrow> garde P (afficher_resultat rep p t w)"
  unfolding afficher_resultat_def by (rule suite appels garde_if garde_Some pur | assumption)+

lemma manche: "P w \<Longrightarrow> garde (\<lambda>r. case r of Inl u \<Rightarrow> P u | Inr u \<Rightarrow> P u) (manche E w)"
  unfolding manche_def
  by (rule suite appels contact jouer_partie afficher_resultat choix garde_Some | assumption | simp)+

lemma manches: "P w \<Longrightarrow> garde P (boucle (manche E) w)"
  by (rule garde_boucle [where P = P]) (simp_all add: manche)

section \<open>The functions of the client\<close>

lemma client_chrono: "P w \<Longrightarrow> garde (\<lambda>r. P (snd (snd r))) (client_chrono E w)"
  unfolding client_chrono_def
  by (rule suite appels chrono_boucle garde_Some pur | assumption | simp only: snd_conv)+

lemma client_effacer: "P w \<Longrightarrow> P (client_effacer w)"
  unfolding client_effacer_def Let_def by (rule appels | assumption)+

lemma client_resultat: "P w \<Longrightarrow> garde P (client_resultat t b p w)"
  unfolding client_resultat_def by (rule suite appels garde_if garde_Some pur | assumption)+

end

text \<open>The client also needs the property to be kept by what it sends and receives.\<close>

locale invariant_client = invariant_jeu +
  assumes reseau: "\<lbrakk>P w; trace {Reseau} w u\<rbrakk> \<Longrightarrow> P u"
begin

lemma envoyer: "P w \<Longrightarrow> P (snd (envoyer_donnees E s bs w))"
  by (erule reseau) (auto simp: envoyer_donnees_def send_def Let_def intro!: trace_consigne)

lemma recevoir: "P w \<Longrightarrow> P (snd (recevoir_donnees E s n w))"
  by (erule reseau) (auto simp: recevoir_donnees_def recv_def Let_def intro!: trace_consigne)

lemma receptions:
  assumes "P w"
  shows "garde (\<lambda>r. P (snd r)) (recevoir_char E s w)" "garde (\<lambda>r. P (snd r)) (recevoir_entier E s w)"
    "garde (\<lambda>r. P (snd r)) (recevoir_indices E s w)"
  using recevoir [OF assms]
  by (auto simp: garde_def recevoir_char_def recevoir_entier_def recevoir_indices_def split: prod.splits option.splits list.splits if_splits)
    (metis snd_conv)+

lemma client_attente: "P w \<Longrightarrow> garde (\<lambda>r. P (snd r)) (client_attente E s w)"
  unfolding client_attente_def
  by (rule suite appels envoyer receptions contact garde_if garde_Some pur | assumption | simp only: snd_conv)+

lemma client_grille: "P w \<Longrightarrow> garde (\<lambda>r. P (snd r)) (client_grille E s w)"
  unfolding client_grille_def
  by (rule suite appels receptions grille garde_Some pur | assumption | simp only: snd_conv)+

lemma client_comparaison: "P w \<Longrightarrow> garde P (client_comparaison E s juste t w)"
  unfolding client_comparaison_def
  by (rule suite appels envoyer receptions garde_Some pur | assumption)+

lemma client_choix: "P w \<Longrightarrow> garde (\<lambda>r. P (snd r)) (client_choix E s w)"
  unfolding client_choix_def
  by (rule suite appels envoyer choix garde_if garde_Some pur | assumption | simp only: snd_conv)+

lemma tour_client: "P w \<Longrightarrow> garde (\<lambda>r. case r of Inl u \<Rightarrow> P u | Inr u \<Rightarrow> P u) (tour_client E s w)"
  unfolding tour_client_def
  by (rule suite appels client_attente client_grille client_chrono client_effacer client_resultat client_comparaison client_choix
      garde_if garde_Some pur | assumption | simp only: sum.case)+

lemma tours_client: "P w \<Longrightarrow> garde P (boucle (tour_client E s) w)"
  by (rule garde_boucle [where P = P]) (simp_all add: tour_client)

end

section \<open>Two invariants\<close>

text \<open>What the game may do at most: every footprint of its calls.\<close>

abbreviation (input) sortes_jeu :: "sorte set" where
  "sortes_jeu \<equiv> {Sortie, Broche_lcd, Broche_led, Bus_i2c, Entree, Terminal, Horloge, Tirage}"

lemma trace_lcd_ecriture:
  assumes "trace A w v" and "sortes_lcd \<subseteq> A" and "lcd_position x y v = Some v1" "foldM lcd_caractere cs v1 = Some u"
  shows "trace A w u"
  using assms(4) trace_lcd(2) [OF assms(1,2,3)] by (rule trace_foldM) (use trace_lcd(3) assms(2) in blast)

lemma trace_operations:
  assumes A: "sortes_jeu \<subseteq> A" and w: "trace A w v"
  shows "garde (trace A w) (lcd_effacer v)" "garde (trace A w) (Option.bind (lcd_position x y v) (foldM lcd_caractere cs))"
    "trace A w (segment7_effacer v)" "garde (trace A w) (segment7_afficher_nombre n v)"
    "trace sortes_simples v u \<Longrightarrow> trace A w u" "\<lbrakk>trace {Reseau} v u; Reseau \<in> A\<rbrakk> \<Longrightarrow> trace A w u"
proof -
  have a: "sortes_lcd \<subseteq> A" "sortes_segment \<subseteq> A" "sortes_simples \<subseteq> A" using A by auto
  show "garde (trace A w) (lcd_effacer v)" unfolding garde_def using trace_lcd(1) [OF w a(1)] by blast
  show "garde (trace A w) (Option.bind (lcd_position x y v) (foldM lcd_caractere cs))"
    unfolding garde_def bind_Some_iff using trace_lcd_ecriture [OF w a(1)] by blast
  show "trace A w (segment7_effacer v)" by (rule trace_segment7(3) [OF w a(2)])
  show "garde (trace A w) (segment7_afficher_nombre n v)" unfolding garde_def using trace_afficher_nombre [OF w a(2)] by blast
  show "trace sortes_simples v u \<Longrightarrow> trace A w u" by (rule trace_trans [OF w trace_mono [OF _ a(3)]])
  show "\<lbrakk>trace {Reseau} v u; Reseau \<in> A\<rbrakk> \<Longrightarrow> trace A w u" using trace_trans [OF w trace_mono] by simp
qed

interpretation jeu: invariant_jeu "trace sortes_jeu w" for w
proof
  fix v assume w: "trace sortes_jeu w v"
  note o = trace_operations [OF order_refl w]
  show "garde (trace sortes_jeu w) (lcd_effacer v)" by (rule o)
  show "garde (trace sortes_jeu w) (Option.bind (lcd_position x y v) (foldM lcd_caractere cs))" for x y cs by (rule o)
  show "trace sortes_jeu w (segment7_effacer v)" by (rule o)
  show "garde (trace sortes_jeu w) (segment7_afficher_nombre n v)" for n by (rule o)
  show "trace sortes_jeu w u" if "trace sortes_simples v u" for u using that by (rule o)
qed

interpretation client: invariant_client "trace (insert Reseau sortes_jeu) w" for w
proof
  fix v assume w: "trace (insert Reseau sortes_jeu) w v"
  note o = trace_operations [OF subset_insertI w]
  show "garde (trace (insert Reseau sortes_jeu) w) (lcd_effacer v)" by (rule o)
  show "garde (trace (insert Reseau sortes_jeu) w) (Option.bind (lcd_position x y v) (foldM lcd_caractere cs))" for x y cs by (rule o)
  show "trace (insert Reseau sortes_jeu) w (segment7_effacer v)" by (rule o)
  show "garde (trace (insert Reseau sortes_jeu) w) (segment7_afficher_nombre n v)" for n by (rule o)
  show "trace (insert Reseau sortes_jeu) w u" if "trace sortes_simples v u" for u using that by (rule o)
  show "trace (insert Reseau sortes_jeu) w u" if "trace {Reseau} v u" for u using that by (rule o) simp
qed

section \<open>The devices in service\<close>

text \<open>
  Between \<open>initialiser_peripheriques\<close> and \<open>nettoyer_peripheriques\<close>: the display is ready, its control
  bits are three bits, and the descriptor and the buffer of the digits are in place.
\<close>

definition en_service :: "hd44780 \<Rightarrow> int \<Rightarrow> peripheriques \<Rightarrow> bool" where
  "en_service D fd w \<longleftrightarrow> lcd_pret D w \<and> 0 \<le> lcdControl w \<and> lcdControl w < 8 \<and>
     i2c_fd w = fd \<and> length (display_buffer w) = 8"

lemma service_trace: "\<lbrakk>en_service D fd w; trace A w u; Broche_lcd \<notin> A; Bus_i2c \<notin> A\<rbrakk> \<Longrightarrow> en_service D fd u"
  using trace_lcd_pret(1) [of A w u D] by (simp add: en_service_def trace_def cadre_def)

lemma controle_bas [simp]:
  fixes w :: peripheriques
  shows "lcdControl (ecrire_bits ps d w) = lcdControl w" "lcdControl (strobe l w) = lcdControl w"
    "lcdControl (sendDataCmd l c w) = lcdControl w" "lcdControl (putCommand l c w) = lcdControl w"
    "lcdControl (ranger_lcd l w) = lcdControl w"
proof -
  have e: "lcdControl (ecrire_bits ps d w) = lcdControl w" for ps d and w :: peripheriques
    by (induction ps d w rule: ecrire_bits.induct) (simp_all add: appels_def)
  have s: "lcdControl (strobe l w) = lcdControl w" for w :: peripheriques by (simp add: strobe_def appels_def Let_def)
  show "lcdControl (ecrire_bits ps d w) = lcdControl w" "lcdControl (strobe l w) = lcdControl w"
    "lcdControl (sendDataCmd l c w) = lcdControl w" "lcdControl (putCommand l c w) = lcdControl w"
    "lcdControl (ranger_lcd l w) = lcdControl w"
    by (simp_all add: e s sendDataCmd_def putCommand_def ranger_lcd_def appels_def Let_def)
qed

lemma controle_lcd:
  "lcd_effacer w = Some u \<Longrightarrow> lcdControl u = lcdControl w"
  "lcd_position x y w = Some u \<Longrightarrow> lcdControl u = lcdControl w"
  "lcd_caractere c w = Some u \<Longrightarrow> lcdControl u = lcdControl w"
  by (auto simp: lcd_effacer_def lcd_position_def lcd_caractere_def bind_Some_iff appels_def Let_def split: if_splits)

lemma service_lcd:
  assumes "en_service D fd w" and "lcd_pret D u" "trace sortes_lcd w u" "lcdControl u = lcdControl w"
  shows "en_service D fd u"
  using assms by (simp add: en_service_def trace_def cadre_def)

lemma service_ecriture:
  assumes w: "en_service D fd w" and x: "0 \<le> x" "x < 16" "0 \<le> y" "y < 2"
    and v: "lcd_position x y w = Some v" "foldM lcd_caractere cs v = Some u"
  shows "en_service D fd u"
proof (rule service_lcd [OF w])
  have p: "lcd_pret D w" using w by (simp add: en_service_def)
  from lcd_position_juste [OF p x] v(1) have "\<exists>p. lcd_aligne D v p" by auto
  moreover have "\<exists>p. lcd_aligne D b p" if "\<exists>p. lcd_aligne D a p" "lcd_caractere c a = Some b" for a b c
    using that lcd_caractere_juste [of D a _ c] by fastforce
  ultimately have "\<exists>p. lcd_aligne D u p"
    using foldM_conserve [OF v(2), where P = "\<lambda>v. \<exists>p. lcd_aligne D v p"] by blast
  then show "lcd_pret D u" using lcd_aligne_pret by blast
  show "trace sortes_lcd w u" by (rule trace_lcd_ecriture [OF trace_refl _ v]) simp
  have "lcdControl u = lcdControl v"
    by (rule foldM_conserve [OF v(2), where P = "\<lambda>u. lcdControl u = lcdControl v"]) (simp_all add: controle_lcd(3))
  with controle_lcd(2) [OF v(1)] show "lcdControl u = lcdControl w" by simp
qed

lemma segment7_champs [simp]:
  "i2c_fd (segment7_effacer w) = i2c_fd w" "length (display_buffer (segment7_effacer w)) = length (display_buffer w)"
  "i2c_fd (segment7_ecrire_chiffre p x w) = i2c_fd w"
  "length (display_buffer (segment7_ecrire_chiffre p x w)) = length (display_buffer w)"
  by (simp_all add: segment7_effacer_def segment7_ecrire_chiffre_def Let_def upt_8)

lemma chiffres_champs [simp]:
  "i2c_fd (snd (afficher_chiffres n p w)) = i2c_fd w \<and>
   length (display_buffer (snd (afficher_chiffres n p w))) = length (display_buffer w)"
  by (induction n p w rule: afficher_chiffres.induct) (subst (1 2) afficher_chiffres.simps, simp)

lemma nombre_champs:
  assumes "segment7_afficher_nombre n w = Some u"
  shows "i2c_fd u = i2c_fd w \<and> length (display_buffer u) = length (display_buffer w)"
proof -
  have c: "i2c_fd v = i2c_fd w \<and> length (display_buffer v) = length (display_buffer w)"
    if "afficher_chiffres k 3 (segment7_effacer w) = (p, v)" for k p v
    using chiffres_champs [of k 3 "segment7_effacer w"] that by simp
  from assms show ?thesis
    by (auto simp: segment7_afficher_nombre_def Let_def bind_Some_iff split: if_splits prod.splits dest!: c)
qed

lemma service_segment7:
  "\<lbrakk>en_service D fd w; trace sortes_segment w u; i2c_fd u = i2c_fd w; length (display_buffer u) = length (display_buffer w)\<rbrakk> \<Longrightarrow>
    en_service D fd u"
  using trace_lcd_pret(1) [of sortes_segment w u D] by (simp add: en_service_def trace_def cadre_def)

interpretation service: invariant_client "en_service D fd" for D fd
proof
  fix w assume w: "en_service D fd w"
  then have p: "lcd_pret D w" by (simp add: en_service_def)
  show "garde (en_service D fd) (lcd_effacer w)"
    unfolding garde_def
    using lcd_effacer_juste [OF p] lcd_aligne_pret trace_lcd(1) [OF trace_refl order_refl, of w] controle_lcd(1) [of w] service_lcd [OF w]
    by (metis option.inject)
  show "garde (en_service D fd) (Option.bind (lcd_position x y w) (foldM lcd_caractere cs))" if "0 \<le> x" "x < 16" "0 \<le> y" "y < 2" for x y cs
    unfolding garde_def bind_Some_iff using service_ecriture [OF w that] by blast
  show "en_service D fd (segment7_effacer w)"
    by (rule service_segment7 [OF w]) (simp_all add: trace_segment7)
  show "garde (en_service D fd) (segment7_afficher_nombre n w)" for n
    unfolding garde_def using trace_afficher_nombre [OF trace_refl order_refl, of n w] nombre_champs [of n w] service_segment7 [OF w] by blast
  show "en_service D fd u" if "trace sortes_simples w u" for u by (rule service_trace [OF w that]) simp_all
  show "en_service D fd u" if "trace {Reseau} w u" for u by (rule service_trace [OF w that]) simp_all
qed

end
