(* ===== verification/Dialogue.thy ===== *)
theory Dialogue
  imports Invariants Session
begin

text \<open>
  The conversation of a client with the server: what \<open>main\<close> of \<open>client.c\<close> sends and receives during
  a round, in which order and with which meaning, and what it shows of it.
\<close>

section \<open>Network events\<close>

fun reseau :: "journal_t \<Rightarrow> net_evt list" where
  "reseau [] = []"
| "reseau (Net e # h) = e # reseau h"
| "reseau (_ # h) = reseau h"

lemma reseau_append [simp]: "reseau (h @ es) = reseau h @ reseau es"
  by (induction h rule: reseau.induct) simp_all

lemma reseau_autres:
  assumes "\<forall>e \<in> set es. genre e \<noteq> Reseau \<and> genre e \<noteq> Fichier"
  shows "reseau es = []"
  using assms
proof (induction es rule: reseau.induct)
  case (2 e h)
  then show ?case by (cases e) simp_all
qed simp_all

lemma trace_reseau:
  assumes "trace A w u" and "Reseau \<notin> A" "Fichier \<notin> A"
  shows "reseau (journal u) = reseau (journal w)"
proof -
  obtain es where es: "journal u = journal w @ es" "\<forall>e \<in> set es. genre e \<in> A" using assms(1) by (rule trace_evts)
  then have "\<forall>e \<in> set es. genre e \<noteq> Reseau \<and> genre e \<noteq> Fichier" using assms(2,3) by metis
  with es(1) show ?thesis by (simp add: reseau_autres)
qed

text \<open>The footprints of the functions of the game, from the contract.\<close>

lemma trace_choix:
  assumes "boucle (choix_tour E) (c, w) = Some (d, u)"
  shows "trace sortes_boutons w u"
proof -
  have "garde (\<lambda>r. trace sortes_boutons w (snd r)) (boucle (choix_tour E) (c, w))"
  proof (rule garde_boucle [where P = "\<lambda>s. trace sortes_boutons w (snd s)"])
    fix s :: "int \<times> peripheriques" assume s: "trace sortes_boutons w (snd s)"
    have "trace sortes_boutons w (delay 100 (snd (matrice_btn_lire E (snd s))))"
      by (intro trace_appels trace_lecture_boutons s) simp_all
    with s show "garde (\<lambda>r. case r of Inl s' \<Rightarrow> trace sortes_boutons w (snd s') | Inr x \<Rightarrow> trace sortes_boutons w (snd x)) (choix_tour E s)"
      by (auto simp: choix_tour_def garde_def split: prod.splits if_splits)
  qed simp
  from gardeD [OF this assms] show ?thesis by simp
qed

lemma trace_contact: "attendre_contact_tactile E w = Some (t, u) \<Longrightarrow> trace sortes_jeu w u"
  by (drule gardeD [OF jeu.contact [OF trace_refl]]) simp

lemma trace_chrono:
  assumes "client_chrono E w = Some (rep, t, u)"
  shows "trace sortes_jeu w u" and "0 \<le> rep" "rep \<le> 16" and "c_int_ok t"
proof -
  show "trace sortes_jeu w u" using gardeD [OF jeu.client_chrono [OF trace_refl] assms] by simp
  obtain d w1 where d: "gettimeofday E w = (d, w1)" by fastforce
  from assms d obtain r w2 where b': "boucle (chrono_tour E d) (0, 0, -1, w1) = Some (r, w2)"
    and s: "(let (m, w3) = gettimeofday E w2 in Option.bind (double_to_int (h_arrondi E (secondes E m d * 10)))
      (\<lambda>t. Some (r, t, w3))) = Some (rep, t, u)"
    by (auto simp: client_chrono_def bind_Some_iff)
  obtain m w3 where "gettimeofday E w2 = (m, w3)" by fastforce
  with s b' have b: "boucle (chrono_tour E d) (0, 0, -1, w1) = Some (rep, w2)"
    and m: "double_to_int (h_arrondi E (secondes E m d * 10)) = Some t" by (auto simp: bind_Some_iff)
  from m show "c_int_ok t" by (auto simp: double_to_int_def)
  have "garde (\<lambda>r. 0 \<le> fst r \<and> fst r \<le> 16) (boucle (chrono_tour E d) (0, 0, -1, w1))"
  proof (rule garde_boucle [where P = "\<lambda>s. 0 \<le> fst s \<and> fst s \<le> 16"])
    fix s :: "int \<times> int \<times> int \<times> peripheriques" assume s: "0 \<le> fst s \<and> fst s \<le> 16"
    obtain r a p v where s': "s = (r, a, p, v)" by (cases s) auto
    show "garde (\<lambda>r. case r of Inl s' \<Rightarrow> 0 \<le> fst s' \<and> fst s' \<le> 16 | Inr x \<Rightarrow> 0 \<le> fst x \<and> fst x \<le> 16) (chrono_tour E d s)"
      using s lire_borne [of E v] unfolding s'
      by (auto simp: chrono_tour_def garde_def bind_Some_iff split: prod.splits if_splits)
  qed simp
  from gardeD [OF this b] show "0 \<le> rep" "rep \<le> 16" by simp_all
qed

lemma trace_client_effacer: "trace {Sortie, Broche_led, Bus_i2c, Terminal} w (client_effacer w)"
  by (auto simp: client_effacer_def Let_def intro!: trace_grille trace_fold trace_led trace_segment7)

lemma trace_ecran_jeu:
  "lcd_effacer v = Some u \<Longrightarrow> trace sortes_jeu v u" "lcd_ecrire x y m v = Some u \<Longrightarrow> trace sortes_jeu v u"
  by (rule trace_lcd(1) trace_lcd_ecrire; simp)+

lemma trace_page_jeu:
  assumes "lcd_effacer w = Some w1" "lcd_ecrire 0 0 a w1 = Some w2" "lcd_ecrire 0 1 b w2 = Some u"
  shows "trace sortes_jeu w u"
  by (rule trace_trans [OF trace_ecran_jeu(1) [OF assms(1)]
      trace_trans [OF trace_ecran_jeu(2) [OF assms(2)] trace_ecran_jeu(2) [OF assms(3)]]])

lemma trace_client_resultat: "client_resultat t b p w = Some u \<Longrightarrow> trace sortes_jeu w u"
  using gardeD [OF jeu.client_resultat [OF trace_refl]] .

lemma trace_led_jeu: "trace sortes_jeu w (matrice_led_afficher_motif m w)"
  by (rule trace_led) simp_all

text \<open>
  The key the stopwatch returns is that of its last scan of the matrix, which it makes at least once:
  from the end of this scan on, the client reads no input pin before it sends its answer.
\<close>

abbreviation (input) sortes_muettes :: "sorte set" where
  "sortes_muettes \<equiv> {Sortie, Broche_lcd, Broche_led, Bus_i2c, Terminal, Horloge}"

lemma trace_affichage:
  assumes "chrono_affichage E d q w = Some (t, q', u)"
  shows "trace {Sortie, Bus_i2c, Horloge} w u"
proof -
  obtain m v where m: "gettimeofday E w = (m, v)" by fastforce
  have "trace {Sortie, Bus_i2c, Horloge} w (snd (gettimeofday E w))" by (rule trace_gettimeofday) simp_all
  with m have v: "trace {Sortie, Bus_i2c, Horloge} w v" by simp
  with assms m trace_afficher_nombre [OF v] show ?thesis
    by (auto simp: chrono_affichage_def bind_Some_iff split: if_splits)
qed

definition derniere_lecture :: "hote \<Rightarrow> peripheriques \<Rightarrow> int \<Rightarrow> peripheriques \<Rightarrow> bool" where
  "derniere_lecture E w touche u \<longleftrightarrow>
     (\<exists>v v'. matrice_btn_lire E v = (touche, v') \<and> trace sortes_jeu w v \<and> trace sortes_muettes v' u)"

lemma derniere_lecture_suite:
  "\<lbrakk>derniere_lecture E w touche u; trace sortes_muettes u u'\<rbrakk> \<Longrightarrow> derniere_lecture E w touche u'"
  unfolding derniere_lecture_def using trace_trans by blast

lemma chrono_tour_lecture:
  assumes "chrono_tour E d (rep, t, q, v) = Some (Inl (rep', t', q', u))" and "trace sortes_jeu w v"
  shows "derniere_lecture E w rep' u" and "trace sortes_jeu w u"
proof -
  obtain b v' where l: "matrice_btn_lire E v = (b, v')" by fastforce
  with assms(1) obtain x where c: "chrono_affichage E d q v' = Some (t', q', x)" "b = rep'" "u = delay 10 x"
    by (auto simp: chrono_tour_def bind_Some_iff split: if_splits)
  have "trace sortes_muettes v' u" unfolding c(3)
    by (rule trace_appels [OF trace_mono [OF trace_affichage [OF c(1)]]]) auto
  then show "derniere_lecture E w rep' u" using l c(2) assms(2) unfolding derniere_lecture_def by blast
  have "trace sortes_jeu v v'" using trace_mono [OF lire_trace [of v E]] l by simp
  moreover have "trace sortes_jeu v' u" by (rule trace_mono [OF \<open>trace sortes_muettes v' u\<close>]) auto
  ultimately show "trace sortes_jeu w u" using assms(2) trace_trans by blast
qed

lemma chrono_lecture:
  assumes "client_chrono E w = Some (rep, t, u)"
  shows "derniere_lecture E w rep u"
proof -
  obtain d w1 where d: "gettimeofday E w = (d, w1)" by fastforce
  with assms obtain w2 where b: "boucle (chrono_tour E d) (0, 0, -1, w1) = Some (rep, w2)"
    and u: "u = snd (gettimeofday E w2)"
    by (auto simp: client_chrono_def bind_Some_iff case_prod_beta Let_def)
  have "trace sortes_jeu w (snd (gettimeofday E w))" by (rule trace_gettimeofday) simp_all
  with d have 1: "trace sortes_jeu w w1" by simp
  have "derniere_lecture E w (fst (rep, w2)) (snd (rep, w2))"
  proof (rule boucle_invariant [where P = "\<lambda>(r, a, p, v). trace sortes_jeu w v \<and> (r = 0 \<and> a = 0 \<or> derniere_lecture E w r v)" and
        Q = "\<lambda>r. derniere_lecture E w (fst r) (snd r)", OF b])
    show "case (0, 0, -1, w1) of (r, a, p, v) \<Rightarrow> trace sortes_jeu w v \<and> (r = 0 \<and> a = 0 \<or> derniere_lecture E w r v)"
      using 1 by simp
  next
    fix s s' assume "case s of (r, a, p, v) \<Rightarrow> trace sortes_jeu w v \<and> (r = 0 \<and> a = 0 \<or> derniere_lecture E w r v)"
      "chrono_tour E d s = Some (Inl s')"
    then show "case s' of (r, a, p, v) \<Rightarrow> trace sortes_jeu w v \<and> (r = 0 \<and> a = 0 \<or> derniere_lecture E w r v)"
      using chrono_tour_lecture by (cases s; cases s') auto
  next
    fix s r assume "case s of (r, a, p, v) \<Rightarrow> trace sortes_jeu w v \<and> (r = 0 \<and> a = 0 \<or> derniere_lecture E w r v)"
      "chrono_tour E d s = Some (Inr r)"
    then show "derniere_lecture E w (fst r) (snd r)"
      by (cases s) (auto simp: chrono_tour_def bind_Some_iff split: if_splits prod.splits)
  qed
  moreover have "trace sortes_muettes w2 (snd (gettimeofday E w2))" by (rule trace_gettimeofday) simp_all
  ultimately show ?thesis using u derniere_lecture_suite by simp
qed

lemma trace_ecran_muet:
  "lcd_effacer v = Some u \<Longrightarrow> trace sortes_muettes v u" "lcd_ecrire x y m v = Some u \<Longrightarrow> trace sortes_muettes v u"
  by (rule trace_lcd(1) trace_lcd_ecrire; simp)+

lemma trace_page_muet:
  assumes "lcd_effacer w = Some w1" "lcd_ecrire 0 0 a w1 = Some w2" "lcd_ecrire 0 1 b w2 = Some u"
  shows "trace sortes_muettes w u"
  by (rule trace_trans [OF trace_ecran_muet(1) [OF assms(1)]
      trace_trans [OF trace_ecran_muet(2) [OF assms(2)] trace_ecran_muet(2) [OF assms(3)]]])

lemma trace_resultat_muet: "client_resultat t b p w = Some u \<Longrightarrow> trace sortes_muettes w u"
  by (auto simp: client_resultat_def bind_Some_iff split: if_splits intro: trace_page_muet)

section \<open>The stages of a round\<close>

lemma reseau_envoi:
  fixes w :: peripheriques
  shows "reseau (journal (snd (envoyer_donnees E s bs w))) = reseau (journal w) @ [Send s bs (fst (envoyer_donnees E s bs w))]"
  by (simp add: envoyer_donnees_def send_def Let_def)

lemma reseau_char:
  fixes w :: peripheriques
  assumes "recevoir_char E s w = Some (c, u)"
  shows "reseau (journal u) = reseau (journal w) @ [Recv s 1 (Some [c])]"
proof -
  define r where "r = map_option (take 1) (h_recv E (journal w) s 1)"
  from assms have "\<exists>bs. r = Some (c # bs)" "u = consigne [Net (Recv s 1 r)] w"
    by (auto simp: recevoir_char_def recevoir_donnees_def recv_def Let_def r_def split: option.splits list.splits)
  moreover have "length bs \<le> 1" if "r = Some bs" for bs using that by (auto simp: r_def)
  ultimately have "r = Some [c]" "u = consigne [Net (Recv s 1 r)] w" by fastforce+
  then show ?thesis by simp
qed

lemma octets_mot32:
  assumes "length bs = 4"
  shows "octets_int (int_octets bs) = bs"
proof -
  from assms obtain a b c d where bs: "bs = [a, b, c, d]" by (auto simp: length_Suc_conv eval_nat_numeral)
  have "octets 4 (mot_octets bs) = bs"
    unfolding bs mot_octets_def octets_def
    by (auto simp: upt_rec intro!: bit_word_eqI)
      (auto simp: bit_simps impossible_bit)
  then show ?thesis by (simp add: octets_int_def int_octets_def)
qed


lemma tableau_mots: "length bs = 4 * n \<Longrightarrow> tableau_octets (octets_tableau n bs) = bs \<and> length (octets_tableau n bs) = n"
proof (induction n arbitrary: bs)
  case (Suc n)
  have "length (take 4 bs) = 4" "length (drop 4 bs) = 4 * n" using Suc.prems by simp_all
  with Suc.IH [of "drop 4 bs"] octets_mot32 [of "take 4 bs"] show ?case by (simp add: tableau_octets_def)
qed (simp add: tableau_octets_def)

lemma reseau_entier:
  fixes w :: peripheriques
  assumes "recevoir_entier E s w = Some (x, u)"
  shows "reseau (journal u) = reseau (journal w) @ [Recv s 4 (Some (octets_int x))]"
  using assms octets_mot32
  by (auto simp: recevoir_entier_def recevoir_donnees_def recv_def Let_def split: option.splits if_splits)

lemma reseau_indices:
  fixes w :: peripheriques
  assumes "recevoir_indices E s w = Some (xs, u)"
  shows "reseau (journal u) = reseau (journal w) @ [Recv s 64 (Some (tableau_octets xs))]" and "length xs = 16"
  using assms tableau_mots [of _ 16]
  by (auto simp: recevoir_indices_def recevoir_donnees_def recv_def Let_def split: option.splits if_splits)

lemma muet: "trace sortes_jeu w u \<Longrightarrow> reseau (journal u) = reseau (journal w)"
  by (erule trace_reseau) simp_all

lemmas muets = muet [OF trace_ecran_jeu(1)] muet [OF trace_ecran_jeu(2)] muet [OF trace_contact]
  muet [OF trace_client_resultat] muet [OF trace_chrono(1)]

lemma reseau_delay [simp]: "reseau (journal (delay n w)) = reseau (journal w)"
  by (simp add: delay_def)

lemma client_attente_dialogue:
  assumes "client_attente E s w = Some (b, u)"
  shows "\<exists>n c. reseau (journal u) = reseau (journal w) @ [Send s [octet_de CHR ''1''] n, Recv s 1 (Some [c])] \<and>
    b = (c = octet_de CHR ''1'')"
proof -
  define w0 where "w0 = delay 100 (touch_init (matrice_btn_init (delay 200 (matrice_btn_cleanup (touch_cleanup w)))))"
  have t0: "trace sortes_jeu w w0" unfolding w0_def by (intro trace_appels trace_boutons) simp_all
  from assms obtain t w1 w3 w4 w5 c w6 where 1: "attendre_contact_tactile E w0 = Some (t, w1)"
    and 3: "lcd_effacer (snd (envoyer_donnees E s [octet_de CHR ''1''] w1)) = Some w3" "lcd_ecrire 0 0 ''Attente des'' w3 = Some w4"
      "lcd_ecrire 0 1 ''autres joueurs..'' w4 = Some w5"
    and c: "recevoir_char E s w5 = Some (c, w6)"
    and s: "(if c \<noteq> octet_de CHR ''1'' then Option.bind (lcd_effacer w6) (\<lambda>w. Option.bind (lcd_ecrire 0 0 ''Erreur de synchro'' w)
        (\<lambda>w. Option.bind (lcd_ecrire 0 1 ''avec le serveur'' w) (\<lambda>w. Some (False, delay 2000 w)))) else Some (True, w6)) = Some (b, u)"
    by (auto simp: client_attente_def bind_Some_iff w0_def case_prod_beta cong: if_cong)
  have "reseau (journal u) = reseau (journal w6) \<and> b = (c = octet_de CHR ''1'')"
    using s by (auto simp: bind_Some_iff muets split: if_splits)
  then show ?thesis
    using muet [OF t0] muets(3) [OF 1] reseau_envoi [of E s "[octet_de CHR ''1'']" w1] muets(1) [OF 3(1)] muets(2) [OF 3(2)] muets(2) [OF 3(3)]
      reseau_char [OF c] by auto
qed

lemma afficher_formes_bornes:
  assumes "afficher_formes forme indices w = Some (p, u)" and "length indices = 16"
  shows "\<forall>i \<in> set indices. 0 \<le> i \<and> i < 16" and "p = position_dans indices forme 16"
proof -
  from assms(1) obtain r where r: "foldM (\<lambda>k. afficher_cellule forme indices (k div 4) (k mod 4)) [0..<16] (0, -1, w) = Some r"
    by (auto simp: afficher_formes_def foldM_product cases_16 foldM_map bind_Some_iff)
  have "fst r = n \<and> (\<forall>k < n. 0 \<le> indices ! k \<and> indices ! k < 16)"
    if "foldM (\<lambda>k. afficher_cellule forme indices (k div 4) (k mod 4)) [0..<n] (0, -1, w) = Some r" "n \<le> 16" for n r
    using that
  proof (induction n arbitrary: r)
    case (Suc n)
    from Suc.prems(1) obtain r' where r': "foldM (\<lambda>k. afficher_cellule forme indices (k div 4) (k mod 4)) [0..<n] (0, -1, w) = Some r'"
      "afficher_cellule forme indices (n div 4) (n mod 4) r' = Some r" by (auto simp: foldM_append bind_Some_iff)
    from Suc.IH [OF r'(1)] Suc.prems(2) have "fst r' = n" "\<forall>k < n. 0 \<le> indices ! k \<and> indices ! k < 16" by simp_all
    with r'(2) show ?case
      by (cases r') (auto simp: afficher_cellule_def bind_Some_iff formes_lire_def less_Suc_eq Let_def split: if_splits)
  qed simp
  from this [OF r] assms(2) show b: "\<forall>i \<in> set indices. 0 \<le> i \<and> i < 16" by (auto simp: in_set_conv_nth)
  from afficher_formes_eq [OF assms(2) b, of forme w] assms(1) show "p = position_dans indices forme 16" by simp
qed

lemma client_grille_dialogue:
  assumes "client_grille E s w = Some (p, u)"
  shows "\<exists>forme indices. reseau (journal u) = reseau (journal w) @
      [Recv s 4 (Some (octets_int forme)), Recv s 64 (Some (tableau_octets indices))] \<and>
    0 \<le> forme \<and> forme < 16 \<and> length indices = 16 \<and> (\<forall>i \<in> set indices. 0 \<le> i \<and> i < 16) \<and> p = position_dans indices forme 16"
proof -
  from assms obtain forme w1 indices w2 f w3 where 1: "recevoir_entier E s w = Some (forme, w1)"
    and 2: "recevoir_indices E s w1 = Some (indices, w2)"
    and f: "formes_lire forme = Some f"
    and g: "afficher_grille_predefinie forme indices (matrice_led_afficher_motif f w2) = Some (p, w3)"
    and r: "Option.bind (lcd_effacer w3) (\<lambda>w. Option.bind (lcd_ecrire 0 0 ''Cherchez la forme'' w)
        (\<lambda>w. Option.bind (lcd_ecrire 0 1 ''dans la grille!'' w) (\<lambda>w. Option.bind (segment7_afficher_nombre 0 (segment7_effacer w))
          (\<lambda>w. Some (p, w))))) = Some (p, u)"
    by (auto simp: client_grille_def bind_Some_iff)
  have i: "length indices = 16" using reseau_indices(2) [OF 2] .
  have a: "afficher_formes forme indices (draw_grid (matrice_led_afficher_motif f w2)) = Some (p, w3)"
    using g by (simp add: afficher_grille_predefinie_def Let_def)
  note b = afficher_formes_bornes [OF a i]
  have "trace sortes_jeu w2 w3"
    using trace_afficher_formes [OF a trace_grille(1) [OF trace_led_jeu]] by simp
  moreover from r obtain w4 w5 w6 where "lcd_effacer w3 = Some w4" "lcd_ecrire 0 0 ''Cherchez la forme'' w4 = Some w5"
      "lcd_ecrire 0 1 ''dans la grille!'' w5 = Some w6" and 7: "segment7_afficher_nombre 0 (segment7_effacer w6) = Some u"
    by (auto simp: bind_Some_iff)
  then have "trace sortes_jeu w3 w6" by (intro trace_page_jeu)
  moreover have "trace sortes_jeu w6 u"
    by (rule trace_afficher_nombre [OF _ _ 7]) (auto intro: trace_segment7)
  ultimately have "reseau (journal u) = reseau (journal w2)" using muet by metis
  with reseau_entier [OF 1] reseau_indices(1) [OF 2] f i b show ?thesis
    by (intro exI [of _ forme] exI [of _ indices]) (auto simp: formes_lire_def split: if_splits)
qed

lemma client_comparaison_dialogue:
  assumes "client_comparaison E s juste t w = Some u"
  shows "\<exists>n n' meilleur pire. reseau (journal u) = reseau (journal w) @
      [Send s (octets_int (if juste then 1 else 0)) n, Send s (octets_int t) n',
       Recv s 4 (Some (octets_int meilleur)), Recv s 4 (Some (octets_int pire))]"
proof -
  define w1 where "w1 = snd (envoyer_donnees E s (octets_int (if juste then 1 else 0)) w)"
  define w2 where "w2 = snd (envoyer_donnees E s (octets_int t) w1)"
  from assms obtain m w3 p w4 w5 x w6 y w7 where 3: "recevoir_entier E s w2 = Some (m, w3)" "recevoir_entier E s w3 = Some (p, w4)"
    and 5: "lcd_effacer (delay 2000 w4) = Some w5" "lcd_ecrire 0 0 x w5 = Some w6" "lcd_ecrire 0 1 y w6 = Some w7" "u = delay 3000 w7"
    by (auto simp: client_comparaison_def bind_Some_iff case_prod_beta w1_def w2_def)
  show ?thesis
    using muet [OF trace_page_jeu [OF 5(1-3)]] 5(4) reseau_entier [OF 3(1)] reseau_entier [OF 3(2)]
      reseau_envoi [of E s "octets_int (if juste then 1 else 0)" w] reseau_envoi [of E s "octets_int t" w1]
    by (auto simp flip: w1_def w2_def)
qed

text \<open>The answer is the first thing the comparison does, before anything else is read or sent.\<close>

lemma client_comparaison_debut:
  assumes "client_comparaison E s juste t w = Some u"
  shows "\<exists>n es. journal u = journal w @ Net (Send s (octets_int (if juste then 1 else 0)) n) # es"
proof -
  define bs :: "octet list" where "bs = octets_int (if juste then 1 else 0)"
  define w1 where "w1 = snd (envoyer_donnees E s bs w)"
  have 1: "journal w1 = journal w @ [Net (Send s bs (fst (envoyer_donnees E s bs w)))]"
    by (simp add: w1_def envoyer_donnees_def send_def Let_def)
  define w2 where "w2 = snd (envoyer_donnees E s (octets_int t) w1)"
  from assms obtain m w3 p w4 w5 x w6 y w7 where 3: "recevoir_entier E s w2 = Some (m, w3)" "recevoir_entier E s w3 = Some (p, w4)"
    and 5: "lcd_effacer (delay 2000 w4) = Some w5" "lcd_ecrire 0 0 x w5 = Some w6" "lcd_ecrire 0 1 y w6 = Some w7" "u = delay 3000 w7"
    by (auto simp: client_comparaison_def bind_Some_iff case_prod_beta w1_def w2_def bs_def)
  have "trace (insert Reseau sortes_jeu) w1 w2" unfolding w2_def by (rule client.envoyer) simp
  then have "trace (insert Reseau sortes_jeu) w1 w3" using gardeD [OF client.receptions(2) 3(1)] by simp
  then have "trace (insert Reseau sortes_jeu) w1 w4" using gardeD [OF client.receptions(2) 3(2)] by simp
  then have "trace (insert Reseau sortes_jeu) w1 (delay 2000 w4)" by (rule trace_appels) simp
  then have "trace (insert Reseau sortes_jeu) w1 w7" by (rule trace_trans) (rule trace_mono [OF trace_page_jeu [OF 5(1-3)]], auto)
  then have "trace (insert Reseau sortes_jeu) w1 u" unfolding 5(4) by (rule trace_appels) simp
  then obtain es where "journal u = journal w1 @ es" by (rule traceE)
  with 1 show ?thesis by (auto simp: bs_def)
qed

lemma client_choix_dialogue:
  assumes "client_choix E s w = Some (b, u)"
  shows "\<exists>n. reseau (journal u) = reseau (journal w) @ [Send s [octet_de (if b then CHR ''o'' else CHR ''n'')] n]"
proof -
  have on: "octet_de CHR ''o'' \<noteq> octet_de CHR ''n''" by (simp add: octet_de_def)
  from assms obtain w1 w2 w3 c w4 where 1: "lcd_effacer w = Some w1" "lcd_ecrire 0 0 ''Rejouer ?'' w1 = Some w2"
      "lcd_ecrire 0 1 ''O:BTN1  N:BTN2'' w2 = Some w3" and c: "boucle (choix_tour E) (0, w3) = Some (c, w4)"
    and r: "(let reponse = octet_de (if c = 1 then CHR ''o'' else CHR ''n''); w5 = snd (envoyer_donnees E s [reponse] w4) in
      if reponse = octet_de CHR ''n'' then Option.bind (lcd_effacer w5) (\<lambda>w. Option.bind (lcd_ecrire 0 0 ''Fin du jeu!'' w)
        (\<lambda>w. Option.bind (lcd_ecrire 0 1 ''Au revoir!'' w) (\<lambda>w. Some (False, w)))) else Some (True, w5)) = Some (b, u)"
    by (auto simp: client_choix_def bind_Some_iff case_prod_beta Let_def cong: if_cong)
  have "trace sortes_jeu w w4"
    using trace_trans [OF trace_page_jeu [OF 1] trace_mono [OF trace_choix [OF c]]] by simp
  note m = muet [OF this]
  define o' where "o' = octet_de (if c = 1 then CHR ''o'' else CHR ''n'')"
  define w5 where "w5 = snd (envoyer_donnees E s [o'] w4)"
  have "reseau (journal u) = reseau (journal w5) \<and> o' = octet_de (if b then CHR ''o'' else CHR ''n'')"
    using r on unfolding Let_def o'_def [symmetric] w5_def [symmetric]
    by (cases "c = 1") (auto simp: bind_Some_iff muets o'_def split: if_splits)
  moreover have "reseau (journal w5) = reseau (journal w4) @ [Send s [o'] (fst (envoyer_donnees E s [o'] w4))]"
    unfolding w5_def by (rule reseau_envoi)
  ultimately show ?thesis using m by auto
qed

section \<open>The protocol of a client\<close>

text \<open>The parts of a round that is played to its end, and how the journal grows over them.\<close>

lemma client_prolonge:
  "client_attente E s w = Some (b, u) \<Longrightarrow> \<exists>es. journal u = journal w @ es"
  "client_grille E s w = Some (p, u) \<Longrightarrow> \<exists>es. journal u = journal w @ es"
  "client_choix E s w = Some (b, u) \<Longrightarrow> \<exists>es. journal u = journal w @ es"
proof -
  note g = client.client_attente [OF trace_refl] client.client_grille [OF trace_refl] client.client_choix [OF trace_refl]
  show "client_attente E s w = Some (b, u) \<Longrightarrow> \<exists>es. journal u = journal w @ es"
    "client_grille E s w = Some (p, u) \<Longrightarrow> \<exists>es. journal u = journal w @ es"
    "client_choix E s w = Some (b, u) \<Longrightarrow> \<exists>es. journal u = journal w @ es"
    by (drule gardeD [OF g(1)] gardeD [OF g(2)] gardeD [OF g(3)], auto simp: trace_def)+
qed

text \<open>The answer sent is about the key of the last scan.\<close>

lemma client_reponse:
  assumes "client_chrono E w2 = Some (touche, t, w3)" and "client_resultat t (touche = p) p (client_effacer w3) = Some w4"
    and "client_comparaison E s (touche = p) t w4 = Some w5"
  shows "\<exists>(v :: peripheriques) v' h es n fin. matrice_btn_lire E v = (touche, v') \<and> journal v = journal w2 @ h \<and> reseau h = [] \<and>
    journal w5 = journal v' @ es @ Net (Send s (octets_int (if touche = p then 1 else 0)) n) # fin \<and>
    reseau es = [] \<and> (\<forall>pin x. Gpio (DigitalRead pin x) \<notin> set es)"
proof -
  have "trace sortes_muettes w3 (client_effacer w3)" by (rule trace_mono [OF trace_client_effacer]) auto
  with chrono_lecture [OF assms(1)] have "derniere_lecture E w2 touche w4"
    using derniere_lecture_suite trace_resultat_muet [OF assms(2)] by blast
  then obtain v v' where v: "matrice_btn_lire E v = (touche, v')" "trace sortes_jeu w2 v" "trace sortes_muettes v' w4"
    unfolding derniere_lecture_def by blast
  obtain h where h: "journal v = journal w2 @ h" "\<forall>e \<in> set h. genre e \<in> sortes_jeu" using v(2) by (rule trace_evts)
  obtain es where es: "journal w4 = journal v' @ es" "\<forall>e \<in> set es. genre e \<in> sortes_muettes" using v(3) by (rule trace_evts)
  have "reseau h = []" "reseau es = []" using h(2) es(2) by (auto intro!: reseau_autres)
  moreover have "Gpio (DigitalRead pin x) \<notin> set es" for pin x using es(2) by fastforce
  moreover obtain n fin where "journal w5 = journal w4 @ Net (Send s (octets_int (if touche = p then 1 else 0)) n) # fin"
    using client_comparaison_debut [OF assms(3)] by blast
  ultimately show ?thesis using v(1) h(1) es(1)
    by (intro exI [of _ v] exI [of _ v'] exI [of _ h] exI [of _ es] exI [of _ n] exI [of _ fin]) simp
qed

lemma client_lecture:
  assumes "client_attente E s w = Some (b, w1)" and "client_grille E s w1 = Some (p, w2)"
    and "client_chrono E w2 = Some (touche, t, w3)" and "client_resultat t (touche = p) p (client_effacer w3) = Some w4"
    and "client_comparaison E s (touche = p) t w4 = Some w5" and "client_choix E s w5 = Some (b', w6)"
  shows "\<exists>(v :: peripheriques) v' debut es m fin. matrice_btn_lire E v = (touche, v') \<and> journal v = journal w @ debut \<and>
    reseau (journal w2) = reseau (journal w) @ reseau debut \<and> reseau (journal v') = reseau (journal w2) \<and>
    journal w6 = journal v' @ es @ Net (Send s (octets_int (if touche = p then 1 else 0)) m) # fin \<and> reseau es = [] \<and>
    (\<forall>p x. Gpio (DigitalRead p x) \<notin> set es)"
proof -
  obtain h1 h2 h6 where h: "journal w1 = journal w @ h1" "journal w2 = journal w1 @ h2" "journal w6 = journal w5 @ h6"
    using client_prolonge(1) [OF assms(1)] client_prolonge(2) [OF assms(2)] client_prolonge(3) [OF assms(6)] by blast
  obtain v v' :: peripheriques and h3 es m fin where v: "matrice_btn_lire E v = (touche, v')" "journal v = journal w2 @ h3" "reseau h3 = []"
    and a: "journal w5 = journal v' @ es @ Net (Send s (octets_int (if touche = p then 1 else 0)) m) # fin"
      "reseau es = []" "\<forall>p x. Gpio (DigitalRead p x) \<notin> set es"
    using client_reponse [OF assms(3-5)] by blast
  have "reseau (journal v') = reseau (journal v)" using trace_reseau [OF lire_trace [of v E]] v(1) by simp
  moreover have "journal w6 = journal v' @ es @ Net (Send s (octets_int (if touche = p then 1 else 0)) m) # (fin @ h6)"
    using a(1) h(3) by simp
  moreover have "journal v = journal w @ (h1 @ h2 @ h3)" using v(2) h(1,2) by simp
  moreover have "reseau (journal w2) = reseau (journal w) @ reseau (h1 @ h2 @ h3)" using h(1,2) v(3) by simp
  moreover have "reseau (journal v) = reseau (journal w2)" using v(2,3) by simp
  ultimately show ?thesis using v(1) a(2,3) by metis
qed

text \<open> C5: the conversation of a round, seen from a client. In every round that comes to its end the
  client sends its confirmation and receives one character. If that is not 1 it stops. Otherwise it
  receives a shape of the table and an arrangement of numbers of shapes, in this order; it sends
  whether the key pressed is the place of that shape in that arrangement, then its time; it receives
  the best and the worst time; and it sends one letter, o to go on and n to stop. Nothing else is
  sent or received. The key pressed is the result of a scan of the matrix of buttons, made after the
  arrangement is received and before the answer is sent, and the last one: no input pin is read between
  this scan and the answer. \<close>

theorem client_protocole:
  assumes "tour_client E s w = Some r"
  shows "\<exists>n c. (c \<noteq> octet_de CHR ''1'' \<and> (\<exists>w'. r = Inr w' \<and>
        reseau (journal w') = reseau (journal w) @ [Send s [octet_de CHR ''1''] n, Recv s 1 (Some [c])])) \<or>
     (c = octet_de CHR ''1'' \<and> (\<exists>w' continue forme indices touche t n1 n2 meilleur pire n3.
        r = (if continue then Inl w' else Inr w') \<and> reseau (journal w') = reseau (journal w) @
          [Send s [octet_de CHR ''1''] n, Recv s 1 (Some [c]),
           Recv s 4 (Some (octets_int forme)), Recv s 64 (Some (tableau_octets indices)),
           Send s (octets_int (if touche = position_dans indices forme 16 then 1 else 0)) n1, Send s (octets_int t) n2,
           Recv s 4 (Some (octets_int meilleur)), Recv s 4 (Some (octets_int pire)),
           Send s [octet_de (if continue then CHR ''o'' else CHR ''n'')] n3] \<and>
        0 \<le> forme \<and> forme < 16 \<and> length indices = 16 \<and> (\<forall>i \<in> set indices. 0 \<le> i \<and> i < 16) \<and>
        0 \<le> touche \<and> touche \<le> 16 \<and> c_int_ok t \<and>
        (\<exists>(v :: peripheriques) v' debut es fin. matrice_btn_lire E v = (touche, v') \<and> journal v = journal w @ debut \<and>
           reseau debut = [Send s [octet_de CHR ''1''] n, Recv s 1 (Some [c]),
             Recv s 4 (Some (octets_int forme)), Recv s 64 (Some (tableau_octets indices))] \<and>
           journal w' = journal v' @ es @
             Net (Send s (octets_int (if touche = position_dans indices forme 16 then 1 else 0)) n1) # fin \<and>
           reseau es = [] \<and> (\<forall>p x. Gpio (DigitalRead p x) \<notin> set es))))"
proof -
  from assms obtain b w1 where 1: "client_attente E s w = Some (b, w1)" by (auto simp: tour_client_def bind_Some_iff)
  obtain n c where c: "reseau (journal w1) = reseau (journal w) @ [Send s [octet_de CHR ''1''] n, Recv s 1 (Some [c])]"
    "b = (c = octet_de CHR ''1'')" using client_attente_dialogue [OF 1] by blast
  show ?thesis
  proof (cases "c = octet_de CHR ''1''")
    case False
    with assms 1 c(2) have "r = Inr w1" by (simp add: tour_client_def)
    with c(1) False show ?thesis by (intro exI [of _ n] exI [of _ c] disjI1 conjI exI [of _ w1])
  next
    case True
    with assms 1 c(2) obtain p w2 touche t w3 w4 w5 b' w6 where 2: "client_grille E s w1 = Some (p, w2)"
      and 3: "client_chrono E w2 = Some (touche, t, w3)"
      and 4: "client_resultat t (touche = p) p (client_effacer w3) = Some w4"
      and 5: "client_comparaison E s (touche = p) t w4 = Some w5"
      and 6: "client_choix E s w5 = Some (b', w6)" "r = (if b' then Inl w6 else Inr w6)"
      by (auto simp: tour_client_def bind_Some_iff Let_def split: if_splits)
    obtain forme indices where f: "reseau (journal w2) = reseau (journal w1) @
        [Recv s 4 (Some (octets_int forme)), Recv s 64 (Some (tableau_octets indices))]"
      "0 \<le> forme" "forme < 16" "length indices = 16" "\<forall>i \<in> set indices. 0 \<le> i \<and> i < 16" "p = position_dans indices forme 16"
      using client_grille_dialogue [OF 2] by blast
    obtain n1 n2 meilleur pire where d: "reseau (journal w5) = reseau (journal w4) @
        [Send s (octets_int (if touche = p then 1 else 0)) n1, Send s (octets_int t) n2,
         Recv s 4 (Some (octets_int meilleur)), Recv s 4 (Some (octets_int pire))]"
      using client_comparaison_dialogue [OF 5] by blast
    obtain n3 where e: "reseau (journal w6) = reseau (journal w5) @ [Send s [octet_de (if b' then CHR ''o'' else CHR ''n'')] n3]"
      using client_choix_dialogue [OF 6(1)] by blast
    have "reseau (journal w4) = reseau (journal w2)"
      using muet [OF trace_chrono(1) [OF 3]] trace_reseau [OF trace_client_effacer [of w3]] muet [OF trace_client_resultat [OF 4]] by simp
    with c(1) f(1) d e have prot: "reseau (journal w6) = reseau (journal w) @
          [Send s [octet_de CHR ''1''] n, Recv s 1 (Some [c]),
           Recv s 4 (Some (octets_int forme)), Recv s 64 (Some (tableau_octets indices)),
           Send s (octets_int (if touche = position_dans indices forme 16 then 1 else 0)) n1, Send s (octets_int t) n2,
           Recv s 4 (Some (octets_int meilleur)), Recv s 4 (Some (octets_int pire)),
           Send s [octet_de (if b' then CHR ''o'' else CHR ''n'')] n3]"
      by (simp add: f(6))
    obtain v v' :: peripheriques and debut es m fin where v: "matrice_btn_lire E v = (touche, v')" "journal v = journal w @ debut"
        "reseau (journal w2) = reseau (journal w) @ reseau debut" "reseau (journal v') = reseau (journal w2)"
        "journal w6 = journal v' @ es @ Net (Send s (octets_int (if touche = p then 1 else 0)) m) # fin" "reseau es = []"
        "\<forall>p x. Gpio (DigitalRead p x) \<notin> set es"
      using client_lecture [OF 1 2 3 4 5 6(1)] by blast
    have deb: "reseau debut = [Send s [octet_de CHR ''1''] n, Recv s 1 (Some [c]),
        Recv s 4 (Some (octets_int forme)), Recv s 64 (Some (tableau_octets indices))]"
      using v(3) c(1) f(1) by simp
    have "reseau (journal w6) = reseau (journal w) @ reseau debut @ Send s (octets_int (if touche = p then 1 else 0)) m # reseau fin"
      using v(3-6) by simp
    then have m: "m = n1" unfolding prot deb by simp
    have lecture: "\<exists>(v :: peripheriques) v' debut es fin. matrice_btn_lire E v = (touche, v') \<and> journal v = journal w @ debut \<and>
        reseau debut = [Send s [octet_de CHR ''1''] n, Recv s 1 (Some [c]),
          Recv s 4 (Some (octets_int forme)), Recv s 64 (Some (tableau_octets indices))] \<and>
        journal w6 = journal v' @ es @
          Net (Send s (octets_int (if touche = position_dans indices forme 16 then 1 else 0)) n1) # fin \<and>
        reseau es = [] \<and> (\<forall>p x. Gpio (DigitalRead p x) \<notin> set es)"
      by (intro exI conjI) (rule v(1,2,6,7) deb v(5) [unfolded m f(6)])+
    show ?thesis
      by (rule exI [of _ n], rule exI [of _ c], rule disjI2, rule conjI [OF True], rule exI [of _ w6], rule exI [of _ b'],
          rule exI [of _ forme], rule exI [of _ indices], rule exI [of _ touche], rule exI [of _ t], rule exI [of _ n1],
          rule exI [of _ n2], rule exI [of _ meilleur], rule exI [of _ pire], rule exI [of _ n3])
        (intro conjI 6(2) prot f(2-5) trace_chrono(2-4) [OF 3] lecture)
  qed
qed

section \<open>The same grid for all\<close>

lemma indices_int_ok: "indices_ok indices \<Longrightarrow> \<forall>x \<in> set indices. c_int_ok x"
  using indices_okD(3) by (auto simp: c_int_ok_def)

lemma recevoir_entier_rend:
  fixes w :: peripheriques
  assumes "h_recv E (journal w) s 4 = Some (octets_int x)" and "c_int_ok x"
  shows "recevoir_entier E s w = Some (x, consigne [Net (Recv s 4 (Some (octets_int x)))] w)"
  using assms by (simp add: recevoir_entier_def recevoir_donnees_def recv_def int_octets_int Let_def)

lemma recevoir_indices_rend:
  fixes w :: peripheriques
  assumes "h_recv E (journal w) s 64 = Some (tableau_octets indices)" and "indices_ok indices"
  shows "recevoir_indices E s w = Some (indices, consigne [Net (Recv s 64 (Some (tableau_octets indices)))] w)"
  using assms indices_okD(1) [OF assms(2)] octets_tableau_octets [OF indices_int_ok [OF assms(2)]]
  by (simp add: recevoir_indices_def recevoir_donnees_def recv_def Let_def)

text \<open>A ready display writes its own pins only.\<close>

lemma genre_lcd: "genre ` set (evts_octet c) \<subseteq> {Sortie, Broche_lcd}"
  by (simp add: evts_octet_def evts_quartet_def evts_strobe_def)

lemma genre_lcd': "\<lbrakk>e \<in> set (evts_octet c); genre e \<noteq> Sortie\<rbrakk> \<Longrightarrow> genre e = Broche_lcd"
  using genre_lcd [of c] by auto

lemma trace_putCommand:
  assumes "trace A w v" and "lcd_standard l" "bits l = 4" and "{Sortie, Broche_lcd} \<subseteq> A"
  shows "trace A w (putCommand l c v)"
  unfolding putCommand_standard [OF assms(2,3)]
  by (rule trace_consigne [OF assms(1)]) (use genre_lcd [of c] assms(4) in auto)

lemma lcd_pret_courant:
  assumes "lcd_pret D w"
  obtains l where "lcd_courant w = Some l" "lcd_standard l" "bits l = 4"
  using assms lcd_struct_okD by (auto simp: lcd_pret_def)

lemma trace_lcd_propre:
  assumes "lcd_pret D w"
  shows "lcd_effacer w = Some u \<Longrightarrow> trace {Sortie, Broche_lcd} w u"
    and "lcd_position x y w = Some u \<Longrightarrow> trace {Sortie, Broche_lcd} w u"
    and "lcd_caractere c w = Some u \<Longrightarrow> trace {Sortie, Broche_lcd} w u"
proof -
  obtain l where l: "lcd_courant w = Some l" "lcd_standard l" "bits l = 4" by (rule lcd_pret_courant [OF assms])
  show "lcd_effacer w = Some u \<Longrightarrow> trace {Sortie, Broche_lcd} w u"
    using l by (auto simp: lcd_effacer_def intro!: trace_appels trace_putCommand)
  show "lcd_position x y w = Some u \<Longrightarrow> trace {Sortie, Broche_lcd} w u"
    using l by (auto simp: lcd_position_def bind_Some_iff split: if_splits intro!: trace_putCommand)
  show "lcd_caractere c w = Some u \<Longrightarrow> trace {Sortie, Broche_lcd} w u"
    using l genre_lcd' [of _ c]
    by (auto simp: lcd_caractere_def bind_Some_iff evts_rs sendDataCmd_standard Let_def split: if_splits
        intro!: trace_putCommand trace_consigne)
qed

lemma trace_ecrire_propre:
  assumes "lcd_pret D w" and "lcd_ecrire x y m w = Some u" and "0 \<le> x" "x < 16" "0 \<le> y" "y < 2"
  shows "trace {Sortie, Broche_lcd} w u"
proof -
  from assms(2) obtain v where v: "lcd_position x y w = Some v" "foldM (\<lambda>c. lcd_caractere (octet_de c)) (chaine_c m) v = Some u"
    by (auto simp: lcd_ecrire_bind bind_Some_iff)
  have "\<exists>p. lcd_aligne D v p" using lcd_position_juste [OF assms(1,3-6)] v(1) by auto
  then have "(\<exists>p. lcd_aligne D v p) \<and> trace {Sortie, Broche_lcd} w v" using trace_lcd_propre(2) [OF assms(1) v(1)] by simp
  with v(2) have "(\<exists>p. lcd_aligne D u p) \<and> trace {Sortie, Broche_lcd} w u"
  proof (rule foldM_conserve [where P = "\<lambda>v. (\<exists>p. lcd_aligne D v p) \<and> trace {Sortie, Broche_lcd} w v"])
    fix c v v' assume v: "(\<exists>p. lcd_aligne D v p) \<and> trace {Sortie, Broche_lcd} w v" and c: "lcd_caractere (octet_de c) v = Some v'"
    then obtain p where p: "lcd_aligne D v p" by blast
    from lcd_caractere_juste [OF p, of "octet_de c"] c have "\<exists>p. lcd_aligne D v' p" by auto
    with trace_lcd_propre(3) [OF lcd_aligne_pret [OF p] c] v trace_trans
    show "(\<exists>p. lcd_aligne D v' p) \<and> trace {Sortie, Broche_lcd} w v'" by blast
  qed
  then show ?thesis by simp
qed

lemma lcd_ecrire_rend:
  assumes "lcd_pret D w" and "0 \<le> x" "x < 16" "0 \<le> y" "y < 2"
  shows "\<exists>u. lcd_ecrire x y m w = Some u \<and> lcd_pret D u"
  using lcd.ecrire [OF assms, of octet_de "chaine_c m"] by (auto simp: lcd_ecrire_bind)

lemma trace_page_propre:
  assumes "lcd_pret D w" and "lcd_page a b w = Some u"
  shows "trace {Sortie, Broche_lcd} w u"
proof -
  from assms(2) obtain w1 w2 where 1: "lcd_effacer w = Some w1" and 2: "lcd_ecrire 0 0 a w1 = Some w2" and 3: "lcd_ecrire 0 1 b w2 = Some u"
    by (auto simp: lcd_page_def bind_Some_iff)
  have p1: "lcd_pret D w1" using lcd_effacer_juste [OF assms(1)] 1 lcd_aligne_pret by auto
  have p2: "lcd_pret D w2" using lcd_ecrire_rend [OF p1, of 0 0 a] 2 by auto
  show ?thesis
    using trace_trans [OF trace_lcd_propre(1) [OF assms(1) 1] trace_trans [OF trace_ecrire_propre [OF p1 2] trace_ecrire_propre [OF p2 3]]]
    by simp
qed

lemma client_grille_rend:
  assumes lcd: "lcd_pret D w" and g: "grille_visible w" and f: "0 \<le> forme" "forme < 16" and i: "indices_ok indices"
    and 4: "h_recv E (journal w) s 4 = Some (octets_int forme)"
    and 64: "h_recv E (journal w @ [Net (Recv s 4 (Some (octets_int forme)))]) s 64 = Some (tableau_octets indices)"
  shows "\<exists>k w'. client_grille E s w = Some (int k + 1, w') \<and> k < 16 \<and> indices ! k = forme \<and>
    (\<forall>k' < 16. cellule_montre w' k' (motif_cellule indices k')) \<and>
    (\<forall>n < 8. registres_de L w' (1 + int n) = formes ! nat forme ! n mod 256) \<and> lcd_pret D w' \<and>
    lcd_texte D w' = ligne_lcd ''Cherchez la form'' @ ligne_lcd ''dans la grille!'' \<and> trace (insert Reseau sortes_jeu) w w'"
proof -
  define w1 where "w1 = consigne [Net (Recv s 4 (Some (octets_int forme)))] w"
  define w2 where "w2 = consigne [Net (Recv s 64 (Some (tableau_octets indices)))] w1"
  define wl where "wl = matrice_led_afficher_motif (formes ! nat forme) w2"
  define w3 where "w3 = draw_grid wl"
  have r: "recevoir_entier E s w = Some (forme, w1)" "recevoir_indices E s w1 = Some (indices, w2)"
    using recevoir_entier_rend [OF 4] recevoir_indices_rend [of E w1 s indices] 64 f i
    by (auto simp: w1_def w2_def c_int_ok_def)
  have tl: "trace {Reseau, Sortie, Broche_led} w wl"
    unfolding wl_def w2_def w1_def by (intro trace_led trace_consigne) simp_all
  have tg: "trace {Terminal} wl w3" unfolding w3_def by (rule trace_grille) simp_all
  have "grille_visible w3" using draw_grid_suite [of wl] trace_fenetre [OF tl] g by (simp add: w3_def)
  from grille_generale [OF this f i] obtain k w4 where 4: "afficher_formes forme indices w3 = Some (int k + 1, w4)"
    "k < 16" "indices ! k = forme" "\<forall>k' < 16. cellule_montre w4 k' (motif_cellule indices k')" by blast
  have t4: "trace {Terminal} w3 w4" by (rule trace_afficher_formes [OF 4(1)]) simp_all
  have p4: "lcd_pret D w4"
    using trace_lcd_pret(1) [OF tl] trace_lcd_pret(1) [OF tg] trace_lcd_pret(1) [OF t4] lcd by simp
  obtain w5 where 5: "lcd_page ''Cherchez la forme'' ''dans la grille!'' w4 = Some w5" "lcd_pret D w5"
    "lcd_texte D w5 = ligne_lcd ''Cherchez la form'' @ ligne_lcd ''dans la grille!''"
    using lcd_page_texte [OF p4, of "''Cherchez la forme''" "''dans la grille!''"] by auto
  have t5: "trace {Sortie, Broche_lcd} w4 w5" by (rule trace_page_propre [OF p4 5(1)])
  obtain w6 where 6: "segment7_afficher_nombre 0 (segment7_effacer w5) = Some w6"
    using afficher_nombre_positif [of 0] by blast
  have t6: "trace sortes_segment w5 w6" by (rule trace_afficher_nombre [OF _ _ 6]) (auto intro: trace_segment7)
  have "client_grille E s w = Some (int k + 1, w6)"
    using r f 4(1) 5(1) 6
    by (simp add: client_grille_def formes_lire_def afficher_grille_predefinie_def lcd_page_bind flip: wl_def w3_def)
  moreover have "\<forall>n < 8. registres_de L w6 (1 + int n) = formes ! nat forme ! n mod 256"
    unfolding all_less_8 using trace_max7219 [OF t6, of L] trace_max7219 [OF t5, of L] trace_max7219 [OF t4, of L]
      trace_max7219 [OF tg, of L]
    by (simp add: wl_def registres_motif)
  moreover have "lcd_pret D w6" "lcd_texte D w6 = ligne_lcd ''Cherchez la form'' @ ligne_lcd ''dans la grille!''"
    using trace_lcd_pret(1,2) [OF t6, of D] 5(2,3) by simp_all
  moreover have "\<forall>k' < 16. cellule_montre w6 k' (motif_cellule indices k')"
    using 4(4) trace_terminal(2) [OF t5] trace_terminal(2) [OF t6] by simp
  moreover have "trace (insert Reseau sortes_jeu) w w6"
    by (rule trace_trans [OF trace_mono [OF tl] trace_trans [OF trace_mono [OF tg] trace_trans [OF trace_mono [OF t4]
        trace_trans [OF trace_mono [OF t5] trace_mono [OF t6]]]]]) auto
  ultimately show ?thesis
    using 4(2,3) by (intro exI [of _ k] exI [of _ w6] conjI)
qed

text \<open> C6: everyone plays on the same grid. What \<open>envoyer_grille_et_forme\<close> of the server sends is the
  same shape and the same arrangement to every player; and on any client whose connection delivers
  these bytes, with a ready display and a terminal large enough, the LEDs show that shape, the
  sixteen cells of the terminal that arrangement, and the position noted as the right answer is
  the same for all, the place of the shape. \<close>

theorem grille_commune:
  assumes "hasard_ok E" and "gere ss w" and "envoyer_grille_et_forme E w = Some w'"
  shows "\<exists>es forme indices k. journal w' = journal w @ es \<and>
    envois es = concat (map (\<lambda>j. [(j, octets_int forme), (j, tableau_octets indices)]) (joueurs w)) \<and>
    indices_ok indices \<and> k < 16 \<and> indices ! k = forme \<and>
    (\<forall>E' s D L v. lcd_pret D v \<and> grille_visible v \<and> h_recv E' (journal v) s 4 = Some (octets_int forme) \<and>
       h_recv E' (journal v @ [Net (Recv s 4 (Some (octets_int forme)))]) s 64 = Some (tableau_octets indices) \<longrightarrow>
       (\<exists>v'. client_grille E' s v = Some (int k + 1, v') \<and>
          (\<forall>k' < 16. cellule_montre v' k' (motif_cellule indices k')) \<and>
          (\<forall>n < 8. registres_de L v' (1 + int n) = formes ! nat forme ! n mod 256)))"
proof -
  obtain forme indices w1 es where e: "envoyer_grille_et_forme E w = Some w1" "journal w1 = journal w @ es" "0 \<le> forme" "forme < 16"
    "indices_ok indices" "envois es = concat (map (\<lambda>j. [(j, octets_int forme), (j, tableau_octets indices)]) (joueurs w))"
    using envoyer_grille_et_forme_faits [OF assms(1,2)] by blast
  obtain k where k: "k < 16" "indices ! k = forme" using position_trouvee [OF e(5,3,4)] by metis
  have "\<exists>v'. client_grille E' s v = Some (int k + 1, v') \<and> (\<forall>k' < 16. cellule_montre v' k' (motif_cellule indices k')) \<and>
      (\<forall>n < 8. registres_de L v' (1 + int n) = formes ! nat forme ! n mod 256)"
    if v: "lcd_pret D v" "grille_visible v" "h_recv E' (journal v) s 4 = Some (octets_int forme)"
      "h_recv E' (journal v @ [Net (Recv s 4 (Some (octets_int forme)))]) s 64 = Some (tableau_octets indices)" for E' s D L v
  proof -
    obtain k' v' where k': "client_grille E' s v = Some (int k' + 1, v')" "k' < 16" "indices ! k' = forme"
      "\<forall>k' < 16. cellule_montre v' k' (motif_cellule indices k')"
      "\<forall>n < 8. registres_de L v' (1 + int n) = formes ! nat forme ! n mod 256"
      using client_grille_rend [OF v(1,2) e(3,4,5) v(3,4), of L] by blast
    have "k' = k" using k k'(2,3) indices_okD(1,2) [OF e(5)] nth_eq_iff_index_eq by metis
    with k' show ?thesis by blast
  qed
  with e k assms(3) show ?thesis
    by (intro exI [of _ es] exI [of _ forme] exI [of _ indices] exI [of _ k]) auto
qed

text \<open>An example: a client whose connection delivers one shape and one arrangement.\<close>

definition hote_envoi :: "int \<Rightarrow> int list \<Rightarrow> hote" where
  "hote_envoi forme indices = hote_calme\<lparr>h_recv := \<lambda>h s n. Some (if n = 4 then octets_int forme else tableau_octets indices)\<rparr>"

theorem grille_commune_temoin:
  "\<exists>w' forme indices k v'. envoyer_grille_et_forme (hote_un CHR ''o'') etat_un = Some w' \<and>
    client_grille (hote_envoi forme indices) 4 etat_jeu = Some (int k + 1, v') \<and>
    cellule_montre v' k (motif_cellule indices k) \<and> registres_de d_max7219 v' 8 = formes ! nat forme ! 7 mod 256"
proof -
  obtain w' where e: "envoyer_grille_et_forme (hote_un CHR ''o'') etat_un = Some w'"
    using envoyer_grille_et_forme_faits [OF hote_un_hasard etat_un_ok(1)] by blast
  from grille_commune [OF hote_un_hasard etat_un_ok(1) e] obtain forme indices k where k: "k < 16"
    and c: "\<forall>E' s D L v. lcd_pret D v \<and> grille_visible v \<and> h_recv E' (journal v) s 4 = Some (octets_int forme) \<and>
       h_recv E' (journal v @ [Net (Recv s 4 (Some (octets_int forme)))]) s 64 = Some (tableau_octets indices) \<longrightarrow>
       (\<exists>v'. client_grille E' s v = Some (int k + 1, v') \<and>
          (\<forall>k' < 16. cellule_montre v' k' (motif_cellule indices k')) \<and>
          (\<forall>n < 8. registres_de L v' (1 + int n) = formes ! nat forme ! n mod 256))" by blast
  from c [rule_format, where E' = "hote_envoi forme indices" and s = 4 and L = d_max7219, OF conjI, OF etat_jeu_pret(1)]
  obtain v' where v: "client_grille (hote_envoi forme indices) 4 etat_jeu = Some (int k + 1, v')"
    "\<forall>k' < 16. cellule_montre v' k' (motif_cellule indices k')"
    "\<forall>n < 8. registres_de d_max7219 v' (1 + int n) = formes ! nat forme ! n mod 256"
    using etat_jeu_pret(2) by (auto simp: hote_envoi_def)
  have "registres_de d_max7219 v' 8 = formes ! nat forme ! 7 mod 256" using v(3) [rule_format, of 7] by simp
  with e v(1,2) k show ?thesis by blast
qed

section \<open>A round that ends\<close>

text \<open>How many integers a client has asked for on a connection.\<close>

definition entiers_lus :: "int \<Rightarrow> journal_t \<Rightarrow> nat" where
  "entiers_lus s h = length (filter (\<lambda>e. case e of Recv fd n r \<Rightarrow> fd = s \<and> n = 4 | _ \<Rightarrow> False) (reseau h))"

lemma entiers_lus_suite:
  "reseau h' = reseau h @ es \<Longrightarrow> entiers_lus s h' = entiers_lus s h +
     length (filter (\<lambda>e. case e of Recv fd n r \<Rightarrow> fd = s \<and> n = 4 | _ \<Rightarrow> False) es)"
  by (simp add: entiers_lus_def)

lemma client_attente_rend:
  assumes "arrondi_ieee E" "horloge_reguliere E" "\<And>h. h_digitalRead E h TOUCH_PIN = HIGH" and "lcd_pret D w"
    and recv: "\<And>h. h_recv E h s 1 = Some [octet_de CHR ''1'']"
  shows "\<exists>u. client_attente E s w = Some (True, u) \<and> lcd_pret D u \<and> trace (insert Reseau sortes_jeu) w u"
proof -
  define w0 where "w0 = delay 100 (touch_init (matrice_btn_init (delay 200 (matrice_btn_cleanup (touch_cleanup w)))))"
  have t0: "trace {Sortie} w w0" unfolding w0_def by (intro trace_appels trace_boutons) simp_all
  then have "lcd_pret D w0" using trace_lcd_pret(1) assms(4) by simp
  from attendre_contact_rend [OF assms(1-3) this] obtain t w1 where 1: "attendre_contact_tactile E w0 = Some (t, w1)" "lcd_pret D w1"
    by blast
  define w2 where "w2 = snd (envoyer_donnees E s [octet_de CHR ''1''] w1)"
  have t2: "trace {Reseau} w1 w2"
    by (auto simp: w2_def envoyer_donnees_def send_def Let_def intro!: trace_consigne)
  then have "lcd_pret D w2" using trace_lcd_pret(1) 1(2) by simp
  from lcd_page_pret [OF this, of "''Attente des''" "''autres joueurs..''"]
  obtain w3 where 3: "lcd_page ''Attente des'' ''autres joueurs..'' w2 = Some w3" "lcd_pret D w3" by blast
  define u where "u = consigne [Net (Recv s 1 (Some [octet_de CHR ''1'']))] w3"
  have c: "recevoir_char E s w3 = Some (octet_de CHR ''1'', u)"
    unfolding recevoir_char_def recevoir_donnees_def recv_def recv [of "journal w3"] Let_def u_def by simp
  have "client_attente E s w = Some (True, u)"
    using 1(1) 3(1) c by (simp add: client_attente_def lcd_page_bind case_prod_beta flip: w0_def w2_def)
  moreover have "lcd_pret D u" using 3(2) by (simp add: u_def)
  moreover have "trace (insert Reseau sortes_jeu) w u"
    unfolding u_def
    by (rule trace_consigne [OF trace_trans [OF trace_mono [OF t0] trace_trans [OF trace_mono [OF trace_contact [OF 1(1)]]
        trace_trans [OF trace_mono [OF t2] trace_lcd_page [OF trace_refl _ 3(1)]]]]]) auto
  ultimately show ?thesis by blast
qed

lemma temps_affichable:
  fixes t :: int
  assumes "0 \<le> t" "t < 1000"
  shows "length (format_d (t sdiv 10)) \<le> 2" "length (format_d (t smod 10)) \<le> 1"
proof -
  have "0 \<le> t div 10" "t div 10 < 10 ^ 2" "0 \<le> t mod 10" "t mod 10 < 10 ^ 1" using assms by auto
  then show "length (format_d (t sdiv 10)) \<le> 2" "length (format_d (t smod 10)) \<le> 1"
    using assms(1) format_d_longueur [of "t div 10" 2] format_d_longueur [of "t mod 10" 1]
    by (simp_all add: sdiv_nonneg smod_nonneg)
qed

lemma client_comparaison_affiche:
  assumes "lcd_pret D w" and "0 \<le> meilleur" "meilleur < 1000" "0 \<le> pire" "pire < 1000"
    and 1: "\<And>h. entiers_lus s h = entiers_lus s (journal w) \<Longrightarrow> h_recv E h s 4 = Some (octets_int meilleur)"
    and 2: "\<And>h. entiers_lus s h = entiers_lus s (journal w) + 1 \<Longrightarrow> h_recv E h s 4 = Some (octets_int pire)"
  shows "\<exists>u. client_comparaison E s juste t w = Some u \<and> lcd_pret D u \<and> trace (insert Reseau sortes_jeu) w u \<and>
    lcd_texte D u = ligne_lcd (format_temps_client ''Meilleur: '' meilleur) @ ligne_lcd (format_temps_client ''Pire: '' pire)"
proof -
  define w1 where "w1 = snd (envoyer_donnees E s (octets_int (if juste then 1 else 0)) w)"
  define w2 where "w2 = snd (envoyer_donnees E s (octets_int t) w1)"
  define w3 where "w3 = consigne [Net (Recv s 4 (Some (octets_int meilleur)))] w2"
  define w4 where "w4 = consigne [Net (Recv s 4 (Some (octets_int pire)))] w3"
  have l: "length (format_temps_client ''Meilleur: '' meilleur) \<le> 15" "length (format_temps_client ''Pire: '' pire) \<le> 15"
    using assms(2-5) temps_affichable [of meilleur] temps_affichable [of pire] by (simp_all add: format_temps_client_def)
  have n: "CHR 0x00 \<notin> set (format_temps_client ''Meilleur: '' meilleur)" "CHR 0x00 \<notin> set (format_temps_client ''Pire: '' pire)"
    by (simp_all add: format_temps_client_def)
  have e: "reseau (journal w2) = reseau (journal w) @ [Send s (octets_int (if juste then 1 else 0))
      (fst (envoyer_donnees E s (octets_int (if juste then 1 else 0)) w)), Send s (octets_int t) (fst (envoyer_donnees E s (octets_int t) w1))]"
    using reseau_envoi [of E s "octets_int (if juste then 1 else 0)" w] reseau_envoi [of E s "octets_int t" w1]
    by (simp flip: w1_def w2_def)
  from entiers_lus_suite [OF e, of s] have "entiers_lus s (journal w2) = entiers_lus s (journal w)" by simp
  from 1 [OF this] have r3: "recevoir_entier E s w2 = Some (meilleur, w3)"
    unfolding w3_def using assms(2,3) by (intro recevoir_entier_rend) (simp_all add: c_int_ok_def)
  have "reseau (journal w3) = reseau (journal w) @ [Send s (octets_int (if juste then 1 else 0))
      (fst (envoyer_donnees E s (octets_int (if juste then 1 else 0)) w)), Send s (octets_int t) (fst (envoyer_donnees E s (octets_int t) w1)),
      Recv s 4 (Some (octets_int meilleur))]" using e by (simp add: w3_def)
  from entiers_lus_suite [OF this, of s] have "entiers_lus s (journal w3) = entiers_lus s (journal w) + 1" by simp
  from 2 [OF this] have r4: "recevoir_entier E s w3 = Some (pire, w4)"
    unfolding w4_def using assms(4,5) by (intro recevoir_entier_rend) (simp_all add: c_int_ok_def)
  have t4: "trace {Reseau, Sortie} w (delay 2000 w4)"
    unfolding w4_def w3_def w2_def w1_def envoyer_donnees_def send_def Let_def snd_conv
    by (intro trace_appels trace_consigne) simp_all
  then have "lcd_pret D (delay 2000 w4)" using trace_lcd_pret(1) assms(1) by simp
  from lcd_page_texte [OF this _ _ _ n] l obtain w5 where
    5: "lcd_page (format_temps_client ''Meilleur: '' meilleur) (format_temps_client ''Pire: '' pire) (delay 2000 w4) = Some w5"
    "lcd_pret D w5" "lcd_texte D w5 = ligne_lcd (format_temps_client ''Meilleur: '' meilleur) @ ligne_lcd (format_temps_client ''Pire: '' pire)"
    by (auto simp: format_temps_client_def)
  have "client_comparaison E s juste t w = Some (delay 3000 w5)"
    using r3 r4 5(1) l
    by (auto simp: client_comparaison_def lcd_page_def sprintf_buf_def case_prod_beta bind_Some_iff simp flip: w1_def w2_def)
  moreover have "lcd_pret D (delay 3000 w5)" "lcd_texte D (delay 3000 w5) = lcd_texte D w5"
    using 5(2) lcd_autres(2) [of "[Sys (Delay 3000)]" D w5] by (simp_all add: delay_def)
  moreover have "trace (insert Reseau sortes_jeu) w (delay 3000 w5)"
    by (intro trace_appels trace_trans [OF trace_mono [OF t4] trace_lcd_page [OF trace_refl _ 5(1)]]) auto
  ultimately show ?thesis using 5(3) by auto
qed

lemma client_comparaison_rend:
  assumes "lcd_pret D w" and "0 \<le> meilleur" "meilleur < 1000" "0 \<le> pire" "pire < 1000"
    and "\<And>h. entiers_lus s h = entiers_lus s (journal w) \<Longrightarrow> h_recv E h s 4 = Some (octets_int meilleur)"
    and "\<And>h. entiers_lus s h = entiers_lus s (journal w) + 1 \<Longrightarrow> h_recv E h s 4 = Some (octets_int pire)"
  shows "\<exists>u. client_comparaison E s juste t w = Some u \<and> lcd_pret D u \<and> trace (insert Reseau sortes_jeu) w u"
  using client_comparaison_affiche [OF assms] by blast

text \<open>A key held, the first or the second, ends the question.\<close>

lemma choix_rend:
  assumes "clavier P E" and "balayage P = 1 \<or> balayage P = 2"
  shows "\<exists>u. boucle (choix_tour E) (0, w) = Some (balayage P, u)"
proof -
  obtain u where u: "matrice_btn_lire E w = (balayage P, u)"
    using lire_clavier [OF assms(1), of w] by (metis prod.collapse)
  have "choix_tour E (0, w) = Some (Inl (balayage P, delay 100 u))" by (simp add: choix_tour_def u)
  moreover have "choix_tour E (balayage P, delay 100 u) = Some (Inr (balayage P, delay 100 u))"
    using assms(2) by (auto simp: choix_tour_def)
  ultimately show ?thesis by (simp add: boucle_suite boucle_fin)
qed

lemma client_choix_rend:
  assumes "clavier P E" and "balayage P = 1 \<or> balayage P = 2" and "lcd_pret D w"
  shows "\<exists>u. client_choix E s w = Some (balayage P = 1, u) \<and> lcd_pret D u \<and> trace (insert Reseau sortes_jeu) w u"
proof -
  from lcd_page_pret [OF assms(3), of "''Rejouer ?''" "''O:BTN1  N:BTN2''"]
  obtain w1 where 1: "lcd_page ''Rejouer ?'' ''O:BTN1  N:BTN2'' w = Some w1" "lcd_pret D w1" by blast
  obtain w2 where 2: "boucle (choix_tour E) (0, w1) = Some (balayage P, w2)" using choix_rend [OF assms(1,2)] by blast
  have p2: "lcd_pret D w2" using trace_lcd_pret(1) [OF trace_choix [OF 2]] 1(2) by simp
  define reponse where "reponse = octet_de (if balayage P = 1 then CHR ''o'' else CHR ''n'')"
  define w3 where "w3 = snd (envoyer_donnees E s [reponse] w2)"
  have t3: "trace {Reseau} w2 w3"
    by (auto simp: w3_def envoyer_donnees_def send_def Let_def intro!: trace_consigne)
  have p3: "lcd_pret D w3" using trace_lcd_pret(1) [OF t3] p2 by simp
  have tw: "trace (insert Reseau sortes_jeu) w w3"
    by (rule trace_trans [OF trace_lcd_page [OF trace_refl _ 1(1)] trace_trans [OF trace_mono [OF trace_choix [OF 2]] trace_mono [OF t3]]]) auto
  have on: "reponse = octet_de CHR ''n'' \<longleftrightarrow> balayage P \<noteq> 1" by (simp add: reponse_def octet_de_def)
  show ?thesis
  proof (cases "balayage P = 1")
    case True
    then have "client_choix E s w = Some (True, w3)"
      using 1(1) 2 on by (simp add: client_choix_def lcd_page_bind case_prod_beta Let_def flip: reponse_def w3_def)
        (simp add: reponse_def [symmetric] w3_def [symmetric] octet_de_def w3_def reponse_def)
    with True p3 tw show ?thesis by auto
  next
    case False
    from lcd_page_pret [OF p3, of "''Fin du jeu!''" "''Au revoir!''"]
    obtain w4 where 4: "lcd_page ''Fin du jeu!'' ''Au revoir!'' w3 = Some w4" "lcd_pret D w4" by blast
    have "client_choix E s w = Some (False, w4)"
      using False 1(1) 2 4(1)
      by (simp add: client_choix_def lcd_page_bind case_prod_beta Let_def w3_def reponse_def)
    with False 4(2) trace_lcd_page [OF tw _ 4(1)] show ?thesis by auto
  qed
qed

text \<open>What the server sends to this client during the round.\<close>

definition serveur_repond :: "hote \<Rightarrow> int \<Rightarrow> nat \<Rightarrow> int \<Rightarrow> int list \<Rightarrow> int \<Rightarrow> int \<Rightarrow> bool" where
  "serveur_repond E s n forme indices meilleur pire \<longleftrightarrow>
     (\<forall>h. h_recv E h s 1 = Some [octet_de CHR ''1''] \<and> h_recv E h s 64 = Some (tableau_octets indices) \<and>
        (\<forall>k < 3. entiers_lus s h = n + k \<longrightarrow> h_recv E h s 4 = Some (octets_int ([forme, meilleur, pire] ! k))))"

lemma serveur_repondD:
  assumes "serveur_repond E s n forme indices meilleur pire"
  shows "h_recv E h s 1 = Some [octet_de CHR ''1'']" "h_recv E h s 64 = Some (tableau_octets indices)"
    and "entiers_lus s h = n \<Longrightarrow> h_recv E h s 4 = Some (octets_int forme)"
    and "entiers_lus s h = n + 1 \<Longrightarrow> h_recv E h s 4 = Some (octets_int meilleur)"
    and "entiers_lus s h = n + 2 \<Longrightarrow> h_recv E h s 4 = Some (octets_int pire)"
proof -
  have k: "entiers_lus s h = n + k \<longrightarrow> h_recv E h s 4 = Some (octets_int ([forme, meilleur, pire] ! k))" if "k < 3" for k
    using assms that unfolding serveur_repond_def by blast
  show "h_recv E h s 1 = Some [octet_de CHR ''1'']" "h_recv E h s 64 = Some (tableau_octets indices)"
    using assms unfolding serveur_repond_def by blast+
  show "entiers_lus s h = n \<Longrightarrow> h_recv E h s 4 = Some (octets_int forme)"
    "entiers_lus s h = n + 1 \<Longrightarrow> h_recv E h s 4 = Some (octets_int meilleur)"
    "entiers_lus s h = n + 2 \<Longrightarrow> h_recv E h s 4 = Some (octets_int pire)"
    using k [of 0] k [of 1] k [of 2] by (simp_all add: numeral_2_eq_2)
qed

lemma client_manche_rend:
  assumes r: "arrondi_ieee E" and h: "horloge_jusque (10 ^ 9) E" and touche: "\<And>h. h_digitalRead E h TOUCH_PIN = HIGH"
    and c: "clavier P E" "balayage P = 1 \<or> balayage P = 2"
    and w: "lcd_pret D w" "grille_visible w"
    and f: "0 \<le> forme" "forme < 16" and i: "indices_ok indices" and m: "0 \<le> meilleur" "meilleur < 1000" "0 \<le> pire" "pire < 1000"
    and s: "serveur_repond E s (entiers_lus s (journal w)) forme indices meilleur pire"
  shows "\<exists>w'. tour_client E s w = Some (if balayage P = 1 then Inl w' else Inr w') \<and> lcd_pret D w' \<and> grille_visible w'"
proof -
  note s = serveur_repondD [OF s]
  have h': "horloge_reguliere E" by (rule horloge_jusque_mono [OF h]) simp
  from client_attente_rend [OF r h' touche w(1) s(1)] obtain w1 where
    1: "client_attente E s w = Some (True, w1)" "lcd_pret D w1" "trace (insert Reseau sortes_jeu) w w1" by blast
  have g1: "grille_visible w1" using trace_fenetre [OF 1(3)] w(2) by simp
  obtain n cc where "reseau (journal w1) = reseau (journal w) @ [Send s [octet_de CHR ''1''] n, Recv s 1 (Some [cc])]"
    using client_attente_dialogue [OF 1(1)] by blast
  from entiers_lus_suite [OF this, of s] have e1: "entiers_lus s (journal w1) = entiers_lus s (journal w)" by simp
  from client_grille_rend [OF 1(2) g1 f i s(3) [OF e1] s(2)]
  obtain k w2 where 2: "client_grille E s w1 = Some (int k + 1, w2)" "k < 16" "lcd_pret D w2" "trace (insert Reseau sortes_jeu) w1 w2"
    by blast
  obtain f' i' where "reseau (journal w2) = reseau (journal w1) @ [Recv s 4 (Some (octets_int f')), Recv s 64 (Some (tableau_octets i'))]"
    using client_grille_dialogue [OF 2(1)] by blast
  from entiers_lus_suite [OF this, of s] e1 have e2: "entiers_lus s (journal w2) = entiers_lus s (journal w) + 1" by simp
  from client_chrono_rend [OF r h, of w2] obtain rep t w3 where
    3: "client_chrono E w2 = Some (rep, t, w3)" "0 \<le> t" "t \<le> 20200" "trace {Sortie, Bus_i2c, Entree, Horloge} w2 w3" by auto
  define w4 where "w4 = client_effacer w3"
  have t4: "trace {Sortie, Broche_led, Bus_i2c, Entree, Terminal, Horloge} w2 w4"
    unfolding w4_def by (rule trace_trans [OF trace_mono [OF 3(4)] trace_mono [OF trace_client_effacer]]) auto
  have p4: "lcd_pret D w4" using trace_lcd_pret(1) [OF t4] 2(3) by simp
  from client_resultat_rend [OF p4 3(2), of "int k + 1" rep] 3(3) 2(2)
  obtain w5 where 5: "client_resultat t (rep = int k + 1) (int k + 1) w4 = Some w5" "lcd_pret D w5" by auto
  have "reseau (journal w5) = reseau (journal w2)"
    using muet [OF trace_client_resultat [OF 5(1)]] trace_reseau [OF t4] by simp
  with e2 have e5: "entiers_lus s (journal w5) = entiers_lus s (journal w) + 1" by (simp add: entiers_lus_def)
  have "\<exists>u. client_comparaison E s (rep = int k + 1) t w5 = Some u \<and> lcd_pret D u \<and> trace (insert Reseau sortes_jeu) w5 u"
    by (rule client_comparaison_rend [OF 5(2) m]) (simp_all add: e5 s(4,5))
  then obtain w6 where 6: "client_comparaison E s (rep = int k + 1) t w5 = Some w6" "lcd_pret D w6"
    "trace (insert Reseau sortes_jeu) w5 w6" by blast
  from client_choix_rend [OF c 6(2), of s] obtain w7 where
    7: "client_choix E s w6 = Some (balayage P = 1, w7)" "lcd_pret D w7" "trace (insert Reseau sortes_jeu) w6 w7" by blast
  have "tour_client E s w = Some (if balayage P = 1 then Inl w7 else Inr w7)"
    by (simp add: tour_client_def 1(1) 2(1) 3(1) 5(1) 6(1) 7(1) Let_def flip: w4_def)
  moreover have "trace (insert Reseau sortes_jeu) w w7"
    by (rule trace_trans [OF 1(3) trace_trans [OF 2(4) trace_trans [OF trace_mono [OF t4] trace_trans
        [OF trace_mono [OF trace_client_resultat [OF 5(1)]] trace_trans [OF 6(3) 7(3)]]]]]) auto
  then have "grille_visible w7" using trace_fenetre w(2) by blast
  ultimately show ?thesis using 7(2) by blast
qed

section \<open>The verdict\<close>




end
