(* ===== verification/Programme.thy ===== *)
theory Programme
  imports Dialogue
begin

text \<open>
  The programs from their start to their end: the local game and the client. Whatever happens in
  between, a run that comes to its end has switched off every device it switched on, given back the
  terminal and closed what it opened, except the descriptor of the display; and with a working
  device and a player who answers, both programs do come to their end.
\<close>

section \<open>Switching off\<close>

text \<open>
  What \<open>nettoyer_peripheriques\<close> leaves: the LEDs dark and the MAX7219 shut down, the display blank and
  off and its structure freed, the digits dark and their controller stopped and closed if it had
  been opened, the terminal given back by \<open>endwin\<close>, and the pins of the sensor, of the buttons and of
  the matrix of LEDs inputs again, the first two without pull.
\<close>

definition broches_rendues :: "peripheriques \<Rightarrow> bool" where
  "broches_rendues w \<longleftrightarrow> (let b = broches_de (journal w) in
     mode b TOUCH_PIN = INPUT \<and> tirage b TOUCH_PIN = PUD_OFF \<and>
     (\<forall>k < 4. mode b (broche_ligne k) = INPUT \<and> tirage b (broche_ligne k) = PUD_OFF \<and>
        mode b (broche_colonne k) = INPUT \<and> tirage b (broche_colonne k) = PUD_OFF) \<and>
     mode b MOSI = INPUT \<and> mode b SCLK = INPUT \<and> mode b GPIO7 = INPUT)"

definition eteint :: "hd44780 \<Rightarrow> max7219 \<Rightarrow> ht16k33 \<Rightarrow> int \<Rightarrow> peripheriques \<Rightarrow> bool" where
  "eteint D L d fd w \<longleftrightarrow>
     (\<forall>i < 8. registres_de L w (1 + int i) = 0) \<and> registres_de L w REG_SHUTDOWN = 0 \<and>
     lcd_courant w = None \<and> \<not> affiche (coeur (hd44780_de D (journal w))) \<and> lcd_texte D w = replicate 32 0x20 \<and>
     (0 \<le> fd \<longrightarrow> i2c_fd w = -1 \<and> (let c = fold (ht16k33_pas fd) (journal w) d in
        (\<forall>i < 8. ram c (int i * 2) = 0 \<and> ram c (int i * 2 + 1) = 0) \<and> \<not> oscillateur c \<and> \<not> allume c)) \<and>
     last (filter terminal_concerne (journal w)) = Nc Endwin \<and> broches_rendues w"

text \<open>The devices opened on the I2C bus: their addresses and descriptors, in order.\<close>

fun montages :: "journal_t \<Rightarrow> (int \<times> int) list" where
  "montages [] = []"
| "montages (I2c (I2CSetup a fd) # h) = (a, fd) # montages h"
| "montages (_ # h) = montages h"

lemma montages_append [simp]: "montages (h @ es) = montages h @ montages es"
  by (induction h rule: montages.induct) simp_all

lemma montages_autres: "\<forall>e \<in> set es. genre e \<noteq> Fichier \<Longrightarrow> montages es = []"
  by (induction es rule: montages.induct) simp_all

lemma trace_montages:
  assumes "trace A w u" and "Fichier \<notin> A"
  shows "montages (journal u) = montages (journal w)"
proof -
  obtain es where es: "journal u = journal w @ es" "\<forall>e \<in> set es. genre e \<in> A" using assms(1) by (rule trace_evts)
  then have "\<forall>e \<in> set es. genre e \<noteq> Fichier" using assms(2) by metis
  with es(1) show ?thesis by (simp add: montages_autres)
qed

text \<open>The digits: the last clearing reaches every row, since the buffer has its eight places.\<close>

lemma segment7_cleanup_noir:
  assumes "length (display_buffer w) = 8" and "0 \<le> i2c_fd w"
  shows "i2c_fd (segment7_cleanup w) = -1 \<and> (let c = fold (ht16k33_pas (i2c_fd w)) (journal (segment7_cleanup w)) d in
      (\<forall>i < 8. ram c (int i * 2) = 0 \<and> ram c (int i * 2 + 1) = 0) \<and> \<not> oscillateur c \<and> \<not> allume c)"
    and "ouverts (journal (segment7_cleanup w)) = registre_pas (Sys (Close (i2c_fd w))) (ouverts (journal w))"
    and "montages (journal (segment7_cleanup w)) = montages (journal w)"
proof -
  define w1 where "w1 = segment7_effacer w"
  have fd: "i2c_fd w1 = i2c_fd w" by (simp add: w1_def)
  have b: "display_buffer w1 = [0, 0, 0, 0, 0, 0, 0, 0]"
    by (simp add: w1_def segment7_effacer_def effacer_zero [OF assms(1)])
  have "coherent d w1" unfolding w1_def segment7_effacer_def
    by (rule coherent_maj) (simp_all add: assms(2) effacer_zero [OF assms(1)])
  then have c: "\<forall>i < 8. ram (controleur d w1) (int i * 2) = 0 \<and> ram (controleur d w1) (int i * 2 + 1) = 0"
    using b unfolding coherent_def all_less_8 by simp
  have u: "segment7_cleanup w = (consigne [I2c (I2CWrite (i2c_fd w) 0x20), I2c (I2CWrite (i2c_fd w) 0x80),
      Sys (Close (i2c_fd w))] w1)\<lparr>i2c_fd := -1\<rparr>"
    using assms(2) fd by (simp add: segment7_cleanup_def Let_def envoyer_commande_def journal_simps flip: w1_def)
  have "fold (ht16k33_pas (i2c_fd w)) (journal w1) d = controleur d w1" by (simp add: controleur_def fd)
  with c show "i2c_fd (segment7_cleanup w) = -1 \<and> (let c = fold (ht16k33_pas (i2c_fd w)) (journal (segment7_cleanup w)) d in
      (\<forall>i < 8. ram c (int i * 2) = 0 \<and> ram c (int i * 2 + 1) = 0) \<and> \<not> oscillateur c \<and> \<not> allume c)"
    by (simp add: u Let_def segment7_cleanup_ferme)
  have "trace sortes_segment w w1" unfolding w1_def by (rule trace_segment7) simp_all
  then have "ouverts (journal w1) = ouverts (journal w)" "montages (journal w1) = montages (journal w)"
    by (rule trace_ouverts trace_montages, simp)+
  then show "ouverts (journal (segment7_cleanup w)) = registre_pas (Sys (Close (i2c_fd w))) (ouverts (journal w))"
    "montages (journal (segment7_cleanup w)) = montages (journal w)"
    by (simp_all add: u ouverts_append)
qed

lemma registres_cleanup:
  "(\<forall>i < 8. registres_de L (matrice_led_cleanup w) (1 + int i) = 0) \<and> registres_de L (matrice_led_cleanup w) REG_SHUTDOWN = 0"
proof -
  have "registres_de L (matrice_led_cleanup w) = registres_de L (matrice_led_envoyer_cmd REG_SHUTDOWN 0 (matrice_led_effacer w))"
    by (simp add: matrice_led_cleanup_def appels_def Let_def)
  then show ?thesis
    unfolding all_less_8 by (simp add: matrice_led_effacer_def registres_motif registres_cmd)
qed

text \<open>The frames sent to the MAX7219 change no mode and no pull.\<close>

lemma broches_bits:
  "mode (broches_de (journal (bit_write_boucle n x w))) = mode (broches_de (journal w)) \<and>
   tirage (broches_de (journal (bit_write_boucle n x w))) = tirage (broches_de (journal w))"
  by (induction n arbitrary: x w) (simp_all add: appels_def Let_def)

lemma broches_cmd:
  "mode (broches_de (journal (matrice_led_envoyer_cmd a x w))) = mode (broches_de (journal w)) \<and>
   tirage (broches_de (journal (matrice_led_envoyer_cmd a x w))) = tirage (broches_de (journal w))"
  by (simp add: matrice_led_envoyer_cmd_def bit_write_def broches_bits appels_def Let_def)

lemma broches_motif:
  "mode (broches_de (journal (fold (\<lambda>i. matrice_led_ecrire_ligne (int i) (m ! i)) is w))) = mode (broches_de (journal w)) \<and>
   tirage (broches_de (journal (fold (\<lambda>i. matrice_led_ecrire_ligne (int i) (m ! i)) is w))) = tirage (broches_de (journal w))"
  by (induction "is" arbitrary: w) (simp_all add: matrice_led_ecrire_ligne_def broches_cmd)

lemma nettoyer_broches: "broches_rendues (matrice_led_cleanup (matrice_btn_cleanup (touch_cleanup w)))"
proof -
  define v where "v = matrice_btn_cleanup (touch_cleanup w)"
  have b: "mode (broches_de (journal v)) TOUCH_PIN = INPUT" "tirage (broches_de (journal v)) TOUCH_PIN = PUD_OFF"
    "\<forall>k < 4. mode (broches_de (journal v)) (broche_ligne k) = INPUT \<and> tirage (broches_de (journal v)) (broche_ligne k) = PUD_OFF \<and>
        mode (broches_de (journal v)) (broche_colonne k) = INPUT \<and> tirage (broches_de (journal v)) (broche_colonne k) = PUD_OFF"
    unfolding all_less_4
    by (simp_all add: v_def matrice_btn_cleanup_def touch_cleanup_def lignes_inactives_eq journal_simps Let_def)
  have m: "mode (broches_de (journal (matrice_led_cleanup v))) = (mode (broches_de (journal v)))(MOSI := INPUT, SCLK := INPUT, GPIO7 := INPUT)"
    "tirage (broches_de (journal (matrice_led_cleanup v))) = tirage (broches_de (journal v))"
    by (simp_all add: matrice_led_cleanup_def matrice_led_effacer_def matrice_led_afficher_motif_def broches_motif broches_cmd appels_def Let_def)
  show ?thesis
    using b unfolding broches_rendues_def Let_def v_def [symmetric] m all_less_4 by simp
qed

lemma nettoyer_juste:
  assumes "en_service D fd w"
  shows "\<exists>u. nettoyer_peripheriques w = Some u \<and> eteint D L d fd u \<and>
    ouverts (journal u) = (if 0 \<le> fd then registre_pas (Sys (Close fd)) (ouverts (journal w)) else ouverts (journal w)) \<and>
    montages (journal u) = montages (journal w)"
proof -
  define w1 where "w1 = matrice_led_effacer w"
  define w2 where "w2 = cleanup_ncurses w1"
  define w3 where "w3 = segment7_effacer w2"
  define w4 where "w4 = segment7_cleanup w3"
  have t1: "trace sortes_led w w1" unfolding w1_def by (rule trace_led) simp_all
  have t2: "trace {Terminal} w1 w2" unfolding w2_def by (rule trace_grille) simp_all
  have t3: "trace sortes_segment w2 w3" unfolding w3_def by (rule trace_segment7) simp_all
  have t4: "trace {Sortie, Bus_i2c, Fichier} w3 w4" unfolding w4_def by (rule trace_segment7_fichier) simp_all
  have s2: "en_service D fd w2" using service_trace [OF service_trace [OF assms t1] t2] by simp
  have s3: "i2c_fd w3 = fd" "length (display_buffer w3) = 8" using s2 by (simp_all add: w3_def en_service_def)
  have p4: "lcd_pret D w4" "lcdControl w4 = lcdControl w2"
    using s2 trace_lcd_pret(1) [OF t3] trace_lcd_pret(1) [OF t4] t3 t4 by (simp_all add: en_service_def trace_def cadre_def)
  obtain w5 where 5: "lcd_effacer w4 = Some w5" "lcd_pret D w5" using lcd_effacer_juste [OF p4(1)] lcd_aligne_pret by blast
  have c5: "0 \<le> lcdControl w5" "lcdControl w5 < 8" using controle_lcd(1) [OF 5(1)] p4(2) s2 by (simp_all add: en_service_def)
  obtain w6 where 6: "lcd_cleanup w5 = Some w6" "lcd_courant w6 = None" "\<not> affiche (coeur (hd44780_de D (journal w6)))"
    "lcd_texte D w6 = replicate 32 0x20" using lcd_cleanup_rend [OF 5(2) c5] by blast
  have t6: "trace sortes_lcd w4 w6"
    by (rule trace_lcd_cleanup [OF trace_lcd(1) [OF trace_refl order_refl 5(1)] order_refl 6(1)])
  define u where "u = matrice_led_cleanup (matrice_btn_cleanup (touch_cleanup w6))"
  have tu: "trace sortes_led w6 u" unfolding u_def by (intro trace_led trace_boutons) simp_all
  have "nettoyer_peripheriques w = Some u"
    by (simp add: nettoyer_peripheriques_def 5(1) 6(1) flip: w1_def w2_def w3_def w4_def u_def)
  moreover have "last (filter terminal_concerne (journal u)) = Nc Endwin"
    using trace_terminal(3) [OF t3] trace_terminal(3) [OF t4] trace_terminal(3) [OF t6] trace_terminal(3) [OF tu]
    by (simp add: w2_def cleanup_ncurses_def)
  moreover have "0 \<le> fd \<longrightarrow> i2c_fd u = -1 \<and> (let c = fold (ht16k33_pas fd) (journal u) d in
        (\<forall>i < 8. ram c (int i * 2) = 0 \<and> ram c (int i * 2 + 1) = 0) \<and> \<not> oscillateur c \<and> \<not> allume c)"
    using segment7_cleanup_noir(1) [OF s3(2), of d] s3(1) trace_controleur(1) [OF t6, of fd d] trace_controleur(1) [OF tu, of fd d]
      trace_controleur(2) [OF t6] trace_controleur(2) [OF tu]
    by (simp flip: w4_def)
  moreover have "lcd_courant u = None" "\<not> affiche (coeur (hd44780_de D (journal u)))" "lcd_texte D u = replicate 32 0x20"
    using 6 trace_lcd_pret [OF tu] by simp_all
  moreover have "ouverts (journal u) = (if 0 \<le> fd then registre_pas (Sys (Close fd)) (ouverts (journal w)) else ouverts (journal w))"
  proof -
    have "ouverts (journal u) = ouverts (journal w4)" using trace_ouverts [OF tu] trace_ouverts [OF t6] by simp
    moreover have "ouverts (journal w3) = ouverts (journal w)"
      using trace_ouverts [OF t1] trace_ouverts [OF t2] trace_ouverts [OF t3] by simp
    moreover have "ouverts (journal w4) = (if 0 \<le> fd then registre_pas (Sys (Close fd)) (ouverts (journal w3)) else ouverts (journal w3))"
      using segment7_cleanup_noir(2) [OF s3(2)] s3(1) segment7_cleanup_ferme [of w3] by (simp flip: w4_def)
    ultimately show ?thesis by simp
  qed
  moreover have "montages (journal u) = montages (journal w)"
    using trace_montages [OF t1] trace_montages [OF t2] trace_montages [OF t3] trace_montages [OF t6] trace_montages [OF tu]
      segment7_cleanup_noir(3) [OF s3(2)] segment7_cleanup_ferme [of w3] by (cases "0 \<le> i2c_fd w3") (simp_all flip: w4_def)
  ultimately show ?thesis
    using registres_cleanup [of L] nettoyer_broches by (auto simp: eteint_def u_def)
qed

section \<open>Switching on\<close>

text \<open>The variables of the libraries before their initialisation.\<close>

definition neuf :: "peripheriques \<Rightarrow> bool" where
  "neuf w \<longleftrightarrow> lcds w = replicate 8 None \<and> initialised w = 0 \<and> lcdControl w = 0 \<and> length (display_buffer w) = 8"

lemma neuf_initial: "neuf (consigne es etat_initial)"
  by (simp add: neuf_def etat_initial_def eval_nat_numeral)

text \<open>\<open>lcd_init\<close> on the first call: it answers -1 and no structure is current, or it starts the display in the first entry.\<close>

lemma lcd_init_neuf:
  fixes E :: hote and w :: peripheriques
  assumes "neuf w"
  defines "fd \<equiv> h_i2cSetup E (journal w) ADRESSE_LCD"
  shows "(\<exists>u. lcd_init E w = Some (-1, u) \<and> lcd_courant u = None \<and> (fd < 0 \<or> (\<exists>h. \<not> h_malloc E h))) \<or>
    (\<exists>es. lcd_init E w = lcd_demarrer nouveau_lcd (consigne (I2c (I2CSetup ADRESSE_LCD fd) # es)
        (w\<lparr>initialised := 1, lcds := (replicate 8 None)[0 := Some nouveau_lcd], lcdHandle := 0\<rparr>)) \<and>
      0 \<le> fd \<and> genre ` set es \<subseteq> {Sortie, Bus_i2c})"
proof -
  have n: "fold (\<lambda>i l. l[i := None]) [0..<MAX_LCDS] (lcds w) = replicate 8 None"
    using assms(1) by (simp add: neuf_def upt_8 eval_nat_numeral)
  have h: "chercher_libre 0 (replicate 8 None) x = 0" for x by (simp add: eval_nat_numeral)
  define v where "v = w\<lparr>initialised := 1, lcds := replicate 8 None\<rparr>"
  define es where "es = map (\<lambda>i. I2c (I2CWriteReg8 fd (int i) 0xFF)) [0..<9] @
    [Sys WiringPiSetupSys, I2c (Mcp23008Setup AF_BASE ADRESSE_LCD), Gpio (PinMode AF_BLUE OUTPUT)]"
  define ok where "ok = h_malloc E (journal w @ I2c (I2CSetup ADRESSE_LCD fd) # es)"
  have e: "lcd_init E w = (if fd < 0 then Some (-1, consigne [I2c (I2CSetup ADRESSE_LCD fd)] v)
      else let x = consigne (I2c (I2CSetup ADRESSE_LCD fd) # es @ [Sys (Malloc ok)]) (v\<lparr>lcdHandle := 0\<rparr>)
        in if \<not> ok then Some (-1, x) else lcd_demarrer nouveau_lcd (ranger_lcd nouveau_lcd x))"
    using assms(1) n
    by (simp add: lcd_init_def neuf_def wiringPiI2CSetup_def malloc_def fold_writeReg8 wiringPiSetupSys_def mcp23008Setup_def
        pinMode_def Let_def h v_def es_def ok_def fd_def del: ranger_lcd_consigne)
  show ?thesis
  proof (cases "fd < 0 \<or> \<not> ok")
    case True
    then show ?thesis
      unfolding e by (auto simp: Let_def lcd_courant_def v_def ok_def)
  next
    case False
    have "ranger_lcd nouveau_lcd (consigne (I2c (I2CSetup ADRESSE_LCD fd) # es @ [Sys (Malloc ok)]) (v\<lparr>lcdHandle := 0\<rparr>)) =
      consigne (I2c (I2CSetup ADRESSE_LCD fd) # es @ [Sys (Malloc ok)])
        (w\<lparr>initialised := 1, lcds := (replicate 8 None)[0 := Some nouveau_lcd], lcdHandle := 0\<rparr>)"
      by (simp add: ranger_lcd_def v_def)
    with False e show ?thesis
      by (intro disjI2 exI [of _ "es @ [Sys (Malloc ok)]"]) (auto simp: Let_def es_def)
  qed
qed

lemma segment7_init_juste:
  fixes E :: hote and w :: peripheriques
  defines "fd \<equiv> h_i2cSetup E (journal w) HT16K33_ADDRESS"
  shows "trace sortes_segment (consigne [I2c (I2CSetup HT16K33_ADDRESS fd)] w) (segment7_init E w)"
    and "i2c_fd (segment7_init E w) = fd" "length (display_buffer (segment7_init E w)) = length (display_buffer w)"
proof -
  have e: "segment7_init E w = (let u = consigne [I2c (I2CSetup HT16K33_ADDRESS fd)] (w\<lparr>i2c_fd := fd\<rparr>)
      in if fd < 0 then u else segment7_effacer (segment7_luminosite 15 (envoyer_commande 0x81 (envoyer_commande 0x21 u))))"
    by (simp add: segment7_init_def wiringPiI2CSetup_def Let_def fd_def)
  have t: "trace sortes_segment (consigne [I2c (I2CSetup HT16K33_ADDRESS fd)] w)
      (consigne [I2c (I2CSetup HT16K33_ADDRESS fd)] (w\<lparr>i2c_fd := fd\<rparr>))"
    by (simp add: trace_def cadre_def)
  then show "trace sortes_segment (consigne [I2c (I2CSetup HT16K33_ADDRESS fd)] w) (segment7_init E w)"
    unfolding e Let_def by (auto intro!: trace_segment7)
  show "i2c_fd (segment7_init E w) = fd" "length (display_buffer (segment7_init E w)) = length (display_buffer w)"
    by (simp_all add: e Let_def segment7_luminosite_def envoyer_commande_def appels_def)
qed

lemma init_grille_visible:
  assumes "h_getmaxyx E (journal w @ [Nc Initscr, Nc Cbreak, Nc Noecho, Nc Keypad, Nc (CursSet 0)]) = (h, l)" and "37 \<le> h" "37 \<le> l"
  shows "grille_visible (init_ncurses E w)"
proof -
  have "(h - 37) div 2 + 37 \<le> h" "(l - 37) div 2 + 37 \<le> l" using assms(2,3) by presburger+
  with assms show ?thesis by (simp add: grille_visible_def init_ncurses_def Let_def sdiv_nonneg)
qed

text \<open>Everything before the display: the state in which \<open>lcd_init\<close> is called.\<close>

lemma initialiser_avant_lcd:
  assumes w: "neuf w" and r: "h_wiringPiSetup E (journal w) \<noteq> -1"
  shows "\<exists>v fd. initialiser_peripheriques E w = Option.bind (lcd_init E v) (\<lambda>(_, w). Some (0, delay 50 w)) \<and> neuf v \<and> i2c_fd v = fd \<and>
    ouverts (journal v) = (if 0 \<le> fd then map_option (add_mset fd) (ouverts (journal w)) else ouverts (journal w)) \<and>
    montages (journal v) = montages (journal w) @ [(HT16K33_ADDRESS, fd)] \<and>
    ((\<forall>h. 37 \<le> fst (h_getmaxyx E h) \<and> 37 \<le> snd (h_getmaxyx E h)) \<longrightarrow> grille_visible v)"
proof -
  define w1 where "w1 = init_ncurses E (consigne [Sys (WiringPiSetup (h_wiringPiSetup E (journal w)))] w)"
  define w2 where "w2 = delay 50 (matrice_led_init (delay 50 (matrice_btn_init (delay 50 w1))))"
  define fd where "fd = h_i2cSetup E (journal w2) HT16K33_ADDRESS"
  define w3 where "w3 = consigne [I2c (I2CSetup HT16K33_ADDRESS fd)] w2"
  define w4 where "w4 = delay 50 (segment7_init E w2)"
  have t1: "trace {Sortie, Terminal, Fenetre} w w1" unfolding w1_def by (intro trace_init_ncurses trace_consigne) simp_all
  have t2: "trace sortes_led w1 w2" unfolding w2_def by (intro trace_appels trace_led trace_boutons) simp_all
  have t4: "trace sortes_segment w3 w4"
    unfolding w4_def w3_def fd_def by (intro trace_appels segment7_init_juste) simp
  have b4: "i2c_fd w4 = fd" "length (display_buffer w4) = 8"
    using segment7_init_juste(2,3) [of E w2] t1 t2 w by (simp_all add: w4_def fd_def delay_def neuf_def trace_def cadre_def)
  have "neuf w4" using w t1 t2 t4 b4 by (simp add: neuf_def trace_def cadre_def w3_def)
  moreover have "initialiser_peripheriques E w = Option.bind (lcd_init E w4) (\<lambda>(_, w). Some (0, delay 50 w))"
    using r by (simp add: initialiser_peripheriques_def wiringPiSetup_def Let_def w1_def w2_def w4_def)
  moreover have "ouverts (journal w4) = (if 0 \<le> fd then map_option (add_mset fd) (ouverts (journal w)) else ouverts (journal w))"
    using trace_ouverts [OF t1] trace_ouverts [OF t2] trace_ouverts [OF t4] by (simp add: w3_def ouverts_append)
  moreover have "montages (journal w4) = montages (journal w) @ [(HT16K33_ADDRESS, fd)]"
    using trace_montages [OF t1] trace_montages [OF t2] trace_montages [OF t4] by (simp add: w3_def)
  moreover have "grille_visible w4" if v: "\<forall>h. 37 \<le> fst (h_getmaxyx E h) \<and> 37 \<le> snd (h_getmaxyx E h)"
  proof -
    have "grille_visible w1" unfolding w1_def
      by (rule init_grille_visible [OF surjective_pairing]) (simp_all add: v)
    then show ?thesis
      using trace_fenetre [OF t2] trace_fenetre [OF t4] grille_visible_consigne [of "[I2c (I2CSetup HT16K33_ADDRESS fd)]" w2]
      by (simp add: w3_def)
  qed
  ultimately show ?thesis using b4(1) by blast
qed

lemma initialiser_juste:
  assumes w: "neuf w" and r: "h_wiringPiSetup E (journal w) \<noteq> -1"
  shows "\<exists>u fd. initialiser_peripheriques E w = Some (0, u) \<and>
    ((lcd_courant u = None \<and> ((\<exists>h. h_i2cSetup E h ADRESSE_LCD < 0) \<or> (\<exists>h. \<not> h_malloc E h))) \<or>
     (\<exists>lcd. en_service D fd u \<and> 0 \<le> lcd \<and>
        ouverts (journal u) = map_option (add_mset lcd) (if 0 \<le> fd then map_option (add_mset fd) (ouverts (journal w)) else ouverts (journal w)) \<and>
        montages (journal u) = montages (journal w) @ [(HT16K33_ADDRESS, fd), (ADRESSE_LCD, lcd)] \<and>
        ((\<forall>h. 37 \<le> fst (h_getmaxyx E h) \<and> 37 \<le> snd (h_getmaxyx E h)) \<longrightarrow> grille_visible u)))"
proof -
  from initialiser_avant_lcd [OF assms] obtain w4 fd where i: "initialiser_peripheriques E w = Option.bind (lcd_init E w4) (\<lambda>(_, w). Some (0, delay 50 w))"
    and n: "neuf w4" and b4: "i2c_fd w4 = fd"
    and o4: "ouverts (journal w4) = (if 0 \<le> fd then map_option (add_mset fd) (ouverts (journal w)) else ouverts (journal w))"
    and m4: "montages (journal w4) = montages (journal w) @ [(HT16K33_ADDRESS, fd)]"
    and v4: "(\<forall>h. 37 \<le> fst (h_getmaxyx E h) \<and> 37 \<le> snd (h_getmaxyx E h)) \<longrightarrow> grille_visible w4" by blast
  define lcd where "lcd = h_i2cSetup E (journal w4) ADRESSE_LCD"
  from lcd_init_neuf [OF n, of E, folded lcd_def] show ?thesis
  proof (elim disjE exE conjE)
    fix u assume "lcd_init E w4 = Some (-1, u)" "lcd_courant u = None" "lcd < 0"
    then show ?thesis using i by (auto simp: delay_def lcd_courant_def lcd_def)
  next
    fix u h assume "lcd_init E w4 = Some (-1, u)" "lcd_courant u = None" "\<not> h_malloc E h"
    then show ?thesis using i by (auto simp: delay_def lcd_courant_def lcd_def)
  next
    fix es
    define w5 where "w5 = consigne (I2c (I2CSetup ADRESSE_LCD lcd) # es)
        (w4\<lparr>initialised := 1, lcds := (replicate 8 None)[0 := Some nouveau_lcd], lcdHandle := 0\<rparr>)"
    assume es: "lcd_init E w4 = lcd_demarrer nouveau_lcd w5" "0 \<le> lcd" "genre ` set es \<subseteq> {Sortie, Bus_i2c}"
    have c5: "0 \<le> lcdHandle w5" "lcdHandle w5 < 8" "length (lcds w5) = 8" "0 \<le> lcdControl w5" "lcdControl w5 < 8"
      using n by (simp_all add: w5_def neuf_def)
    from lcd_demarrer_pret [OF this, of D] obtain w6 where 6: "lcd_demarrer nouveau_lcd w5 = Some (lcdHandle w5, w6)" "lcd_globales w6"
      "lcd_pret D w6" by blast
    have t6: "trace sortes_lcd w5 w6" by (rule trace_lcd_demarrer [OF trace_refl _ 6(1)]) simp
    have t5: "trace {Sortie, Bus_i2c, Broche_lcd} (consigne [I2c (I2CSetup ADRESSE_LCD lcd)] w4) w5"
    proof -
      have "trace {Sortie, Bus_i2c, Broche_lcd} (consigne [I2c (I2CSetup ADRESSE_LCD lcd)] w4)
          (consigne es (consigne [I2c (I2CSetup ADRESSE_LCD lcd)] w4))" 
        by (rule trace_consigne [OF trace_refl]) (use es(3) in auto)
      then show ?thesis by (simp add: w5_def trace_def cadre_def)
    qed
    define u where "u = delay 50 w6"
    have tu: "trace sortes_lcd w5 u" unfolding u_def by (intro trace_appels t6) simp
    have "initialiser_peripheriques E w = Some (0, u)" by (simp add: i es(1) 6(1) u_def)
    moreover have "en_service D fd u"
    proof -
      have "i2c_fd w6 = fd" "length (display_buffer w6) = 8"
        using t6 b4 n by (simp_all add: trace_def cadre_def w5_def neuf_def)
      with 6(2,3) show ?thesis by (simp add: en_service_def lcd_globales_def u_def delay_def)
    qed
    moreover have "ouverts (journal u) = map_option (add_mset lcd) (if 0 \<le> fd then map_option (add_mset fd) (ouverts (journal w)) else ouverts (journal w))"
      using trace_ouverts [OF tu] trace_ouverts [OF t5] es(2) o4 by (simp add: ouverts_append)
    moreover have "montages (journal u) = montages (journal w) @ [(HT16K33_ADDRESS, fd), (ADRESSE_LCD, lcd)]"
      using trace_montages [OF t5] trace_montages [OF tu] m4 by simp
    moreover have "grille_visible u" if v: "\<forall>h. 37 \<le> fst (h_getmaxyx E h) \<and> 37 \<le> snd (h_getmaxyx E h)"
      using v4 v trace_fenetre [OF t5] trace_fenetre [OF tu] grille_visible_consigne [of "[I2c (I2CSetup ADRESSE_LCD lcd)]" w4] by simp
    ultimately show ?thesis using es(2) by blast
  qed
qed

section \<open>Between the two\<close>

text \<open>The devices in service, the open descriptors and the devices opened: an invariant of the game.\<close>

definition en_jeu :: "hd44780 \<Rightarrow> int \<Rightarrow> int multiset option \<Rightarrow> (int \<times> int) list \<Rightarrow> peripheriques \<Rightarrow> bool" where
  "en_jeu D fd M ms w \<longleftrightarrow> en_service D fd w \<and> ouverts (journal w) = M \<and> montages (journal w) = ms"

lemma en_jeu_trace: "\<lbrakk>en_jeu D fd M ms w; en_service D fd u; trace A w u; Fichier \<notin> A\<rbrakk> \<Longrightarrow> en_jeu D fd M ms u"
  by (simp add: en_jeu_def trace_ouverts trace_montages)

lemma garde_en_jeu:
  assumes "en_jeu D fd M ms w" and "garde (en_service D fd) m" "garde (trace A w) m" "Fichier \<notin> A"
  shows "garde (en_jeu D fd M ms) m"
  using en_jeu_trace [OF assms(1) _ _ assms(4)] assms(2,3) by (simp add: garde_def)

interpretation en_jeu: invariant_client "en_jeu D fd M ms" for D fd M ms
proof
  fix w assume w: "en_jeu D fd M ms w"
  then have s: "en_service D fd w" by (simp add: en_jeu_def)
  note o = trace_operations [OF order_refl trace_refl, of w]
  show "garde (en_jeu D fd M ms) (lcd_effacer w)"
    by (rule garde_en_jeu [OF w service.lcd_effacer [OF s] o(1)]) simp
  show "garde (en_jeu D fd M ms) (Option.bind (lcd_position x y w) (foldM lcd_caractere cs))" if "0 \<le> x" "x < 16" "0 \<le> y" "y < 2" for x y cs
    by (rule garde_en_jeu [OF w service.lcd_ecriture [OF s that] o(2)]) simp
  show "en_jeu D fd M ms (segment7_effacer w)"
    by (rule en_jeu_trace [OF w service.segment7_effacer [OF s] o(3)]) simp
  show "garde (en_jeu D fd M ms) (segment7_afficher_nombre n w)" for n
    by (rule garde_en_jeu [OF w service.segment7_nombre [OF s] o(4)]) simp
  show "en_jeu D fd M ms u" if "trace sortes_simples w u" for u
    by (rule en_jeu_trace [OF w service.simple [OF s that] that]) simp
  show "en_jeu D fd M ms u" if "trace {Reseau} w u" for u
    by (rule en_jeu_trace [OF w service.reseau [OF s that] that]) simp
qed

text \<open>The device just after its initialisation, and after cleaning up.\<close>

abbreviation (input) montes :: "int \<Rightarrow> int \<Rightarrow> (int \<times> int) list" where
  "montes fd lcd \<equiv> [(HT16K33_ADDRESS, fd), (ADRESSE_LCD, lcd)]"

abbreviation (input) registre_jeu :: "int \<Rightarrow> int \<Rightarrow> int multiset" where
  "registre_jeu fd lcd \<equiv> add_mset lcd (if 0 \<le> fd then {#fd#} else {#})"

lemma initialiser_en_jeu:
  assumes "initialiser_peripheriques E (consigne es etat_initial) = Some (r, u)" and "ouverts es = Some {#}" "montages es = []"
  shows "(r = 1 \<and> u = consigne (es @ [Sys (WiringPiSetup (-1))]) etat_initial) \<or>
    (r = 0 \<and> (lcd_courant u = None \<or> (\<exists>fd lcd. en_jeu D fd (Some (registre_jeu fd lcd)) (montes fd lcd) u)))"
proof (cases "h_wiringPiSetup E (journal (consigne es etat_initial)) = -1")
  case True
  with assms(1) show ?thesis by (simp add: initialiser_peripheriques_def wiringPiSetup_def Let_def)
next
  case False
  have "journal (consigne es etat_initial) = es" by (simp add: etat_initial_def)
  with initialiser_juste [OF neuf_initial False, of D] assms show ?thesis
    by (auto simp: en_jeu_def)
qed

lemma nettoyer_en_jeu:
  assumes "nettoyer_peripheriques w = Some u" and "en_jeu D fd (Some (registre_jeu fd lcd)) ms w"
  shows "eteint D L d fd u \<and> ouverts (journal u) = Some {#lcd#} \<and> montages (journal u) = ms"
  using nettoyer_juste [of D fd w L d] assms by (auto simp: en_jeu_def split: if_splits)

text \<open>A program that has ended: everything off, and only the descriptor of the display still open.\<close>

definition fini :: "hd44780 \<Rightarrow> max7219 \<Rightarrow> ht16k33 \<Rightarrow> int \<Rightarrow> int \<Rightarrow> peripheriques \<Rightarrow> bool" where
  "fini D L d fd lcd w \<longleftrightarrow>
     montages (journal w) = montes fd lcd \<and> eteint D L d fd w \<and> ouverts (journal w) = Some {#lcd#}"

lemma nettoyer_fini:
  "en_jeu D fd (Some (registre_jeu fd lcd)) (montes fd lcd) w \<Longrightarrow> garde (fini D L d fd lcd) (nettoyer_peripheriques w)"
  using nettoyer_en_jeu [of w _ D fd lcd "montes fd lcd" L d] by (auto simp: garde_def fini_def)

lemma nettoyer_suite:
  assumes "en_jeu D fd (Some (registre_jeu fd lcd)) (montes fd lcd) w"
    and "\<And>u. fini D L d fd lcd u \<Longrightarrow> garde Q (f u)"
  shows "garde Q (Option.bind (nettoyer_peripheriques w) f)"
  by (rule garde_bind [OF nettoyer_fini [OF assms(1)] assms(2)])

section \<open>However the programs end\<close>

lemma lancer_jeu_fin:
  assumes "local_main E = Some (r, w')"
  shows "(r = 1 \<and> journal w' = [Sys Srand, Sys (WiringPiSetup (-1))]) \<or>
    (r = 0 \<and> (\<exists>fd lcd. fini D L d fd lcd w'))"
proof -
  have "srand_time etat_initial = consigne [Sys Srand] etat_initial" by (simp add: appels_def)
  with assms obtain k u where i: "initialiser_peripheriques E (consigne [Sys Srand] etat_initial) = Some (k, u)"
    and s: "(if k \<noteq> 0 then Some (1, u) else Option.bind (lcd_effacer u) (\<lambda>w. Option.bind (lcd_ecrire 0 0 ''Jeu de Reflexes'' w)
      (\<lambda>w. Option.bind (lcd_ecrire 0 1 ''Preparez-vous...'' w) (\<lambda>w. let w = delay 1000 w in Option.bind (boucle (manche E) w)
      (\<lambda>w. Option.bind (nettoyer_peripheriques w) (\<lambda>w. Some (0, w))))))) = Some (r, w')"
    by (auto simp: local_main_def lancer_jeu_def bind_Some_iff)
  have o: "ouverts [Sys Srand] = Some {#}" "montages [Sys Srand] = []" by (simp_all add: ouverts_def)
  from initialiser_en_jeu [OF i o, of D] show ?thesis
  proof (elim disjE exE conjE)
    assume "k = 1" "u = consigne ([Sys Srand] @ [Sys (WiringPiSetup (-1))]) etat_initial"
    with s show ?thesis by (auto simp: etat_initial_def)
  next
    assume "k = 0" "lcd_courant u = None"
    with s show ?thesis by (simp add: lcd_effacer_def)
  next
    fix fd lcd assume "k = 0" and u: "en_jeu D fd (Some (registre_jeu fd lcd)) (montes fd lcd) u"
    have "garde (\<lambda>r. fst r = 0 \<and> fini D L d fd lcd (snd r))
      (Option.bind (lcd_effacer u) (\<lambda>w. Option.bind (lcd_ecrire 0 0 ''Jeu de Reflexes'' w)
      (\<lambda>w. Option.bind (lcd_ecrire 0 1 ''Preparez-vous...'' w) (\<lambda>w. let w = delay 1000 w in Option.bind (boucle (manche E) w)
      (\<lambda>w. Option.bind (nettoyer_peripheriques w) (\<lambda>w. Some (0, w)))))))"
      by (rule nettoyer_suite [of D _ lcd _ L d] en_jeu.suite en_jeu.appels en_jeu.manches u | assumption | rule garde_Some, simp)+
    with s \<open>k = 0\<close> show ?thesis by (auto simp: garde_def)
  qed
qed

lemma fermer_client:
  assumes "en_jeu D fd (Some (add_mset s (registre_jeu fd lcd))) (montes fd lcd) w"
  shows "en_jeu D fd (Some (registre_jeu fd lcd)) (montes fd lcd) (close s w)"
proof -
  have "en_service D fd w" using assms by (simp add: en_jeu_def)
  moreover have "trace {Fichier} w (close s w)" by (rule trace_close) simp_all
  ultimately have "en_service D fd (close s w)" by (rule service_trace) simp_all
  with assms show ?thesis by (simp add: en_jeu_def close_def ouverts_append)
qed

lemma client_connexion_fin:
  assumes "en_jeu D fd (Some (add_mset s (registre_jeu fd lcd))) (montes fd lcd) w"
  shows "garde (\<lambda>r. if fst r then en_jeu D fd (Some (add_mset s (registre_jeu fd lcd))) (montes fd lcd) (snd r)
    else fini D L d fd lcd (snd r)) (client_connexion E ip port s w)"
proof -
  have c: "en_jeu D fd M ms (snd (connect E s ip p w))" if "en_jeu D fd M ms w" for M ms p w
    using that by (rule en_jeu.reseau) (auto simp: connect_def Let_def intro!: trace_consigne)
  show ?thesis
    unfolding client_connexion_def
    by (rule nettoyer_suite [of D _ lcd _ L d] en_jeu.suite en_jeu.appels c garde_if fermer_client assms | assumption
        | rule garde_Some, simp add: en_jeu.appels)+
qed

text \<open>Without a display the program does not get there: its next call on it is a fault.\<close>

lemma nettoyer_sans_lcd:
  assumes "lcd_courant w = None"
  shows "nettoyer_peripheriques w = None"
proof -
  define v where "v = segment7_cleanup (segment7_effacer (cleanup_ncurses (matrice_led_effacer w)))"
  have "trace {Sortie, Broche_led, Terminal, Bus_i2c, Fichier} w v"
    unfolding v_def by (intro trace_segment7_fichier trace_segment7 trace_grille trace_led) simp_all
  from trace_lcd_pret(4) [OF this] assms have "lcd_courant v = None" by simp
  then show ?thesis by (simp add: nettoyer_peripheriques_def lcd_effacer_def v_def)
qed

lemma client_session_fin:
  assumes "en_jeu D fd (Some (if s < 0 then registre_jeu fd lcd else add_mset s (registre_jeu fd lcd))) (montes fd lcd) w"
  shows "garde (\<lambda>r. (fst r = 0 \<or> fst r = 1) \<and> fini D L d fd lcd (snd r))
    (if s < 0 then Option.bind (nettoyer_peripheriques w) (\<lambda>w. Some (1, w))
     else Option.bind (client_connexion E ip port s w) (\<lambda>(connecte, w). if \<not> connecte then Some (1, w)
       else Option.bind (boucle (tour_client E s) w) (\<lambda>w. let w = close s w in
         Option.bind (nettoyer_peripheriques w) (\<lambda>w. Some (0, w)))))"
proof (cases "s < 0")
  case True
  with assms have "en_jeu D fd (Some (registre_jeu fd lcd)) (montes fd lcd) w" by simp
  then have "garde (\<lambda>r. (fst r = 0 \<or> fst r = 1) \<and> fini D L d fd lcd (snd r))
    (Option.bind (nettoyer_peripheriques w) (\<lambda>w. Some (1, w)))"
    by (rule nettoyer_suite) (rule garde_Some, simp)
  with True show ?thesis by simp
next
  case False
  with assms have j3: "en_jeu D fd (Some (add_mset s (registre_jeu fd lcd))) (montes fd lcd) w" by simp
  have "garde (\<lambda>r. (fst r = 0 \<or> fst r = 1) \<and> fini D L d fd lcd (snd r))
    (Option.bind (client_connexion E ip port s w) (\<lambda>(connecte, w). if \<not> connecte then Some (1, w)
        else Option.bind (boucle (tour_client E s) w) (\<lambda>w. let w = close s w in
          Option.bind (nettoyer_peripheriques w) (\<lambda>w. Some (0, w)))))"
  proof (rule garde_bind [OF client_connexion_fin [OF j3, of L d]])
    fix x :: "bool \<times> peripheriques"
    assume x: "if fst x then en_jeu D fd (Some (add_mset s (registre_jeu fd lcd))) (montes fd lcd) (snd x)
      else fini D L d fd lcd (snd x)"
    obtain b v where b: "x = (b, v)" by fastforce
    show "garde (\<lambda>r. (fst r = 0 \<or> fst r = 1) \<and> fini D L d fd lcd (snd r)) (case x of (connecte, w) \<Rightarrow>
      if \<not> connecte then Some (1, w) else Option.bind (boucle (tour_client E s) w) (\<lambda>w. let w = close s w in
          Option.bind (nettoyer_peripheriques w) (\<lambda>w. Some (0, w))))"
    proof (cases b)
      case True
      with x b have v: "en_jeu D fd (Some (add_mset s (registre_jeu fd lcd))) (montes fd lcd) v" by simp
      have "garde (\<lambda>r. (fst r = 0 \<or> fst r = 1) \<and> fini D L d fd lcd (snd r))
        (Option.bind (boucle (tour_client E s) v) (\<lambda>w. let w = close s w in
          Option.bind (nettoyer_peripheriques w) (\<lambda>w. Some (0, w))))"
        by (rule nettoyer_suite [of D _ lcd _ L d] en_jeu.suite en_jeu.tours_client fermer_client v | assumption
            | rule garde_Some, simp)+
      with True b show ?thesis by simp
    qed (use x b in \<open>simp add: garde_def\<close>)
  qed
  with False show ?thesis by simp
qed

lemma client_main_fin:
  assumes "client_main E argv etat_initial = Some (r, w')"
  shows "(r = 1 \<and> journal w' = [Sys (WiringPiSetup (-1))]) \<or> ((r = 0 \<or> r = 1) \<and> (\<exists>fd lcd. fini D L d fd lcd w'))"
proof -
  obtain ip port where a: "client_adresse argv = (ip, port)" by fastforce
  have e: "etat_initial = consigne [] etat_initial" by simp
  from assms a obtain k u where i: "initialiser_peripheriques E (consigne [] etat_initial) = Some (k, u)"
    and s: "(if k \<noteq> 0 then Some (1, u) else
       let w = matrice_led_luminosite 3 u; (s, w) = socket_tcp E w
       in if s < 0 then Option.bind (nettoyer_peripheriques w) (\<lambda>w. Some (1, w))
          else Option.bind (client_connexion E ip port s w) (\<lambda>(connecte, w). if \<not> connecte then Some (1, w)
            else Option.bind (boucle (tour_client E s) w) (\<lambda>w. let w = close s w in
              Option.bind (nettoyer_peripheriques w) (\<lambda>w. Some (0, w))))) = Some (r, w')"
    by (auto simp: client_main_def bind_Some_iff)
  have o: "ouverts [] = Some {#}" "montages [] = []" by (simp_all add: ouverts_def)
  from initialiser_en_jeu [OF i o, of D] show ?thesis
  proof (elim disjE exE conjE)
    assume "k = 1" "u = consigne ([] @ [Sys (WiringPiSetup (-1))]) etat_initial"
    with s show ?thesis by (auto simp: etat_initial_def)
  next
    assume k: "k = 0" "lcd_courant u = None"
    obtain s w2 where s2: "socket_tcp E (matrice_led_luminosite 3 u) = (s, w2)" by fastforce
    then have "trace {Sortie, Broche_led, Fichier} u w2"
      using trace_led(4) [of "{Sortie, Broche_led, Fichier}" u u 3] by (auto simp: socket_tcp_def Let_def intro!: trace_consigne)
    from trace_lcd_pret(4) [OF this] k(2) have "lcd_courant w2 = None" by simp
    with s k(1) s2 nettoyer_sans_lcd show ?thesis
      by (auto simp: client_connexion_def lcd_effacer_def split: if_splits)
  next
    fix fd lcd assume k: "k = 0" and u: "en_jeu D fd (Some (registre_jeu fd lcd)) (montes fd lcd) u"
    define w1 where "w1 = matrice_led_luminosite 3 u"
    obtain s w2 where s2: "socket_tcp E w1 = (s, w2)" by fastforce
    then have w2: "w2 = consigne [Net (Socket s)] w1" by (auto simp: socket_tcp_def Let_def)
    have "trace {Fichier} w1 w2" unfolding w2 by (rule trace_consigne) simp_all
    moreover have w1: "en_jeu D fd (Some (registre_jeu fd lcd)) (montes fd lcd) w1" unfolding w1_def by (rule en_jeu.appels u)+
    ultimately have "en_service D fd w2" using service_trace [of D fd w1 "{Fichier}" w2] by (simp add: en_jeu_def)
    with w1 w2 have j2: "en_jeu D fd (Some (if s < 0 then registre_jeu fd lcd else add_mset s (registre_jeu fd lcd))) (montes fd lcd) w2"
      by (simp add: en_jeu_def ouverts_append)
    from client_session_fin [OF j2, of L d E ip port] s k s2 show ?thesis by (auto simp: garde_def w1_def)
  qed
qed

section \<open>The programs do end\<close>

text \<open>
  A working device: wiringPi and the display answer, memory is not short and the terminal is large
  enough for the grid.
\<close>

definition appareil_complet :: "hote \<Rightarrow> bool" where
  "appareil_complet E \<longleftrightarrow> (\<forall>h. h_wiringPiSetup E h \<noteq> -1 \<and> 0 \<le> h_i2cSetup E h ADRESSE_LCD \<and> h_malloc E h \<and>
     37 \<le> fst (h_getmaxyx E h) \<and> 37 \<le> snd (h_getmaxyx E h))"

lemma initialiser_rend:
  assumes "appareil_complet E" and "neuf w"
  shows "\<exists>u fd. initialiser_peripheriques E w = Some (0, u) \<and> en_service D fd u \<and> grille_visible u"
proof -
  have c: "h_wiringPiSetup E h \<noteq> -1" "\<not> h_i2cSetup E h ADRESSE_LCD < 0" "h_malloc E h"
    "37 \<le> fst (h_getmaxyx E h)" "37 \<le> snd (h_getmaxyx E h)" for h
    using assms(1) unfolding appareil_complet_def by (simp_all add: not_less)
  from initialiser_juste [OF assms(2) c(1), of D] c(2-5) show ?thesis by (auto simp: en_service_def)
qed

lemma service_page: "\<lbrakk>lcd_page a b w = Some u; en_service D fd w\<rbrakk> \<Longrightarrow> en_service D fd u"
proof -
  assume w: "en_service D fd w" and u: "lcd_page a b w = Some u"
  have "garde (en_service D fd) (lcd_page a b w)"
    unfolding lcd_page_def by (rule service.suite service.appels w | assumption)+
  then show "en_service D fd u" using u by (rule gardeD)
qed

lemma service_nettoyer: "en_service D fd w \<Longrightarrow> \<exists>u. nettoyer_peripheriques w = Some u"
  using nettoyer_juste by blast

lemma manche_rend:
  assumes r: "arrondi_ieee E" and h: "horloge_jusque (10 ^ 9) E" and "hasard_ok E" and touche: "\<And>h. h_digitalRead E h TOUCH_PIN = HIGH"
    and c: "clavier P E" "balayage P = 1 \<or> balayage P = 2" and w: "lcd_pret D w" "grille_visible w"
  shows "\<exists>u. manche E w = Some (if balayage P = 2 then Inr u else Inl u) \<and> lcd_pret D u \<and> grille_visible u"
proof -
  have h': "horloge_reguliere E" by (rule horloge_jusque_mono [OF h]) simp
  define w0 where "w0 = delay 100 (touch_init (matrice_btn_init (delay 200 (matrice_btn_cleanup (touch_cleanup w)))))"
  have t0: "trace {Sortie} w w0" unfolding w0_def by (intro trace_appels trace_boutons) simp_all
  have "lcd_pret D w0" using trace_lcd_pret(1) [OF t0] w(1) by simp
  from attendre_contact_rend [OF r h' touche this] obtain t w1 where 1: "attendre_contact_tactile E w0 = Some (t, w1)" "lcd_pret D w1"
    by blast
  have g1: "grille_visible w1" using trace_fenetre [OF trace_contact [OF 1(1)]] trace_fenetre [OF t0] w(2) by simp
  define w2 where "w2 = delay 50 (touch_cleanup w1)"
  have t2: "trace {Sortie} w1 w2" unfolding w2_def by (intro trace_appels trace_boutons) simp_all
  have p2: "lcd_pret D w2" "grille_visible w2" using trace_lcd_pret(1) [OF t2] trace_fenetre [OF t2] 1(2) g1 by simp_all
  have "10 ^ 9 \<le> (10 ^ 13 :: int)" by simp
  from jouer_partie_rend [OF r h this assms(3) p2, of d_max7219] obtain rep t k w3 where
    3: "jouer_partie E w2 = Some (rep, t, int k + 1, w3)" "k < 16" "0 \<le> t" "t \<le> 20200" "lcd_pret D w3" by auto
  from afficher_resultat_rend [OF 3(5,3), of "int k + 1" rep] 3(2,4) obtain w4 where
    4: "afficher_resultat rep (int k + 1) t w3 = Some w4" "lcd_pret D w4" by auto
  obtain w5 where 5: "lcd_effacer w4 = Some w5" "lcd_pret D w5" using lcd_effacer_juste [OF 4(2)] lcd_aligne_pret by blast
  define w6 where "w6 = delay 50 (matrice_btn_init (delay 100 (matrice_btn_cleanup (refresh_display
    (fold (\<lambda>i. fold (\<lambda>j. clear_cell (int i) (int j)) [0..<4]) [0..<4] (matrice_led_effacer (segment7_effacer w5)))))))"
  have "trace {Sortie, Broche_led, Bus_i2c, Terminal} w5 w6"
    unfolding w6_def by (intro trace_appels trace_boutons trace_grille trace_fold trace_led trace_segment7) simp_all
  from trace_lcd_pret(1) [OF this] 5(2) have "lcd_pret D w6" by simp
  from lcd_page_pret [OF this, of "''Rejouer: Btn 1''" "''Quitter: Btn 2''"] obtain w7 where
    7: "lcd_page ''Rejouer: Btn 1'' ''Quitter: Btn 2'' w6 = Some w7" "lcd_pret D w7" by blast
  obtain u where 8: "boucle (choix_tour E) (0, w7) = Some (balayage P, u)" using choix_rend [OF c] by blast
  have m: "manche E w = Some (if balayage P = 2 then Inr u else Inl u)"
    by (simp add: manche_def 1(1) 3(1) 4(1) 5(1) 7(1) 8 lcd_page_bind flip: w0_def w2_def w6_def)
  have "trace sortes_jeu w u" using gardeD [OF jeu.manche [OF trace_refl] m] by (simp split: if_splits)
  then have "grille_visible u" using trace_fenetre w(2) by blast
  moreover have "lcd_pret D u" using trace_lcd_pret(1) [OF trace_choix [OF 8]] 7(2) by simp
  ultimately show ?thesis using m by blast
qed

lemma lancer_jeu_rend:
  assumes "appareil_complet E" and "arrondi_ieee E" and "horloge_jusque (10 ^ 9) E" and "hasard_ok E" and "\<And>h. h_digitalRead E h TOUCH_PIN = HIGH"
    and "clavier P E" "balayage P = 2"
  shows "\<exists>w'. local_main E = Some (0, w')"
proof -
  define D where "D = hd_allume"
  define w0 where "w0 = srand_time etat_initial"
  have "neuf w0" using neuf_initial [of "[Sys Srand]"] by (simp add: w0_def appels_def)
  from initialiser_rend [OF assms(1) this, of D] obtain w1 fd where
    1: "initialiser_peripheriques E w0 = Some (0, w1)" "en_service D fd w1" "grille_visible w1" by blast
  then have "lcd_pret D w1" by (simp add: en_service_def)
  from lcd_page_pret [OF this, of "''Jeu de Reflexes''" "''Preparez-vous...''"] obtain w2 where
    2: "lcd_page ''Jeu de Reflexes'' ''Preparez-vous...'' w1 = Some w2" by blast
  define w3 where "w3 = delay 1000 w2"
  have s3: "en_service D fd w3" unfolding w3_def by (rule service.appels service_page [OF 2 1(2)])+
  have "grille_visible w3"
    using trace_fenetre [OF trace_lcd_page [OF trace_refl order_refl 2]] 1(3) grille_visible_consigne [of "[Sys (Delay 1000)]" w2]
    by (simp add: delay_def w3_def)
  with manche_rend [OF assms(2-6), of D w3] assms(7) s3 obtain w4 where 4: "manche E w3 = Some (Inr w4)" by (auto simp: en_service_def)
  then have "boucle (manche E) w3 = Some w4" by (rule boucle_fin)
  moreover from service_nettoyer gardeD [OF service.manches [OF s3] this] obtain w5 where "nettoyer_peripheriques w4 = Some w5" by blast
  ultimately have "local_main E = Some (0, w5)"
    by (simp add: local_main_def lancer_jeu_def 1(1) 2 lcd_page_bind flip: w0_def w3_def)
  then show ?thesis by blast
qed

text \<open>The client, for one round: what was received before it does not count.\<close>

lemma entiers_autres:
  assumes "\<forall>e \<in> set es. genre e \<noteq> Reseau"
  shows "entiers_lus s es = 0"
proof -
  have "filter (\<lambda>e. case e of Recv fd n r \<Rightarrow> fd = s \<and> n = 4 | _ \<Rightarrow> False) (reseau es) = []"
    using assms
  proof (induction es rule: reseau.induct)
    case (2 e h)
    then show ?case by (cases e) simp_all
  qed simp_all
  then show ?thesis unfolding entiers_lus_def by (simp only: list.size)
qed

lemma entiers_ajout: "entiers_lus s (h @ es) = entiers_lus s h + entiers_lus s es"
  by (simp add: entiers_lus_def)

lemma trace_entiers:
  assumes "trace A w u" and "Reseau \<notin> A"
  shows "entiers_lus s (journal u) = entiers_lus s (journal w)"
proof -
  obtain es where es: "journal u = journal w @ es" "\<forall>e \<in> set es. genre e \<in> A" using assms(1) by (rule trace_evts)
  then have "\<forall>e \<in> set es. genre e \<noteq> Reseau" using assms(2) by metis
  with es(1) show ?thesis by (simp add: entiers_ajout entiers_autres)
qed

lemma trace_initialiser:
  assumes "initialiser_peripheriques E w = Some (r, u)"
  shows "trace (- {Reseau}) w u"
proof -
  define v where "v = delay 50 (segment7_init E (delay 50 (matrice_led_init (delay 50 (matrice_btn_init (delay 50
    (init_ncurses E (snd (wiringPiSetup E w)))))))))"
  have v: "trace (- {Reseau}) w v" unfolding v_def
    by (intro trace_appels trace_segment7_fichier trace_led trace_boutons trace_init_ncurses trace_wiringPiSetup trace_refl) auto
  have p: "trace (- {Reseau}) w (snd (wiringPiSetup E w))" by (intro trace_wiringPiSetup trace_refl) simp
  show ?thesis
  proof (cases "h_wiringPiSetup E (journal w) = -1")
    case True
    with assms p show ?thesis by (simp add: initialiser_peripheriques_def wiringPiSetup_def Let_def)
  next
    case False
    with assms obtain h w1 where 1: "lcd_init E v = Some (h, w1)" "u = delay 50 w1"
      by (auto simp: initialiser_peripheriques_def v_def wiringPiSetup_def Let_def bind_Some_iff)
    have "trace (- {Reseau}) w w1" by (rule trace_lcd_init [OF v _ _ 1(1)]) auto
    with 1(2) show ?thesis by (simp add: trace_appels)
  qed
qed

lemma client_connexion_rend:
  assumes "en_service D fd w" and "0 \<le> h_connect E (journal (the (lcd_page ''Connexion au'' ''serveur...'' w))) s"
  shows "\<exists>u. client_connexion E ip port s w = Some (True, u) \<and> en_service D fd u \<and> trace (insert Reseau sortes_jeu) w u \<and>
    entiers_lus s (journal u) = entiers_lus s (journal w)"
proof -
  obtain w1 where 1: "lcd_page ''Connexion au'' ''serveur...'' w = Some w1" "en_service D fd w1"
  proof -
    have "lcd_pret D w" using assms(1) by (simp add: en_service_def)
    from lcd_page_pret [OF this] obtain w1 where "lcd_page ''Connexion au'' ''serveur...'' w = Some w1" by blast
    from that [OF this service_page [OF this assms(1)]] show thesis .
  qed
  define c where "c = h_connect E (journal w1) s"
  define w2 where "w2 = consigne [Net (Connect s ip (uint (htons (word_of_int port))) c)] w1"
  have c: "0 \<le> c" using assms(2) 1(1) by (simp add: c_def)
  have t2: "trace {Reseau} w1 w2" unfolding w2_def by (rule trace_consigne) simp_all
  have s2: "en_service D fd w2" by (rule service.reseau [OF 1(2) t2])
  then have "lcd_pret D w2" by (simp add: en_service_def)
  from lcd_page_pret [OF this, of "''Connecte!''" "''En attente...''"] obtain w3 where
    3: "lcd_page ''Connecte!'' ''En attente...'' w2 = Some w3" by blast
  define u where "u = delay 1000 w3"
  have t1: "trace sortes_lcd w w1" by (rule trace_lcd_page [OF trace_refl order_refl 1(1)])
  have t3: "trace sortes_lcd w2 u" unfolding u_def by (intro trace_appels trace_lcd_page [OF trace_refl order_refl 3]) simp
  have "connect E s ip (htons (word_of_int port)) w1 = (c, w2)" by (simp add: connect_def Let_def c_def w2_def)
  then have "client_connexion E ip port s w = Some (True, u)"
    using c by (simp add: client_connexion_def lcd_page_bind 1(1) 3 u_def)
  moreover have "en_service D fd u" unfolding u_def by (rule service.appels service_page [OF 3 s2])+
  moreover have "trace (insert Reseau sortes_jeu) w u"
    by (rule trace_trans [OF trace_mono [OF t1] trace_trans [OF trace_mono [OF t2] trace_mono [OF t3]]]) auto
  moreover have "entiers_lus s (journal u) = entiers_lus s (journal w)"
    using trace_entiers [OF t1, of s] trace_entiers [OF t3, of s]
    by (simp add: w2_def entiers_ajout) (simp add: entiers_lus_def)
  ultimately show ?thesis by blast
qed

lemma client_main_rend:
  assumes "appareil_complet E" and "arrondi_ieee E" and "horloge_jusque (10 ^ 9) E" and touche: "\<And>h. h_digitalRead E h TOUCH_PIN = HIGH"
    and c: "clavier P E" "balayage P = 2"
    and s: "\<And>h. h_socket E h = s" "0 \<le> s" "\<And>h. 0 \<le> h_connect E h s"
    and f: "0 \<le> forme" "forme < 16" "indices_ok indices" and m: "0 \<le> meilleur" "meilleur < 1000" "0 \<le> pire" "pire < 1000"
    and r: "serveur_repond E s 0 forme indices meilleur pire"
  shows "\<exists>w'. client_main E argv etat_initial = Some (0, w')"
proof -
  define D where "D = hd_allume"
  obtain ip port where a: "client_adresse argv = (ip, port)" by fastforce
  have "neuf etat_initial" using neuf_initial [of "[]"] by simp
  from initialiser_rend [OF assms(1) this, of D] obtain w1 fd where
    1: "initialiser_peripheriques E etat_initial = Some (0, w1)" "en_service D fd w1" "grille_visible w1" by blast
  define w2 where "w2 = consigne [Net (Socket s)] (matrice_led_luminosite 3 w1)"
  have t2: "trace {Sortie, Broche_led, Fichier} w1 w2" unfolding w2_def by (intro trace_consigne trace_led) simp_all
  have 2: "socket_tcp E (matrice_led_luminosite 3 w1) = (s, w2)" by (simp add: socket_tcp_def s(1) w2_def Let_def)
  have s2: "en_service D fd w2" by (rule service_trace [OF 1(2) t2]) simp_all
  from client_connexion_rend [OF s2 s(3), of ip port] obtain w3 where
    3: "client_connexion E ip port s w2 = Some (True, w3)" "en_service D fd w3" "trace (insert Reseau sortes_jeu) w2 w3"
      "entiers_lus s (journal w3) = entiers_lus s (journal w2)" by blast
  have "entiers_lus s (journal w1) = 0"
    using trace_entiers [OF trace_initialiser [OF 1(1)], of s] by (simp add: etat_initial_def entiers_lus_def)
  with 3(4) trace_entiers [OF t2, of s] r have r3: "serveur_repond E s (entiers_lus s (journal w3)) forme indices meilleur pire" by simp
  have g3: "grille_visible w3" using trace_fenetre [OF t2] trace_fenetre [OF 3(3)] 1(3) by simp
  have b12: "balayage P = 1 \<or> balayage P = 2" and p3: "lcd_pret D w3" using c(2) 3(2) by (simp_all add: en_service_def)
  from client_manche_rend [OF assms(2,3) touche c(1) b12 p3 g3 f m r3] c(2) obtain w4 where
    4: "tour_client E s w3 = Some (Inr w4)" by auto
  then have b: "boucle (tour_client E s) w3 = Some w4" by (rule boucle_fin)
  from gardeD [OF service.tours_client [OF 3(2)] b] have "en_service D fd w4" .
  then have "en_service D fd (close s w4)" by (rule service_trace [OF _ trace_close [OF trace_refl, where A = "{Fichier}"]]) simp_all
  from service_nettoyer [OF this] obtain w5 where 5: "nettoyer_peripheriques (close s w4) = Some w5" by blast
  have "client_main E argv etat_initial = Some (0, w5)"
    using s(2) by (simp add: client_main_def a 1(1) 2 3(1) b 5)
  then show ?thesis by blast
qed

section \<open>Examples\<close>

definition touche_2 :: "nat \<Rightarrow> nat \<Rightarrow> bool" where
  "touche_2 r c \<longleftrightarrow> r = 0 \<and> c = 1"

definition hote_partie :: hote where
  "hote_partie = (hote_touche 0 1)\<lparr>h_horloge := h_horloge (hote_horloge 50000)\<rparr>"

definition hote_reseau :: hote where
  "hote_reseau = hote_partie\<lparr>h_recv := \<lambda>h s n.
     if n = 1 then Some [octet_de CHR ''1''] else if n = 64 then Some (tableau_octets (map int [0..<16]))
     else Some (octets_int ([3, 42, 57] ! (entiers_lus s h mod 3)))\<rparr>"

lemma hote_partie_horloge:
  assumes "h_horloge E = h_horloge (hote_horloge 50000)"
  shows "horloge_jusque (10 ^ 9) E"
proof -
  have "horloge_jusque (10 ^ 9) (hote_horloge 50000)" by (rule hote_horloge_regulier) simp_all
  then show ?thesis unfolding horloge_jusque_def assms .
qed

lemma hote_ok:
  assumes "E = hote_partie \<or> E = hote_reseau"
  shows "appareil_complet E" "arrondi_ieee E" "horloge_jusque (10 ^ 9) E" "hasard_ok E"
    "h_digitalRead E h TOUCH_PIN = HIGH" "clavier touche_2 E"
proof -
  show "horloge_jusque (10 ^ 9) E" by (rule hote_partie_horloge) (use assms in \<open>auto simp: hote_partie_def hote_reseau_def\<close>)
  have d: "h_digitalRead E = h_digitalRead (hote_touche 0 1)" using assms by (auto simp: hote_partie_def hote_reseau_def)
  then show "h_digitalRead E h TOUCH_PIN = HIGH" by (simp add: hote_touche_def broche_colonne_def)
  have e: "touche_2 = (\<lambda>r c. r = 0 \<and> c = 1)" by (rule ext)+ (simp only: touche_2_def)
  have "clavier touche_2 (hote_touche 0 1)" unfolding e by (rule clavier_touche) simp_all
  then show "clavier touche_2 E" unfolding clavier_def d .
  show "appareil_complet E" "arrondi_ieee E" "hasard_ok E"
    using assms by (auto simp: appareil_complet_def arrondi_ieee_def hasard_ok_def hote_partie_def hote_reseau_def hote_touche_def
        hote_calme_def mono_def)
qed

lemma touche_rejouer: "balayage touche_2 = 2"
  using balayage_seule [of touche_2 0 1] by (simp add: numero_def touche_2_def)

lemma hote_reseau_serveur: "serveur_repond hote_reseau s 0 3 (map int [0..<16]) 42 57"
  by (auto simp: serveur_repond_def hote_reseau_def)

lemma partie_exemple: "\<exists>w'. local_main hote_partie = Some (0, w')"
  by (rule lancer_jeu_rend [where P = touche_2]) (rule allI conjI hote_ok touche_rejouer | simp)+

lemma reseau_appels: "h_socket hote_reseau h = 3" "h_connect hote_reseau h s = 0"
  by (simp_all add: hote_reseau_def hote_partie_def hote_touche_def hote_calme_def)

lemma client_exemple: "\<exists>w'. client_main hote_reseau [] etat_initial = Some (0, w')"
  by (rule client_main_rend [where P = touche_2 and s = 3 and forme = 3 and indices = "map int [0..<16]"
      and meilleur = 42 and pire = 57, OF _ _ _ _ _ _ _ _ _ _ _ _ _ _ _ _ hote_reseau_serveur])
    (rule allI conjI hote_ok touche_rejouer | simp add: reseau_appels indices_ok_def)+

section \<open>Properties\<close>

text \<open> C4: the end of the local game. A run of \<open>local.c\<close> that ends, whatever the player and the devices
  did, ends either at once with 1, when wiringPi cannot be set up, and has touched nothing; or with
  0, and then the LEDs are dark and their controller shut down, the display blank and off and its
  structure freed, the digits dark and their controller stopped and closed if it could be opened,
  the terminal given back, the pins of the sensor, the buttons and the LEDs inputs again (without pull
  those of the sensor and of the buttons); the descriptor of the display, opened second, is the only one
  still open. \<close>

theorem local_eteint:
  assumes "local_main E = Some (r, w')"
  shows "(r = 1 \<and> journal w' = [Sys Srand, Sys (WiringPiSetup (-1))]) \<or>
    (r = 0 \<and> (\<exists>fd lcd. montages (journal w') = [(HT16K33_ADDRESS, fd), (ADRESSE_LCD, lcd)] \<and> eteint D L d fd w' \<and>
       ouverts (journal w') = Some {#lcd#}))"
  using lancer_jeu_fin [OF assms, of D L d] by (simp add: fini_def)

theorem local_eteint_temoin:
  "\<exists>w' fd lcd. local_main hote_partie = Some (0, w') \<and>
    montages (journal w') = [(HT16K33_ADDRESS, fd), (ADRESSE_LCD, lcd)] \<and> eteint hd_allume d_max7219 ht16k33_repos fd w' \<and>
    ouverts (journal w') = Some {#lcd#}"
proof -
  obtain w' where "local_main hote_partie = Some (0, w')" using partie_exemple by blast
  with local_eteint [OF this, of hd_allume d_max7219 ht16k33_repos] show ?thesis by auto
qed

text \<open> C3: the end of the client. A run of \<open>client.c\<close> that ends has returned 1 at once because wiringPi
  could not be set up, or has returned 0 or 1 with every device switched off as at the end of the
  local game: on the paths where the socket cannot be created or the connection is refused, after a
  lost synchronisation and after the last round alike. Its socket is closed, exactly once. \<close>

theorem client_eteint:
  assumes "client_main E argv etat_initial = Some (r, w')"
  shows "(r = 1 \<and> journal w' = [Sys (WiringPiSetup (-1))]) \<or>
    ((r = 0 \<or> r = 1) \<and> (\<exists>fd lcd. montages (journal w') = [(HT16K33_ADDRESS, fd), (ADRESSE_LCD, lcd)] \<and> eteint D L d fd w' \<and>
       ouverts (journal w') = Some {#lcd#}))"
  using client_main_fin [OF assms, of D L d] by (simp add: fini_def)

theorem client_eteint_temoin:
  "\<exists>w' fd lcd. client_main hote_reseau [] etat_initial = Some (0, w') \<and>
    montages (journal w') = [(HT16K33_ADDRESS, fd), (ADRESSE_LCD, lcd)] \<and> eteint hd_allume d_max7219 ht16k33_repos fd w' \<and>
    ouverts (journal w') = Some {#lcd#}"
proof -
  obtain w' where "client_main hote_reseau [] etat_initial = Some (0, w')" using client_exemple by blast
  with client_eteint [OF this, of hd_allume d_max7219 ht16k33_repos] show ?thesis by auto
qed

text \<open> C13: the local game comes to its end. On a device that works, with a \<open>rand\<close> that answers
  non-negative numbers, a clock that moves on during pauses and never by more than a thousand
  seconds between two readings, the rounding of IEEE 754, a player who keeps touching and holds the
  second key at the end, \<open>local.c\<close> goes through the whole game, without a fault, and returns 0. \<close>

theorem local_termine:
  assumes "appareil_complet E" and "arrondi_ieee E" and "horloge_jusque (10 ^ 9) E" and "hasard_ok E"
    and "\<forall>h. h_digitalRead E h TOUCH_PIN = HIGH" and "clavier P E" and "balayage P = 2"
  shows "\<exists>w' fd lcd. local_main E = Some (0, w') \<and> eteint D L d fd w' \<and> montages (journal w') = [(HT16K33_ADDRESS, fd), (ADRESSE_LCD, lcd)]"
proof -
  obtain w' where w': "local_main E = Some (0, w')" using lancer_jeu_rend [OF assms(1-4) _ assms(6,7)] assms(5) by blast
  with lancer_jeu_fin [OF w', of D L d] show ?thesis by (auto simp: fini_def)
qed

theorem local_termine_temoin:
  "\<exists>w' fd lcd. local_main hote_partie = Some (0, w') \<and> eteint hd_allume d_max7219 ht16k33_repos fd w' \<and>
    montages (journal w') = [(HT16K33_ADDRESS, fd), (ADRESSE_LCD, lcd)]"
  by (rule local_termine [where P = touche_2]) (rule allI conjI hote_ok touche_rejouer | simp)+

text \<open> C12: the client comes to its end. On such a device, with a server that accepts the connection,
  confirms the start and sends a shape of the table, an arrangement of all shapes and a best and a
  worst time below a hundred seconds, and with a player who keeps touching and then answers no,
  \<open>client.c\<close> goes through connection, waiting, grid, stopwatch, result, comparison and question
  without a fault, and returns 0. \<close>

theorem client_termine:
  assumes "appareil_complet E" and "arrondi_ieee E" and "horloge_jusque (10 ^ 9) E"
    and "\<forall>h. h_digitalRead E h TOUCH_PIN = HIGH" and "clavier P E" "balayage P = 2"
    and "\<forall>h. h_socket E h = s \<and> 0 \<le> h_connect E h s" and "0 \<le> s"
    and "0 \<le> forme" "forme < 16" and "indices_ok indices" and "0 \<le> meilleur" "meilleur < 1000" "0 \<le> pire" "pire < 1000"
    and "serveur_repond E s 0 forme indices meilleur pire"
  shows "\<exists>w'. client_main E argv etat_initial = Some (0, w')"
  by (rule client_main_rend [OF assms(1-3) _ assms(5,6) _ assms(8) _ assms(9-16)]) (simp_all add: assms(4,7))

theorem client_termine_temoin: "\<exists>w'. client_main hote_reseau [''client'', ''192.168.0.2'', ''5000''] etat_initial = Some (0, w')"
  by (rule client_termine [where P = touche_2 and s = 3 and forme = 3 and indices = "map int [0..<16]"
      and meilleur = 42 and pire = 57, OF _ _ _ _ _ _ _ _ _ _ _ _ _ _ _ hote_reseau_serveur])
    (rule allI conjI hote_ok touche_rejouer | simp add: reseau_appels indices_ok_def)+

theorem client_protocole_temoin:
  "\<exists>r n c. tour_client hote_reseau 3 etat_jeu = Some r \<and> ((c \<noteq> octet_de CHR ''1'' \<and> (\<exists>w'. r = Inr w' \<and>
        reseau (journal w') = reseau (journal etat_jeu) @ [Send 3 [octet_de CHR ''1''] n, Recv 3 1 (Some [c])])) \<or>
     (c = octet_de CHR ''1'' \<and> (\<exists>w' continue forme indices touche t n1 n2 meilleur pire n3.
        r = (if continue then Inl w' else Inr w') \<and> reseau (journal w') = reseau (journal etat_jeu) @
          [Send 3 [octet_de CHR ''1''] n, Recv 3 1 (Some [c]),
           Recv 3 4 (Some (octets_int forme)), Recv 3 64 (Some (tableau_octets indices)),
           Send 3 (octets_int (if touche = position_dans indices forme 16 then 1 else 0)) n1, Send 3 (octets_int t) n2,
           Recv 3 4 (Some (octets_int meilleur)), Recv 3 4 (Some (octets_int pire)),
           Send 3 [octet_de (if continue then CHR ''o'' else CHR ''n'')] n3] \<and>
        0 \<le> forme \<and> forme < 16 \<and> length indices = 16 \<and> (\<forall>i \<in> set indices. 0 \<le> i \<and> i < 16) \<and>
        0 \<le> touche \<and> touche \<le> 16 \<and> c_int_ok t \<and>
        (\<exists>(v :: peripheriques) v' debut es fin. matrice_btn_lire hote_reseau v = (touche, v') \<and> journal v = journal etat_jeu @ debut \<and>
           reseau debut = [Send 3 [octet_de CHR ''1''] n, Recv 3 1 (Some [c]),
             Recv 3 4 (Some (octets_int forme)), Recv 3 64 (Some (tableau_octets indices))] \<and>
           journal w' = journal v' @ es @
             Net (Send 3 (octets_int (if touche = position_dans indices forme 16 then 1 else 0)) n1) # fin \<and>
           reseau es = [] \<and> (\<forall>p x. Gpio (DigitalRead p x) \<notin> set es)))))"
proof -
  have "trace {Terminal, Fenetre} etat_lcd etat_jeu" unfolding etat_jeu_def by (rule trace_init_ncurses) simp_all
  then have "entiers_lus 3 (journal etat_jeu) = entiers_lus 3 (journal etat_lcd)" by (rule trace_entiers) simp
  also have "\<dots> = 0"
    by (rule entiers_autres) (auto simp: etat_lcd_def etat_initial_def evts_demarrer_def evts_octet_def evts_quartet_def
        evts_strobe_def evts_broches_lcd_def evts_nibble_def evts_commande_def)
  finally have "entiers_lus 3 (journal etat_jeu) = 0" .
  then have s: "serveur_repond hote_reseau 3 (entiers_lus 3 (journal etat_jeu)) 3 (map int [0..<16]) 42 57"
    using hote_reseau_serveur by simp
  have "\<exists>w'. tour_client hote_reseau 3 etat_jeu = Some (if balayage touche_2 = 1 then Inl w' else Inr w') \<and>
      lcd_pret hd_allume w' \<and> grille_visible w'"
    by (rule client_manche_rend [OF _ _ _ _ _ etat_jeu_pret _ _ _ _ _ _ _ s]) (rule hote_ok | simp add: touche_rejouer indices_ok_def)+
  then obtain r where r: "tour_client hote_reseau 3 etat_jeu = Some r" by blast
  show ?thesis
    by (rule exI [of _ r], insert client_protocole [OF r], elim exE, rule exI, rule exI, rule conjI [OF r], assumption)
qed

end
