(* ===== verification/Chaines.thy ===== *)
theory Chaines
  imports Boucles
begin

text \<open>
  Linked lists in memory, for \<open>sys/queue.h\<close>. An element is an address; a \<open>lien\<close> is the
  address of a pointer to an element, which is either the first pointer of a head or the next
  pointer of an element. The memory of the forward pointers is a function \<open>mem\<close> from links to
  pointers, that of the backward pointers a function \<open>prec\<close> from elements to links, and \<open>fin\<close>
  gives the last link of every head.

  The abstract state \<open>L\<close> gives the list of elements behind each head. All five structures of
  \<open>sys/queue.h\<close> that end in a null pointer insert an element at a link and remove the element
  a link points to, so the two lemmas below carry all of their operations.
\<close>

type_synonym elt = nat
type_synonym tete = nat

datatype lien = Tete tete | Suiv elt

definition dernier_lien :: "lien \<Rightarrow> elt list \<Rightarrow> lien" where
  "dernier_lien l xs = (if xs = [] then l else Suiv (last xs))"

lemma dernier_lien_simps [simp]:
  "dernier_lien l [] = l" "dernier_lien l (xs @ [x]) = Suiv x" "dernier_lien l (x # xs) = dernier_lien (Suiv x) xs"
  by (simp_all add: dernier_lien_def)

section \<open>One list\<close>

text \<open>
  \<open>troncon mem l xs\<close>: from the link \<open>l\<close> the pointers lead through \<open>xs\<close>; \<open>chaine\<close>: and the last one
  is null. \<open>retour prec l xs\<close>: every element of \<open>xs\<close> holds the link that leads to it.
\<close>

primrec troncon :: "(lien \<Rightarrow> elt option) \<Rightarrow> lien \<Rightarrow> elt list \<Rightarrow> bool" where
  "troncon mem l [] \<longleftrightarrow> True"
| "troncon mem l (x # xs) \<longleftrightarrow> mem l = Some x \<and> troncon mem (Suiv x) xs"

definition chaine :: "(lien \<Rightarrow> elt option) \<Rightarrow> lien \<Rightarrow> elt list \<Rightarrow> bool" where
  "chaine mem l xs \<longleftrightarrow> troncon mem l xs \<and> mem (dernier_lien l xs) = None"

primrec retour :: "(elt \<Rightarrow> lien) \<Rightarrow> lien \<Rightarrow> elt list \<Rightarrow> bool" where
  "retour prec l [] \<longleftrightarrow> True"
| "retour prec l (x # xs) \<longleftrightarrow> prec x = l \<and> retour prec (Suiv x) xs"

lemma dernier_lien_append [simp]: "dernier_lien l (xs @ ys) = dernier_lien (dernier_lien l xs) ys"
  by (simp add: dernier_lien_def)

lemma chaine_simps [simp]:
  "chaine mem l [] \<longleftrightarrow> mem l = None"
  "chaine mem l (x # xs) \<longleftrightarrow> mem l = Some x \<and> chaine mem (Suiv x) xs"
  by (auto simp: chaine_def)

lemma troncon_append [simp]: "troncon mem l (xs @ ys) \<longleftrightarrow> troncon mem l xs \<and> troncon mem (dernier_lien l xs) ys"
  by (induction xs arbitrary: l) auto

lemma chaine_append [simp]: "chaine mem l (xs @ ys) \<longleftrightarrow> troncon mem l xs \<and> chaine mem (dernier_lien l xs) ys"
  by (auto simp: chaine_def)

lemma retour_append [simp]: "retour prec l (xs @ ys) \<longleftrightarrow> retour prec l xs \<and> retour prec (dernier_lien l xs) ys"
  by (induction xs arbitrary: l) auto

lemma chaine_lien: "chaine mem l xs \<Longrightarrow> mem l = (if xs = [] then None else Some (hd xs))"
  by (cases xs) auto

lemma lien_image [simp]: "Suiv x \<in> Suiv ` A \<longleftrightarrow> x \<in> A" "Tete h \<notin> Suiv ` A"
  by auto

lemma dernier_lien_dans: "dernier_lien l xs \<in> insert l (Suiv ` set xs)"
  by (auto simp: dernier_lien_def)

lemma troncon_ailleurs [simp]:
  "\<lbrakk>k \<noteq> l; k \<notin> Suiv ` set xs\<rbrakk> \<Longrightarrow> troncon (mem(k := v)) l xs = troncon mem l xs"
  by (induction xs arbitrary: l) auto

lemma chaine_ailleurs [simp]:
  "\<lbrakk>k \<noteq> l; k \<notin> Suiv ` set xs\<rbrakk> \<Longrightarrow> chaine (mem(k := v)) l xs = chaine mem l xs"
  using dernier_lien_dans [of l xs] by (auto simp: chaine_def)

lemma retour_ailleurs [simp]: "x \<notin> set xs \<Longrightarrow> retour (prec(x := k)) l xs = retour prec l xs"
  by (induction xs arbitrary: l) auto

text \<open>Writing at the last link of a stretch does not change the stretch.\<close>

lemma troncon_fin [simp]:
  "\<lbrakk>distinct xs; l \<notin> Suiv ` set xs\<rbrakk> \<Longrightarrow> troncon (mem(dernier_lien l xs := v)) l xs = troncon mem l xs"
proof (induction xs arbitrary: l)
  case (Cons x xs)
  then have "dernier_lien (Suiv x) xs \<noteq> l" using dernier_lien_dans [of "Suiv x" xs] by auto
  with Cons show ?case by auto
qed simp

text \<open>Inserting \<open>x\<close> at a link, and removing the element a link points to.\<close>

lemma chaine_inserer:
  assumes "chaine mem (Tete h) (a @ b)" and "distinct (a @ b)" and "x \<notin> set (a @ b)" and "k = dernier_lien (Tete h) a"
  shows "chaine (mem(Suiv x := mem k, k := Some x)) (Tete h) (a @ x # b)"
proof -
  have k: "k \<noteq> Suiv x" "k \<notin> Suiv ` set b"
    using assms(2-4) dernier_lien_dans [of "Tete h" a] by auto
  have "chaine mem k b" using assms(1,4) by simp
  then have "chaine (mem(Suiv x := mem k, k := Some x)) (Suiv x) b"
    using k assms(2,3) by (cases b) auto
  moreover have "troncon (mem(Suiv x := mem k, k := Some x)) (Tete h) a"
    using assms by (auto simp: image_iff)
  ultimately show ?thesis using assms(4) by simp
qed

lemma retour_inserer:
  assumes "retour prec (Tete h) (a @ b)" and "distinct (a @ b)" and "x \<notin> set (a @ b)" and "k = dernier_lien (Tete h) a"
  shows "retour ((if b = [] then prec else prec(hd b := Suiv x))(x := k)) (Tete h) (a @ x # b)"
  using assms by (cases b) auto

lemma chaine_retirer:
  assumes "chaine mem (Tete h) (a @ x # b)" and "distinct (a @ x # b)" and "k = dernier_lien (Tete h) a"
  shows "chaine (mem(k := mem (Suiv x))) (Tete h) (a @ b)"
proof -
  have k: "k \<notin> Suiv ` set b"
    using assms(2,3) dernier_lien_dans [of "Tete h" a] by auto
  have "chaine mem (Suiv x) b" using assms(1) by simp
  then have "chaine (mem(k := mem (Suiv x))) k b" using k by (cases b) auto
  then show ?thesis using assms by (auto simp: image_iff)
qed

lemma retour_retirer:
  assumes "retour prec (Tete h) (a @ x # b)" and "distinct (a @ x # b)" and "k = dernier_lien (Tete h) a"
  shows "retour (if b = [] then prec else prec(hd b := k)) (Tete h) (a @ b)"
  using assms by (cases b) auto

section \<open>All the lists of a memory\<close>

definition separees :: "(tete \<Rightarrow> elt list) \<Rightarrow> bool" where
  "separees L \<longleftrightarrow> (\<forall>h. distinct (L h)) \<and> (\<forall>h h'. h \<noteq> h' \<longrightarrow> set (L h) \<inter> set (L h') = {})"

definition avant :: "(lien \<Rightarrow> elt option) \<Rightarrow> (tete \<Rightarrow> elt list) \<Rightarrow> bool" where
  "avant mem L \<longleftrightarrow> (\<forall>h. chaine mem (Tete h) (L h))"

definition arriere :: "(elt \<Rightarrow> lien) \<Rightarrow> (tete \<Rightarrow> elt list) \<Rightarrow> bool" where
  "arriere prec L \<longleftrightarrow> (\<forall>h. retour prec (Tete h) (L h))"

definition fins :: "(tete \<Rightarrow> lien) \<Rightarrow> (tete \<Rightarrow> elt list) \<Rightarrow> bool" where
  "fins fin L \<longleftrightarrow> (\<forall>h. fin h = dernier_lien (Tete h) (L h))"

definition libre :: "elt \<Rightarrow> (tete \<Rightarrow> elt list) \<Rightarrow> bool" where
  "libre x L \<longleftrightarrow> (\<forall>h. x \<notin> set (L h))"

lemma separees_modifier:
  assumes "separees L" and "distinct xs" and "\<And>h'. h' \<noteq> h \<Longrightarrow> set xs \<inter> set (L h') = {}"
  shows "separees (L(h := xs))"
  using assms by (auto simp: separees_def)

lemma separeesD: "separees L \<Longrightarrow> distinct (L h)" "\<lbrakk>separees L; h \<noteq> h'\<rbrakk> \<Longrightarrow> set (L h) \<inter> set (L h') = {}"
  by (simp_all add: separees_def)

lemma separees_inserer:
  assumes "separees L" and "libre x L" and "L h = a @ b"
  shows "separees (L(h := a @ x # b))"
proof (rule separees_modifier [OF assms(1)])
  have x: "x \<notin> set (L h')" for h' using assms(2) by (simp add: libre_def)
  show "distinct (a @ x # b)" using separeesD(1) [OF assms(1), of h] x [of h] assms(3) by auto
  show "set (a @ x # b) \<inter> set (L h') = {}" if "h' \<noteq> h" for h'
    using separeesD(2) [OF assms(1), of h h'] that x [of h'] assms(3) by auto
qed

lemma separees_retirer:
  assumes "separees L" and "L h = a @ x # b"
  shows "separees (L(h := a @ b))"
proof (rule separees_modifier [OF assms(1)])
  show "distinct (a @ b)" using separeesD(1) [OF assms(1), of h] assms(2) by auto
  show "set (a @ b) \<inter> set (L h') = {}" if "h' \<noteq> h" for h'
    using separeesD(2) [OF assms(1), of h h'] that assms(2) by auto
qed

text \<open>The link before a place of the list \<open>h\<close> lies in no other list.\<close>

lemma lien_ailleurs:
  assumes "separees L" and "L h = a @ b" and "h' \<noteq> h"
  shows "dernier_lien (Tete h) a \<noteq> Tete h'" "dernier_lien (Tete h) a \<notin> Suiv ` set (L h')"
  using dernier_lien_dans [of "Tete h" a] separeesD(2) [OF assms(1), of h h'] assms(2,3) by auto

lemma avant_inserer:
  assumes "avant mem L" and "separees L" and "libre x L" and "L h = a @ b" and "k = dernier_lien (Tete h) a"
  shows "avant (mem(Suiv x := mem k, k := Some x)) (L(h := a @ x # b))"
  unfolding avant_def
proof
  fix h'
  show "chaine (mem(Suiv x := mem k, k := Some x)) (Tete h') ((L(h := a @ x # b)) h')"
  proof (cases "h' = h")
    case True
    have "chaine (mem(Suiv x := mem k, k := Some x)) (Tete h) (a @ x # b)"
      by (rule chaine_inserer [OF _ _ _ assms(5)])
        (use assms separeesD(1) [OF assms(2), of h] in \<open>simp_all add: avant_def libre_def flip: assms(4) del: chaine_append\<close>)
    with True show ?thesis by simp
  next
    case False
    with assms lien_ailleurs [OF assms(2,4) False] show ?thesis by (auto simp: avant_def libre_def)
  qed
qed

lemma avant_retirer:
  assumes "avant mem L" and "separees L" and "L h = a @ x # b" and "k = dernier_lien (Tete h) a"
  shows "avant (mem(k := mem (Suiv x))) (L(h := a @ b))"
  unfolding avant_def
proof
  fix h'
  show "chaine (mem(k := mem (Suiv x))) (Tete h') ((L(h := a @ b)) h')"
  proof (cases "h' = h")
    case True
    have "chaine (mem(k := mem (Suiv x))) (Tete h) (a @ b)"
      by (rule chaine_retirer [OF _ _ assms(4)])
        (use assms separeesD(1) [OF assms(2), of h] in \<open>simp_all add: avant_def flip: assms(3) del: chaine_append\<close>)
    with True show ?thesis by simp
  next
    case False
    with assms lien_ailleurs [OF assms(2,3) False] show ?thesis by (auto simp: avant_def)
  qed
qed

lemma arriere_inserer:
  assumes "arriere prec L" and "separees L" and "libre x L" and "L h = a @ b" and "k = dernier_lien (Tete h) a"
  shows "arriere ((if b = [] then prec else prec(hd b := Suiv x))(x := k)) (L(h := a @ x # b))"
  unfolding arriere_def
proof
  fix h'
  show "retour ((if b = [] then prec else prec(hd b := Suiv x))(x := k)) (Tete h') ((L(h := a @ x # b)) h')"
  proof (cases "h' = h")
    case True
    have "retour ((if b = [] then prec else prec(hd b := Suiv x))(x := k)) (Tete h) (a @ x # b)"
      by (rule retour_inserer [OF _ _ _ assms(5)])
        (use assms separeesD(1) [OF assms(2), of h] in \<open>simp_all add: arriere_def libre_def flip: assms(4) del: retour_append\<close>)
    with True show ?thesis by (simp only: fun_upd_same)
  next
    case False
    with assms separeesD(2) [OF assms(2), of h h'] show ?thesis by (cases b) (auto simp: arriere_def libre_def)
  qed
qed

lemma arriere_retirer:
  assumes "arriere prec L" and "separees L" and "L h = a @ x # b" and "k = dernier_lien (Tete h) a"
  shows "arriere (if b = [] then prec else prec(hd b := k)) (L(h := a @ b))"
  unfolding arriere_def
proof
  fix h'
  show "retour (if b = [] then prec else prec(hd b := k)) (Tete h') ((L(h := a @ b)) h')"
  proof (cases "h' = h")
    case True
    have "retour (if b = [] then prec else prec(hd b := k)) (Tete h) (a @ b)"
      by (rule retour_retirer [where x = x, OF _ _ assms(4)])
        (use assms separeesD(1) [OF assms(2), of h] in \<open>simp_all add: arriere_def flip: assms(3) del: retour_append\<close>)
    with True show ?thesis by (simp only: fun_upd_same)
  next
    case False
    with assms separeesD(2) [OF assms(2), of h h'] show ?thesis by (cases b) (auto simp: arriere_def)
  qed
qed

lemma fins_inserer:
  "\<lbrakk>fins fin L; L h = a @ b\<rbrakk> \<Longrightarrow> fins (if b = [] then fin(h := Suiv x) else fin) (L(h := a @ x # b))"
  by (cases b) (auto simp: fins_def)

lemma fins_retirer:
  "\<lbrakk>fins fin L; L h = a @ x # b; k = dernier_lien (Tete h) a\<rbrakk> \<Longrightarrow> fins (if b = [] then fin(h := k) else fin) (L(h := a @ b))"
  by (cases b) (auto simp: fins_def)

text \<open>What the pointers at a place hold.\<close>

lemma avant_lien:
  "\<lbrakk>avant mem L; L h = a @ b\<rbrakk> \<Longrightarrow> mem (dernier_lien (Tete h) a) = (if b = [] then None else Some (hd b))"
  using chaine_lien [of mem "dernier_lien (Tete h) a" b] unfolding avant_def by (metis chaine_append)

lemma avant_suivant: "\<lbrakk>avant mem L; L h = a @ x # b\<rbrakk> \<Longrightarrow> mem (Suiv x) = (if b = [] then None else Some (hd b))"
  using avant_lien [of mem L h "a @ [x]" b] by simp

lemma arriere_lien: "\<lbrakk>arriere prec L; L h = a @ x # b\<rbrakk> \<Longrightarrow> prec x = dernier_lien (Tete h) a"
  unfolding arriere_def by (metis retour_append retour.simps(2))

section \<open>The operations on lists\<close>

text \<open>
  What the operations promise, as functions on the lists. \<open>Apres h y x\<close> and \<open>Avant h y x\<close> insert \<open>x\<close>
  next to the element \<open>y\<close> of the list \<open>h\<close>. An operation is allowed when the element it names is in the list, and the one it
  inserts in none.
\<close>

datatype operation =
    Vider tete
  | En_tete tete elt
  | En_queue tete elt
  | Apres tete elt elt
  | Avant tete elt elt
  | Retirer_tete tete
  | Retirer tete elt
  | Concatener tete tete

fun inserer_apres :: "elt \<Rightarrow> elt \<Rightarrow> elt list \<Rightarrow> elt list" where
  "inserer_apres y x [] = []"
| "inserer_apres y x (z # zs) = (if z = y then z # x # zs else z # inserer_apres y x zs)"

fun inserer_avant :: "elt \<Rightarrow> elt \<Rightarrow> elt list \<Rightarrow> elt list" where
  "inserer_avant y x [] = []"
| "inserer_avant y x (z # zs) = (if z = y then x # z # zs else z # inserer_avant y x zs)"

fun abstraire :: "operation \<Rightarrow> (tete \<Rightarrow> elt list) \<Rightarrow> (tete \<Rightarrow> elt list)" where
  "abstraire (Vider h) L = L(h := [])"
| "abstraire (En_tete h x) L = L(h := x # L h)"
| "abstraire (En_queue h x) L = L(h := L h @ [x])"
| "abstraire (Apres h y x) L = L(h := inserer_apres y x (L h))"
| "abstraire (Avant h y x) L = L(h := inserer_avant y x (L h))"
| "abstraire (Retirer_tete h) L = L(h := tl (L h))"
| "abstraire (Retirer h x) L = L(h := remove1 x (L h))"
| "abstraire (Concatener h h') L = L(h := L h @ L h', h' := [])"

fun permise :: "operation \<Rightarrow> (tete \<Rightarrow> elt list) \<Rightarrow> bool" where
  "permise (Vider h) L \<longleftrightarrow> True"
| "permise (En_tete h x) L \<longleftrightarrow> libre x L"
| "permise (En_queue h x) L \<longleftrightarrow> libre x L"
| "permise (Apres h y x) L \<longleftrightarrow> y \<in> set (L h) \<and> libre x L"
| "permise (Avant h y x) L \<longleftrightarrow> y \<in> set (L h) \<and> libre x L"
| "permise (Retirer_tete h) L \<longleftrightarrow> L h \<noteq> []"
| "permise (Retirer h x) L \<longleftrightarrow> x \<in> set (L h)"
| "permise (Concatener h h') L \<longleftrightarrow> h \<noteq> h'"

fun permises :: "operation list \<Rightarrow> (tete \<Rightarrow> elt list) \<Rightarrow> bool" where
  "permises [] L \<longleftrightarrow> True"
| "permises (op # ops) L \<longleftrightarrow> permise op L \<and> permises ops (abstraire op L)"

lemma inserer_apres_milieu: "y \<notin> set a \<Longrightarrow> inserer_apres y x (a @ y # b) = a @ y # x # b"
  by (induction a) auto

lemma inserer_avant_milieu: "y \<notin> set a \<Longrightarrow> inserer_avant y x (a @ y # b) = a @ x # y # b"
  by (induction a) auto

lemma place:
  assumes "separees L" and "y \<in> set (L h)"
  obtains a b where "L h = a @ y # b" and "y \<notin> set a" and "y \<notin> set b"
proof -
  obtain a b where ab: "L h = a @ y # b" using assms(2) by (meson split_list)
  with separeesD(1) [OF assms(1), of h] that [of a b] show ?thesis by simp
qed

lemma separees_vider: "separees L \<Longrightarrow> separees (L(h := []))"
  by (rule separees_modifier) simp_all

lemma separees_concatener:
  assumes "separees L" and "h \<noteq> h'"
  shows "separees (L(h := L h @ L h', h' := []))"
proof -
  have "separees ((L(h' := []))(h := L h @ L h'))"
  proof (rule separees_modifier [OF separees_vider [OF assms(1)]])
    show "distinct (L h @ L h')" using separeesD [OF assms(1)] assms(2) by simp
    show "set (L h @ L h') \<inter> set ((L(h' := [])) g) = {}" if "g \<noteq> h" for g
      using separeesD(2) [OF assms(1), of h g] separeesD(2) [OF assms(1), of h' g] that by auto
  qed
  with assms(2) show ?thesis by (simp add: fun_upd_twist)
qed

text \<open>
  The contract of a structure: each of the operations it offers, when allowed, is carried out without a fault
  and simulates the operation on lists. Every sequence of them then does.
\<close>

locale file_chainee =
  fixes executer :: "operation \<Rightarrow> 's \<Rightarrow> 's option"
    and represente :: "'s \<Rightarrow> (tete \<Rightarrow> elt list) \<Rightarrow> bool"
    and offerte :: "operation \<Rightarrow> bool"
  assumes simule: "\<lbrakk>represente s L; offerte op; permise op L\<rbrakk> \<Longrightarrow>
    \<exists>s'. executer op s = Some s' \<and> represente s' (abstraire op L)"
begin

lemma simule_suite:
  assumes "represente s L" and "\<forall>op \<in> set ops. offerte op" and "permises ops L"
  shows "\<exists>s'. foldM executer ops s = Some s' \<and> represente s' (fold abstraire ops L)"
  using assms
proof (induction ops arbitrary: s L)
  case (Cons op ops)
  then obtain s' where "executer op s = Some s'" "represente s' (abstraire op L)"
    using simule [of s L op] by auto
  with Cons show ?case by simp
qed simp

end

text \<open>
  Running through a list: \<open>for (var = premier; var; var = suivant(var)) corps\<close>, for a body that
  works on other data than the links.
\<close>

definition parcours :: "(elt \<Rightarrow> elt option) \<Rightarrow> (elt \<Rightarrow> 'a \<Rightarrow> 'a) \<Rightarrow> elt option \<Rightarrow> 'a \<Rightarrow> 'a option" where
  "parcours suivant corps premier a =
     boucle (\<lambda>(var, a). case var of None \<Rightarrow> Some (Inr a) | Some v \<Rightarrow> Some (Inl (suivant v, corps v a))) (premier, a)"

lemma parcours_simps [simp]:
  "parcours suivant corps None a = Some a"
  "parcours suivant corps (Some v) a = parcours suivant corps (suivant v) (corps v a)"
  by (simp_all add: parcours_def boucle_fin boucle_suite)

lemma parcours_chaine:
  "\<lbrakk>chaine mem l xs; \<And>x. x \<in> set xs \<Longrightarrow> suivant x = mem (Suiv x)\<rbrakk> \<Longrightarrow> parcours suivant corps (mem l) a = Some (fold corps xs a)"
  by (induction xs arbitrary: l a) auto

end
