(* ===== verification/Files.thy ===== *)
theory Files
  imports Chaines
begin

text \<open>
  \<open>sys/queue.h\<close> of the C library of the target: the lists, singly linked lists, singly linked tail
  queues, simple queues and tail queues. Each structure has a record with the fields of its heads
  (\<open>LIST_HEAD\<close>) and of its elements (\<open>LIST_ENTRY\<close>), one definition per macro, and a dispatcher
  over the operations of \<^theory_text>\<open>Chaines\<close>, through which the contract is stated.

  A pointer to an element is an \<^typ>\<open>elt option\<close>, \<^term>\<open>None\<close> for \<open>NULL\<close>; a pointer to such a pointer is a
  \<^typ>\<open>lien\<close>. Following a null pointer is a fault (\<^term>\<open>None\<close>).
\<close>

section \<open>Lists\<close>

record list_tas =
  lh_first :: "tete \<Rightarrow> elt option"
  le_next :: "elt \<Rightarrow> elt option"
  le_prev :: "elt \<Rightarrow> lien"

definition LIST_HEAD_INITIALIZER :: list_tas where
  "LIST_HEAD_INITIALIZER = \<lparr>lh_first = (\<lambda>_. None), le_next = (\<lambda>_. None), le_prev = Suiv\<rparr>"

definition list_lire :: "list_tas \<Rightarrow> lien \<Rightarrow> elt option" where
  "list_lire s l = (case l of Tete h \<Rightarrow> lh_first s h | Suiv e \<Rightarrow> le_next s e)"

fun list_ecrire :: "lien \<Rightarrow> elt option \<Rightarrow> list_tas \<Rightarrow> list_tas" where
  "list_ecrire (Tete h) v s = s\<lparr>lh_first := (lh_first s)(h := v)\<rparr>"
| "list_ecrire (Suiv e) v s = s\<lparr>le_next := (le_next s)(e := v)\<rparr>"

definition LIST_INIT :: "tete \<Rightarrow> list_tas \<Rightarrow> list_tas" where
  "LIST_INIT head s = s\<lparr>lh_first := (lh_first s)(head := None)\<rparr>"

definition LIST_INSERT_AFTER :: "elt \<Rightarrow> elt \<Rightarrow> list_tas \<Rightarrow> list_tas option" where
  "LIST_INSERT_AFTER listelm elm s = do {
     let s = s\<lparr>le_next := (le_next s)(elm := le_next s listelm)\<rparr>;
     s \<leftarrow> (if le_next s elm \<noteq> None then do {
            n \<leftarrow> le_next s listelm;
            Some (s\<lparr>le_prev := (le_prev s)(n := Suiv elm)\<rparr>)
          } else Some s);
     let s = s\<lparr>le_next := (le_next s)(listelm := Some elm)\<rparr>;
     Some (s\<lparr>le_prev := (le_prev s)(elm := Suiv listelm)\<rparr>)
   }"

definition LIST_INSERT_BEFORE :: "elt \<Rightarrow> elt \<Rightarrow> list_tas \<Rightarrow> list_tas" where
  "LIST_INSERT_BEFORE listelm elm s =
     (let s = s\<lparr>le_prev := (le_prev s)(elm := le_prev s listelm)\<rparr>;
          s = s\<lparr>le_next := (le_next s)(elm := Some listelm)\<rparr>;
          s = list_ecrire (le_prev s listelm) (Some elm) s
      in s\<lparr>le_prev := (le_prev s)(listelm := Suiv elm)\<rparr>)"

definition LIST_INSERT_HEAD :: "tete \<Rightarrow> elt \<Rightarrow> list_tas \<Rightarrow> list_tas option" where
  "LIST_INSERT_HEAD head elm s = do {
     let s = s\<lparr>le_next := (le_next s)(elm := lh_first s head)\<rparr>;
     s \<leftarrow> (if le_next s elm \<noteq> None then do {
            n \<leftarrow> lh_first s head;
            Some (s\<lparr>le_prev := (le_prev s)(n := Suiv elm)\<rparr>)
          } else Some s);
     let s = s\<lparr>lh_first := (lh_first s)(head := Some elm)\<rparr>;
     Some (s\<lparr>le_prev := (le_prev s)(elm := Tete head)\<rparr>)
   }"

definition LIST_REMOVE :: "elt \<Rightarrow> list_tas \<Rightarrow> list_tas" where
  "LIST_REMOVE elm s =
     (let s = (case le_next s elm of Some n \<Rightarrow> s\<lparr>le_prev := (le_prev s)(n := le_prev s elm)\<rparr> | None \<Rightarrow> s)
      in list_ecrire (le_prev s elm) (le_next s elm) s)"

definition LIST_FOREACH :: "(elt \<Rightarrow> 'a \<Rightarrow> 'a) \<Rightarrow> tete \<Rightarrow> list_tas \<Rightarrow> 'a \<Rightarrow> 'a option" where
  "LIST_FOREACH corps head s = parcours (le_next s) corps (lh_first s head)"

definition LIST_EMPTY :: "tete \<Rightarrow> list_tas \<Rightarrow> bool" where
  "LIST_EMPTY head s \<longleftrightarrow> lh_first s head = None"

definition LIST_FIRST :: "tete \<Rightarrow> list_tas \<Rightarrow> elt option" where
  "LIST_FIRST head s = lh_first s head"

definition LIST_NEXT :: "elt \<Rightarrow> list_tas \<Rightarrow> elt option" where
  "LIST_NEXT elm s = le_next s elm"

fun list_executer :: "operation \<Rightarrow> list_tas \<Rightarrow> list_tas option" where
  "list_executer (Vider h) s = Some (LIST_INIT h s)"
| "list_executer (En_tete h x) s = LIST_INSERT_HEAD h x s"
| "list_executer (Apres h y x) s = LIST_INSERT_AFTER y x s"
| "list_executer (Avant h y x) s = Some (LIST_INSERT_BEFORE y x s)"
| "list_executer (Retirer h x) s = Some (LIST_REMOVE x s)"
| "list_executer _ s = None"

fun list_offerte :: "operation \<Rightarrow> bool" where
  "list_offerte (En_queue h x) \<longleftrightarrow> False"
| "list_offerte (Retirer_tete h) \<longleftrightarrow> False"
| "list_offerte (Concatener h h') \<longleftrightarrow> False"
| "list_offerte _ \<longleftrightarrow> True"

section \<open>Singly linked lists\<close>

record slist_tas =
  slh_first :: "tete \<Rightarrow> elt option"
  sle_next :: "elt \<Rightarrow> elt option"

definition SLIST_HEAD_INITIALIZER :: slist_tas where
  "SLIST_HEAD_INITIALIZER = \<lparr>slh_first = (\<lambda>_. None), sle_next = (\<lambda>_. None)\<rparr>"

definition SLIST_INIT :: "tete \<Rightarrow> slist_tas \<Rightarrow> slist_tas" where
  "SLIST_INIT head s = s\<lparr>slh_first := (slh_first s)(head := None)\<rparr>"

definition SLIST_INSERT_AFTER :: "elt \<Rightarrow> elt \<Rightarrow> slist_tas \<Rightarrow> slist_tas" where
  "SLIST_INSERT_AFTER slistelm elm s =
     (let s = s\<lparr>sle_next := (sle_next s)(elm := sle_next s slistelm)\<rparr>
      in s\<lparr>sle_next := (sle_next s)(slistelm := Some elm)\<rparr>)"

definition SLIST_INSERT_HEAD :: "tete \<Rightarrow> elt \<Rightarrow> slist_tas \<Rightarrow> slist_tas" where
  "SLIST_INSERT_HEAD head elm s =
     (let s = s\<lparr>sle_next := (sle_next s)(elm := slh_first s head)\<rparr>
      in s\<lparr>slh_first := (slh_first s)(head := Some elm)\<rparr>)"

definition SLIST_REMOVE_HEAD :: "tete \<Rightarrow> slist_tas \<Rightarrow> slist_tas option" where
  "SLIST_REMOVE_HEAD head s = do {
     p \<leftarrow> slh_first s head;
     Some (s\<lparr>slh_first := (slh_first s)(head := sle_next s p)\<rparr>)
   }"

text \<open>The loop \<open>while (curelm->next != elm) curelm = curelm->next\<close>, shared by the three singly linked structures.\<close>

definition chercher_precedent :: "(elt \<Rightarrow> elt option) \<Rightarrow> elt \<Rightarrow> elt option \<Rightarrow> elt option" where
  "chercher_precedent suivant elm =
     boucle (\<lambda>curelm. do {
       c \<leftarrow> curelm;
       if suivant c \<noteq> Some elm then Some (Inl (suivant c)) else Some (Inr c)
     })"

definition SLIST_REMOVE :: "tete \<Rightarrow> elt \<Rightarrow> slist_tas \<Rightarrow> slist_tas option" where
  "SLIST_REMOVE head elm s =
     (if slh_first s head = Some elm then SLIST_REMOVE_HEAD head s
      else do {
        curelm \<leftarrow> chercher_precedent (sle_next s) elm (slh_first s head);
        n \<leftarrow> sle_next s curelm;
        Some (s\<lparr>sle_next := (sle_next s)(curelm := sle_next s n)\<rparr>)
      })"

definition SLIST_FOREACH :: "(elt \<Rightarrow> 'a \<Rightarrow> 'a) \<Rightarrow> tete \<Rightarrow> slist_tas \<Rightarrow> 'a \<Rightarrow> 'a option" where
  "SLIST_FOREACH corps head s = parcours (sle_next s) corps (slh_first s head)"

definition SLIST_EMPTY :: "tete \<Rightarrow> slist_tas \<Rightarrow> bool" where
  "SLIST_EMPTY head s \<longleftrightarrow> slh_first s head = None"

definition SLIST_FIRST :: "tete \<Rightarrow> slist_tas \<Rightarrow> elt option" where
  "SLIST_FIRST head s = slh_first s head"

definition SLIST_NEXT :: "elt \<Rightarrow> slist_tas \<Rightarrow> elt option" where
  "SLIST_NEXT elm s = sle_next s elm"

fun slist_executer :: "operation \<Rightarrow> slist_tas \<Rightarrow> slist_tas option" where
  "slist_executer (Vider h) s = Some (SLIST_INIT h s)"
| "slist_executer (En_tete h x) s = Some (SLIST_INSERT_HEAD h x s)"
| "slist_executer (Apres h y x) s = Some (SLIST_INSERT_AFTER y x s)"
| "slist_executer (Retirer_tete h) s = SLIST_REMOVE_HEAD h s"
| "slist_executer (Retirer h x) s = SLIST_REMOVE h x s"
| "slist_executer _ s = None"

fun slist_offerte :: "operation \<Rightarrow> bool" where
  "slist_offerte (En_queue h x) \<longleftrightarrow> False"
| "slist_offerte (Avant h y x) \<longleftrightarrow> False"
| "slist_offerte (Concatener h h') \<longleftrightarrow> False"
| "slist_offerte _ \<longleftrightarrow> True"

section \<open>Singly linked tail queues\<close>

record stailq_tas =
  stqh_first :: "tete \<Rightarrow> elt option"
  stqh_last :: "tete \<Rightarrow> lien"
  stqe_next :: "elt \<Rightarrow> elt option"

definition STAILQ_HEAD_INITIALIZER :: stailq_tas where
  "STAILQ_HEAD_INITIALIZER = \<lparr>stqh_first = (\<lambda>_. None), stqh_last = Tete, stqe_next = (\<lambda>_. None)\<rparr>"

fun stailq_ecrire :: "lien \<Rightarrow> elt option \<Rightarrow> stailq_tas \<Rightarrow> stailq_tas" where
  "stailq_ecrire (Tete h) v s = s\<lparr>stqh_first := (stqh_first s)(h := v)\<rparr>"
| "stailq_ecrire (Suiv e) v s = s\<lparr>stqe_next := (stqe_next s)(e := v)\<rparr>"

definition STAILQ_INIT :: "tete \<Rightarrow> stailq_tas \<Rightarrow> stailq_tas" where
  "STAILQ_INIT head s =
     (let s = s\<lparr>stqh_first := (stqh_first s)(head := None)\<rparr>
      in s\<lparr>stqh_last := (stqh_last s)(head := Tete head)\<rparr>)"

definition STAILQ_INSERT_HEAD :: "tete \<Rightarrow> elt \<Rightarrow> stailq_tas \<Rightarrow> stailq_tas" where
  "STAILQ_INSERT_HEAD head elm s =
     (let s = s\<lparr>stqe_next := (stqe_next s)(elm := stqh_first s head)\<rparr>;
          s = (if stqe_next s elm = None then s\<lparr>stqh_last := (stqh_last s)(head := Suiv elm)\<rparr> else s)
      in s\<lparr>stqh_first := (stqh_first s)(head := Some elm)\<rparr>)"

definition STAILQ_INSERT_TAIL :: "tete \<Rightarrow> elt \<Rightarrow> stailq_tas \<Rightarrow> stailq_tas" where
  "STAILQ_INSERT_TAIL head elm s =
     (let s = s\<lparr>stqe_next := (stqe_next s)(elm := None)\<rparr>;
          s = stailq_ecrire (stqh_last s head) (Some elm) s
      in s\<lparr>stqh_last := (stqh_last s)(head := Suiv elm)\<rparr>)"

definition STAILQ_INSERT_AFTER :: "tete \<Rightarrow> elt \<Rightarrow> elt \<Rightarrow> stailq_tas \<Rightarrow> stailq_tas" where
  "STAILQ_INSERT_AFTER head listelm elm s =
     (let s = s\<lparr>stqe_next := (stqe_next s)(elm := stqe_next s listelm)\<rparr>;
          s = (if stqe_next s elm = None then s\<lparr>stqh_last := (stqh_last s)(head := Suiv elm)\<rparr> else s)
      in s\<lparr>stqe_next := (stqe_next s)(listelm := Some elm)\<rparr>)"

definition STAILQ_REMOVE_HEAD :: "tete \<Rightarrow> stailq_tas \<Rightarrow> stailq_tas option" where
  "STAILQ_REMOVE_HEAD head s = do {
     p \<leftarrow> stqh_first s head;
     let s = s\<lparr>stqh_first := (stqh_first s)(head := stqe_next s p)\<rparr>;
     Some (if stqh_first s head = None then s\<lparr>stqh_last := (stqh_last s)(head := Tete head)\<rparr> else s)
   }"

definition STAILQ_REMOVE :: "tete \<Rightarrow> elt \<Rightarrow> stailq_tas \<Rightarrow> stailq_tas option" where
  "STAILQ_REMOVE head elm s =
     (if stqh_first s head = Some elm then STAILQ_REMOVE_HEAD head s
      else do {
        curelm \<leftarrow> chercher_precedent (stqe_next s) elm (stqh_first s head);
        n \<leftarrow> stqe_next s curelm;
        let s = s\<lparr>stqe_next := (stqe_next s)(curelm := stqe_next s n)\<rparr>;
        Some (if stqe_next s curelm = None then s\<lparr>stqh_last := (stqh_last s)(head := Suiv curelm)\<rparr> else s)
      })"

definition STAILQ_FOREACH :: "(elt \<Rightarrow> 'a \<Rightarrow> 'a) \<Rightarrow> tete \<Rightarrow> stailq_tas \<Rightarrow> 'a \<Rightarrow> 'a option" where
  "STAILQ_FOREACH corps head s = parcours (stqe_next s) corps (stqh_first s head)"

definition STAILQ_EMPTY :: "tete \<Rightarrow> stailq_tas \<Rightarrow> bool" where
  "STAILQ_EMPTY head s \<longleftrightarrow> stqh_first s head = None"

definition STAILQ_CONCAT :: "tete \<Rightarrow> tete \<Rightarrow> stailq_tas \<Rightarrow> stailq_tas" where
  "STAILQ_CONCAT head1 head2 s =
     (if \<not> STAILQ_EMPTY head2 s then
        let s = stailq_ecrire (stqh_last s head1) (stqh_first s head2) s;
            s = s\<lparr>stqh_last := (stqh_last s)(head1 := stqh_last s head2)\<rparr>
        in STAILQ_INIT head2 s
      else s)"

definition STAILQ_FIRST :: "tete \<Rightarrow> stailq_tas \<Rightarrow> elt option" where
  "STAILQ_FIRST head s = stqh_first s head"

definition STAILQ_NEXT :: "elt \<Rightarrow> stailq_tas \<Rightarrow> elt option" where
  "STAILQ_NEXT elm s = stqe_next s elm"

fun stailq_executer :: "operation \<Rightarrow> stailq_tas \<Rightarrow> stailq_tas option" where
  "stailq_executer (Vider h) s = Some (STAILQ_INIT h s)"
| "stailq_executer (En_tete h x) s = Some (STAILQ_INSERT_HEAD h x s)"
| "stailq_executer (En_queue h x) s = Some (STAILQ_INSERT_TAIL h x s)"
| "stailq_executer (Apres h y x) s = Some (STAILQ_INSERT_AFTER h y x s)"
| "stailq_executer (Retirer_tete h) s = STAILQ_REMOVE_HEAD h s"
| "stailq_executer (Retirer h x) s = STAILQ_REMOVE h x s"
| "stailq_executer (Concatener h h') s = Some (STAILQ_CONCAT h h' s)"
| "stailq_executer _ s = None"

fun stailq_offerte :: "operation \<Rightarrow> bool" where
  "stailq_offerte (Avant h y x) \<longleftrightarrow> False"
| "stailq_offerte _ \<longleftrightarrow> True"

section \<open>Simple queues\<close>

record simpleq_tas =
  sqh_first :: "tete \<Rightarrow> elt option"
  sqh_last :: "tete \<Rightarrow> lien"
  sqe_next :: "elt \<Rightarrow> elt option"

definition SIMPLEQ_HEAD_INITIALIZER :: simpleq_tas where
  "SIMPLEQ_HEAD_INITIALIZER = \<lparr>sqh_first = (\<lambda>_. None), sqh_last = Tete, sqe_next = (\<lambda>_. None)\<rparr>"

fun simpleq_ecrire :: "lien \<Rightarrow> elt option \<Rightarrow> simpleq_tas \<Rightarrow> simpleq_tas" where
  "simpleq_ecrire (Tete h) v s = s\<lparr>sqh_first := (sqh_first s)(h := v)\<rparr>"
| "simpleq_ecrire (Suiv e) v s = s\<lparr>sqe_next := (sqe_next s)(e := v)\<rparr>"

definition SIMPLEQ_INIT :: "tete \<Rightarrow> simpleq_tas \<Rightarrow> simpleq_tas" where
  "SIMPLEQ_INIT head s =
     (let s = s\<lparr>sqh_first := (sqh_first s)(head := None)\<rparr>
      in s\<lparr>sqh_last := (sqh_last s)(head := Tete head)\<rparr>)"

definition SIMPLEQ_INSERT_HEAD :: "tete \<Rightarrow> elt \<Rightarrow> simpleq_tas \<Rightarrow> simpleq_tas" where
  "SIMPLEQ_INSERT_HEAD head elm s =
     (let s = s\<lparr>sqe_next := (sqe_next s)(elm := sqh_first s head)\<rparr>;
          s = (if sqe_next s elm = None then s\<lparr>sqh_last := (sqh_last s)(head := Suiv elm)\<rparr> else s)
      in s\<lparr>sqh_first := (sqh_first s)(head := Some elm)\<rparr>)"

definition SIMPLEQ_INSERT_TAIL :: "tete \<Rightarrow> elt \<Rightarrow> simpleq_tas \<Rightarrow> simpleq_tas" where
  "SIMPLEQ_INSERT_TAIL head elm s =
     (let s = s\<lparr>sqe_next := (sqe_next s)(elm := None)\<rparr>;
          s = simpleq_ecrire (sqh_last s head) (Some elm) s
      in s\<lparr>sqh_last := (sqh_last s)(head := Suiv elm)\<rparr>)"

definition SIMPLEQ_INSERT_AFTER :: "tete \<Rightarrow> elt \<Rightarrow> elt \<Rightarrow> simpleq_tas \<Rightarrow> simpleq_tas" where
  "SIMPLEQ_INSERT_AFTER head listelm elm s =
     (let s = s\<lparr>sqe_next := (sqe_next s)(elm := sqe_next s listelm)\<rparr>;
          s = (if sqe_next s elm = None then s\<lparr>sqh_last := (sqh_last s)(head := Suiv elm)\<rparr> else s)
      in s\<lparr>sqe_next := (sqe_next s)(listelm := Some elm)\<rparr>)"

definition SIMPLEQ_REMOVE_HEAD :: "tete \<Rightarrow> simpleq_tas \<Rightarrow> simpleq_tas option" where
  "SIMPLEQ_REMOVE_HEAD head s = do {
     p \<leftarrow> sqh_first s head;
     let s = s\<lparr>sqh_first := (sqh_first s)(head := sqe_next s p)\<rparr>;
     Some (if sqh_first s head = None then s\<lparr>sqh_last := (sqh_last s)(head := Tete head)\<rparr> else s)
   }"

definition SIMPLEQ_REMOVE :: "tete \<Rightarrow> elt \<Rightarrow> simpleq_tas \<Rightarrow> simpleq_tas option" where
  "SIMPLEQ_REMOVE head elm s =
     (if sqh_first s head = Some elm then SIMPLEQ_REMOVE_HEAD head s
      else do {
        curelm \<leftarrow> chercher_precedent (sqe_next s) elm (sqh_first s head);
        n \<leftarrow> sqe_next s curelm;
        let s = s\<lparr>sqe_next := (sqe_next s)(curelm := sqe_next s n)\<rparr>;
        Some (if sqe_next s curelm = None then s\<lparr>sqh_last := (sqh_last s)(head := Suiv curelm)\<rparr> else s)
      })"

definition SIMPLEQ_FOREACH :: "(elt \<Rightarrow> 'a \<Rightarrow> 'a) \<Rightarrow> tete \<Rightarrow> simpleq_tas \<Rightarrow> 'a \<Rightarrow> 'a option" where
  "SIMPLEQ_FOREACH corps head s = parcours (sqe_next s) corps (sqh_first s head)"

definition SIMPLEQ_EMPTY :: "tete \<Rightarrow> simpleq_tas \<Rightarrow> bool" where
  "SIMPLEQ_EMPTY head s \<longleftrightarrow> sqh_first s head = None"

definition SIMPLEQ_FIRST :: "tete \<Rightarrow> simpleq_tas \<Rightarrow> elt option" where
  "SIMPLEQ_FIRST head s = sqh_first s head"

definition SIMPLEQ_NEXT :: "elt \<Rightarrow> simpleq_tas \<Rightarrow> elt option" where
  "SIMPLEQ_NEXT elm s = sqe_next s elm"

fun simpleq_executer :: "operation \<Rightarrow> simpleq_tas \<Rightarrow> simpleq_tas option" where
  "simpleq_executer (Vider h) s = Some (SIMPLEQ_INIT h s)"
| "simpleq_executer (En_tete h x) s = Some (SIMPLEQ_INSERT_HEAD h x s)"
| "simpleq_executer (En_queue h x) s = Some (SIMPLEQ_INSERT_TAIL h x s)"
| "simpleq_executer (Apres h y x) s = Some (SIMPLEQ_INSERT_AFTER h y x s)"
| "simpleq_executer (Retirer_tete h) s = SIMPLEQ_REMOVE_HEAD h s"
| "simpleq_executer (Retirer h x) s = SIMPLEQ_REMOVE h x s"
| "simpleq_executer _ s = None"

fun simpleq_offerte :: "operation \<Rightarrow> bool" where
  "simpleq_offerte (Avant h y x) \<longleftrightarrow> False"
| "simpleq_offerte (Concatener h h') \<longleftrightarrow> False"
| "simpleq_offerte _ \<longleftrightarrow> True"

section \<open>Tail queues\<close>

record tailq_tas =
  tqh_first :: "tete \<Rightarrow> elt option"
  tqh_last :: "tete \<Rightarrow> lien"
  tqe_next :: "elt \<Rightarrow> elt option"
  tqe_prev :: "elt \<Rightarrow> lien"

definition TAILQ_HEAD_INITIALIZER :: tailq_tas where
  "TAILQ_HEAD_INITIALIZER = \<lparr>tqh_first = (\<lambda>_. None), tqh_last = Tete, tqe_next = (\<lambda>_. None), tqe_prev = Suiv\<rparr>"

definition tailq_lire :: "tailq_tas \<Rightarrow> lien \<Rightarrow> elt option" where
  "tailq_lire s l = (case l of Tete h \<Rightarrow> tqh_first s h | Suiv e \<Rightarrow> tqe_next s e)"

fun tailq_ecrire :: "lien \<Rightarrow> elt option \<Rightarrow> tailq_tas \<Rightarrow> tailq_tas" where
  "tailq_ecrire (Tete h) v s = s\<lparr>tqh_first := (tqh_first s)(h := v)\<rparr>"
| "tailq_ecrire (Suiv e) v s = s\<lparr>tqe_next := (tqe_next s)(e := v)\<rparr>"

text \<open>
  \<open>((struct headname *)l)->tqh_last\<close>: an element's entry and a head have the same layout, a pointer to an element and then a
  pointer to a link, so the second member behind the link \<open>l\<close> is \<open>tqh_last\<close> of a head or
  \<open>tqe_prev\<close> of an element.
\<close>

fun tailq_second :: "tailq_tas \<Rightarrow> lien \<Rightarrow> lien" where
  "tailq_second s (Tete h) = tqh_last s h"
| "tailq_second s (Suiv e) = tqe_prev s e"

definition TAILQ_INIT :: "tete \<Rightarrow> tailq_tas \<Rightarrow> tailq_tas" where
  "TAILQ_INIT head s =
     (let s = s\<lparr>tqh_first := (tqh_first s)(head := None)\<rparr>
      in s\<lparr>tqh_last := (tqh_last s)(head := Tete head)\<rparr>)"

definition TAILQ_INSERT_HEAD :: "tete \<Rightarrow> elt \<Rightarrow> tailq_tas \<Rightarrow> tailq_tas option" where
  "TAILQ_INSERT_HEAD head elm s = do {
     let s = s\<lparr>tqe_next := (tqe_next s)(elm := tqh_first s head)\<rparr>;
     s \<leftarrow> (if tqe_next s elm \<noteq> None then do {
            n \<leftarrow> tqh_first s head;
            Some (s\<lparr>tqe_prev := (tqe_prev s)(n := Suiv elm)\<rparr>)
          }
          else Some (s\<lparr>tqh_last := (tqh_last s)(head := Suiv elm)\<rparr>));
     let s = s\<lparr>tqh_first := (tqh_first s)(head := Some elm)\<rparr>;
     Some (s\<lparr>tqe_prev := (tqe_prev s)(elm := Tete head)\<rparr>)
   }"

definition TAILQ_INSERT_TAIL :: "tete \<Rightarrow> elt \<Rightarrow> tailq_tas \<Rightarrow> tailq_tas" where
  "TAILQ_INSERT_TAIL head elm s =
     (let s = s\<lparr>tqe_next := (tqe_next s)(elm := None)\<rparr>;
          s = s\<lparr>tqe_prev := (tqe_prev s)(elm := tqh_last s head)\<rparr>;
          s = tailq_ecrire (tqh_last s head) (Some elm) s
      in s\<lparr>tqh_last := (tqh_last s)(head := Suiv elm)\<rparr>)"

definition TAILQ_INSERT_AFTER :: "tete \<Rightarrow> elt \<Rightarrow> elt \<Rightarrow> tailq_tas \<Rightarrow> tailq_tas" where
  "TAILQ_INSERT_AFTER head listelm elm s =
     (let s = s\<lparr>tqe_next := (tqe_next s)(elm := tqe_next s listelm)\<rparr>;
          s = (case tqe_next s elm of
                 Some n \<Rightarrow> s\<lparr>tqe_prev := (tqe_prev s)(n := Suiv elm)\<rparr>
               | None \<Rightarrow> s\<lparr>tqh_last := (tqh_last s)(head := Suiv elm)\<rparr>);
          s = s\<lparr>tqe_next := (tqe_next s)(listelm := Some elm)\<rparr>
      in s\<lparr>tqe_prev := (tqe_prev s)(elm := Suiv listelm)\<rparr>)"

definition TAILQ_INSERT_BEFORE :: "elt \<Rightarrow> elt \<Rightarrow> tailq_tas \<Rightarrow> tailq_tas" where
  "TAILQ_INSERT_BEFORE listelm elm s =
     (let s = s\<lparr>tqe_prev := (tqe_prev s)(elm := tqe_prev s listelm)\<rparr>;
          s = s\<lparr>tqe_next := (tqe_next s)(elm := Some listelm)\<rparr>;
          s = tailq_ecrire (tqe_prev s listelm) (Some elm) s
      in s\<lparr>tqe_prev := (tqe_prev s)(listelm := Suiv elm)\<rparr>)"

definition TAILQ_REMOVE :: "tete \<Rightarrow> elt \<Rightarrow> tailq_tas \<Rightarrow> tailq_tas" where
  "TAILQ_REMOVE head elm s =
     (let s = (case tqe_next s elm of
                 Some n \<Rightarrow> s\<lparr>tqe_prev := (tqe_prev s)(n := tqe_prev s elm)\<rparr>
               | None \<Rightarrow> s\<lparr>tqh_last := (tqh_last s)(head := tqe_prev s elm)\<rparr>)
      in tailq_ecrire (tqe_prev s elm) (tqe_next s elm) s)"

definition TAILQ_FOREACH :: "(elt \<Rightarrow> 'a \<Rightarrow> 'a) \<Rightarrow> tete \<Rightarrow> tailq_tas \<Rightarrow> 'a \<Rightarrow> 'a option" where
  "TAILQ_FOREACH corps head s = parcours (tqe_next s) corps (tqh_first s head)"

definition TAILQ_LAST :: "tete \<Rightarrow> tailq_tas \<Rightarrow> elt option" where
  "TAILQ_LAST head s = tailq_lire s (tailq_second s (tqh_last s head))"

definition TAILQ_PREV :: "elt \<Rightarrow> tailq_tas \<Rightarrow> elt option" where
  "TAILQ_PREV elm s = tailq_lire s (tailq_second s (tqe_prev s elm))"

definition TAILQ_FOREACH_REVERSE :: "(elt \<Rightarrow> 'a \<Rightarrow> 'a) \<Rightarrow> tete \<Rightarrow> tailq_tas \<Rightarrow> 'a \<Rightarrow> 'a option" where
  "TAILQ_FOREACH_REVERSE corps head s =
     parcours (\<lambda>var. tailq_lire s (tailq_second s (tqe_prev s var))) corps (tailq_lire s (tailq_second s (tqh_last s head)))"

definition TAILQ_EMPTY :: "tete \<Rightarrow> tailq_tas \<Rightarrow> bool" where
  "TAILQ_EMPTY head s \<longleftrightarrow> tqh_first s head = None"

definition TAILQ_CONCAT :: "tete \<Rightarrow> tete \<Rightarrow> tailq_tas \<Rightarrow> tailq_tas option" where
  "TAILQ_CONCAT head1 head2 s =
     (if \<not> TAILQ_EMPTY head2 s then do {
        let s = tailq_ecrire (tqh_last s head1) (tqh_first s head2) s;
        n \<leftarrow> tqh_first s head2;
        let s = s\<lparr>tqe_prev := (tqe_prev s)(n := tqh_last s head1)\<rparr>;
        let s = s\<lparr>tqh_last := (tqh_last s)(head1 := tqh_last s head2)\<rparr>;
        Some (TAILQ_INIT head2 s)
      }
      else Some s)"

definition TAILQ_FIRST :: "tete \<Rightarrow> tailq_tas \<Rightarrow> elt option" where
  "TAILQ_FIRST head s = tqh_first s head"

definition TAILQ_NEXT :: "elt \<Rightarrow> tailq_tas \<Rightarrow> elt option" where
  "TAILQ_NEXT elm s = tqe_next s elm"

fun tailq_executer :: "operation \<Rightarrow> tailq_tas \<Rightarrow> tailq_tas option" where
  "tailq_executer (Vider h) s = Some (TAILQ_INIT h s)"
| "tailq_executer (En_tete h x) s = TAILQ_INSERT_HEAD h x s"
| "tailq_executer (En_queue h x) s = Some (TAILQ_INSERT_TAIL h x s)"
| "tailq_executer (Apres h y x) s = Some (TAILQ_INSERT_AFTER h y x s)"
| "tailq_executer (Avant h y x) s = Some (TAILQ_INSERT_BEFORE y x s)"
| "tailq_executer (Retirer h x) s = Some (TAILQ_REMOVE h x s)"
| "tailq_executer (Concatener h h') s = TAILQ_CONCAT h h' s"
| "tailq_executer _ s = None"

fun tailq_offerte :: "operation \<Rightarrow> bool" where
  "tailq_offerte (Retirer_tete h) \<longleftrightarrow> False"
| "tailq_offerte _ \<longleftrightarrow> True"

end
