(* ===== verification/Queues.thy ===== *)
theory Queues
  imports Files
begin

text \<open>
  The structures of \<open>sys/queue.h\<close> represent lists: each of their operations, on any number of lists in one
  memory, simulates the operation on lists of \<^theory_text>\<open>Chaines\<close>.
\<close>

section \<open>The other changes of the heads\<close>

lemma avant_vider: "avant mem L \<Longrightarrow> separees L \<Longrightarrow> avant (mem(Tete h := None)) (L(h := []))"
  by (auto simp: avant_def)

lemma arriere_vider: "arriere prec L \<Longrightarrow> arriere prec (L(h := []))"
  by (auto simp: arriere_def)

lemma fins_vider: "fins fin L \<Longrightarrow> fins (fin(h := Tete h)) (L(h := []))"
  by (auto simp: fins_def)

lemma case_lien_modifie [simp]:
  "case_lien (f(h := v)) g = (case_lien f g)(Tete h := v)" "case_lien f (g(e := v)) = (case_lien f g)(Suiv e := v)"
  by (rule ext, rename_tac k, case_tac k, auto)+

text \<open>Appending the list of the head \<open>g\<close> to that of the head \<open>h\<close>.\<close>

lemma avant_concatener:
  assumes "avant mem L" and "separees L" and "g \<noteq> h"
  shows "avant (mem(dernier_lien (Tete h) (L h) := mem (Tete g), Tete g := None)) (L(h := L h @ L g, g := []))"
proof -
  define k where "k = dernier_lien (Tete h) (L h)"
  have k: "k \<noteq> Tete g" "k \<notin> Suiv ` set (L g)"
    using lien_ailleurs [OF assms(2), of h "L h" "[]" g] assms(3) by (simp_all add: k_def)
  have "chaine (mem(k := mem (Tete g), Tete g := None)) (Tete f) ((L(h := L h @ L g, g := [])) f)" for f
  proof -
    consider "f = g" | "f = h" | "f \<noteq> g" "f \<noteq> h" by blast
    then show ?thesis
    proof cases
      case 2
      have "chaine mem (Tete g) (L g)" using assms(1) by (simp add: avant_def)
      then have "chaine (mem(k := mem (Tete g), Tete g := None)) k (L g)"
        using k by (cases "L g") auto
      moreover have "troncon (mem(k := mem (Tete g), Tete g := None)) (Tete h) (L h)"
        using assms(1,3) separeesD(1) [OF assms(2), of h] by (auto simp: avant_def chaine_def k_def)
      ultimately show ?thesis using 2 assms(3) by (simp add: k_def)
    next
      case 3
      then have "k \<noteq> Tete f" "k \<notin> Suiv ` set (L f)"
        using lien_ailleurs [OF assms(2), of h "L h" "[]" f] by (simp_all add: k_def)
      with 3 assms(1) show ?thesis by (auto simp: avant_def)
    qed simp
  qed
  then show ?thesis by (simp add: avant_def k_def)
qed

lemma arriere_concatener:
  assumes "arriere prec L" and "separees L" and "g \<noteq> h" and "L g \<noteq> []"
  shows "arriere (prec(hd (L g) := dernier_lien (Tete h) (L h))) (L(h := L h @ L g, g := []))"
proof -
  obtain y ys where y: "L g = y # ys" using assms(4) by (cases "L g") auto
  have y_: "y \<notin> set (L f)" if "f \<noteq> g" for f using separeesD(2) [OF assms(2), of f g] that y by auto
  have "y \<notin> set ys" using separeesD(1) [OF assms(2), of g] y by simp
  moreover have "retour prec (Tete g) (y # ys)" using assms(1) y unfolding arriere_def by metis
  ultimately show ?thesis using assms(1,3) y y_ by (auto simp: arriere_def)
qed

lemma fins_concatener:
  "\<lbrakk>fins fin L; g \<noteq> h; L g \<noteq> []\<rbrakk> \<Longrightarrow> fins (fin(h := fin g, g := Tete g)) (L(h := L h @ L g, g := []))"
  by (auto simp: fins_def dernier_lien_def)

section \<open>Lists\<close>

definition list_represente :: "list_tas \<Rightarrow> (tete \<Rightarrow> elt list) \<Rightarrow> bool" where
  "list_represente s L \<longleftrightarrow> separees L \<and> avant (list_lire s) L \<and> arriere (le_prev s) L"

lemma list_lire_eq: "list_lire s = case_lien (lh_first s) (le_next s)"
  by (rule ext) (simp add: list_lire_def)

lemma list_ecrire_champs [simp]:
  "case_lien (lh_first (list_ecrire l v s)) (le_next (list_ecrire l v s)) = (case_lien (lh_first s) (le_next s))(l := v)" "le_prev (list_ecrire l v s) = le_prev s"
  by (cases l; simp)+

lemma list_insertion:
  assumes "list_represente s L" and "libre x L" and "L h = a @ b"
    and "list_lire s' = (list_lire s)(Suiv x := list_lire s (dernier_lien (Tete h) a), dernier_lien (Tete h) a := Some x)"
    and "le_prev s' = (if b = [] then le_prev s else (le_prev s)(hd b := Suiv x))(x := dernier_lien (Tete h) a)"
  shows "list_represente s' (L(h := a @ x # b))"
  using assms separees_inserer [of L x h a b] avant_inserer [of "list_lire s" L x h a b, OF _ _ _ _ refl]
    arriere_inserer [of "le_prev s" L x h a b, OF _ _ _ _ refl]
  by (simp add: list_represente_def)

lemma list_retrait:
  assumes "list_represente s L" and "L h = a @ x # b"
    and "list_lire s' = (list_lire s)(dernier_lien (Tete h) a := list_lire s (Suiv x))"
    and "le_prev s' = (if b = [] then le_prev s else (le_prev s)(hd b := dernier_lien (Tete h) a))"
  shows "list_represente s' (L(h := a @ b))"
  using assms separees_retirer [of L h a x b] avant_retirer [of "list_lire s" L h a x b, OF _ _ _ refl]
    arriere_retirer [of "le_prev s" L h a x b, OF _ _ _ refl]
  by (simp add: list_represente_def)

text \<open>What the fields around a place hold.\<close>

lemma list_place:
  assumes "list_represente s L" and "L h = a @ y # b"
  shows "le_next s y = (if b = [] then None else Some (hd b))" "le_prev s y = dernier_lien (Tete h) a"
    "list_lire s (dernier_lien (Tete h) a) = Some y"
  using assms avant_suivant [of "list_lire s" L h a y b] arriere_lien [of "le_prev s" L h a y b]
    avant_lien [of "list_lire s" L h a "y # b"]
  by (auto simp: list_represente_def list_lire_def)

lemma list_insert_head:
  assumes "list_represente s L" and "libre x L"
  shows "\<exists>s'. LIST_INSERT_HEAD h x s = Some s' \<and> list_represente s' (L(h := x # L h))"
proof -
  have n: "lh_first s h = (if L h = [] then None else Some (hd (L h)))"
    using avant_lien [of "list_lire s" L h "[]" "L h"] assms(1) by (simp add: list_represente_def list_lire_def)
  define s' where "s' = (let s = s\<lparr>le_next := (le_next s)(x := lh_first s h)\<rparr>;
      s = (if L h = [] then s else s\<lparr>le_prev := (le_prev s)(hd (L h) := Suiv x)\<rparr>);
      s = s\<lparr>lh_first := (lh_first s)(h := Some x)\<rparr> in s\<lparr>le_prev := (le_prev s)(x := Tete h)\<rparr>)"
  have "LIST_INSERT_HEAD h x s = Some s'" using n by (simp add: LIST_INSERT_HEAD_def s'_def Let_def)
  moreover have "list_represente s' (L(h := [] @ x # L h))"
    by (rule list_insertion [OF assms]) (auto simp: s'_def Let_def list_lire_eq)
  ultimately show ?thesis by simp
qed

lemma list_insert_after:
  assumes "list_represente s L" and "libre x L" and y: "L h = a @ y # b"
  shows "\<exists>s'. LIST_INSERT_AFTER y x s = Some s' \<and> list_represente s' (L(h := a @ y # x # b))"
proof -
  have "x \<noteq> y" using assms(2) y by (auto simp: libre_def dest: spec [of _ h])
  note n = list_place(1) [OF assms(1) y]
  define s' where "s' = (let s = s\<lparr>le_next := (le_next s)(x := le_next s y)\<rparr>;
      s = (if b = [] then s else s\<lparr>le_prev := (le_prev s)(hd b := Suiv x)\<rparr>);
      s = s\<lparr>le_next := (le_next s)(y := Some x)\<rparr> in s\<lparr>le_prev := (le_prev s)(x := Suiv y)\<rparr>)"
  have "LIST_INSERT_AFTER y x s = Some s'"
    using n \<open>x \<noteq> y\<close> by (simp add: LIST_INSERT_AFTER_def s'_def Let_def)
  moreover have "list_represente s' (L(h := (a @ [y]) @ x # b))"
    by (rule list_insertion [OF assms(1,2)]) (auto simp: s'_def Let_def list_lire_eq y)
  ultimately show ?thesis by simp
qed

lemma list_insert_before:
  assumes "list_represente s L" and "libre x L" and y: "L h = a @ y # b"
  shows "list_represente (LIST_INSERT_BEFORE y x s) (L(h := a @ x # y # b))"
proof -
  have "x \<noteq> y" using assms(2) y by (auto simp: libre_def dest: spec [of _ h])
  note n = list_place(2,3) [OF assms(1) y]
  show ?thesis
    by (rule list_insertion [OF assms(1,2), of h a "y # b"])
      (use n \<open>x \<noteq> y\<close> y in \<open>auto simp: LIST_INSERT_BEFORE_def Let_def list_lire_eq fun_upd_twist\<close>)
qed

lemma list_remove:
  assumes "list_represente s L" and x: "L h = a @ x # b"
  shows "list_represente (LIST_REMOVE x s) (L(h := a @ b))"
proof -
  have "hd b \<noteq> x" if "b \<noteq> []"
    using separeesD(1) [of L h] assms that by (cases b) (auto simp: list_represente_def)
  with list_place [OF assms(1) x] show ?thesis
    by (intro list_retrait [OF assms(1) x]) (auto simp: LIST_REMOVE_def Let_def list_lire_eq)
qed

lemma list_simule:
  assumes "list_represente s L" and "list_offerte op" and "permise op L"
  shows "\<exists>s'. list_executer op s = Some s' \<and> list_represente s' (abstraire op L)"
proof -
  have R: "separees L" "avant (list_lire s) L" "arriere (le_prev s) L"
    using assms(1) by (simp_all add: list_represente_def)
  note [simp] = inserer_apres_milieu inserer_avant_milieu remove1_append
  show ?thesis
  proof (cases op)
    case (Vider h)
    with R show ?thesis
      by (auto simp: list_represente_def LIST_INIT_def list_lire_eq intro: separees_vider avant_vider arriere_vider)
  next
    case (En_tete h x)
    with assms(1,3) list_insert_head show ?thesis by simp
  next
    case (Apres h y x)
    with assms(3) obtain a b where ab: "L h = a @ y # b" "y \<notin> set a" by (auto elim: place [OF R(1)])
    with Apres assms(1,3) list_insert_after [of s L x h a y b] show ?thesis by simp
  next
    case (Avant h y x)
    with assms(3) obtain a b where ab: "L h = a @ y # b" "y \<notin> set a" by (auto elim: place [OF R(1)])
    with Avant assms(1,3) list_insert_before [of s L x h a y b] show ?thesis by simp
  next
    case (Retirer h x)
    with assms(3) obtain a b where ab: "L h = a @ x # b" "x \<notin> set a" by (auto elim: place [OF R(1)])
    with Retirer assms(1) list_remove [of s L h a x b] show ?thesis by simp
  qed (use assms(2) in auto)
qed

interpretation liste: file_chainee list_executer list_represente list_offerte
  by unfold_locales (rule list_simule)

section \<open>Singly linked lists\<close>

lemma chercher_precedent_trouve:
  assumes "chaine mem l (a @ p # x # b)" and "distinct (a @ p # x # b)" and "\<And>e. suivant e = mem (Suiv e)"
  shows "chercher_precedent suivant x (mem l) = Some p"
  using assms(1,2)
proof (induction a arbitrary: l)
  case Nil
  then show ?case by (auto simp: chercher_precedent_def assms(3) intro!: boucle_fin)
next
  case (Cons e a)
  have "mem (Suiv e) \<noteq> Some x" using Cons.prems by (cases a) auto
  moreover have "mem l = Some e" using Cons.prems by simp
  ultimately have "chercher_precedent suivant x (mem l) = chercher_precedent suivant x (mem (Suiv e))"
    by (simp add: chercher_precedent_def assms(3) boucle_suite)
  with Cons show ?case by simp
qed

lemma chercher_precedent_place:
  assumes "separees L" and "avant (case_lien premier suivant) L" and "L h = a @ p # x # b"
  shows "chercher_precedent suivant x (premier h) = Some p"
proof -
  have "chaine (case_lien premier suivant) (Tete h) (a @ p # x # b)" using assms(2,3) unfolding avant_def by metis
  moreover have "distinct (a @ p # x # b)" using separeesD(1) [OF assms(1), of h] assms(3) by simp
  ultimately have "chercher_precedent suivant x (case_lien premier suivant (Tete h)) = Some p"
    by (rule chercher_precedent_trouve) simp
  then show ?thesis by simp
qed

text \<open>The places of a singly linked list: the head of the list, or after one of its elements.\<close>

lemma place_retrait:
  assumes "separees L" and "x \<in> set (L h)"
  obtains b where "L h = x # b" | a p b where "L h = (a @ [p]) @ x # b" and "p \<noteq> x" and "x \<notin> set a"
proof -
  obtain a b where "L h = a @ x # b" "x \<notin> set a" using assms by (rule place)
  then show ?thesis using that by (cases a rule: rev_cases) auto
qed

definition slist_represente :: "slist_tas \<Rightarrow> (tete \<Rightarrow> elt list) \<Rightarrow> bool" where
  "slist_represente s L \<longleftrightarrow> separees L \<and> avant (case_lien (slh_first s) (sle_next s)) L"

lemma slist_insertion:
  assumes "slist_represente s L" and "libre x L" and "L h = a @ b"
    and "case_lien (slh_first s') (sle_next s') = (case_lien (slh_first s) (sle_next s))
      (Suiv x := case_lien (slh_first s) (sle_next s) (dernier_lien (Tete h) a), dernier_lien (Tete h) a := Some x)"
  shows "slist_represente s' (L(h := a @ x # b))"
  using assms separees_inserer [of L x h a b] avant_inserer [of _ L x h a b, OF _ _ _ _ refl]
  by (simp add: slist_represente_def)

lemma slist_retrait:
  assumes "slist_represente s L" and "L h = a @ x # b"
    and "case_lien (slh_first s') (sle_next s') =
      (case_lien (slh_first s) (sle_next s))(dernier_lien (Tete h) a := case_lien (slh_first s) (sle_next s) (Suiv x))"
  shows "slist_represente s' (L(h := a @ b))"
  using assms separees_retirer [of L h a x b] avant_retirer [of "case_lien (slh_first s) (sle_next s)" L h a x b, OF _ _ _ refl]
  by (simp add: slist_represente_def)

lemma slist_place:
  assumes "slist_represente s L" and "L h = a @ y # b"
  shows "case_lien (slh_first s) (sle_next s) (dernier_lien (Tete h) a) = Some y"
  using assms avant_lien [of _ L h a "y # b"] by (auto simp: slist_represente_def)

lemma slist_remove:
  assumes "slist_represente s L" and "x \<in> set (L h)"
  shows "\<exists>s'. SLIST_REMOVE h x s = Some s' \<and> slist_represente s' (L(h := remove1 x (L h)))"
proof -
  have R: "separees L" "avant (case_lien (slh_first s) (sle_next s)) L" using assms(1) by (simp_all add: slist_represente_def)
  from R(1) assms(2) show ?thesis
  proof (cases rule: place_retrait)
    case (1 b)
    with slist_place [OF assms(1), of h "[]" x b] have "slh_first s h = Some x" by simp
    moreover have "slist_represente (s\<lparr>slh_first := (slh_first s)(h := sle_next s x)\<rparr>) (L(h := [] @ b))"
      by (rule slist_retrait [OF assms(1)]) (use 1 in auto)
    ultimately show ?thesis using 1 by (simp add: SLIST_REMOVE_def SLIST_REMOVE_HEAD_def)
  next
    case (2 a p b)
    have "slh_first s h \<noteq> Some x"
      using avant_lien [OF R(2), of h "[]" "L h"] 2 separeesD(1) [OF R(1), of h] by (cases a) auto
    moreover have "chercher_precedent (sle_next s) x (slh_first s h) = Some p"
      using chercher_precedent_place [OF R _ , of h a p x b] 2(1) by simp
    moreover have "sle_next s p = Some x" using slist_place [OF assms(1) 2(1)] by simp
    moreover have "slist_represente (s\<lparr>sle_next := (sle_next s)(p := sle_next s x)\<rparr>) (L(h := (a @ [p]) @ b))"
      by (rule slist_retrait [OF assms(1) 2(1)]) simp
    ultimately show ?thesis using 2 by (simp add: SLIST_REMOVE_def remove1_append)
  qed
qed

lemma slist_simule:
  assumes "slist_represente s L" and "slist_offerte op" and "permise op L"
  shows "\<exists>s'. slist_executer op s = Some s' \<and> slist_represente s' (abstraire op L)"
proof -
  have R: "separees L" "avant (case_lien (slh_first s) (sle_next s)) L" using assms(1) by (simp_all add: slist_represente_def)
  show ?thesis
  proof (cases op)
    case (Vider h)
    with R show ?thesis by (auto simp: slist_represente_def SLIST_INIT_def intro: separees_vider avant_vider)
  next
    case (En_tete h x)
    have "slist_represente (SLIST_INSERT_HEAD h x s) (L(h := [] @ x # L h))"
      by (rule slist_insertion [OF assms(1)]) (use assms(3) En_tete in \<open>auto simp: SLIST_INSERT_HEAD_def Let_def\<close>)
    with En_tete show ?thesis by simp
  next
    case (Apres h y x)
    with assms(3) obtain a b where ab: "L h = a @ y # b" "y \<notin> set a" by (auto elim: place [OF R(1)])
    have "x \<noteq> y" using assms(3) Apres by (auto simp: libre_def)
    have "slist_represente (SLIST_INSERT_AFTER y x s) (L(h := (a @ [y]) @ x # b))"
      by (rule slist_insertion [OF assms(1)])
        (use assms(3) Apres ab \<open>x \<noteq> y\<close> in \<open>auto simp: SLIST_INSERT_AFTER_def Let_def\<close>)
    with Apres ab show ?thesis by (simp add: inserer_apres_milieu)
  next
    case (Retirer_tete h)
    then obtain x b where xb: "L h = x # b" using assms(3) by (cases "L h") auto
    then have "SLIST_REMOVE_HEAD h s = SLIST_REMOVE h x s"
      using slist_place [OF assms(1), of h "[]" x b] by (simp add: SLIST_REMOVE_def)
    with slist_remove [OF assms(1), of x h] xb Retirer_tete show ?thesis by simp
  next
    case (Retirer h x)
    with slist_remove [OF assms(1)] assms(3) show ?thesis by simp
  qed (use assms(2) in auto)
qed

interpretation sliste: file_chainee slist_executer slist_represente slist_offerte
  by unfold_locales (rule slist_simule)

section \<open>Singly linked tail queues\<close>

definition stailq_represente :: "stailq_tas \<Rightarrow> (tete \<Rightarrow> elt list) \<Rightarrow> bool" where
  "stailq_represente s L \<longleftrightarrow>
     separees L \<and> avant (case_lien (stqh_first s) (stqe_next s)) L \<and> fins (stqh_last s) L"

lemma stailq_ecrire_champs [simp]:
  "case_lien (stqh_first (stailq_ecrire l v s)) (stqe_next (stailq_ecrire l v s)) = (case_lien (stqh_first s) (stqe_next s))(l := v)"
  "stqh_last (stailq_ecrire l v s) = stqh_last s"
  by (cases l; simp)+

lemma stailq_insertion:
  assumes "stailq_represente s L" and "libre x L" and "L h = a @ b"
    and "case_lien (stqh_first s') (stqe_next s') = (case_lien (stqh_first s) (stqe_next s))
      (Suiv x := if b = [] then None else Some (hd b), dernier_lien (Tete h) a := Some x)"
    and "stqh_last s' = (if b = [] then (stqh_last s)(h := Suiv x) else stqh_last s)"
  shows "stailq_represente s' (L(h := a @ x # b))"
  using assms separees_inserer [of L x h a b] avant_inserer [of "case_lien (stqh_first s) (stqe_next s)" L x h a b, OF _ _ _ _ refl]
    fins_inserer [of "stqh_last s" L h a b x] avant_lien [of "case_lien (stqh_first s) (stqe_next s)" L h a b]
  by (simp add: stailq_represente_def)

lemma stailq_retrait:
  assumes "stailq_represente s L" and "L h = a @ x # b"
    and "case_lien (stqh_first s') (stqe_next s') =
      (case_lien (stqh_first s) (stqe_next s))(dernier_lien (Tete h) a := case_lien (stqh_first s) (stqe_next s) (Suiv x))"
    and "stqh_last s' = (if b = [] then (stqh_last s)(h := dernier_lien (Tete h) a) else stqh_last s)"
  shows "stailq_represente s' (L(h := a @ b))"
  using assms separees_retirer [of L h a x b] fins_retirer [of "stqh_last s" L h a x b]
    avant_retirer [of "case_lien (stqh_first s) (stqe_next s)" L h a x b, OF _ _ _ refl]
  by (simp add: stailq_represente_def)

lemma stailq_place:
  assumes "stailq_represente s L" and "L h = a @ b"
  shows "case_lien (stqh_first s) (stqe_next s) (dernier_lien (Tete h) a) = (if b = [] then None else Some (hd b))"
  using assms avant_lien [of _ L h a b] by (auto simp: stailq_represente_def)

lemma stailq_remove:
  assumes "stailq_represente s L" and "x \<in> set (L h)"
  shows "\<exists>s'. STAILQ_REMOVE h x s = Some s' \<and> stailq_represente s' (L(h := remove1 x (L h)))"
proof -
  have R: "separees L" "avant (case_lien (stqh_first s) (stqe_next s)) L"
    using assms(1) by (simp_all add: stailq_represente_def)
  from R(1) assms(2) show ?thesis
  proof (cases rule: place_retrait)
    case (1 b)
    with stailq_place [OF assms(1), of h "[]" "x # b"] stailq_place [OF assms(1), of h "[x]" b]
    have p: "stqh_first s h = Some x" "stqe_next s x = (if b = [] then None else Some (hd b))" by simp_all
    define s' where "s' = (let s = s\<lparr>stqh_first := (stqh_first s)(h := stqe_next s x)\<rparr>
      in if b = [] then s\<lparr>stqh_last := (stqh_last s)(h := Tete h)\<rparr> else s)"
    have "STAILQ_REMOVE h x s = Some s'" using p by (simp add: STAILQ_REMOVE_def STAILQ_REMOVE_HEAD_def s'_def)
    moreover have "stailq_represente s' (L(h := [] @ b))"
      by (rule stailq_retrait [OF assms(1)]) (use 1 in \<open>auto simp: s'_def Let_def\<close>)
    ultimately show ?thesis using 1 by simp
  next
    case (2 a p b)
    define s' where "s' = (let s = s\<lparr>stqe_next := (stqe_next s)(p := stqe_next s x)\<rparr>
      in if b = [] then s\<lparr>stqh_last := (stqh_last s)(h := Suiv p)\<rparr> else s)"
    have "stqh_first s h \<noteq> Some x"
      using avant_lien [OF R(2), of h "[]" "L h"] 2 separeesD(1) [OF R(1), of h] by (cases a) auto
    moreover have "chercher_precedent (stqe_next s) x (stqh_first s h) = Some p"
      using chercher_precedent_place [OF R _ , of h a p x b] 2(1) by simp
    moreover have "stqe_next s p = Some x" "stqe_next s x = (if b = [] then None else Some (hd b))"
      using stailq_place [OF assms(1), of h "a @ [p]" "x # b"] stailq_place [OF assms(1), of h "a @ [p, x]" b] 2(1) by simp_all
    ultimately have "STAILQ_REMOVE h x s = Some s'" by (simp add: STAILQ_REMOVE_def s'_def Let_def)
    moreover have "stailq_represente s' (L(h := (a @ [p]) @ b))"
      by (rule stailq_retrait [OF assms(1) 2(1)]) (auto simp: s'_def Let_def)
    ultimately show ?thesis using 2 by (simp add: remove1_append)
  qed
qed

lemma stailq_concat:
  assumes "stailq_represente s L" and "h \<noteq> g"
  shows "stailq_represente (STAILQ_CONCAT h g s) (L(h := L h @ L g, g := []))"
proof -
  have R: "separees L" "avant (case_lien (stqh_first s) (stqe_next s)) L" "fins (stqh_last s) L"
    using assms(1) by (simp_all add: stailq_represente_def)
  have f: "stqh_first s g = (if L g = [] then None else Some (hd (L g)))" "stqh_last s h = dernier_lien (Tete h) (L h)"
    using stailq_place [OF assms(1), of g "[]" "L g"] R(3) by (simp_all add: fins_def)
  show ?thesis
  proof (cases "L g = []")
    case True
    then have "L(h := L h @ L g, g := []) = L" by (rule_tac ext) simp
    with True f assms(1) show ?thesis by (simp add: STAILQ_CONCAT_def STAILQ_EMPTY_def)
  next
    case False
    with f have "STAILQ_CONCAT h g s = (let s = stailq_ecrire (dernier_lien (Tete h) (L h)) (stqh_first s g) s;
        s = s\<lparr>stqh_last := (stqh_last s)(h := stqh_last s g)\<rparr> in STAILQ_INIT g s)"
      by (simp add: STAILQ_CONCAT_def STAILQ_EMPTY_def)
    with avant_concatener [OF R(2,1), of g h] fins_concatener [OF R(3), of g h] separees_concatener [OF R(1) assms(2)] False assms(2)
    show ?thesis by (simp add: stailq_represente_def STAILQ_INIT_def Let_def)
  qed
qed

lemma stailq_simule:
  assumes "stailq_represente s L" and "stailq_offerte op" and "permise op L"
  shows "\<exists>s'. stailq_executer op s = Some s' \<and> stailq_represente s' (abstraire op L)"
proof -
  have R: "separees L" "avant (case_lien (stqh_first s) (stqe_next s)) L" "fins (stqh_last s) L"
    using assms(1) by (simp_all add: stailq_represente_def)
  show ?thesis
  proof (cases op)
    case (Vider h)
    with R show ?thesis
      by (auto simp: stailq_represente_def STAILQ_INIT_def Let_def intro: separees_vider avant_vider fins_vider)
  next
    case (En_tete h x)
    have "stailq_represente (STAILQ_INSERT_HEAD h x s) (L(h := [] @ x # L h))"
      by (rule stailq_insertion [OF assms(1)])
        (use assms(3) En_tete stailq_place [OF assms(1), of h "[]" "L h"] in \<open>auto simp: STAILQ_INSERT_HEAD_def Let_def\<close>)
    with En_tete show ?thesis by simp
  next
    case (En_queue h x)
    have "stqh_last s h = dernier_lien (Tete h) (L h)" using R(3) by (simp add: fins_def)
    then have "stailq_represente (STAILQ_INSERT_TAIL h x s) (L(h := L h @ x # []))"
      by (intro stailq_insertion [OF assms(1)]) (use assms(3) En_queue in \<open>auto simp: STAILQ_INSERT_TAIL_def Let_def\<close>)
    with En_queue show ?thesis by simp
  next
    case (Apres h y x)
    with assms(3) obtain a b where ab: "L h = a @ y # b" "y \<notin> set a" by (auto elim: place [OF R(1)])
    have "x \<noteq> y" using assms(3) Apres by (auto simp: libre_def)
    have "stailq_represente (STAILQ_INSERT_AFTER h y x s) (L(h := (a @ [y]) @ x # b))"
      by (rule stailq_insertion [OF assms(1)])
        (use assms(3) Apres ab \<open>x \<noteq> y\<close> stailq_place [OF assms(1), of h "a @ [y]" b] in \<open>auto simp: STAILQ_INSERT_AFTER_def Let_def\<close>)
    with Apres ab show ?thesis by (simp add: inserer_apres_milieu)
  next
    case (Retirer_tete h)
    then obtain x b where xb: "L h = x # b" using assms(3) by (cases "L h") auto
    then have "STAILQ_REMOVE_HEAD h s = STAILQ_REMOVE h x s"
      using stailq_place [OF assms(1), of h "[]" "x # b"] by (simp add: STAILQ_REMOVE_def)
    with stailq_remove [OF assms(1), of x h] xb Retirer_tete show ?thesis by simp
  next
    case (Retirer h x)
    with stailq_remove [OF assms(1)] assms(3) show ?thesis by simp
  next
    case (Concatener h g)
    with stailq_concat [OF assms(1)] assms(3) show ?thesis by simp
  qed (use assms(2) in auto)
qed

interpretation stailq: file_chainee stailq_executer stailq_represente stailq_offerte
  by unfold_locales (rule stailq_simule)

section \<open>Simple queues\<close>

text \<open>
  A simple queue is a singly linked tail queue under other names, without the concatenation: each macro does the same to
  the corresponding fields.
\<close>

definition stailq_de_simpleq :: "simpleq_tas \<Rightarrow> stailq_tas" where
  "stailq_de_simpleq s = \<lparr>stqh_first = sqh_first s, stqh_last = sqh_last s, stqe_next = sqe_next s\<rparr>"

lemma stailq_de_simpleq_champs [simp]:
  "stqh_first (stailq_de_simpleq s) = sqh_first s" "stqh_last (stailq_de_simpleq s) = sqh_last s"
  "stqe_next (stailq_de_simpleq s) = sqe_next s"
  "stailq_de_simpleq (s\<lparr>sqh_first := f\<rparr>) = (stailq_de_simpleq s)\<lparr>stqh_first := f\<rparr>"
  "stailq_de_simpleq (s\<lparr>sqh_last := l\<rparr>) = (stailq_de_simpleq s)\<lparr>stqh_last := l\<rparr>"
  "stailq_de_simpleq (s\<lparr>sqe_next := n\<rparr>) = (stailq_de_simpleq s)\<lparr>stqe_next := n\<rparr>"
  by (simp_all add: stailq_de_simpleq_def)

lemma simpleq_ecrire_last [simp]: "sqh_last (simpleq_ecrire l v s) = sqh_last s"
  by (cases l) simp_all

lemma stailq_de_simpleq_ecrire [simp]:
  "stailq_de_simpleq (simpleq_ecrire l v s) = stailq_ecrire l v (stailq_de_simpleq s)"
  by (cases l) simp_all

lemma simpleq_stailq:
  assumes "simpleq_offerte op"
  shows "stailq_executer op (stailq_de_simpleq s) = map_option stailq_de_simpleq (simpleq_executer op s)"
proof -
  have r: "STAILQ_REMOVE_HEAD h (stailq_de_simpleq s) = map_option stailq_de_simpleq (SIMPLEQ_REMOVE_HEAD h s)" for h
    by (cases "sqh_first s h") (simp_all add: STAILQ_REMOVE_HEAD_def SIMPLEQ_REMOVE_HEAD_def Let_def)
  have "STAILQ_REMOVE h x (stailq_de_simpleq s) = map_option stailq_de_simpleq (SIMPLEQ_REMOVE h x s)" for h x
  proof (cases "chercher_precedent (sqe_next s) x (sqh_first s h)")
    case None
    then show ?thesis by (simp add: STAILQ_REMOVE_def SIMPLEQ_REMOVE_def r)
  next
    case (Some c)
    then show ?thesis by (cases "sqe_next s c") (simp_all add: STAILQ_REMOVE_def SIMPLEQ_REMOVE_def r Let_def)
  qed
  with r assms show ?thesis
    by (cases op) (simp_all add: STAILQ_INIT_def SIMPLEQ_INIT_def STAILQ_INSERT_HEAD_def SIMPLEQ_INSERT_HEAD_def
        STAILQ_INSERT_TAIL_def SIMPLEQ_INSERT_TAIL_def STAILQ_INSERT_AFTER_def SIMPLEQ_INSERT_AFTER_def Let_def)
qed

definition simpleq_represente :: "simpleq_tas \<Rightarrow> (tete \<Rightarrow> elt list) \<Rightarrow> bool" where
  "simpleq_represente s = stailq_represente (stailq_de_simpleq s)"

lemma simpleq_simule:
  assumes "simpleq_represente s L" and "simpleq_offerte op" and "permise op L"
  shows "\<exists>s'. simpleq_executer op s = Some s' \<and> simpleq_represente s' (abstraire op L)"
proof -
  have "stailq_offerte op" using assms(2) by (cases op) auto
  with stailq_simule [of "stailq_de_simpleq s" L op] assms(1,3) obtain t where
    "stailq_executer op (stailq_de_simpleq s) = Some t" "stailq_represente t (abstraire op L)"
    by (auto simp: simpleq_represente_def)
  with simpleq_stailq [OF assms(2), of s] show ?thesis
    by (cases "simpleq_executer op s") (auto simp: simpleq_represente_def)
qed

interpretation simpleq: file_chainee simpleq_executer simpleq_represente simpleq_offerte
  by unfold_locales (rule simpleq_simule)

section \<open>Tail queues\<close>

definition tailq_represente :: "tailq_tas \<Rightarrow> (tete \<Rightarrow> elt list) \<Rightarrow> bool" where
  "tailq_represente s L \<longleftrightarrow>
     separees L \<and> avant (case_lien (tqh_first s) (tqe_next s)) L \<and> arriere (tqe_prev s) L \<and> fins (tqh_last s) L"

lemma tailq_ecrire_champs [simp]:
  "case_lien (tqh_first (tailq_ecrire l v s)) (tqe_next (tailq_ecrire l v s)) = (case_lien (tqh_first s) (tqe_next s))(l := v)"
  "tqh_last (tailq_ecrire l v s) = tqh_last s" "tqe_prev (tailq_ecrire l v s) = tqe_prev s"
  by (cases l; simp)+

lemma tailq_insertion:
  assumes "tailq_represente s L" and "libre x L" and "L h = a @ b"
    and "case_lien (tqh_first s') (tqe_next s') = (case_lien (tqh_first s) (tqe_next s))
      (Suiv x := if b = [] then None else Some (hd b), dernier_lien (Tete h) a := Some x)"
    and "tqe_prev s' = (if b = [] then tqe_prev s else (tqe_prev s)(hd b := Suiv x))(x := dernier_lien (Tete h) a)"
    and "tqh_last s' = (if b = [] then (tqh_last s)(h := Suiv x) else tqh_last s)"
  shows "tailq_represente s' (L(h := a @ x # b))"
  using assms separees_inserer [of L x h a b] avant_inserer [of "case_lien (tqh_first s) (tqe_next s)" L x h a b, OF _ _ _ _ refl]
    arriere_inserer [of "tqe_prev s" L x h a b, OF _ _ _ _ refl]
    fins_inserer [of "tqh_last s" L h a b x] avant_lien [of "case_lien (tqh_first s) (tqe_next s)" L h a b]
  by (simp add: tailq_represente_def)

lemma tailq_retrait:
  assumes "tailq_represente s L" and "L h = a @ x # b"
    and "case_lien (tqh_first s') (tqe_next s') =
      (case_lien (tqh_first s) (tqe_next s))(dernier_lien (Tete h) a := case_lien (tqh_first s) (tqe_next s) (Suiv x))"
    and "tqe_prev s' = (if b = [] then tqe_prev s else (tqe_prev s)(hd b := dernier_lien (Tete h) a))"
    and "tqh_last s' = (if b = [] then (tqh_last s)(h := dernier_lien (Tete h) a) else tqh_last s)"
  shows "tailq_represente s' (L(h := a @ b))"
  using assms separees_retirer [of L h a x b] fins_retirer [of "tqh_last s" L h a x b]
    arriere_retirer [of "tqe_prev s" L h a x b, OF _ _ _ refl]
    avant_retirer [of "case_lien (tqh_first s) (tqe_next s)" L h a x b, OF _ _ _ refl]
  by (simp add: tailq_represente_def)

lemma tailq_lien:
  assumes "tailq_represente s L" and "L h = a @ b"
  shows "case_lien (tqh_first s) (tqe_next s) (dernier_lien (Tete h) a) = (if b = [] then None else Some (hd b))"
  using assms avant_lien [of _ L h a b] by (auto simp: tailq_represente_def)

lemma tailq_place:
  assumes "tailq_represente s L" and "L h = a @ y # b"
  shows "tqe_next s y = (if b = [] then None else Some (hd b))" "tqe_prev s y = dernier_lien (Tete h) a"
    "case_lien (tqh_first s) (tqe_next s) (dernier_lien (Tete h) a) = Some y"
  using tailq_lien [OF assms(1), of h "a @ [y]" b] tailq_lien [OF assms] arriere_lien [of "tqe_prev s" L h a y b] assms
  by (simp_all add: tailq_represente_def)

lemma tailq_insert_head:
  assumes "tailq_represente s L" and "libre x L"
  shows "\<exists>s'. TAILQ_INSERT_HEAD h x s = Some s' \<and> tailq_represente s' (L(h := x # L h))"
proof -
  note n = tailq_lien [OF assms(1), of h "[]" "L h"]
  define s' where "s' = (let s = s\<lparr>tqe_next := (tqe_next s)(x := tqh_first s h)\<rparr>;
      s = (if L h = [] then s\<lparr>tqh_last := (tqh_last s)(h := Suiv x)\<rparr> else s\<lparr>tqe_prev := (tqe_prev s)(hd (L h) := Suiv x)\<rparr>);
      s = s\<lparr>tqh_first := (tqh_first s)(h := Some x)\<rparr> in s\<lparr>tqe_prev := (tqe_prev s)(x := Tete h)\<rparr>)"
  have "TAILQ_INSERT_HEAD h x s = Some s'" using n by (simp add: TAILQ_INSERT_HEAD_def s'_def Let_def)
  moreover have "tailq_represente s' (L(h := [] @ x # L h))"
    by (rule tailq_insertion [OF assms]) (use n in \<open>auto simp: s'_def Let_def\<close>)
  ultimately show ?thesis by simp
qed

lemma tailq_concat:
  assumes "tailq_represente s L" and "h \<noteq> g"
  shows "\<exists>s'. TAILQ_CONCAT h g s = Some s' \<and> tailq_represente s' (L(h := L h @ L g, g := []))"
proof -
  have R: "separees L" "avant (case_lien (tqh_first s) (tqe_next s)) L" "arriere (tqe_prev s) L" "fins (tqh_last s) L"
    using assms(1) by (simp_all add: tailq_represente_def)
  have f: "tqh_first s g = (if L g = [] then None else Some (hd (L g)))" "tqh_last s h = dernier_lien (Tete h) (L h)"
    using tailq_lien [OF assms(1), of g "[]" "L g"] R(4) by (simp_all add: fins_def)
  show ?thesis
  proof (cases "L g = []")
    case True
    then have "L(h := L h @ L g, g := []) = L" by (rule_tac ext) simp
    with True f assms(1) show ?thesis by (simp add: TAILQ_CONCAT_def TAILQ_EMPTY_def)
  next
    case False
    define t where "t = tailq_ecrire (dernier_lien (Tete h) (L h)) (Some (hd (L g))) s"
    define s' where "s' = TAILQ_INIT g (t\<lparr>tqe_prev := (tqe_prev t)(hd (L g) := tqh_last s h), tqh_last := (tqh_last s)(h := tqh_last s g)\<rparr>)"
    have "dernier_lien (Tete h) (L h) \<noteq> Tete g" using assms(2) by (simp add: dernier_lien_def)
    then have "tqh_first t g = tqh_first s g"
      unfolding t_def by (cases "dernier_lien (Tete h) (L h)") auto
    then have "TAILQ_CONCAT h g s = Some s'"
      using f False by (simp add: TAILQ_CONCAT_def TAILQ_EMPTY_def Let_def s'_def t_def)
    moreover have "tailq_represente s' (L(h := L h @ L g, g := []))"
      using avant_concatener [OF R(2,1), of g h] fins_concatener [OF R(4), of g h] arriere_concatener [OF R(3,1), of g h]
        separees_concatener [OF R(1) assms(2)] False assms(2) f
      by (simp add: tailq_represente_def TAILQ_INIT_def Let_def s'_def t_def)
    ultimately show ?thesis by blast
  qed
qed

lemma tailq_simule:
  assumes "tailq_represente s L" and "tailq_offerte op" and "permise op L"
  shows "\<exists>s'. tailq_executer op s = Some s' \<and> tailq_represente s' (abstraire op L)"
proof -
  have R: "separees L" "avant (case_lien (tqh_first s) (tqe_next s)) L" "arriere (tqe_prev s) L" "fins (tqh_last s) L"
    using assms(1) by (simp_all add: tailq_represente_def)
  show ?thesis
  proof (cases op)
    case (Vider h)
    with R show ?thesis
      by (auto simp: tailq_represente_def TAILQ_INIT_def Let_def intro: separees_vider avant_vider arriere_vider fins_vider)
  next
    case (En_tete h x)
    with tailq_insert_head [OF assms(1)] assms(3) show ?thesis by simp
  next
    case (En_queue h x)
    have "tqh_last s h = dernier_lien (Tete h) (L h)" using R(4) by (simp add: fins_def)
    then have "tailq_represente (TAILQ_INSERT_TAIL h x s) (L(h := L h @ x # []))"
      by (intro tailq_insertion [OF assms(1)]) (use assms(3) En_queue in \<open>auto simp: TAILQ_INSERT_TAIL_def Let_def\<close>)
    with En_queue show ?thesis by simp
  next
    case (Apres h y x)
    with assms(3) obtain a b where ab: "L h = a @ y # b" "y \<notin> set a" by (auto elim: place [OF R(1)])
    have "x \<noteq> y" using assms(3) Apres by (auto simp: libre_def)
    have "tailq_represente (TAILQ_INSERT_AFTER h y x s) (L(h := (a @ [y]) @ x # b))"
      by (rule tailq_insertion [OF assms(1)])
        (use assms(3) Apres ab \<open>x \<noteq> y\<close> tailq_place [OF assms(1) ab(1)] in \<open>auto simp: TAILQ_INSERT_AFTER_def Let_def\<close>)
    with Apres ab show ?thesis by (simp add: inserer_apres_milieu)
  next
    case (Avant h y x)
    with assms(3) obtain a b where ab: "L h = a @ y # b" "y \<notin> set a" by (auto elim: place [OF R(1)])
    have "x \<noteq> y" using assms(3) Avant by (auto simp: libre_def)
    have "tailq_represente (TAILQ_INSERT_BEFORE y x s) (L(h := a @ x # y # b))"
      by (rule tailq_insertion [OF assms(1)])
        (use assms(3) Avant ab \<open>x \<noteq> y\<close> tailq_place [OF assms(1) ab(1)] in \<open>auto simp: TAILQ_INSERT_BEFORE_def Let_def fun_upd_twist\<close>)
    with Avant ab show ?thesis by (simp add: inserer_avant_milieu)
  next
    case (Retirer h x)
    with assms(3) obtain a b where ab: "L h = a @ x # b" "x \<notin> set a" by (auto elim: place [OF R(1)])
    have "hd b \<noteq> x" if "b \<noteq> []" using separeesD(1) [OF R(1), of h] ab that by (cases b) auto
    then have "tailq_represente (TAILQ_REMOVE h x s) (L(h := a @ b))"
      using tailq_place [OF assms(1) ab(1)]
      by (intro tailq_retrait [OF assms(1) ab(1)]) (auto simp: TAILQ_REMOVE_def Let_def)
    with Retirer ab show ?thesis by (simp add: remove1_append)
  next
    case (Concatener h g)
    with tailq_concat [OF assms(1)] assms(3) show ?thesis by simp
  qed (use assms(2) in auto)
qed

interpretation tailq: file_chainee tailq_executer tailq_represente tailq_offerte
  by unfold_locales (rule tailq_simule)

text \<open>Going backwards: behind the link after a stretch \<open>xs\<close> of the list is the last element of \<open>xs\<close>.\<close>

lemma tailq_lire_eq: "tailq_lire s = case_lien (tqh_first s) (tqe_next s)"
  by (rule ext) (simp add: tailq_lire_def)

lemma tailq_avant_lien:
  assumes "tailq_represente s L" and "L h = xs @ ys"
  shows "tailq_lire s (tailq_second s (dernier_lien (Tete h) xs)) = (if xs = [] then None else Some (last xs))"
proof (cases xs rule: rev_cases)
  case Nil
  have "tqh_last s h = dernier_lien (Tete h) (L h)" using assms(1) by (simp add: tailq_represente_def fins_def)
  with Nil tailq_lien [OF assms(1), of h "L h" "[]"] show ?thesis by (simp add: tailq_lire_eq)
next
  case (snoc zs p)
  with tailq_place [OF assms(1), of h zs p ys] assms(2) show ?thesis by (simp add: tailq_lire_eq)
qed

lemma tailq_parcours_arriere:
  assumes "tailq_represente s L" and "L h = xs @ ys"
  shows "parcours (\<lambda>var. tailq_lire s (tailq_second s (tqe_prev s var))) corps
    (tailq_lire s (tailq_second s (dernier_lien (Tete h) xs))) a = Some (fold corps (rev xs) a)"
  using assms(2)
proof (induction xs arbitrary: ys a rule: rev_induct)
  case Nil
  with tailq_avant_lien [OF assms(1), of h "[]" ys] show ?case by simp
next
  case (snoc x xs)
  then have "L h = xs @ x # ys" by simp
  with snoc.IH [of "x # ys"] tailq_avant_lien [OF assms(1) snoc.prems] tailq_place(2) [OF assms(1) this] show ?case
    by simp
qed

section \<open>Every sequence of operations\<close>

lemma represente_parcours:
  assumes "avant (case_lien premier suivant) L"
  shows "\<forall>h. let xs = L h in parcours suivant corps (premier h) a = Some (fold corps xs a) \<and>
    (premier h = None) = (xs = []) \<and> premier h = (if xs = [] then None else Some (hd xs))"
proof
  fix h
  have c: "chaine (case_lien premier suivant) (Tete h) (L h)" using assms by (simp add: avant_def)
  from parcours_chaine [OF this, of suivant corps a] chaine_lien [OF c]
  show "let xs = L h in parcours suivant corps (premier h) a = Some (fold corps xs a) \<and>
    (premier h = None) = (xs = []) \<and> premier h = (if xs = [] then None else Some (hd xs))"
    by (auto simp: Let_def)
qed

text \<open> The lists of \<open>sys/queue.h\<close>. Starting from empty heads, every sequence of allowed operations on
  any number of lists in one memory runs without following a null pointer, and afterwards every
  head holds the list that the same operations on lists give: \<open>LIST_FOREACH\<close> visits its elements in order,
  \<open>LIST_FIRST\<close> is the first one and \<open>LIST_EMPTY\<close> says whether there is one. \<close>

theorem list_execution:
  assumes "\<forall>op \<in> set ops. list_offerte op" and "permises ops (\<lambda>_. [])"
  shows "\<exists>s. foldM list_executer ops LIST_HEAD_INITIALIZER = Some s \<and>
    (\<forall>h. let xs = fold abstraire ops (\<lambda>_. []) h in
      LIST_FOREACH corps h s a = Some (fold corps xs a) \<and> LIST_EMPTY h s = (xs = []) \<and>
      LIST_FIRST h s = (if xs = [] then None else Some (hd xs)))"
proof -
  have "list_represente LIST_HEAD_INITIALIZER (\<lambda>_. [])"
    by (simp add: list_represente_def separees_def avant_def arriere_def LIST_HEAD_INITIALIZER_def list_lire_eq)
  from liste.simule_suite [OF this assms] obtain s where s: "foldM list_executer ops LIST_HEAD_INITIALIZER = Some s"
    "list_represente s (fold abstraire ops (\<lambda>_. []))" by blast
  then have "avant (case_lien (lh_first s) (le_next s)) (fold abstraire ops (\<lambda>_. []))"
    by (simp add: list_represente_def list_lire_eq)
  from s(1) represente_parcours [OF this, of corps a] show ?thesis
    unfolding LIST_FOREACH_def LIST_EMPTY_def LIST_FIRST_def by blast
qed

text \<open> The singly linked lists, likewise; removing an element finds its predecessor. \<close>

theorem slist_execution:
  assumes "\<forall>op \<in> set ops. slist_offerte op" and "permises ops (\<lambda>_. [])"
  shows "\<exists>s. foldM slist_executer ops SLIST_HEAD_INITIALIZER = Some s \<and>
    (\<forall>h. let xs = fold abstraire ops (\<lambda>_. []) h in
      SLIST_FOREACH corps h s a = Some (fold corps xs a) \<and> SLIST_EMPTY h s = (xs = []) \<and>
      SLIST_FIRST h s = (if xs = [] then None else Some (hd xs)))"
proof -
  have "slist_represente SLIST_HEAD_INITIALIZER (\<lambda>_. [])"
    by (simp add: slist_represente_def separees_def avant_def SLIST_HEAD_INITIALIZER_def)
  from sliste.simule_suite [OF this assms] obtain s where s: "foldM slist_executer ops SLIST_HEAD_INITIALIZER = Some s"
    "slist_represente s (fold abstraire ops (\<lambda>_. []))" by blast
  then have "avant (case_lien (slh_first s) (sle_next s)) (fold abstraire ops (\<lambda>_. []))"
    by (simp add: slist_represente_def)
  from s(1) represente_parcours [OF this, of corps a] show ?thesis
    unfolding SLIST_FOREACH_def SLIST_EMPTY_def SLIST_FIRST_def by blast
qed

text \<open> The singly linked tail queues, likewise, with insertion at the end and concatenation; and the simple queues
  are the same structure: for the operations they have, each macro changes the corresponding fields in the same
  way. \<close>

theorem stailq_execution:
  assumes "\<forall>op \<in> set ops. stailq_offerte op" and "permises ops (\<lambda>_. [])"
  shows "(\<exists>s. foldM stailq_executer ops STAILQ_HEAD_INITIALIZER = Some s \<and>
    (\<forall>h. let xs = fold abstraire ops (\<lambda>_. []) h in
      STAILQ_FOREACH corps h s a = Some (fold corps xs a) \<and> STAILQ_EMPTY h s = (xs = []) \<and>
      STAILQ_FIRST h s = (if xs = [] then None else Some (hd xs)))) \<and>
    ((\<forall>op \<in> set ops. simpleq_offerte op) \<longrightarrow> (\<exists>s. foldM simpleq_executer ops SIMPLEQ_HEAD_INITIALIZER = Some s \<and>
      (\<forall>h. let xs = fold abstraire ops (\<lambda>_. []) h in
        SIMPLEQ_FOREACH corps h s a = Some (fold corps xs a) \<and> SIMPLEQ_EMPTY h s = (xs = []) \<and>
        SIMPLEQ_FIRST h s = (if xs = [] then None else Some (hd xs)))))"
proof (intro conjI impI)
  have r: "stailq_represente STAILQ_HEAD_INITIALIZER (\<lambda>_. [])"
    by (simp add: stailq_represente_def separees_def avant_def fins_def STAILQ_HEAD_INITIALIZER_def)
  from stailq.simule_suite [OF r assms] obtain s where s: "foldM stailq_executer ops STAILQ_HEAD_INITIALIZER = Some s"
    "stailq_represente s (fold abstraire ops (\<lambda>_. []))" by blast
  then have p: "avant (case_lien (stqh_first s) (stqe_next s)) (fold abstraire ops (\<lambda>_. []))"
    by (simp add: stailq_represente_def)
  from s(1) represente_parcours [OF p, of corps a] show "\<exists>s. foldM stailq_executer ops STAILQ_HEAD_INITIALIZER = Some s \<and>
    (\<forall>h. let xs = fold abstraire ops (\<lambda>_. []) h in
      STAILQ_FOREACH corps h s a = Some (fold corps xs a) \<and> STAILQ_EMPTY h s = (xs = []) \<and>
      STAILQ_FIRST h s = (if xs = [] then None else Some (hd xs)))"
    unfolding STAILQ_FOREACH_def STAILQ_EMPTY_def STAILQ_FIRST_def by blast
  assume o: "\<forall>op \<in> set ops. simpleq_offerte op"
  have "simpleq_represente SIMPLEQ_HEAD_INITIALIZER (\<lambda>_. [])"
    using r by (simp add: simpleq_represente_def SIMPLEQ_HEAD_INITIALIZER_def STAILQ_HEAD_INITIALIZER_def stailq_de_simpleq_def)
  from simpleq.simule_suite [OF this o assms(2)] obtain s where s: "foldM simpleq_executer ops SIMPLEQ_HEAD_INITIALIZER = Some s"
    "simpleq_represente s (fold abstraire ops (\<lambda>_. []))" by blast
  then have p: "avant (case_lien (sqh_first s) (sqe_next s)) (fold abstraire ops (\<lambda>_. []))"
    by (simp add: simpleq_represente_def stailq_represente_def)
  from s(1) represente_parcours [OF p, of corps a] show "\<exists>s. foldM simpleq_executer ops SIMPLEQ_HEAD_INITIALIZER = Some s \<and>
      (\<forall>h. let xs = fold abstraire ops (\<lambda>_. []) h in
        SIMPLEQ_FOREACH corps h s a = Some (fold corps xs a) \<and> SIMPLEQ_EMPTY h s = (xs = []) \<and>
        SIMPLEQ_FIRST h s = (if xs = [] then None else Some (hd xs)))"
    unfolding SIMPLEQ_FOREACH_def SIMPLEQ_EMPTY_def SIMPLEQ_FIRST_def by blast
qed

text \<open> C38: The tail queues, likewise. They can also be read from the end: \<open>TAILQ_LAST\<close> is the last element and
  \<open>TAILQ_FOREACH_REVERSE\<close> visits them in the opposite order, both through the second member of the
  structure before a link, whose layout a head and an element share. \<close>

theorem tailq_execution:
  assumes "\<forall>op \<in> set ops. tailq_offerte op" and "permises ops (\<lambda>_. [])"
  shows "\<exists>s. foldM tailq_executer ops TAILQ_HEAD_INITIALIZER = Some s \<and>
    (\<forall>h. let xs = fold abstraire ops (\<lambda>_. []) h in
      TAILQ_FOREACH corps h s a = Some (fold corps xs a) \<and> TAILQ_FOREACH_REVERSE corps h s a = Some (fold corps (rev xs) a) \<and>
      TAILQ_EMPTY h s = (xs = []) \<and> TAILQ_FIRST h s = (if xs = [] then None else Some (hd xs)) \<and>
      TAILQ_LAST h s = (if xs = [] then None else Some (last xs)))"
proof -
  have "tailq_represente TAILQ_HEAD_INITIALIZER (\<lambda>_. [])"
    by (simp add: tailq_represente_def separees_def avant_def arriere_def fins_def TAILQ_HEAD_INITIALIZER_def)
  from tailq.simule_suite [OF this assms] obtain s where s: "foldM tailq_executer ops TAILQ_HEAD_INITIALIZER = Some s"
    "tailq_represente s (fold abstraire ops (\<lambda>_. []))" by blast
  have l: "tqh_last s h = dernier_lien (Tete h) (fold abstraire ops (\<lambda>_. []) h)" for h
    using s(2) by (simp add: tailq_represente_def fins_def)
  have p: "avant (case_lien (tqh_first s) (tqe_next s)) (fold abstraire ops (\<lambda>_. []))"
    using s(2) by (simp add: tailq_represente_def)
  have r: "\<forall>h. let xs = fold abstraire ops (\<lambda>_. []) h in TAILQ_FOREACH_REVERSE corps h s a = Some (fold corps (rev xs) a) \<and>
      TAILQ_LAST h s = (if xs = [] then None else Some (last xs))"
  proof
    fix h
    note f = tailq_parcours_arriere [OF s(2), of h _ "[]" corps a] tailq_avant_lien [OF s(2), of h _ "[]"]
    show "let xs = fold abstraire ops (\<lambda>_. []) h in TAILQ_FOREACH_REVERSE corps h s a = Some (fold corps (rev xs) a) \<and>
        TAILQ_LAST h s = (if xs = [] then None else Some (last xs))"
      unfolding TAILQ_FOREACH_REVERSE_def TAILQ_LAST_def l Let_def by (rule conjI) (rule f, simp)+
  qed
  show ?thesis
    using s(1) r represente_parcours [OF p, of corps a]
    unfolding TAILQ_FOREACH_def TAILQ_EMPTY_def TAILQ_FIRST_def Let_def by blast
qed

text \<open>A sequence on two lists that uses every kind of operation.\<close>

definition operations_exemple :: "operation list" where
  "operations_exemple = [En_tete 0 1, Apres 0 1 2, En_tete 1 3, Retirer 0 1, En_tete 0 4, Apres 0 4 5, Retirer 0 2]"

lemma operations_exemple_permises: "permises operations_exemple (\<lambda>_. [])"
  by (simp add: operations_exemple_def libre_def)

theorem list_execution_temoin:
  "\<exists>s. foldM list_executer (operations_exemple @ [Avant 0 5 6]) LIST_HEAD_INITIALIZER = Some s \<and>
    LIST_FOREACH (#) 0 s [] = Some [5, 6, 4]"
proof -
  have "\<forall>op \<in> set (operations_exemple @ [Avant 0 5 6]). list_offerte op"
    and "permises (operations_exemple @ [Avant 0 5 6]) (\<lambda>_. [])"
    by (simp_all add: operations_exemple_def libre_def)
  from list_execution [OF this, of "(#)" "[]"] show ?thesis
    by (elim exE, rule_tac x = s in exI) (auto simp: operations_exemple_def Let_def)
qed

theorem slist_execution_temoin:
  "\<exists>s. foldM slist_executer operations_exemple SLIST_HEAD_INITIALIZER = Some s \<and> SLIST_FOREACH (#) 0 s [] = Some [5, 4]"
proof -
  have "\<forall>op \<in> set operations_exemple. slist_offerte op" by (simp add: operations_exemple_def)
  from slist_execution [OF this operations_exemple_permises, of "(#)" "[]"] show ?thesis
    by (elim exE, rule_tac x = s in exI) (auto simp: operations_exemple_def Let_def)
qed

theorem stailq_execution_temoin:
  "(\<exists>s. foldM stailq_executer (operations_exemple @ [En_queue 0 6]) STAILQ_HEAD_INITIALIZER = Some s \<and>
      STAILQ_FOREACH (#) 0 s [] = Some [6, 5, 4]) \<and>
   (\<exists>s. foldM simpleq_executer (operations_exemple @ [En_queue 0 6]) SIMPLEQ_HEAD_INITIALIZER = Some s \<and>
      SIMPLEQ_FOREACH (#) 0 s [] = Some [6, 5, 4])"
proof -
  have o: "\<forall>op \<in> set (operations_exemple @ [En_queue 0 6]). stailq_offerte op"
    and o': "\<forall>op \<in> set (operations_exemple @ [En_queue 0 6]). simpleq_offerte op"
    and p: "permises (operations_exemple @ [En_queue 0 6]) (\<lambda>_. [])"
    by (simp_all add: operations_exemple_def libre_def)
  note t = stailq_execution [OF o p, of "(#)" "[]"]
  from t [THEN conjunct1] have "\<exists>s. foldM stailq_executer (operations_exemple @ [En_queue 0 6]) STAILQ_HEAD_INITIALIZER = Some s \<and>
      STAILQ_FOREACH (#) 0 s [] = Some [6, 5, 4]"
    by (elim exE, rule_tac x = s in exI) (auto simp: operations_exemple_def Let_def)
  moreover from t [THEN conjunct2, THEN mp, OF o'] have
    "\<exists>s. foldM simpleq_executer (operations_exemple @ [En_queue 0 6]) SIMPLEQ_HEAD_INITIALIZER = Some s \<and>
      SIMPLEQ_FOREACH (#) 0 s [] = Some [6, 5, 4]"
    by (elim exE, rule_tac x = s in exI) (auto simp: operations_exemple_def Let_def)
  ultimately show ?thesis ..
qed

theorem tailq_execution_temoin:
  "\<exists>s. foldM tailq_executer (operations_exemple @ [En_queue 0 6, Avant 0 6 7, Concatener 0 1]) TAILQ_HEAD_INITIALIZER = Some s \<and>
    TAILQ_FOREACH (#) 0 s [] = Some [3, 6, 7, 5, 4] \<and> TAILQ_FOREACH_REVERSE (#) 0 s [] = Some [4, 5, 7, 6, 3]"
proof -
  have "\<forall>op \<in> set (operations_exemple @ [En_queue 0 6, Avant 0 6 7, Concatener 0 1]). tailq_offerte op"
    and "permises (operations_exemple @ [En_queue 0 6, Avant 0 6 7, Concatener 0 1]) (\<lambda>_. [])"
    by (simp_all add: operations_exemple_def libre_def)
  from tailq_execution [OF this, of "(#)" "[]"] show ?thesis
    by (elim exE, rule_tac x = s in exI) (auto simp: operations_exemple_def Let_def)
qed

end
