(* ===== verification/Anneaux.thy ===== *)
theory Anneaux
  imports Chaines
begin

text \<open>
  The circular queues of \<open>sys/queue.h\<close>. The pointers of a ring lead to elements or, at its ends, to the head itself, cast to a
  pointer; a \<open>noeud\<close> is such a pointer. Following a pointer to a head as if it were one to an
  element is a fault. The operations and their meaning on lists are those of \<^theory_text>\<open>Chaines\<close>.
\<close>

section \<open>The macros\<close>

datatype noeud = Ancre tete | Element elt

record circleq_tas =
  cqh_first :: "tete \<Rightarrow> noeud"
  cqh_last :: "tete \<Rightarrow> noeud"
  cqe_next :: "elt \<Rightarrow> noeud"
  cqe_prev :: "elt \<Rightarrow> noeud"

definition CIRCLEQ_HEAD_INITIALIZER :: circleq_tas where
  "CIRCLEQ_HEAD_INITIALIZER = \<lparr>cqh_first = Ancre, cqh_last = Ancre, cqe_next = Element, cqe_prev = Element\<rparr>"

definition CIRCLEQ_INIT :: "tete \<Rightarrow> circleq_tas \<Rightarrow> circleq_tas" where
  "CIRCLEQ_INIT head s =
     (let s = s\<lparr>cqh_first := (cqh_first s)(head := Ancre head)\<rparr>
      in s\<lparr>cqh_last := (cqh_last s)(head := Ancre head)\<rparr>)"

text \<open>\<open>p->cqe_prev = v\<close> and \<open>p->cqe_next = v\<close>\<close>

fun cqe_prev_ecrire :: "noeud \<Rightarrow> noeud \<Rightarrow> circleq_tas \<Rightarrow> circleq_tas option" where
  "cqe_prev_ecrire (Element e) v s = Some (s\<lparr>cqe_prev := (cqe_prev s)(e := v)\<rparr>)"
| "cqe_prev_ecrire (Ancre h) v s = None"

fun cqe_next_ecrire :: "noeud \<Rightarrow> noeud \<Rightarrow> circleq_tas \<Rightarrow> circleq_tas option" where
  "cqe_next_ecrire (Element e) v s = Some (s\<lparr>cqe_next := (cqe_next s)(e := v)\<rparr>)"
| "cqe_next_ecrire (Ancre h) v s = None"

definition CIRCLEQ_INSERT_AFTER :: "tete \<Rightarrow> elt \<Rightarrow> elt \<Rightarrow> circleq_tas \<Rightarrow> circleq_tas option" where
  "CIRCLEQ_INSERT_AFTER head listelm elm s = do {
     let s = s\<lparr>cqe_next := (cqe_next s)(elm := cqe_next s listelm)\<rparr>;
     let s = s\<lparr>cqe_prev := (cqe_prev s)(elm := Element listelm)\<rparr>;
     s \<leftarrow> (if cqe_next s listelm = Ancre head then Some (s\<lparr>cqh_last := (cqh_last s)(head := Element elm)\<rparr>)
          else cqe_prev_ecrire (cqe_next s listelm) (Element elm) s);
     Some (s\<lparr>cqe_next := (cqe_next s)(listelm := Element elm)\<rparr>)
   }"

definition CIRCLEQ_INSERT_BEFORE :: "tete \<Rightarrow> elt \<Rightarrow> elt \<Rightarrow> circleq_tas \<Rightarrow> circleq_tas option" where
  "CIRCLEQ_INSERT_BEFORE head listelm elm s = do {
     let s = s\<lparr>cqe_next := (cqe_next s)(elm := Element listelm)\<rparr>;
     let s = s\<lparr>cqe_prev := (cqe_prev s)(elm := cqe_prev s listelm)\<rparr>;
     s \<leftarrow> (if cqe_prev s listelm = Ancre head then Some (s\<lparr>cqh_first := (cqh_first s)(head := Element elm)\<rparr>)
          else cqe_next_ecrire (cqe_prev s listelm) (Element elm) s);
     Some (s\<lparr>cqe_prev := (cqe_prev s)(listelm := Element elm)\<rparr>)
   }"

definition CIRCLEQ_INSERT_HEAD :: "tete \<Rightarrow> elt \<Rightarrow> circleq_tas \<Rightarrow> circleq_tas option" where
  "CIRCLEQ_INSERT_HEAD head elm s = do {
     let s = s\<lparr>cqe_next := (cqe_next s)(elm := cqh_first s head)\<rparr>;
     let s = s\<lparr>cqe_prev := (cqe_prev s)(elm := Ancre head)\<rparr>;
     s \<leftarrow> (if cqh_last s head = Ancre head then Some (s\<lparr>cqh_last := (cqh_last s)(head := Element elm)\<rparr>)
          else cqe_prev_ecrire (cqh_first s head) (Element elm) s);
     Some (s\<lparr>cqh_first := (cqh_first s)(head := Element elm)\<rparr>)
   }"

definition CIRCLEQ_INSERT_TAIL :: "tete \<Rightarrow> elt \<Rightarrow> circleq_tas \<Rightarrow> circleq_tas option" where
  "CIRCLEQ_INSERT_TAIL head elm s = do {
     let s = s\<lparr>cqe_next := (cqe_next s)(elm := Ancre head)\<rparr>;
     let s = s\<lparr>cqe_prev := (cqe_prev s)(elm := cqh_last s head)\<rparr>;
     s \<leftarrow> (if cqh_first s head = Ancre head then Some (s\<lparr>cqh_first := (cqh_first s)(head := Element elm)\<rparr>)
          else cqe_next_ecrire (cqh_last s head) (Element elm) s);
     Some (s\<lparr>cqh_last := (cqh_last s)(head := Element elm)\<rparr>)
   }"

definition CIRCLEQ_REMOVE :: "tete \<Rightarrow> elt \<Rightarrow> circleq_tas \<Rightarrow> circleq_tas option" where
  "CIRCLEQ_REMOVE head elm s = do {
     s \<leftarrow> (if cqe_next s elm = Ancre head then Some (s\<lparr>cqh_last := (cqh_last s)(head := cqe_prev s elm)\<rparr>)
          else cqe_prev_ecrire (cqe_next s elm) (cqe_prev s elm) s);
     if cqe_prev s elm = Ancre head then Some (s\<lparr>cqh_first := (cqh_first s)(head := cqe_next s elm)\<rparr>)
     else cqe_next_ecrire (cqe_prev s elm) (cqe_next s elm) s
   }"

text \<open>Running through a ring until the pointer is the head; the body works on other data than the ring.\<close>

definition tour_anneau :: "(elt \<Rightarrow> noeud) \<Rightarrow> (elt \<Rightarrow> 'a \<Rightarrow> 'a) \<Rightarrow> tete \<Rightarrow> noeud \<Rightarrow> 'a \<Rightarrow> 'a option" where
  "tour_anneau suivant corps head depart a =
     boucle (\<lambda>(var, a). case var of
         Ancre h \<Rightarrow> if h = head then Some (Inr a) else None
       | Element v \<Rightarrow> Some (Inl (suivant v, corps v a))) (depart, a)"

definition CIRCLEQ_FOREACH :: "(elt \<Rightarrow> 'a \<Rightarrow> 'a) \<Rightarrow> tete \<Rightarrow> circleq_tas \<Rightarrow> 'a \<Rightarrow> 'a option" where
  "CIRCLEQ_FOREACH corps head s = tour_anneau (cqe_next s) corps head (cqh_first s head)"

definition CIRCLEQ_FOREACH_REVERSE :: "(elt \<Rightarrow> 'a \<Rightarrow> 'a) \<Rightarrow> tete \<Rightarrow> circleq_tas \<Rightarrow> 'a \<Rightarrow> 'a option" where
  "CIRCLEQ_FOREACH_REVERSE corps head s = tour_anneau (cqe_prev s) corps head (cqh_last s head)"

definition CIRCLEQ_EMPTY :: "tete \<Rightarrow> circleq_tas \<Rightarrow> bool" where
  "CIRCLEQ_EMPTY head s \<longleftrightarrow> cqh_first s head = Ancre head"

definition CIRCLEQ_FIRST :: "tete \<Rightarrow> circleq_tas \<Rightarrow> noeud" where
  "CIRCLEQ_FIRST head s = cqh_first s head"

definition CIRCLEQ_LAST :: "tete \<Rightarrow> circleq_tas \<Rightarrow> noeud" where
  "CIRCLEQ_LAST head s = cqh_last s head"

definition CIRCLEQ_NEXT :: "elt \<Rightarrow> circleq_tas \<Rightarrow> noeud" where
  "CIRCLEQ_NEXT elm s = cqe_next s elm"

definition CIRCLEQ_PREV :: "elt \<Rightarrow> circleq_tas \<Rightarrow> noeud" where
  "CIRCLEQ_PREV elm s = cqe_prev s elm"

definition CIRCLEQ_LOOP_NEXT :: "tete \<Rightarrow> elt \<Rightarrow> circleq_tas \<Rightarrow> noeud" where
  "CIRCLEQ_LOOP_NEXT head elm s = (if cqe_next s elm = Ancre head then cqh_first s head else cqe_next s elm)"

definition CIRCLEQ_LOOP_PREV :: "tete \<Rightarrow> elt \<Rightarrow> circleq_tas \<Rightarrow> noeud" where
  "CIRCLEQ_LOOP_PREV head elm s = (if cqe_prev s elm = Ancre head then cqh_last s head else cqe_prev s elm)"

fun circleq_executer :: "operation \<Rightarrow> circleq_tas \<Rightarrow> circleq_tas option" where
  "circleq_executer (Vider h) s = Some (CIRCLEQ_INIT h s)"
| "circleq_executer (En_tete h x) s = CIRCLEQ_INSERT_HEAD h x s"
| "circleq_executer (En_queue h x) s = CIRCLEQ_INSERT_TAIL h x s"
| "circleq_executer (Apres h y x) s = CIRCLEQ_INSERT_AFTER h y x s"
| "circleq_executer (Avant h y x) s = CIRCLEQ_INSERT_BEFORE h y x s"
| "circleq_executer (Retirer h x) s = CIRCLEQ_REMOVE h x s"
| "circleq_executer _ s = None"

fun circleq_offerte :: "operation \<Rightarrow> bool" where
  "circleq_offerte (Retirer_tete h) \<longleftrightarrow> False"
| "circleq_offerte (Concatener h h') \<longleftrightarrow> False"
| "circleq_offerte _ \<longleftrightarrow> True"

section \<open>One ring\<close>

text \<open>
  \<open>lies nx pv p xs z\<close>: from the node \<open>p\<close> the forward pointers lead through \<open>xs\<close> to \<open>z\<close>, and the backward pointers from \<open>z\<close>
  back to \<open>p\<close>.
\<close>

primrec lies :: "(noeud \<Rightarrow> noeud) \<Rightarrow> (noeud \<Rightarrow> noeud) \<Rightarrow> noeud \<Rightarrow> elt list \<Rightarrow> noeud \<Rightarrow> bool" where
  "lies nx pv p [] z \<longleftrightarrow> nx p = z \<and> pv z = p"
| "lies nx pv p (x # xs) z \<longleftrightarrow> nx p = Element x \<and> pv (Element x) = p \<and> lies nx pv (Element x) xs z"

definition noeud_avant :: "noeud \<Rightarrow> elt list \<Rightarrow> noeud" where
  "noeud_avant p a = (if a = [] then p else Element (last a))"

definition noeud_apres :: "elt list \<Rightarrow> noeud \<Rightarrow> noeud" where
  "noeud_apres b z = (if b = [] then z else Element (hd b))"

lemma noeuds_simps [simp]:
  "noeud_avant p [] = p" "noeud_avant p (x # a) = noeud_avant (Element x) a" "noeud_avant p (a @ [x]) = Element x"
  "noeud_apres [] z = z" "noeud_apres (x # b) z = Element x"
  by (simp_all add: noeud_avant_def noeud_apres_def)

lemma element_image [simp]: "Element x \<in> Element ` A \<longleftrightarrow> x \<in> A" "Ancre h \<notin> Element ` A"
  by auto

lemma noeud_avant_dans: "noeud_avant p a \<in> insert p (Element ` set a)"
  by (auto simp: noeud_avant_def)

lemma noeud_apres_dans: "noeud_apres b z \<in> insert z (Element ` set b)"
  by (auto simp: noeud_apres_def)

lemma lies_ailleurs [simp]:
  "\<lbrakk>k \<noteq> p; k \<notin> Element ` set xs\<rbrakk> \<Longrightarrow> lies (nx(k := v)) pv p xs z = lies nx pv p xs z"
  "\<lbrakk>z \<noteq> k; k \<notin> Element ` set xs\<rbrakk> \<Longrightarrow> lies nx (pv(k := v)) p xs z = lies nx pv p xs z"
  by (induction xs arbitrary: p) auto

lemma lies_milieu:
  "lies nx pv p (a @ b) z \<Longrightarrow> nx (noeud_avant p a) = noeud_apres b z \<and> pv (noeud_apres b z) = noeud_avant p a"
proof (induction a arbitrary: p)
  case Nil
  then show ?case by (cases b) auto
qed auto

lemma lies_inserer:
  assumes "lies nx pv p (a @ b) z" and "distinct (a @ b)" and "x \<notin> set (a @ b)"
    and "p \<notin> Element ` set (x # a @ b)" and "z \<notin> Element ` set (x # a @ b)"
  shows "lies (nx(Element x := noeud_apres b z, noeud_avant p a := Element x))
    (pv(noeud_apres b z := Element x, Element x := noeud_avant p a)) p (a @ x # b) z"
  using assms
proof (induction a arbitrary: p)
  case Nil
  have ne: "p \<noteq> Element y" "Element y \<noteq> p" "z \<noteq> Element y" "Element y \<noteq> z" if "y \<in> set (x # b)" for y
    using Nil.prems(2-) that by (auto simp: image_iff)
  show ?case
  proof (cases b)
    case b: (Cons y ys)
    have "x \<noteq> y" "x \<notin> set ys" "y \<notin> set ys" "p \<notin> Element ` set ys" "z \<notin> Element ` set ys" using Nil.prems b by auto
    with Nil.prems ne [of x] ne [of y] b show ?thesis by (simp del: fun_upd_apply) simp
  qed (use Nil.prems ne [of x] in simp)
next
  case (Cons c a)
  have q: "noeud_avant (Element c) a \<noteq> p" "noeud_apres b z \<noteq> Element c" "p \<noteq> Element x" "x \<noteq> c"
    using noeud_avant_dans [of "Element c" a] noeud_apres_dans [of b z] Cons.prems(2-5) by auto
  define nx' pv' where "nx' = nx(Element x := noeud_apres b z, noeud_avant (Element c) a := Element x)"
    and "pv' = pv(noeud_apres b z := Element x, Element x := noeud_avant (Element c) a)"
  have "lies nx' pv' (Element c) (a @ x # b) z"
    unfolding nx'_def pv'_def by (rule Cons.IH) (use Cons.prems in auto)
  moreover have "nx' p = Element c" "pv' (Element c) = p"
    using q Cons.prems(1) by (auto simp: nx'_def pv'_def)
  ultimately have "lies nx' pv' p ((c # a) @ x # b) z" by simp
  then show ?case by (simp only: nx'_def pv'_def noeuds_simps)
qed

lemma lies_retirer:
  assumes "lies nx pv p (a @ x # b) z" and "distinct (a @ x # b)"
    and "p \<notin> Element ` set (a @ x # b)" and "z \<notin> Element ` set (a @ x # b)"
  shows "lies (nx(noeud_avant p a := noeud_apres b z)) (pv(noeud_apres b z := noeud_avant p a)) p (a @ b) z"
  using assms
proof (induction a arbitrary: p)
  case Nil
  have ne: "p \<noteq> Element y" "Element y \<noteq> p" "z \<noteq> Element y" "Element y \<noteq> z" if "y \<in> set (x # b)" for y
    using Nil.prems(2-) that by (auto simp: image_iff)
  show ?case
  proof (cases b)
    case b: (Cons y ys)
    have "x \<noteq> y" "x \<notin> set ys" "y \<notin> set ys" "p \<notin> Element ` set ys" "z \<notin> Element ` set ys" using Nil.prems b by auto
    with Nil.prems ne [of x] ne [of y] b show ?thesis by (simp del: fun_upd_apply) simp
  qed (use Nil.prems ne [of x] in simp)
next
  case (Cons c a)
  have q: "noeud_avant (Element c) a \<noteq> p" "noeud_apres b z \<noteq> Element c"
    using noeud_avant_dans [of "Element c" a] noeud_apres_dans [of b z] Cons.prems(2-4) by auto
  define nx' pv' where "nx' = nx(noeud_avant (Element c) a := noeud_apres b z)"
    and "pv' = pv(noeud_apres b z := noeud_avant (Element c) a)"
  have "lies nx' pv' (Element c) (a @ b) z"
    unfolding nx'_def pv'_def by (rule Cons.IH) (use Cons.prems in auto)
  moreover have "nx' p = Element c" "pv' (Element c) = p"
    using q Cons.prems(1) by (auto simp: nx'_def pv'_def)
  ultimately have "lies nx' pv' p ((c # a) @ b) z" by simp
  then show ?case by (simp only: nx'_def pv'_def noeuds_simps)
qed

lemma lies_nth:
  "\<lbrakk>lies nx pv p xs z; i < length xs\<rbrakk> \<Longrightarrow>
    nx (Element (xs ! i)) = (if i + 1 < length xs then Element (xs ! (i + 1)) else z) \<and>
    pv (Element (xs ! i)) = (if i = 0 then p else Element (xs ! (i - 1)))"
proof (induction xs arbitrary: p i)
  case (Cons x xs)
  then show ?case by (cases i; cases xs) (auto split: if_splits)
qed simp

lemma tour_anneau_simps [simp]:
  "tour_anneau suivant corps h (Ancre h) a = Some a"
  "tour_anneau suivant corps h (Element v) a = tour_anneau suivant corps h (suivant v) (corps v a)"
  by (simp_all add: tour_anneau_def boucle_fin boucle_suite)

lemma tour_lies:
  assumes "lies nx pv p xs (Ancre h)" and "\<And>e. suivant e = nx (Element e)"
  shows "tour_anneau suivant corps h (nx p) a = Some (fold corps xs a)"
  using assms(1) by (induction xs arbitrary: p a) (simp_all add: assms(2))

lemma tour_lies_arriere:
  assumes "lies nx pv (Ancre h) (xs @ ys) z" and "\<And>e. precedent e = pv (Element e)"
  shows "tour_anneau precedent corps h (noeud_avant (Ancre h) xs) a = Some (fold corps (rev xs) a)"
  using assms(1)
proof (induction xs arbitrary: ys a rule: rev_induct)
  case (snoc x xs)
  then have "precedent x = noeud_avant (Ancre h) xs"
    using lies_milieu [of nx pv "Ancre h" xs "x # ys" z] assms(2) by simp
  with snoc show ?case by simp
qed simp

section \<open>All the rings of a memory\<close>

definition circleq_represente :: "circleq_tas \<Rightarrow> (tete \<Rightarrow> elt list) \<Rightarrow> bool" where
  "circleq_represente s L \<longleftrightarrow> separees L \<and>
     (\<forall>h. lies (case_noeud (cqh_first s) (cqe_next s)) (case_noeud (cqh_last s) (cqe_prev s)) (Ancre h) (L h) (Ancre h))"

lemma case_noeud_modifie [simp]:
  "case_noeud (f(h := v)) g = (case_noeud f g)(Ancre h := v)" "case_noeud f (g(e := v)) = (case_noeud f g)(Element e := v)"
  by (rule ext, rename_tac k, case_tac k, auto)+

text \<open>The nodes around a place of one ring are in no other ring.\<close>

lemma noeuds_ailleurs:
  assumes "separees L" and "L h = a @ b" and "h' \<noteq> h"
  shows "noeud_avant (Ancre h) a \<noteq> Ancre h'" "noeud_avant (Ancre h) a \<notin> Element ` set (L h')"
    "Ancre h' \<noteq> noeud_apres b (Ancre h)" "noeud_apres b (Ancre h) \<notin> Element ` set (L h')"
  using noeud_avant_dans [of "Ancre h" a] noeud_apres_dans [of b "Ancre h"] separeesD(2) [OF assms(1), of h h'] assms(2,3) by auto

lemma circleq_insertion:
  assumes "circleq_represente s L" and "libre x L" and "L h = a @ b"
    and "case_noeud (cqh_first s') (cqe_next s') = (case_noeud (cqh_first s) (cqe_next s))
      (Element x := noeud_apres b (Ancre h), noeud_avant (Ancre h) a := Element x)"
    and "case_noeud (cqh_last s') (cqe_prev s') = (case_noeud (cqh_last s) (cqe_prev s))
      (noeud_apres b (Ancre h) := Element x, Element x := noeud_avant (Ancre h) a)"
  shows "circleq_represente s' (L(h := a @ x # b))"
proof -
  have S: "separees L" and R: "lies (case_noeud (cqh_first s) (cqe_next s)) (case_noeud (cqh_last s) (cqe_prev s)) (Ancre g) (L g) (Ancre g)"
    for g using assms(1) by (simp_all add: circleq_represente_def)
  have x: "x \<notin> set (L g)" for g using assms(2) by (simp add: libre_def)
  have "lies (case_noeud (cqh_first s') (cqe_next s')) (case_noeud (cqh_last s') (cqe_prev s')) (Ancre g) ((L(h := a @ x # b)) g) (Ancre g)" for g
  proof (cases "g = h")
    case True
    have "distinct (a @ b)" "x \<notin> set (a @ b)" using separeesD(1) [OF S, of h] x [of h] assms(3) by simp_all
    from lies_inserer [OF R [of h, unfolded assms(3)] this] True show ?thesis by (simp add: assms(4,5) del: fun_upd_apply) simp
  next
    case False
    note n = noeuds_ailleurs [OF S assms(3) False]
    have "Element x \<notin> Element ` set (L g)" using x by simp
    with n R [of g] False show ?thesis by (simp add: assms(4,5) fun_upd_other del: fun_upd_apply)
  qed
  with separees_inserer [OF S assms(2,3)] show ?thesis by (simp add: circleq_represente_def)
qed

lemma circleq_retrait:
  assumes "circleq_represente s L" and "L h = a @ x # b"
    and "case_noeud (cqh_first s') (cqe_next s') =
      (case_noeud (cqh_first s) (cqe_next s))(noeud_avant (Ancre h) a := noeud_apres b (Ancre h))"
    and "case_noeud (cqh_last s') (cqe_prev s') =
      (case_noeud (cqh_last s) (cqe_prev s))(noeud_apres b (Ancre h) := noeud_avant (Ancre h) a)"
  shows "circleq_represente s' (L(h := a @ b))"
proof -
  have S: "separees L" and R: "lies (case_noeud (cqh_first s) (cqe_next s)) (case_noeud (cqh_last s) (cqe_prev s)) (Ancre g) (L g) (Ancre g)"
    for g using assms(1) by (simp_all add: circleq_represente_def)
  have "lies (case_noeud (cqh_first s') (cqe_next s')) (case_noeud (cqh_last s') (cqe_prev s')) (Ancre g) ((L(h := a @ b)) g) (Ancre g)" for g
  proof (cases "g = h")
    case True
    have "distinct (a @ x # b)" using separeesD(1) [OF S, of h] assms(2) by simp
    from lies_retirer [OF R [of h, unfolded assms(2)] this] True show ?thesis by (simp add: assms(3,4) del: fun_upd_apply) simp
  next
    case False
    note n = noeuds_ailleurs(1,2) [OF S, of h a "x # b" g] noeuds_ailleurs(3,4) [OF S, of h "a @ [x]" b g]
    from n R [of g] False assms(2) show ?thesis by (simp add: assms(3,4) fun_upd_other del: fun_upd_apply)
  qed
  with separees_retirer [OF S assms(2)] show ?thesis by (simp add: circleq_represente_def)
qed

text \<open>What the pointers at a place hold.\<close>

lemma circleq_milieu:
  assumes "circleq_represente s L" and "L h = a @ b"
  shows "case_noeud (cqh_first s) (cqe_next s) (noeud_avant (Ancre h) a) = noeud_apres b (Ancre h)"
    "case_noeud (cqh_last s) (cqe_prev s) (noeud_apres b (Ancre h)) = noeud_avant (Ancre h) a"
  using assms lies_milieu [of "case_noeud (cqh_first s) (cqe_next s)" "case_noeud (cqh_last s) (cqe_prev s)" "Ancre h" a b "Ancre h"]
  by (auto simp: circleq_represente_def dest: spec [of _ h])

lemma circleq_place:
  assumes "circleq_represente s L" and "L h = a @ y # b"
  shows "cqe_next s y = noeud_apres b (Ancre h)" "cqe_prev s y = noeud_avant (Ancre h) a"
  using circleq_milieu(1) [OF assms(1), of h "a @ [y]" b] circleq_milieu(2) [OF assms] assms(2) by simp_all

lemma circleq_bouts:
  assumes "circleq_represente s L"
  shows "cqh_first s h = noeud_apres (L h) (Ancre h)" "cqh_last s h = noeud_avant (Ancre h) (L h)"
  using circleq_milieu(1) [OF assms, of h "[]" "L h"] circleq_milieu(2) [OF assms, of h "L h" "[]"] by simp_all

lemma circleq_insert_after:
  assumes "circleq_represente s L" and "libre x L" and y: "L h = a @ y # b"
  shows "\<exists>s'. CIRCLEQ_INSERT_AFTER h y x s = Some s' \<and> circleq_represente s' (L(h := a @ y # x # b))"
proof -
  have "x \<noteq> y" using assms(2) y by (auto simp: libre_def dest: spec [of _ h])
  note n = circleq_place [OF assms(1) y]
  define s' where "s' = (let s = s\<lparr>cqe_next := (cqe_next s)(x := cqe_next s y), cqe_prev := (cqe_prev s)(x := Element y)\<rparr>;
      s = (case b of [] \<Rightarrow> s\<lparr>cqh_last := (cqh_last s)(h := Element x)\<rparr> | z # _ \<Rightarrow> s\<lparr>cqe_prev := (cqe_prev s)(z := Element x)\<rparr>)
      in s\<lparr>cqe_next := (cqe_next s)(y := Element x)\<rparr>)"
  have "CIRCLEQ_INSERT_AFTER h y x s = Some s'"
    using n \<open>x \<noteq> y\<close> by (cases b) (simp_all add: CIRCLEQ_INSERT_AFTER_def s'_def Let_def)
  moreover have "x \<noteq> hd b" if "b \<noteq> []" using assms(2) y that by (cases b) (auto simp: libre_def dest: spec [of _ h])
  then have "circleq_represente s' (L(h := (a @ [y]) @ x # b))"
    by (intro circleq_insertion [OF assms(1,2)])
      (use n y in \<open>cases b; simp add: s'_def Let_def fun_upd_twist; fail\<close>)+
  ultimately show ?thesis by simp
qed

lemma circleq_insert_before:
  assumes "circleq_represente s L" and "libre x L" and y: "L h = a @ y # b"
  shows "\<exists>s'. CIRCLEQ_INSERT_BEFORE h y x s = Some s' \<and> circleq_represente s' (L(h := a @ x # y # b))"
proof -
  have xy: "x \<noteq> y" "x \<notin> set a" using assms(2) y by (auto simp: libre_def dest: spec [of _ h])
  have ya: "y \<notin> set a" using separeesD(1) [of L h] assms(1) y by (simp add: circleq_represente_def)
  note n = circleq_place [OF assms(1) y]
  define s' where "s' = (let s = s\<lparr>cqe_next := (cqe_next s)(x := Element y), cqe_prev := (cqe_prev s)(x := cqe_prev s y)\<rparr>;
      s = (if a = [] then s\<lparr>cqh_first := (cqh_first s)(h := Element x)\<rparr> else s\<lparr>cqe_next := (cqe_next s)(last a := Element x)\<rparr>)
      in s\<lparr>cqe_prev := (cqe_prev s)(y := Element x)\<rparr>)"
  have "CIRCLEQ_INSERT_BEFORE h y x s = Some s'"
    using n xy by (cases a rule: rev_cases) (simp_all add: CIRCLEQ_INSERT_BEFORE_def s'_def Let_def)
  moreover have "circleq_represente s' (L(h := a @ x # y # b))"
    by (rule circleq_insertion [OF assms(1,2), of h a "y # b"])
      (use n y xy ya in \<open>cases a rule: rev_cases; simp add: s'_def Let_def fun_upd_twist; fail\<close>)+
  ultimately show ?thesis by blast
qed

lemma circleq_insert_head:
  assumes "circleq_represente s L" and "libre x L"
  shows "\<exists>s'. CIRCLEQ_INSERT_HEAD h x s = Some s' \<and> circleq_represente s' (L(h := x # L h))"
proof -
  note n = circleq_bouts [OF assms(1), of h]
  define s' where "s' = (let s = s\<lparr>cqe_next := (cqe_next s)(x := cqh_first s h), cqe_prev := (cqe_prev s)(x := Ancre h)\<rparr>;
      s = (case L h of [] \<Rightarrow> s\<lparr>cqh_last := (cqh_last s)(h := Element x)\<rparr> | z # _ \<Rightarrow> s\<lparr>cqe_prev := (cqe_prev s)(z := Element x)\<rparr>)
      in s\<lparr>cqh_first := (cqh_first s)(h := Element x)\<rparr>)"
  have "CIRCLEQ_INSERT_HEAD h x s = Some s'"
    using n by (cases "L h") (auto simp: CIRCLEQ_INSERT_HEAD_def s'_def Let_def noeud_avant_def)
  moreover have "x \<notin> set (L h)" using assms(2) by (simp add: libre_def)
  then have "circleq_represente s' (L(h := [] @ x # L h))"
    by (intro circleq_insertion [OF assms])
      (use n in \<open>cases "L h"; simp add: s'_def Let_def fun_upd_twist; fail\<close>)+
  ultimately show ?thesis by simp
qed

lemma circleq_insert_tail:
  assumes "circleq_represente s L" and "libre x L"
  shows "\<exists>s'. CIRCLEQ_INSERT_TAIL h x s = Some s' \<and> circleq_represente s' (L(h := L h @ [x]))"
proof -
  note n = circleq_bouts [OF assms(1), of h]
  define s' where "s' = (let s = s\<lparr>cqe_next := (cqe_next s)(x := Ancre h), cqe_prev := (cqe_prev s)(x := cqh_last s h)\<rparr>;
      s = (if L h = [] then s\<lparr>cqh_first := (cqh_first s)(h := Element x)\<rparr> else s\<lparr>cqe_next := (cqe_next s)(last (L h) := Element x)\<rparr>)
      in s\<lparr>cqh_last := (cqh_last s)(h := Element x)\<rparr>)"
  have "CIRCLEQ_INSERT_TAIL h x s = Some s'"
    using n by (cases "L h" rule: rev_cases) (auto simp: CIRCLEQ_INSERT_TAIL_def s'_def Let_def noeud_apres_def)
  moreover have "x \<notin> set (L h)" using assms(2) by (simp add: libre_def)
  then have "circleq_represente s' (L(h := L h @ x # []))"
    by (intro circleq_insertion [OF assms])
      (use n in \<open>cases "L h" rule: rev_cases; simp add: s'_def Let_def fun_upd_twist; fail\<close>)+
  ultimately show ?thesis by simp
qed

lemma circleq_remove:
  assumes "circleq_represente s L" and x: "L h = a @ x # b"
  shows "\<exists>s'. CIRCLEQ_REMOVE h x s = Some s' \<and> circleq_represente s' (L(h := a @ b))"
proof -
  have d: "x \<notin> set a" "x \<notin> set b" "set a \<inter> set b = {}"
    using separeesD(1) [of L h] assms by (simp_all add: circleq_represente_def)
  note n = circleq_place [OF assms(1) x]
  define s' where "s' = (let s = (case b of [] \<Rightarrow> s\<lparr>cqh_last := (cqh_last s)(h := cqe_prev s x)\<rparr>
        | z # _ \<Rightarrow> s\<lparr>cqe_prev := (cqe_prev s)(z := cqe_prev s x)\<rparr>)
      in if a = [] then s\<lparr>cqh_first := (cqh_first s)(h := cqe_next s x)\<rparr> else s\<lparr>cqe_next := (cqe_next s)(last a := cqe_next s x)\<rparr>)"
  have "CIRCLEQ_REMOVE h x s = Some s'"
    using n d by (cases b; cases a rule: rev_cases) (auto simp: CIRCLEQ_REMOVE_def s'_def Let_def)
  moreover have "circleq_represente s' (L(h := a @ b))"
    by (rule circleq_retrait [OF assms])
      (use n d in \<open>cases b; cases a rule: rev_cases; simp add: s'_def Let_def; fail\<close>)+
  ultimately show ?thesis by blast
qed

lemma circleq_simule:
  assumes "circleq_represente s L" and "circleq_offerte op" and "permise op L"
  shows "\<exists>s'. circleq_executer op s = Some s' \<and> circleq_represente s' (abstraire op L)"
proof -
  have S: "separees L" using assms(1) by (simp add: circleq_represente_def)
  show ?thesis
  proof (cases op)
    case (Vider h)
    have "circleq_represente (CIRCLEQ_INIT h s) (L(h := []))"
      using assms(1) separees_vider [OF S, of h]
      by (simp add: circleq_represente_def CIRCLEQ_INIT_def Let_def fun_upd_other del: fun_upd_apply) simp
    with Vider show ?thesis by simp
  next
    case (En_tete h x)
    with circleq_insert_head [OF assms(1)] assms(3) show ?thesis by simp
  next
    case (En_queue h x)
    with circleq_insert_tail [OF assms(1)] assms(3) show ?thesis by simp
  next
    case (Apres h y x)
    with assms(3) obtain a b where ab: "L h = a @ y # b" "y \<notin> set a" by (auto elim: place [OF S])
    with circleq_insert_after [OF assms(1) _ ab(1)] assms(3) Apres show ?thesis by (simp add: inserer_apres_milieu)
  next
    case (Avant h y x)
    with assms(3) obtain a b where ab: "L h = a @ y # b" "y \<notin> set a" by (auto elim: place [OF S])
    with circleq_insert_before [OF assms(1) _ ab(1)] assms(3) Avant show ?thesis by (simp add: inserer_avant_milieu)
  next
    case (Retirer h x)
    with assms(3) obtain a b where ab: "L h = a @ x # b" "x \<notin> set a" by (auto elim: place [OF S])
    with circleq_remove [OF assms(1) ab(1)] Retirer show ?thesis by (simp add: remove1_append)
  qed (use assms(2) in auto)
qed

interpretation circleq: file_chainee circleq_executer circleq_represente circleq_offerte
  by unfold_locales (rule circleq_simule)

text \<open> The circular queues of \<open>sys/queue.h\<close>. Starting from empty rings, every sequence of allowed
  operations on any number of rings runs without a fault, and afterwards every head holds the list that the same
  operations on lists give: it is visited in order by \<open>CIRCLEQ_FOREACH\<close> and in the opposite order by
  \<open>CIRCLEQ_FOREACH_REVERSE\<close>, both of which end, and \<open>CIRCLEQ_LOOP_NEXT\<close> and \<open>CIRCLEQ_LOOP_PREV\<close> go round
  it. \<close>

theorem circleq_execution:
  assumes "\<forall>op \<in> set ops. circleq_offerte op" and "permises ops (\<lambda>_. [])"
  shows "\<exists>s. foldM circleq_executer ops CIRCLEQ_HEAD_INITIALIZER = Some s \<and>
    (\<forall>h. let xs = fold abstraire ops (\<lambda>_. []) h; n = length xs in
      CIRCLEQ_FOREACH corps h s a = Some (fold corps xs a) \<and> CIRCLEQ_FOREACH_REVERSE corps h s a = Some (fold corps (rev xs) a) \<and>
      CIRCLEQ_EMPTY h s = (xs = []) \<and>
      (\<forall>i < n. CIRCLEQ_LOOP_NEXT h (xs ! i) s = Element (xs ! ((i + 1) mod n)) \<and>
        CIRCLEQ_LOOP_PREV h (xs ! i) s = Element (xs ! ((i + n - 1) mod n))))"
proof -
  have "circleq_represente CIRCLEQ_HEAD_INITIALIZER (\<lambda>_. [])"
    by (simp add: circleq_represente_def separees_def CIRCLEQ_HEAD_INITIALIZER_def)
  from circleq.simule_suite [OF this assms] obtain s where s: "foldM circleq_executer ops CIRCLEQ_HEAD_INITIALIZER = Some s"
    "circleq_represente s (fold abstraire ops (\<lambda>_. []))" by blast
  have "let xs = L h; n = length xs in
      CIRCLEQ_FOREACH corps h s a = Some (fold corps xs a) \<and> CIRCLEQ_FOREACH_REVERSE corps h s a = Some (fold corps (rev xs) a) \<and>
      CIRCLEQ_EMPTY h s = (xs = []) \<and>
      (\<forall>i < n. CIRCLEQ_LOOP_NEXT h (xs ! i) s = Element (xs ! ((i + 1) mod n)) \<and>
        CIRCLEQ_LOOP_PREV h (xs ! i) s = Element (xs ! ((i + n - 1) mod n)))"
    if "circleq_represente s L" for L h
  proof -
    have l: "lies (case_noeud (cqh_first s) (cqe_next s)) (case_noeud (cqh_last s) (cqe_prev s)) (Ancre h) (L h) (Ancre h)"
      using that by (simp add: circleq_represente_def)
    note b = circleq_bouts [OF that, of h]
    have "CIRCLEQ_FOREACH corps h s a = Some (fold corps (L h) a)"
      using tour_lies [OF l, of "cqe_next s" corps a] by (simp add: CIRCLEQ_FOREACH_def)
    moreover have "CIRCLEQ_FOREACH_REVERSE corps h s a = Some (fold corps (rev (L h)) a)"
      using tour_lies_arriere [of _ _ h "L h" "[]" "Ancre h" "cqe_prev s" corps a] l b(2)
      by (simp add: CIRCLEQ_FOREACH_REVERSE_def)
    moreover have "CIRCLEQ_EMPTY h s = (L h = [])" using b(1) by (cases "L h") (simp_all add: CIRCLEQ_EMPTY_def)
    moreover have "CIRCLEQ_LOOP_NEXT h (L h ! i) s = Element (L h ! ((i + 1) mod length (L h))) \<and>
        CIRCLEQ_LOOP_PREV h (L h ! i) s = Element (L h ! ((i + length (L h) - 1) mod length (L h)))" if i: "i < length (L h)" for i
    proof -
      have ne: "L h \<noteq> []" using i by auto
      have x: "cqe_next s (L h ! i) = (if i + 1 < length (L h) then Element (L h ! (i + 1)) else Ancre h)"
        "cqe_prev s (L h ! i) = (if i = 0 then Ancre h else Element (L h ! (i - 1)))"
        using lies_nth [OF l i] by simp_all
      have "(i + 1) mod length (L h) = (if i + 1 < length (L h) then i + 1 else 0)"
        using i by (cases "i + 1 = length (L h)") auto
      moreover have "(i + length (L h) - 1) mod length (L h) = (if i = 0 then length (L h) - 1 else i - 1)"
        using i by (cases i) auto
      ultimately show ?thesis
        using x b ne by (cases "i = 0") (simp_all add: CIRCLEQ_LOOP_NEXT_def CIRCLEQ_LOOP_PREV_def noeud_avant_def noeud_apres_def hd_conv_nth last_conv_nth)
    qed
    ultimately show ?thesis by (simp add: Let_def)
  qed
  from s(1) this [OF s(2)] show ?thesis by blast
qed

theorem circleq_execution_temoin:
  "\<exists>s. foldM circleq_executer [En_tete 0 1, Apres 0 1 2, En_tete 1 3, En_queue 0 4, Avant 0 4 5, Retirer 0 2] CIRCLEQ_HEAD_INITIALIZER = Some s \<and>
    CIRCLEQ_FOREACH (#) 0 s [] = Some [4, 5, 1] \<and> CIRCLEQ_FOREACH_REVERSE (#) 0 s [] = Some [1, 5, 4]"
proof -
  let ?ops = "[En_tete 0 1, Apres 0 1 2, En_tete 1 3, En_queue 0 4, Avant 0 4 5, Retirer 0 2]"
  have "\<forall>op \<in> set ?ops. circleq_offerte op" and "permises ?ops (\<lambda>_. [])"
    by (simp_all add: libre_def)
  from circleq_execution [OF this, of "(#)" "[]"] show ?thesis
    by (elim exE, rule_tac x = s in exI) (auto simp: Let_def)
qed

end
