(* ===== verification/Adresses.thy ===== *)
theory Adresses
  imports Octets
begin

text \<open>
  The internet addresses of \<open>netinet/in.h\<close>: the classes of IPv4 addresses, taken as integers in
  host order, and the kinds of IPv6 addresses, sixteen bytes that the macros read as four words in
  the byte order of the target.
\<close>

section \<open>IPv4\<close>

type_synonym in_addr_t = "32 word"

definition IN_CLASSA :: "in_addr_t \<Rightarrow> bool" where "IN_CLASSA a \<longleftrightarrow> a AND 0x80000000 = 0"
abbreviation (input) IN_CLASSA_NET :: in_addr_t where "IN_CLASSA_NET \<equiv> 0xff000000"
abbreviation (input) IN_CLASSA_NSHIFT :: nat where "IN_CLASSA_NSHIFT \<equiv> 24"
definition IN_CLASSA_HOST :: in_addr_t where "IN_CLASSA_HOST = 0xffffffff AND NOT IN_CLASSA_NET"
abbreviation (input) IN_CLASSA_MAX :: nat where "IN_CLASSA_MAX \<equiv> 128"

definition IN_CLASSB :: "in_addr_t \<Rightarrow> bool" where "IN_CLASSB a \<longleftrightarrow> a AND 0xc0000000 = 0x80000000"
abbreviation (input) IN_CLASSB_NET :: in_addr_t where "IN_CLASSB_NET \<equiv> 0xffff0000"
abbreviation (input) IN_CLASSB_NSHIFT :: nat where "IN_CLASSB_NSHIFT \<equiv> 16"
definition IN_CLASSB_HOST :: in_addr_t where "IN_CLASSB_HOST = 0xffffffff AND NOT IN_CLASSB_NET"
abbreviation (input) IN_CLASSB_MAX :: nat where "IN_CLASSB_MAX \<equiv> 65536"

definition IN_CLASSC :: "in_addr_t \<Rightarrow> bool" where "IN_CLASSC a \<longleftrightarrow> a AND 0xe0000000 = 0xc0000000"
abbreviation (input) IN_CLASSC_NET :: in_addr_t where "IN_CLASSC_NET \<equiv> 0xffffff00"
abbreviation (input) IN_CLASSC_NSHIFT :: nat where "IN_CLASSC_NSHIFT \<equiv> 8"
definition IN_CLASSC_HOST :: in_addr_t where "IN_CLASSC_HOST = 0xffffffff AND NOT IN_CLASSC_NET"

definition IN_CLASSD :: "in_addr_t \<Rightarrow> bool" where "IN_CLASSD a \<longleftrightarrow> a AND 0xf0000000 = 0xe0000000"
definition IN_MULTICAST :: "in_addr_t \<Rightarrow> bool" where "IN_MULTICAST a \<longleftrightarrow> IN_CLASSD a"
definition IN_EXPERIMENTAL :: "in_addr_t \<Rightarrow> bool" where "IN_EXPERIMENTAL a \<longleftrightarrow> a AND 0xe0000000 = 0xe0000000"
definition IN_BADCLASS :: "in_addr_t \<Rightarrow> bool" where "IN_BADCLASS a \<longleftrightarrow> a AND 0xf0000000 = 0xf0000000"

abbreviation (input) INADDR_ANY :: in_addr_t where "INADDR_ANY \<equiv> 0x00000000"
abbreviation (input) INADDR_BROADCAST :: in_addr_t where "INADDR_BROADCAST \<equiv> 0xffffffff"
abbreviation (input) INADDR_NONE :: in_addr_t where "INADDR_NONE \<equiv> 0xffffffff"
abbreviation (input) IN_LOOPBACKNET :: in_addr_t where "IN_LOOPBACKNET \<equiv> 127"
abbreviation (input) INADDR_LOOPBACK :: in_addr_t where "INADDR_LOOPBACK \<equiv> 0x7f000001"
abbreviation (input) INADDR_UNSPEC_GROUP :: in_addr_t where "INADDR_UNSPEC_GROUP \<equiv> 0xe0000000"
abbreviation (input) INADDR_ALLHOSTS_GROUP :: in_addr_t where "INADDR_ALLHOSTS_GROUP \<equiv> 0xe0000001"
abbreviation (input) INADDR_ALLRTRS_GROUP :: in_addr_t where "INADDR_ALLRTRS_GROUP \<equiv> 0xe0000002"
abbreviation (input) INADDR_MAX_LOCAL_GROUP :: in_addr_t where "INADDR_MAX_LOCAL_GROUP \<equiv> 0xe00000ff"

section \<open>IPv6\<close>

text \<open>The union \<open>in6_addr\<close> through its bytes; \<open>u6_addr32\<close> is the other member.\<close>

type_synonym in6_addr = "8 word list"

definition u6_addr32 :: "in6_addr \<Rightarrow> nat \<Rightarrow> 32 word" where
  "u6_addr32 a i = mot_octets (take 4 (drop (4 * i) a))"

definition IN6ADDR_ANY_INIT :: in6_addr where "IN6ADDR_ANY_INIT = [0,0,0,0,0,0,0,0,0,0,0,0,0,0,0,0]"
definition IN6ADDR_LOOPBACK_INIT :: in6_addr where "IN6ADDR_LOOPBACK_INIT = [0,0,0,0,0,0,0,0,0,0,0,0,0,0,0,1]"

definition IN6_IS_ADDR_UNSPECIFIED :: "in6_addr \<Rightarrow> bool" where
  "IN6_IS_ADDR_UNSPECIFIED a \<longleftrightarrow> u6_addr32 a 0 = 0 \<and> u6_addr32 a 1 = 0 \<and> u6_addr32 a 2 = 0 \<and> u6_addr32 a 3 = 0"

definition IN6_IS_ADDR_LOOPBACK :: "in6_addr \<Rightarrow> bool" where
  "IN6_IS_ADDR_LOOPBACK a \<longleftrightarrow> u6_addr32 a 0 = 0 \<and> u6_addr32 a 1 = 0 \<and> u6_addr32 a 2 = 0 \<and> u6_addr32 a 3 = htonl 1"

definition IN6_IS_ADDR_MULTICAST :: "in6_addr \<Rightarrow> bool" where
  "IN6_IS_ADDR_MULTICAST a \<longleftrightarrow> a ! 0 = 0xff"

definition IN6_IS_ADDR_LINKLOCAL :: "in6_addr \<Rightarrow> bool" where
  "IN6_IS_ADDR_LINKLOCAL a \<longleftrightarrow> u6_addr32 a 0 AND htonl 0xffc00000 = htonl 0xfe800000"

definition IN6_IS_ADDR_SITELOCAL :: "in6_addr \<Rightarrow> bool" where
  "IN6_IS_ADDR_SITELOCAL a \<longleftrightarrow> u6_addr32 a 0 AND htonl 0xffc00000 = htonl 0xfec00000"

definition IN6_IS_ADDR_V4MAPPED :: "in6_addr \<Rightarrow> bool" where
  "IN6_IS_ADDR_V4MAPPED a \<longleftrightarrow> u6_addr32 a 0 = 0 \<and> u6_addr32 a 1 = 0 \<and> u6_addr32 a 2 = htonl 0xffff"

definition IN6_IS_ADDR_V4COMPAT :: "in6_addr \<Rightarrow> bool" where
  "IN6_IS_ADDR_V4COMPAT a \<longleftrightarrow>
     u6_addr32 a 0 = 0 \<and> u6_addr32 a 1 = 0 \<and> u6_addr32 a 2 = 0 \<and> ntohl (u6_addr32 a 3) > 1"

definition IN6_ARE_ADDR_EQUAL :: "in6_addr \<Rightarrow> in6_addr \<Rightarrow> bool" where
  "IN6_ARE_ADDR_EQUAL a b \<longleftrightarrow>
     u6_addr32 a 0 = u6_addr32 b 0 \<and> u6_addr32 a 1 = u6_addr32 b 1 \<and>
     u6_addr32 a 2 = u6_addr32 b 2 \<and> u6_addr32 a 3 = u6_addr32 b 3"

definition IN6_IS_ADDR_MC_NODELOCAL :: "in6_addr \<Rightarrow> bool" where
  "IN6_IS_ADDR_MC_NODELOCAL a \<longleftrightarrow> IN6_IS_ADDR_MULTICAST a \<and> a ! 1 AND 0xf = 0x1"
definition IN6_IS_ADDR_MC_LINKLOCAL :: "in6_addr \<Rightarrow> bool" where
  "IN6_IS_ADDR_MC_LINKLOCAL a \<longleftrightarrow> IN6_IS_ADDR_MULTICAST a \<and> a ! 1 AND 0xf = 0x2"
definition IN6_IS_ADDR_MC_SITELOCAL :: "in6_addr \<Rightarrow> bool" where
  "IN6_IS_ADDR_MC_SITELOCAL a \<longleftrightarrow> IN6_IS_ADDR_MULTICAST a \<and> a ! 1 AND 0xf = 0x5"
definition IN6_IS_ADDR_MC_ORGLOCAL :: "in6_addr \<Rightarrow> bool" where
  "IN6_IS_ADDR_MC_ORGLOCAL a \<longleftrightarrow> IN6_IS_ADDR_MULTICAST a \<and> a ! 1 AND 0xf = 0x8"
definition IN6_IS_ADDR_MC_GLOBAL :: "in6_addr \<Rightarrow> bool" where
  "IN6_IS_ADDR_MC_GLOBAL a \<longleftrightarrow> IN6_IS_ADDR_MULTICAST a \<and> a ! 1 AND 0xf = 0xe"

section \<open>Prefixes\<close>

lemma et_complement_masque: "(x :: 'a::len word) AND NOT (mask n) = push_bit n (drop_bit n x)"
  by (rule bit_word_eqI) (auto simp: bit_simps)

lemma masques_prefixe:
  "0x80000000 = (NOT (mask 31) :: 32 word)" "0xc0000000 = (NOT (mask 30) :: 32 word)"
  "0xe0000000 = (NOT (mask 29) :: 32 word)" "0xf0000000 = (NOT (mask 28) :: 32 word)"
  "0xff000000 = (NOT (mask 24) :: 32 word)" "0xffff0000 = (NOT (mask 16) :: 32 word)"
  "0xffffff00 = (NOT (mask 8) :: 32 word)" "0xffffffff = (NOT (mask 0) :: 32 word)"
  by (simp_all add: mask_eq_exp_minus_1)

lemma prefixe:
  assumes "n < 32" and "c < 2 ^ (32 - n)"
  shows "(x :: 32 word) AND NOT (mask n) = push_bit n (word_of_nat c) \<longleftrightarrow> unat x div 2 ^ n = c"
proof -
  have c: "drop_bit n (push_bit n (word_of_nat c :: 32 word)) = word_of_nat c"
  proof (rule bit_word_eqI)
    fix i assume "i < LENGTH(32)"
    have "\<not> bit c i" if "32 \<le> n + i"
    proof -
      have "(2 :: nat) ^ (32 - n) \<le> 2 ^ i" by (rule power_increasing) (use that in auto)
      then have "c < 2 ^ i" using assms(2) by linarith
      then show ?thesis by (simp add: bit_iff_odd)
    qed
    then show "bit (drop_bit n (push_bit n (word_of_nat c :: 32 word))) i = bit (word_of_nat c :: 32 word) i"
      by (cases "32 \<le> n + i") (auto simp: bit_simps)
  qed
  have "(2 :: nat) ^ (32 - n) \<le> 2 ^ 32" by (rule power_increasing) auto
  then have "c < 2 ^ 32" using assms(2) by linarith
  then have u: "unat (word_of_nat c :: 32 word) = c" by (simp add: unat_of_nat take_bit_nat_eq_self)
  have "x AND NOT (mask n) = push_bit n (word_of_nat c) \<longleftrightarrow> drop_bit n x = word_of_nat c"
  proof
    assume "x AND NOT (mask n) = push_bit n (word_of_nat c)"
    then have "drop_bit n (x AND NOT (mask n)) = word_of_nat c" using c by simp
    moreover have "drop_bit n (x AND NOT (mask n)) = drop_bit n x"
      by (rule bit_word_eqI) (auto simp: bit_simps dest: bit_imp_le_length)
    ultimately show "drop_bit n x = word_of_nat c" by simp
  qed (simp add: et_complement_masque)
  also have "\<dots> \<longleftrightarrow> unat (drop_bit n x) = c" using u by (metis word_unat_eq_iff)
  finally show ?thesis by (simp only: unat_drop_bit_eq drop_bit_eq_div [of n "unat x"])
qed

text \<open> The classes of IPv4 addresses. They are decided by the first part of the address in dotted notation:
  every address is in exactly one of the classes A, B, C, D and the reserved one, and the addresses that
  \<open>IN_EXPERIMENTAL\<close> accepts are those of class D, which are multicast addresses, and the reserved ones. In the
  classes A, B and C the network and host masks split an address without overlap, and the network
  number stays below the maximum of its class; the loopback address, which the client connects to by
  default, is in class A, on the network 127. \<close>

theorem classes_ipv4:
  "(let p = unat a div 2 ^ 24 in
     (IN_CLASSA a \<longleftrightarrow> p < 128) \<and> (IN_CLASSB a \<longleftrightarrow> 128 \<le> p \<and> p < 192) \<and> (IN_CLASSC a \<longleftrightarrow> 192 \<le> p \<and> p < 224) \<and>
     (IN_MULTICAST a \<longleftrightarrow> 224 \<le> p \<and> p < 240) \<and> (IN_BADCLASS a \<longleftrightarrow> 240 \<le> p) \<and> (IN_EXPERIMENTAL a \<longleftrightarrow> 224 \<le> p) \<and> p < 256) \<and>
   a = (a AND IN_CLASSA_NET) OR (a AND IN_CLASSA_HOST) \<and> IN_CLASSA_NET AND IN_CLASSA_HOST = 0 \<and>
   a = (a AND IN_CLASSB_NET) OR (a AND IN_CLASSB_HOST) \<and> IN_CLASSB_NET AND IN_CLASSB_HOST = 0 \<and>
   a = (a AND IN_CLASSC_NET) OR (a AND IN_CLASSC_HOST) \<and> IN_CLASSC_NET AND IN_CLASSC_HOST = 0 \<and>
   (IN_CLASSA a \<longleftrightarrow> unat (drop_bit IN_CLASSA_NSHIFT (a AND IN_CLASSA_NET)) < IN_CLASSA_MAX) \<and>
   IN_CLASSA INADDR_LOOPBACK \<and> drop_bit IN_CLASSA_NSHIFT INADDR_LOOPBACK = IN_LOOPBACKNET"
proof -
  define p where "p = unat a div 2 ^ 24"
  have u: "unat a < 2 ^ 32" using unsigned_less [of a] by simp
  then have p: "p < 256" by (simp add: p_def less_mult_imp_div_less)
  have q: "unat a div 2 ^ 31 = p div 128" "unat a div 2 ^ 30 = p div 64" "unat a div 2 ^ 29 = p div 32" "unat a div 2 ^ 28 = p div 16"
    by (simp_all add: p_def div_mult2_eq [symmetric])
  have c: "IN_CLASSA a \<longleftrightarrow> p div 128 = 0" "IN_CLASSB a \<longleftrightarrow> p div 64 = 2" "IN_CLASSC a \<longleftrightarrow> p div 32 = 6"
    "IN_CLASSD a \<longleftrightarrow> p div 16 = 14" "IN_EXPERIMENTAL a \<longleftrightarrow> p div 32 = 7" "IN_BADCLASS a \<longleftrightarrow> p div 16 = 15"
    using prefixe [of 31 0 a] prefixe [of 30 2 a] prefixe [of 29 6 a] prefixe [of 28 14 a] prefixe [of 29 7 a] prefixe [of 28 15 a]
    by (simp_all add: IN_CLASSA_def IN_CLASSB_def IN_CLASSC_def IN_CLASSD_def IN_EXPERIMENTAL_def IN_BADCLASS_def
        masques_prefixe(1-4) [symmetric] push_bit_eq_mult q [symmetric] del: mask_numeral)
  have h: "IN_CLASSA_HOST = mask 24" "IN_CLASSB_HOST = mask 16" "IN_CLASSC_HOST = mask 8"
    by (simp_all add: IN_CLASSA_HOST_def IN_CLASSB_HOST_def IN_CLASSC_HOST_def mask_eq_exp_minus_1)
  have s: "a = (a AND NOT (mask n)) OR (a AND mask n)" "NOT (mask n) AND mask n = (0 :: 32 word)" for n
    by (rule bit_word_eqI, auto simp: bit_simps)+
  have d: "unat (drop_bit 24 (a AND 0xff000000)) = p"
  proof -
    have "drop_bit 24 (a AND NOT (mask 24)) = drop_bit 24 a"
      by (rule bit_word_eqI) (auto simp: bit_simps dest: bit_imp_le_length)
    then show ?thesis by (simp only: masques_prefixe(5) unat_drop_bit_eq drop_bit_eq_div [of 24 "unat a"] p_def)
  qed
  have "(IN_CLASSA a \<longleftrightarrow> p < 128) \<and> (IN_CLASSB a \<longleftrightarrow> 128 \<le> p \<and> p < 192) \<and> (IN_CLASSC a \<longleftrightarrow> 192 \<le> p \<and> p < 224) \<and>
     (IN_MULTICAST a \<longleftrightarrow> 224 \<le> p \<and> p < 240) \<and> (IN_BADCLASS a \<longleftrightarrow> 240 \<le> p) \<and> (IN_EXPERIMENTAL a \<longleftrightarrow> 224 \<le> p) \<and> p < 256"
    using p unfolding c IN_MULTICAST_def by (intro conjI; arith)
  moreover have "IN_CLASSA a \<longleftrightarrow> p < 128" using p unfolding c by arith
  moreover have "IN_CLASSA INADDR_LOOPBACK \<and> drop_bit IN_CLASSA_NSHIFT INADDR_LOOPBACK = IN_LOOPBACKNET"
    by (simp add: IN_CLASSA_def)
  ultimately show ?thesis
    unfolding h masques_prefixe(5-7) by (simp only: Let_def p_def [symmetric] d [unfolded masques_prefixe(5)] simp_thms s(2) flip: s(1))
qed

section \<open>Kinds of IPv6 addresses\<close>

lemma octets_mot: "length bs = 4 \<Longrightarrow> octets 4 (mot_octets bs) = bs"
proof -
  assume "length bs = 4"
  then obtain b0 b1 b2 b3 where bs: "bs = [b0, b1, b2, b3]" by (auto simp: length_Suc_conv eval_nat_numeral)
  have *: "\<not> bit b n" if "8 \<le> n" for b :: "8 word" and n using that by (simp add: impossible_bit)
  show ?thesis unfolding bs
    by (simp add: octets_def mot_octets_def upt_rec)
      (intro conjI; rule word8_eqI; auto simp: bit_simps * dest: bit_imp_le_length)
qed

lemma octets_et: "octets n (x AND y) = map2 (AND) (octets n x) (octets n y)"
  by (rule nth_equalityI) (auto simp: octets_def intro!: word8_eqI simp: bit_simps)

lemma mot_eq: "length bs = 4 \<Longrightarrow> mot_octets bs = c \<longleftrightarrow> bs = octets 4 c"
  using octets_mot [of bs] mot_octets_octets [of c] by auto

lemma masque_255: "(0xff :: 8 word) = mask 8"
  by (simp add: mask_eq_exp_minus_1)

lemma octets_htonl: "octets 4 (htonl c) = rev (octets 4 c)"
  by (simp add: htonl_def octets_bswap_32)

text \<open>The sixteen bytes as four words of four bytes.\<close>

lemma quatre_mots:
  assumes "length a = 16"
  obtains p q r s where "a = p @ q @ r @ s" and "length p = 4" "length q = 4" "length r = 4" "length s = 4"
    and "u6_addr32 a 0 = mot_octets p" "u6_addr32 a 1 = mot_octets q" "u6_addr32 a 2 = mot_octets r" "u6_addr32 a 3 = mot_octets s"
proof
  show "a = take 4 a @ take 4 (drop 4 a) @ take 4 (drop 8 a) @ drop 12 a"
    using append_take_drop_id [of 4 a] append_take_drop_id [of 4 "drop 4 a"] append_take_drop_id [of 4 "drop 8 a"] by simp
qed (use assms in \<open>simp_all add: u6_addr32_def\<close>)

text \<open> The kinds of IPv6 addresses. The macros of \<open>netinet/in.h\<close>, which read an address as four words
  in the byte order of the machine and compare them with constants in network order, decide the
  documented properties of its sixteen bytes: the unspecified address, the loopback address, the
  link-local and site-local prefixes of ten bits, the mapped and compatible IPv4 addresses, and
  equality. \<close>

theorem genres_ipv6:
  assumes "length a = 16" and "length b = 16"
  shows "(IN6_IS_ADDR_UNSPECIFIED a \<longleftrightarrow> a = IN6ADDR_ANY_INIT) \<and> (IN6_IS_ADDR_LOOPBACK a \<longleftrightarrow> a = IN6ADDR_LOOPBACK_INIT) \<and>
    (IN6_IS_ADDR_LINKLOCAL a \<longleftrightarrow> a ! 0 = 0xfe \<and> a ! 1 AND 0xc0 = 0x80) \<and>
    (IN6_IS_ADDR_SITELOCAL a \<longleftrightarrow> a ! 0 = 0xfe \<and> a ! 1 AND 0xc0 = 0xc0) \<and>
    (IN6_IS_ADDR_V4MAPPED a \<longleftrightarrow> take 12 a = replicate 10 0 @ [0xff, 0xff]) \<and>
    (IN6_IS_ADDR_V4COMPAT a \<longleftrightarrow> take 12 a = replicate 12 0 \<and> drop 12 a \<noteq> [0, 0, 0, 0] \<and> drop 12 a \<noteq> [0, 0, 0, 1]) \<and>
    (IN6_ARE_ADDR_EQUAL a b \<longleftrightarrow> a = b)"
proof -
  obtain p q r s where a: "a = p @ q @ r @ s" "length p = 4" "length q = 4" "length r = 4" "length s = 4"
    "u6_addr32 a 0 = mot_octets p" "u6_addr32 a 1 = mot_octets q" "u6_addr32 a 2 = mot_octets r" "u6_addr32 a 3 = mot_octets s"
    using assms(1) by (rule quatre_mots)
  obtain p' q' r' s' where b: "b = p' @ q' @ r' @ s'" "length p' = 4" "length q' = 4" "length r' = 4" "length s' = 4"
    "u6_addr32 b 0 = mot_octets p'" "u6_addr32 b 1 = mot_octets q'" "u6_addr32 b 2 = mot_octets r'" "u6_addr32 b 3 = mot_octets s'"
    using assms(2) by (rule quatre_mots)
  note m = mot_eq [OF a(2)] mot_eq [OF a(3)] mot_eq [OF a(4)] mot_eq [OF a(5)]
  have z: "octets 4 (0 :: 32 word) = [0, 0, 0, 0]" "octets 4 (htonl 0) = [0, 0, 0, 0]" "octets 4 (htonl 1) = [0, 0, 0, 1]"
    "octets 4 (htonl 0xffff) = [0, 0, 0xff, 0xff]" "octets 4 (htonl 0xffc00000) = [0xff, 0xc0, 0, 0]"
    "octets 4 (htonl 0xfe800000) = [0xfe, 0x80, 0, 0]" "octets 4 (htonl 0xfec00000) = [0xfe, 0xc0, 0, 0]"
    unfolding octets_htonl by (simp_all add: octets_def upt_rec)
  obtain b0 b1 b2 b3 where p: "p = [b0, b1, b2, b3]" using a(2) by (auto simp: length_Suc_conv eval_nat_numeral)
  have pre: "mot_octets p AND htonl 0xffc00000 = c \<longleftrightarrow> [b0, b1 AND 0xc0, 0, 0] = octets 4 c" for c
  proof -
    have "mot_octets p AND htonl 0xffc00000 = c \<longleftrightarrow> octets 4 (mot_octets p AND htonl 0xffc00000) = octets 4 c"
      by (metis octets_inj mot_octets_octets)
    moreover have "b0 AND 0xff = b0" by (rule word8_eqI) (simp add: masque_255 bit_simps)
    ultimately show ?thesis using octets_mot [OF a(2)] by (simp add: octets_et z p)
  qed
  have nt: "ntohl x > 1 \<longleftrightarrow> x \<noteq> htonl 0 \<and> x \<noteq> htonl 1" for x
  proof -
    have "ntohl x > 1 \<longleftrightarrow> ntohl x \<noteq> 0 \<and> ntohl x \<noteq> 1" unfolding word_less_nat_alt word_unat_eq_iff by (simp, linarith)
    then show ?thesis by (metis htonl_def ntohl_def bswap_bswap(2))
  qed
  have t: "take 12 a = p @ q @ r" "drop 12 a = s" using a(1-5) by simp_all
  obtain b4 b5 b6 b7 where q: "q = [b4, b5, b6, b7]" using a(3) by (auto simp: length_Suc_conv eval_nat_numeral)
  obtain b8 b9 ba bb where r: "r = [b8, b9, ba, bb]" using a(4) by (auto simp: length_Suc_conv eval_nat_numeral)
  obtain bc bd be bf where s: "s = [bc, bd, be, bf]" using a(5) by (auto simp: length_Suc_conv eval_nat_numeral)
  have rep: "replicate 10 (0 :: 8 word) = [0,0,0,0,0,0,0,0,0,0]" "replicate 12 (0 :: 8 word) = [0,0,0,0,0,0,0,0,0,0,0,0]"
    by (simp_all add: eval_nat_numeral)
  have "IN6_IS_ADDR_UNSPECIFIED a \<longleftrightarrow> a = IN6ADDR_ANY_INIT" "IN6_IS_ADDR_LOOPBACK a \<longleftrightarrow> a = IN6ADDR_LOOPBACK_INIT"
    unfolding IN6_IS_ADDR_UNSPECIFIED_def IN6_IS_ADDR_LOOPBACK_def a(6-9) m z IN6ADDR_ANY_INIT_def IN6ADDR_LOOPBACK_INIT_def
    by (auto simp: a(1) p q r s)
  moreover have "IN6_IS_ADDR_LINKLOCAL a \<longleftrightarrow> a ! 0 = 0xfe \<and> a ! 1 AND 0xc0 = 0x80"
    "IN6_IS_ADDR_SITELOCAL a \<longleftrightarrow> a ! 0 = 0xfe \<and> a ! 1 AND 0xc0 = 0xc0"
    unfolding IN6_IS_ADDR_LINKLOCAL_def IN6_IS_ADDR_SITELOCAL_def a(6) pre z by (simp_all add: a(1) p)
  moreover have "IN6_IS_ADDR_V4MAPPED a \<longleftrightarrow> take 12 a = replicate 10 0 @ [0xff, 0xff]"
    unfolding IN6_IS_ADDR_V4MAPPED_def a(6-8) m z t rep by (auto simp: p q r)
  moreover have "IN6_IS_ADDR_V4COMPAT a \<longleftrightarrow> take 12 a = replicate 12 0 \<and> drop 12 a \<noteq> [0, 0, 0, 0] \<and> drop 12 a \<noteq> [0, 0, 0, 1]"
    unfolding IN6_IS_ADDR_V4COMPAT_def a(6-9) nt m z t rep by (auto simp: p q r)
  moreover have "IN6_ARE_ADDR_EQUAL a b \<longleftrightarrow> a = b"
    unfolding IN6_ARE_ADDR_EQUAL_def a(6-9) b(6-9) m octets_mot [OF b(2)] octets_mot [OF b(3)] octets_mot [OF b(4)] octets_mot [OF b(5)]
    using a(2-5) b(2-5) by (simp add: a(1) b(1))
  ultimately show ?thesis by blast
qed

theorem genres_ipv6_temoin:
  "IN6_IS_ADDR_LOOPBACK IN6ADDR_LOOPBACK_INIT \<and> \<not> IN6_ARE_ADDR_EQUAL IN6ADDR_LOOPBACK_INIT IN6ADDR_ANY_INIT \<and>
   IN6_IS_ADDR_V4MAPPED [0,0,0,0,0,0,0,0,0,0,0xff,0xff,127,0,0,1]"
proof -
  have l: "length IN6ADDR_LOOPBACK_INIT = 16" "length IN6ADDR_ANY_INIT = 16" "length [0,0,0,0,0,0,0,0,0,0,0xff,0xff,127,0,0,1 :: 8 word] = 16"
    by (simp_all add: IN6ADDR_LOOPBACK_INIT_def IN6ADDR_ANY_INIT_def)
  have "IN6ADDR_LOOPBACK_INIT \<noteq> IN6ADDR_ANY_INIT" by (simp add: IN6ADDR_LOOPBACK_INIT_def IN6ADDR_ANY_INIT_def)
  with genres_ipv6 [OF l(1,2)] genres_ipv6 [OF l(3,2)] show ?thesis by (simp add: eval_nat_numeral)
qed

end
