(* ===== verification/Systeme.thy ===== *)
theory Systeme
  imports Octets Fdset
begin

text \<open>
  Small operations of the C library headers of the target: the arithmetic on \<open>struct timeval\<close> of
  \<open>sys/time.h\<close>, the device numbers of \<open>sys/sysmacros.h\<close>, the conversions of \<open>stdlib.h\<close> beside \<open>atoi\<close>,
  and the sets of signals of \<open>bits/sigset.h\<close>, which satisfy the same contract as the sets of
  descriptors of \<^theory_text>\<open>Fdset\<close>.
\<close>

section \<open>Times\<close>

text \<open>A \<open>struct timeval\<close>: seconds and microseconds, two \<open>long int\<close> of 32 bits on the target; an
  operation that leaves their range is \<^term>\<open>None\<close>.\<close>

type_synonym timeval = "int \<times> int"

definition timerisset :: "timeval \<Rightarrow> bool" where
  "timerisset t \<longleftrightarrow> fst t \<noteq> 0 \<or> snd t \<noteq> 0"

definition timerclear :: timeval where
  "timerclear = (0, 0)"

definition timercmp :: "timeval \<Rightarrow> timeval \<Rightarrow> (int \<Rightarrow> int \<Rightarrow> bool) \<Rightarrow> bool" where
  "timercmp a b CMP = (if fst a = fst b then CMP (snd a) (snd b) else CMP (fst a) (fst b))"

definition timeradd :: "timeval \<Rightarrow> timeval \<Rightarrow> timeval option" where
  "timeradd a b = do {
     s \<leftarrow> c_int (fst a + fst b);
     u \<leftarrow> c_int (snd a + snd b);
     if u \<ge> 1000000 then do {
       s \<leftarrow> c_int (s + 1);
       u \<leftarrow> c_int (u - 1000000);
       Some (s, u)
     }
     else Some (s, u)
   }"

definition timersub :: "timeval \<Rightarrow> timeval \<Rightarrow> timeval option" where
  "timersub a b = do {
     s \<leftarrow> c_int (fst a - fst b);
     u \<leftarrow> c_int (snd a - snd b);
     if u < 0 then do {
       s \<leftarrow> c_int (s - 1);
       u \<leftarrow> c_int (u + 1000000);
       Some (s, u)
     }
     else Some (s, u)
   }"

definition microsecondes :: "timeval \<Rightarrow> int" where
  "microsecondes t = fst t * 1000000 + snd t"

definition temps_normal :: "timeval \<Rightarrow> bool" where
  "temps_normal t \<longleftrightarrow> 0 \<le> snd t \<and> snd t < 1000000"

text \<open> Times. On normalised times whose sum and difference in seconds fit, \<open>timeradd\<close> and \<open>timersub\<close> add
  and subtract the durations and normalise the result, subtracting what was added gives the time
  back, \<open>timercmp\<close> compares the durations, also for the order relations with equality, and
  \<open>timerisset\<close> says whether the duration is not zero. \<close>

theorem temps_arithmetique:
  assumes "temps_normal a" and "temps_normal b"
    and "\<bar>fst a\<bar> < 2 ^ 29" and "\<bar>fst b\<bar> < 2 ^ 29"
  shows "(\<exists>r. timeradd a b = Some r \<and> temps_normal r \<and> microsecondes r = microsecondes a + microsecondes b \<and> timersub r b = Some a) \<and>
    (\<exists>r. timersub a b = Some r \<and> temps_normal r \<and> microsecondes r = microsecondes a - microsecondes b) \<and>
    timercmp a b (<) = (microsecondes a < microsecondes b) \<and> timercmp a b (\<le>) = (microsecondes a \<le> microsecondes b) \<and>
    timercmp a b (\<noteq>) = (a \<noteq> b) \<and> timerisset a = (microsecondes a \<noteq> 0)"
proof -
  obtain s u where a: "a = (s, u)" by fastforce
  obtain s' u' where b: "b = (s', u')" by fastforce
  have r: "0 \<le> u" "u < 1000000" "0 \<le> u'" "u' < 1000000" "\<bar>s\<bar> < 2 ^ 29" "\<bar>s'\<bar> < 2 ^ 29"
    using assms by (simp_all add: temps_normal_def a b)
  have add: "timeradd a b = Some (if u + u' \<ge> 1000000 then (s + s' + 1, u + u' - 1000000) else (s + s', u + u'))"
    using r by (auto simp: timeradd_def a b c_int_def c_int_ok_def)
  have sub: "timersub a b = Some (if u - u' < 0 then (s - s' - 1, u - u' + 1000000) else (s - s', u - u'))"
    using r by (auto simp: timersub_def a b c_int_def c_int_ok_def)
  have "\<exists>r. timeradd a b = Some r \<and> temps_normal r \<and> microsecondes r = microsecondes a + microsecondes b \<and> timersub r b = Some a"
    using r unfolding add by (auto simp: temps_normal_def microsecondes_def timersub_def a b c_int_def c_int_ok_def)
  moreover have "\<exists>r. timersub a b = Some r \<and> temps_normal r \<and> microsecondes r = microsecondes a - microsecondes b"
    using r unfolding sub by (auto simp: temps_normal_def microsecondes_def a b)
  moreover have "timercmp a b (<) = (microsecondes a < microsecondes b)" "timercmp a b (\<le>) = (microsecondes a \<le> microsecondes b)"
    using r by (auto simp: timercmp_def microsecondes_def a b)
  moreover have "timercmp a b (\<noteq>) = (a \<noteq> b)" by (auto simp: timercmp_def a b)
  moreover have "timerisset a = (microsecondes a \<noteq> 0)" 
  proof -
    have "s * 1000000 + u \<noteq> 0" if "s \<noteq> 0" using r(1,2) that by (cases "s < 0") linarith+
    then show ?thesis by (auto simp: timerisset_def microsecondes_def a)
  qed
  ultimately show ?thesis by blast
qed

theorem temps_arithmetique_temoin:
  "timeradd (1, 900000) (0, 200000) = Some (2, 100000) \<and> timersub (2, 100000) (0, 200000) = Some (1, 900000) \<and>
   timercmp (1, 900000) (0, 200000) (\<le>) = False"
proof -
  have "timeradd (1, 900000) (0, 200000) = Some (2, 100000)" by (simp add: timeradd_def c_int_def c_int_ok_def)
  with temps_arithmetique [of "(1, 900000)" "(0, 200000)"] show ?thesis
    by (simp add: temps_normal_def microsecondes_def)
qed

section \<open>Device numbers\<close>

definition gnu_dev_major :: "64 word \<Rightarrow> 32 word" where
  "gnu_dev_major dev = ucast ((drop_bit 8 dev AND 0xfff) OR ucast ((ucast (drop_bit 32 dev) :: 32 word) AND NOT 0xfff))"

definition gnu_dev_minor :: "64 word \<Rightarrow> 32 word" where
  "gnu_dev_minor dev = ucast ((dev AND 0xff) OR ucast ((ucast (drop_bit 12 dev) :: 32 word) AND NOT 0xff))"

definition gnu_dev_makedev :: "32 word \<Rightarrow> 32 word \<Rightarrow> 64 word" where
  "gnu_dev_makedev major minor =
     ucast ((minor AND 0xff) OR push_bit 8 (major AND 0xfff)) OR
     push_bit 12 (ucast (minor AND NOT 0xff)) OR push_bit 32 (ucast (major AND NOT 0xfff))"

lemma masques_dev:
  "(0xff :: 32 word) = mask 8" "(0xfff :: 32 word) = mask 12" "(0xff :: 64 word) = mask 8" "(0xfff :: 64 word) = mask 12"
  by (simp_all add: mask_eq_exp_minus_1)

lemma bit_major: "bit (gnu_dev_major d) n \<longleftrightarrow> n < 32 \<and> (if n < 12 then bit d (n + 8) else bit d (n + 32))"
  unfolding gnu_dev_major_def masques_dev by (cases "n < 12") (auto simp: bit_simps add.commute simp del: mask_numeral)

lemma bit_minor: "bit (gnu_dev_minor d) n \<longleftrightarrow> n < 32 \<and> (if n < 8 then bit d n else bit d (n + 12))"
  unfolding gnu_dev_minor_def masques_dev by (cases "n < 8") (auto simp: bit_simps add.commute simp del: mask_numeral)

lemma bit_makedev:
  "bit (gnu_dev_makedev ma mi) n \<longleftrightarrow> n < 64 \<and> (if n < 8 then bit mi n else if n < 20 then bit ma (n - 8)
     else if n < 44 then bit mi (n - 12) else bit ma (n - 32))"
proof -
  consider "n < 8" | "8 \<le> n" "n < 20" | "20 \<le> n" "n < 44" | "44 \<le> n" by linarith
  then show ?thesis
    unfolding gnu_dev_makedev_def masques_dev
    by cases (auto simp: bit_simps impossible_bit simp del: mask_numeral)
qed

text \<open> Device numbers. Making a device number of a major and a minor number and splitting it again gives both
  back, and every 64 bit device number is made of its two parts. \<close>

theorem numeros_peripherique:
  "gnu_dev_major (gnu_dev_makedev ma mi) = ma \<and> gnu_dev_minor (gnu_dev_makedev ma mi) = mi \<and>
   gnu_dev_makedev (gnu_dev_major d) (gnu_dev_minor d) = d"
proof (intro conjI; rule bit_word_eqI)
  fix n
  show "bit (gnu_dev_major (gnu_dev_makedev ma mi)) n = bit ma n" if "n < LENGTH(32)"
    using that by (cases "n < 12") (simp_all add: bit_major bit_makedev)
  show "bit (gnu_dev_minor (gnu_dev_makedev ma mi)) n = bit mi n" if "n < LENGTH(32)"
    using that by (cases "n < 8") (simp_all add: bit_minor bit_makedev)
  show "bit (gnu_dev_makedev (gnu_dev_major d) (gnu_dev_minor d)) n = bit d n" if "n < LENGTH(64)"
  proof -
    consider "n < 8" | "8 \<le> n" "n < 20" | "20 \<le> n" "n < 44" | "44 \<le> n" by linarith
    then show ?thesis using that by cases (auto simp: bit_major bit_minor bit_makedev)
  qed
qed

section \<open>Sets of signals\<close>

abbreviation (input) SIGSET_NWORDS :: nat where "SIGSET_NWORDS \<equiv> 1024 div (8 * 4)"

record sigset =
  sig_val :: "32 word list"

text \<open>\<open>sig - 1\<close> is an \<open>int\<close>; the division and the remainder by \<open>8 * sizeof (unsigned long int)\<close> are unsigned.\<close>

definition sigmask :: "int \<Rightarrow> 32 word option" where
  "sigmask sig = do {
     k \<leftarrow> c_int (sig - 1);
     Some (push_bit (nat ((k mod 2 ^ 32) mod 32)) 1)
   }"

definition sigword :: "int \<Rightarrow> nat option" where
  "sigword sig = do {
     k \<leftarrow> c_int (sig - 1);
     Some (nat ((k mod 2 ^ 32) div 32))
   }"

definition sigemptyset :: "sigset \<Rightarrow> sigset" where
  "sigemptyset s = fold (\<lambda>i s. s\<lparr>sig_val := (sig_val s)[i := 0]\<rparr>) (rev [0..<SIGSET_NWORDS]) s"

definition sigfillset :: "sigset \<Rightarrow> sigset" where
  "sigfillset s = fold (\<lambda>i s. s\<lparr>sig_val := (sig_val s)[i := NOT 0]\<rparr>) (rev [0..<SIGSET_NWORDS]) s"

primrec mot_depuis :: "32 word list \<Rightarrow> nat \<Rightarrow> 32 word" where
  "mot_depuis v 0 = v ! 0"
| "mot_depuis v (Suc n) = (if v ! Suc n = 0 then mot_depuis v n else v ! Suc n)"

definition sigisemptyset :: "sigset \<Rightarrow> bool" where
  "sigisemptyset s \<longleftrightarrow> mot_depuis (sig_val s) (SIGSET_NWORDS - 1) = 0"

definition sigandset :: "sigset \<Rightarrow> sigset \<Rightarrow> sigset \<Rightarrow> sigset" where
  "sigandset dest left right =
     fold (\<lambda>i s. s\<lparr>sig_val := (sig_val s)[i := sig_val left ! i AND sig_val right ! i]\<rparr>) (rev [0..<SIGSET_NWORDS]) dest"

definition sigorset :: "sigset \<Rightarrow> sigset \<Rightarrow> sigset \<Rightarrow> sigset" where
  "sigorset dest left right =
     fold (\<lambda>i s. s\<lparr>sig_val := (sig_val s)[i := sig_val left ! i OR sig_val right ! i]\<rparr>) (rev [0..<SIGSET_NWORDS]) dest"

definition sig_mot :: "sigset \<Rightarrow> nat \<Rightarrow> 32 word option" where
  "sig_mot s i = (if i < length (sig_val s) then Some (sig_val s ! i) else None)"

definition sigismember :: "int \<Rightarrow> sigset \<Rightarrow> bool option" where
  "sigismember sig s = do {
     mask \<leftarrow> sigmask sig;
     word \<leftarrow> sigword sig;
     m \<leftarrow> sig_mot s word;
     Some (m AND mask \<noteq> 0)
   }"

definition sigaddset :: "int \<Rightarrow> sigset \<Rightarrow> sigset option" where
  "sigaddset sig s = do {
     mask \<leftarrow> sigmask sig;
     word \<leftarrow> sigword sig;
     m \<leftarrow> sig_mot s word;
     Some (s\<lparr>sig_val := (sig_val s)[word := m OR mask]\<rparr>)
   }"

definition sigdelset :: "int \<Rightarrow> sigset \<Rightarrow> sigset option" where
  "sigdelset sig s = do {
     mask \<leftarrow> sigmask sig;
     word \<leftarrow> sigword sig;
     m \<leftarrow> sig_mot s word;
     Some (s\<lparr>sig_val := (sig_val s)[word := m AND NOT mask]\<rparr>)
   }"

text \<open>
  A set of signals is a set of descriptors with the numbers shifted by one: the two headers lay out the same
  bits, by signed arithmetic there and unsigned arithmetic here.
\<close>

definition fd_de_sig :: "sigset \<Rightarrow> fd_set" where
  "fd_de_sig s = \<lparr>fds_bits = sig_val s\<rparr>"

definition sig_ok :: "sigset \<Rightarrow> bool" where
  "sig_ok s \<longleftrightarrow> length (sig_val s) = 32"

definition sig_borne :: "int \<Rightarrow> bool" where
  "sig_borne sig \<longleftrightarrow> 1 \<le> sig \<and> sig \<le> 1024"

definition signaux :: "sigset \<Rightarrow> int set" where
  "signaux s = {sig. sig - 1 \<in> descripteurs (fd_de_sig s)}"

lemma fd_de_sig_ok [simp]: "fd_set_ok (fd_de_sig s) \<longleftrightarrow> sig_ok s"
  by (simp add: fd_de_sig_def fd_set_ok_def sig_ok_def)

lemma sig_borne_fd: "sig_borne sig \<longleftrightarrow> fd_borne (sig - 1)"
  by (auto simp: sig_borne_def fd_borne_def)

lemma sig_hors_borne:
  assumes "sig_ok s" and "\<not> sig_borne sig"
  shows "sigword sig = None \<or> (\<exists>i. sigword sig = Some i \<and> sig_mot s i = None)"
proof (cases "c_int_ok (sig - 1)")
  case True
  have "32 \<le> (sig - 1) mod 2 ^ 32 div 32"
  proof (cases "1 \<le> sig")
    case pos: True
    then have "(sig - 1) mod 2 ^ 32 = sig - 1" using True by (simp add: c_int_ok_def)
    with assms(2) pos show ?thesis by (simp add: sig_borne_def)
  next
    case False
    have "(sig - 1 + 2 ^ 32) mod 2 ^ 32 = sig - 1 + 2 ^ 32"
      by (rule mod_pos_pos_trivial) (use False True in \<open>simp_all add: c_int_ok_def\<close>)
    then have "(sig - 1) mod 2 ^ 32 = sig - 1 + 2 ^ 32" using mod_add_self2 [of "sig - 1" "2 ^ 32"] by metis
    moreover have "1024 \<le> sig - 1 + 2 ^ 32" using True by (simp add: c_int_ok_def)
    then have "1024 div 32 \<le> (sig - 1 + 2 ^ 32) div 32" by (rule zdiv_mono1) simp
    ultimately show ?thesis by simp
  qed
  with True assms(1) show ?thesis by (simp add: sigword_def sig_mot_def sig_ok_def le_nat_iff c_int_def)
qed (simp add: sigword_def c_int_def)

lemma sig_dans_borne:
  assumes "sig_ok s" and "sig_borne sig"
  shows "sigmask sig = FDMASK (sig - 1)" "sigword sig = Some (nat (FDELT (sig - 1)))" "0 \<le> FDELT (sig - 1)"
    "sig_mot s (nat (FDELT (sig - 1))) = fd_mot (fd_de_sig s) (FDELT (sig - 1))"
proof -
  have b: "fd_borne (sig - 1)" and o: "fd_set_ok (fd_de_sig s)" using assms by (simp_all add: sig_borne_fd)
  note f = fd_mot_borne [OF o b]
  have m: "(sig - 1) mod 2 ^ 32 = sig - 1" "c_int_ok (sig - 1)" "0 \<le> sig - 1"
    using assms(2) by (simp_all add: sig_borne_def c_int_ok_def)
  show "sigmask sig = FDMASK (sig - 1)" "sigword sig = Some (nat (FDELT (sig - 1)))"
    unfolding f(2,4) sigmask_def sigword_def using m by (simp_all add: c_int_def)
  show p: "0 \<le> FDELT (sig - 1)" using f(4) m(3) by (simp add: pos_imp_zdiv_nonneg_iff)
  show "sig_mot s (nat (FDELT (sig - 1))) = fd_mot (fd_de_sig s) (FDELT (sig - 1))"
    using p by (simp add: sig_mot_def fd_mot_def fd_de_sig_def)
qed

lemma sig_fd:
  assumes "sig_ok s"
  shows "map_option fd_de_sig (sigaddset sig s) = FD_SET (sig - 1) (fd_de_sig s)"
    "map_option fd_de_sig (sigdelset sig s) = FD_CLR (sig - 1) (fd_de_sig s)"
    "sigismember sig s = FD_ISSET (sig - 1) (fd_de_sig s)"
proof -
  consider "sig_borne sig" | "\<not> sig_borne sig" by blast
  then have "map_option fd_de_sig (sigaddset sig s) = FD_SET (sig - 1) (fd_de_sig s) \<and>
    map_option fd_de_sig (sigdelset sig s) = FD_CLR (sig - 1) (fd_de_sig s) \<and>
    sigismember sig s = FD_ISSET (sig - 1) (fd_de_sig s)"
  proof cases
    case 1
    note d = sig_dans_borne [OF assms 1]
    show ?thesis
      unfolding sigaddset_def sigdelset_def sigismember_def FD_SET_def FD_CLR_def FD_ISSET_def d
      by (cases "fd_mot (fd_de_sig s) (FDELT (sig - 1))"; cases "FDMASK (sig - 1)")
        (simp_all add: d(2,4) fd_de_sig_def)
  next
    case 2
    with fds.hors_borne [of "fd_de_sig s" "sig - 1"] sig_hors_borne [OF assms 2] assms show ?thesis
      by (auto simp: sig_borne_fd sigaddset_def sigdelset_def sigismember_def split: Option.bind_splits)
  qed
  then show "map_option fd_de_sig (sigaddset sig s) = FD_SET (sig - 1) (fd_de_sig s)"
    "map_option fd_de_sig (sigdelset sig s) = FD_CLR (sig - 1) (fd_de_sig s)"
    "sigismember sig s = FD_ISSET (sig - 1) (fd_de_sig s)" by blast+
qed

lemma boucle_mots:
  assumes "length v = n"
  shows "fold (\<lambda>i l. l[i := f i]) (rev [0..<n]) v = map f [0..<n]"
proof -
  have "fold (\<lambda>i l. l[i := f i]) (rev [0..<k]) v = map f [0..<k] @ drop k v" if "k \<le> length v" for k v
    using that
  proof (induction k arbitrary: v)
    case (Suc k)
    then have "drop k (v[k := f k]) = f k # drop (Suc k) v"
      using Cons_nth_drop_Suc [of k "v[k := f k]"] by simp
    with Suc show ?case by simp
  qed simp
  from this [of n v] assms show ?thesis by simp
qed

lemma sig_boucle:
  assumes "sig_ok s"
  shows "sig_val (fold (\<lambda>i s. s\<lparr>sig_val := (sig_val s)[i := f i]\<rparr>) (rev [0..<32]) s) = map f [0..<32]"
proof -
  have "sig_val (fold (\<lambda>i s. s\<lparr>sig_val := (sig_val s)[i := f i]\<rparr>) xs s) = fold (\<lambda>i l. l[i := f i]) xs (sig_val s)" for xs s
    by (induction xs arbitrary: s) auto
  from trans [OF this boucle_mots] assms show ?thesis by (simp only: sig_ok_def)
qed

lemma sig_boucles:
  assumes "sig_ok s"
  shows "sig_val (sigemptyset s) = replicate 32 0" "sig_val (sigfillset s) = replicate 32 (NOT 0)"
    "sig_val (sigandset s l r) = map (\<lambda>i. sig_val l ! i AND sig_val r ! i) [0..<32]"
    "sig_val (sigorset s l r) = map (\<lambda>i. sig_val l ! i OR sig_val r ! i) [0..<32]"
  using sig_boucle [OF assms]
  by (simp_all add: sigemptyset_def sigfillset_def sigandset_def sigorset_def map_replicate_const del: upt_eq_Cons_conv)

lemma sig_vide: "mot_depuis v n = 0 \<longleftrightarrow> (\<forall>i \<le> n. v ! i = 0)"
  by (induction n) (auto simp: le_Suc_eq)

interpretation signaux: ensemble_borne sig_ok sig_borne signaux sigemptyset sigaddset sigdelset sigismember
proof
  fix s sig
  assume s: "sig_ok s"
  then have f: "fd_set_ok (fd_de_sig s)" by simp
  have "fd_de_sig (sigemptyset s) = FD_ZERO (fd_de_sig s)"
    using sig_boucles(1) [OF s] fd_zero [OF f] by (simp add: fd_de_sig_def)
  then show "sig_ok (sigemptyset s) \<and> signaux (sigemptyset s) = {}"
    using fds.vider_bon [OF f] by (simp add: signaux_def flip: fd_de_sig_ok)
  note o = sig_fd [OF s, of sig]
  show "sigaddset sig s = None \<and> sigdelset sig s = None \<and> sigismember sig s = None" if "\<not> sig_borne sig"
    using fds.hors_borne [OF f, of "sig - 1"] that unfolding sig_borne_fd o(3) o(1,2) [symmetric] by simp
  assume "sig_borne sig"
  then have b: "fd_borne (sig - 1)" by (simp add: sig_borne_fd)
  have e: "x - 1 = sig - 1 \<longleftrightarrow> x = sig" for x by auto
  show "\<exists>s'. sigaddset sig s = Some s' \<and> sig_ok s' \<and> signaux s' = insert sig (signaux s)"
    using fds.ajouter_bon [OF f b] unfolding o(1) [symmetric] by (auto simp: signaux_def e)
  show "\<exists>s'. sigdelset sig s = Some s' \<and> sig_ok s' \<and> signaux s' = signaux s - {sig}"
    using fds.enlever_bon [OF f b] unfolding o(2) [symmetric] by (auto simp: signaux_def e)
  show "sigismember sig s = Some (sig \<in> signaux s)"
    using fds.present_bon [OF f b] unfolding o(3) by (simp add: signaux_def)
qed

lemma dans_signaux: "sig_ok s \<Longrightarrow> sig \<in> signaux s \<longleftrightarrow>
    sig_borne sig \<and> bit (sig_val s ! nat ((sig - 1) div 32)) (nat ((sig - 1) mod 32))"
  by (simp add: signaux_def descripteurs_def fd_de_sig_def sig_borne_fd)

text \<open> Sets of signals. On the signals 1 to 1024 adding, removing and testing one signal act as on a set, and on any
  other number they leave the array; filling gives all of them, the intersection and the union of two sets are
  what their names say, and a set is found empty exactly when it has no signal. \<close>

theorem ensembles_signaux:
  assumes "length (sig_val s) = 32" and "length (sig_val l) = 32" and "length (sig_val r) = 32"
  shows "(if 1 \<le> sig \<and> sig \<le> 1024 then
        (\<exists>s'. sigaddset sig s = Some s' \<and> signaux s' = insert sig (signaux s)) \<and>
        (\<exists>s'. sigdelset sig s = Some s' \<and> signaux s' = signaux s - {sig}) \<and> sigismember sig s = Some (sig \<in> signaux s)
      else sigaddset sig s = None \<and> sigdelset sig s = None \<and> sigismember sig s = None) \<and>
    signaux (sigemptyset s) = {} \<and> signaux (sigfillset s) = {1..1024} \<and>
    signaux (sigandset s l r) = signaux l \<inter> signaux r \<and> signaux (sigorset s l r) = signaux l \<union> signaux r \<and>
    sigisemptyset s = (signaux s = {})"
proof -
  have o: "sig_ok s" "sig_ok l" "sig_ok r" using assms by (simp_all add: sig_ok_def)
  have n: "nat ((x - 1) div 32) < 32" "nat ((x - 1) mod 32) < 32" if "sig_borne x" for x
    using that by (auto simp: sig_borne_def nat_less_iff)
  have k: "sig_ok (sigfillset s)" "sig_ok (sigandset s l r)" "sig_ok (sigorset s l r)"
    by (simp_all add: sig_ok_def sig_boucles [OF o(1)])
  have "signaux (sigfillset s) = {1..1024}"
    using n by (auto simp: dans_signaux [OF k(1)] sig_boucles [OF o(1)] sig_borne_def)
  moreover have "signaux (sigandset s l r) = signaux l \<inter> signaux r" "signaux (sigorset s l r) = signaux l \<union> signaux r"
    using n by (auto simp: dans_signaux [OF k(2)] dans_signaux [OF k(3)] dans_signaux [OF o(2)] dans_signaux [OF o(3)]
        sig_boucles [OF o(1)] bit_and_iff bit_or_iff)
  moreover have "sigisemptyset s = (signaux s = {})"
  proof
    assume "sigisemptyset s"
    then have "sig_val s ! i = 0" if "i < 32" for i using that by (simp add: sigisemptyset_def sig_vide)
    with n show "signaux s = {}" by (auto simp: dans_signaux [OF o(1)])
  next
    assume e: "signaux s = {}"
    have "sig_val s ! i = 0" if "i < 32" for i
    proof (rule bit_word_eqI)
      fix j assume "j < LENGTH(32)"
      then have j: "j < 32" by simp
      define x where "x = int (32 * i + j) + 1"
      have "sig_borne x" "nat ((x - 1) div 32) = i" "nat ((x - 1) mod 32) = j"
        using that j by (simp_all add: x_def sig_borne_def nat_div_distrib nat_mod_distrib flip: of_nat_add of_nat_mult)
      with e show "bit (sig_val s ! i) j = bit 0 j" using dans_signaux [OF o(1), of x] by auto
    qed
    then show "sigisemptyset s" by (simp add: sigisemptyset_def sig_vide)
  qed
  moreover have "if 1 \<le> sig \<and> sig \<le> 1024 then
        (\<exists>s'. sigaddset sig s = Some s' \<and> signaux s' = insert sig (signaux s)) \<and>
        (\<exists>s'. sigdelset sig s = Some s' \<and> signaux s' = signaux s - {sig}) \<and> sigismember sig s = Some (sig \<in> signaux s)
      else sigaddset sig s = None \<and> sigdelset sig s = None \<and> sigismember sig s = None"
    using signaux.ajouter_bon [OF o(1), of sig] signaux.enlever_bon [OF o(1), of sig] signaux.present_bon [OF o(1), of sig]
      signaux.hors_borne [OF o(1), of sig]
    by (cases "1 \<le> sig \<and> sig \<le> 1024") (auto simp: sig_borne_def)
  ultimately show ?thesis using signaux.vider_bon [OF o(1)] by blast
qed

theorem ensembles_signaux_temoin:
  "let s = \<lparr>sig_val = replicate 32 0\<rparr> in
    (\<exists>s'. sigaddset 15 s = Some s' \<and> signaux s' = {15}) \<and> sigaddset 0 s = None \<and> sigisemptyset s"
proof -
  define s where "s = \<lparr>sig_val = replicate 32 (0 :: 32 word)\<rparr>"
  have l: "length (sig_val s) = 32" by (simp add: s_def)
  have e: "sigisemptyset s" by (simp add: sigisemptyset_def sig_vide s_def)
  from ensembles_signaux [OF l l l, of 15] ensembles_signaux [OF l l l, of 0] e show ?thesis
    by (simp add: Let_def flip: s_def)
qed

end
