(* ===== verification/Caracteres.thy ===== *)
theory Caracteres
  imports Segment7
begin

unbundle bit_operations_syntax

text \<open>
  \<open>linux/map_to_7segment.h\<close> of the target: the conversion of characters into the segments to light.
  The driver of \<open>lib/my_7_segment.c\<close> has a table of its own for the ten digits; the theory models the
  two character sets of the header and shows that the digits of the driver are those of both, that
  every entry of the tables stands at the place of its character, and which set keeps the hexadecimal
  digits apart.
\<close>

section \<open>The segments\<close>

abbreviation (input) BIT_SEG7_A :: nat where "BIT_SEG7_A \<equiv> 0"
abbreviation (input) BIT_SEG7_B :: nat where "BIT_SEG7_B \<equiv> 1"
abbreviation (input) BIT_SEG7_C :: nat where "BIT_SEG7_C \<equiv> 2"
abbreviation (input) BIT_SEG7_D :: nat where "BIT_SEG7_D \<equiv> 3"
abbreviation (input) BIT_SEG7_E :: nat where "BIT_SEG7_E \<equiv> 4"
abbreviation (input) BIT_SEG7_F :: nat where "BIT_SEG7_F \<equiv> 5"
abbreviation (input) BIT_SEG7_G :: nat where "BIT_SEG7_G \<equiv> 6"
abbreviation (input) BIT_SEG7_RESERVED :: nat where "BIT_SEG7_RESERVED \<equiv> 7"

record seg7_conversion_map =
  seg7_table :: "int list"

text \<open>The size of the member \<open>table\<close>, and the error number of \<open>asm-generic/errno-base.h\<close>.\<close>

abbreviation (input) sizeof_table :: int where "sizeof_table \<equiv> 128"
abbreviation (input) EINVAL :: int where "EINVAL \<equiv> 22"

definition map_to_seg7 :: "seg7_conversion_map \<Rightarrow> int \<Rightarrow> int" where
  "map_to_seg7 m c = (if c \<ge> 0 \<and> c < sizeof_table then seg7_table m ! nat c else - EINVAL)"

text \<open>
  \<open>SEG7_CONVERSION_MAP\<close>: the initialiser of an array of 128 \<open>unsigned char\<close>; C sets what is missing to 0.
\<close>

definition SEG7_CONVERSION_MAP :: "int list \<Rightarrow> seg7_conversion_map" where
  "SEG7_CONVERSION_MAP m = \<lparr>seg7_table = map (\<lambda>x. x mod 256) m @ replicate (128 - length m) 0\<rparr>"

text \<open>
  \<open>_SEG7\<close> ignores its first argument, the character. The lists of the header are macros, taken here
  as functions of \<open>_SEG7\<close>: the tables are their value for \<open>SEG7\<close>, and the characters written in them
  their value for another function.
\<close>

type_synonym 'a seg7 = "char \<Rightarrow> int \<Rightarrow> int \<Rightarrow> int \<Rightarrow> int \<Rightarrow> int \<Rightarrow> int \<Rightarrow> int \<Rightarrow> 'a"

definition SEG7 :: "int seg7" where
  "SEG7 l a b c d e f g =
     push_bit BIT_SEG7_A a OR push_bit BIT_SEG7_B b OR push_bit BIT_SEG7_C c OR push_bit BIT_SEG7_D d OR
     push_bit BIT_SEG7_E e OR push_bit BIT_SEG7_F f OR push_bit BIT_SEG7_G g"

section \<open>The lists\<close>

definition MAP_0_32_ASCII_SEG7_NON_PRINTABLE :: "int list" where
  "MAP_0_32_ASCII_SEG7_NON_PRINTABLE =
     [0,0,0,0,0,0,0,0,0,0,0,0,0,0,0,0,0,0,0,0,0,0,0,0,0,0,0,0,0,0,0,0,0]"

definition MAP_33_47_ASCII_SEG7_SYMBOL :: "'a seg7 \<Rightarrow> 'a list" where
  "MAP_33_47_ASCII_SEG7_SYMBOL s =
     [s (CHR ''!'') 0 0 0 0 1 1 0, s (CHR 0x22) 0 1 0 0 0 1 0, s (CHR ''#'') 0 1 1 0 1 1 0,
      s (CHR ''$'') 1 0 1 1 0 1 1, s (CHR ''%'') 0 0 1 0 0 1 0, s (CHR ''&'') 1 0 1 1 1 1 1,
      s (CHR 0x27) 0 0 0 0 0 1 0, s (CHR ''('') 1 0 0 1 1 1 0, s (CHR '')'') 1 1 1 1 0 0 0,
      s (CHR ''*'') 0 1 1 0 1 1 1, s (CHR ''+'') 0 1 1 0 0 0 1, s (CHR '','') 0 0 0 0 1 0 0,
      s (CHR ''-'') 0 0 0 0 0 0 1, s (CHR ''.'') 0 0 0 0 1 0 0, s (CHR ''/'') 0 1 0 0 1 0 1]"

definition MAP_48_57_ASCII_SEG7_NUMERIC :: "'a seg7 \<Rightarrow> 'a list" where
  "MAP_48_57_ASCII_SEG7_NUMERIC s =
     [s (CHR ''0'') 1 1 1 1 1 1 0, s (CHR ''1'') 0 1 1 0 0 0 0, s (CHR ''2'') 1 1 0 1 1 0 1,
      s (CHR ''3'') 1 1 1 1 0 0 1, s (CHR ''4'') 0 1 1 0 0 1 1, s (CHR ''5'') 1 0 1 1 0 1 1,
      s (CHR ''6'') 1 0 1 1 1 1 1, s (CHR ''7'') 1 1 1 0 0 0 0, s (CHR ''8'') 1 1 1 1 1 1 1,
      s (CHR ''9'') 1 1 1 1 0 1 1]"

definition MAP_58_64_ASCII_SEG7_SYMBOL :: "'a seg7 \<Rightarrow> 'a list" where
  "MAP_58_64_ASCII_SEG7_SYMBOL s =
     [s (CHR '':'') 0 0 0 1 0 0 1, s (CHR '';'') 0 0 0 1 0 0 1, s (CHR ''<'') 1 0 0 0 0 1 1,
      s (CHR ''='') 0 0 0 1 0 0 1, s (CHR ''>'') 1 1 0 0 0 0 1, s (CHR ''?'') 1 1 1 0 0 1 0,
      s (CHR ''@'') 1 1 0 1 1 1 1]"

definition MAP_65_90_ASCII_SEG7_ALPHA_UPPR :: "'a seg7 \<Rightarrow> 'a list" where
  "MAP_65_90_ASCII_SEG7_ALPHA_UPPR s =
     [s (CHR ''A'') 1 1 1 0 1 1 1, s (CHR ''B'') 1 1 1 1 1 1 1, s (CHR ''C'') 1 0 0 1 1 1 0,
      s (CHR ''D'') 1 1 1 1 1 1 0, s (CHR ''E'') 1 0 0 1 1 1 1, s (CHR ''F'') 1 0 0 0 1 1 1,
      s (CHR ''G'') 1 1 1 1 0 1 1, s (CHR ''H'') 0 1 1 0 1 1 1, s (CHR ''I'') 0 1 1 0 0 0 0,
      s (CHR ''J'') 0 1 1 1 0 0 0, s (CHR ''K'') 0 1 1 0 1 1 1, s (CHR ''L'') 0 0 0 1 1 1 0,
      s (CHR ''M'') 1 1 1 0 1 1 0, s (CHR ''N'') 1 1 1 0 1 1 0, s (CHR ''O'') 1 1 1 1 1 1 0,
      s (CHR ''P'') 1 1 0 0 1 1 1, s (CHR ''Q'') 1 1 1 1 1 1 0, s (CHR ''R'') 1 1 1 0 1 1 1,
      s (CHR ''S'') 1 0 1 1 0 1 1, s (CHR ''T'') 0 0 0 1 1 1 1, s (CHR ''U'') 0 1 1 1 1 1 0,
      s (CHR ''V'') 0 1 1 1 1 1 0, s (CHR ''W'') 0 1 1 1 1 1 1, s (CHR ''X'') 0 1 1 0 1 1 1,
      s (CHR ''Y'') 0 1 1 0 0 1 1, s (CHR ''Z'') 1 1 0 1 1 0 1]"

definition MAP_91_96_ASCII_SEG7_SYMBOL :: "'a seg7 \<Rightarrow> 'a list" where
  "MAP_91_96_ASCII_SEG7_SYMBOL s =
     [s (CHR ''['') 1 0 0 1 1 1 0, s (CHR 0x5C) 0 0 1 0 0 1 1, s (CHR '']'') 1 1 1 1 0 0 0,
      s (CHR ''^'') 1 1 0 0 0 1 0, s (CHR ''_'') 0 0 0 1 0 0 0, s (CHR 0x60) 0 1 0 0 0 0 0]"

definition MAP_97_122_ASCII_SEG7_ALPHA_LOWER :: "'a seg7 \<Rightarrow> 'a list" where
  "MAP_97_122_ASCII_SEG7_ALPHA_LOWER s =
     [s (CHR ''A'') 1 1 1 0 1 1 1, s (CHR ''b'') 0 0 1 1 1 1 1, s (CHR ''c'') 0 0 0 1 1 0 1,
      s (CHR ''d'') 0 1 1 1 1 0 1, s (CHR ''E'') 1 0 0 1 1 1 1, s (CHR ''F'') 1 0 0 0 1 1 1,
      s (CHR ''G'') 1 1 1 1 0 1 1, s (CHR ''h'') 0 0 1 0 1 1 1, s (CHR ''i'') 0 0 1 0 0 0 0,
      s (CHR ''j'') 0 0 1 1 0 0 0, s (CHR ''k'') 0 0 1 0 1 1 1, s (CHR ''L'') 0 0 0 1 1 1 0,
      s (CHR ''M'') 1 1 1 0 1 1 0, s (CHR ''n'') 0 0 1 0 1 0 1, s (CHR ''o'') 0 0 1 1 1 0 1,
      s (CHR ''P'') 1 1 0 0 1 1 1, s (CHR ''q'') 1 1 1 0 0 1 1, s (CHR ''r'') 0 0 0 0 1 0 1,
      s (CHR ''S'') 1 0 1 1 0 1 1, s (CHR ''T'') 0 0 0 1 1 1 1, s (CHR ''u'') 0 0 1 1 1 0 0,
      s (CHR ''v'') 0 0 1 1 1 0 0, s (CHR ''W'') 0 1 1 1 1 1 1, s (CHR ''X'') 0 1 1 0 1 1 1,
      s (CHR ''y'') 0 1 1 1 0 1 1, s (CHR ''Z'') 1 1 0 1 1 0 1]"

definition MAP_123_126_ASCII_SEG7_SYMBOL :: "'a seg7 \<Rightarrow> 'a list" where
  "MAP_123_126_ASCII_SEG7_SYMBOL s =
     [s (CHR ''{'') 1 0 0 1 1 1 0, s (CHR ''|'') 0 0 0 0 1 1 0, s (CHR ''}'') 1 1 1 1 0 0 0,
      s (CHR ''~'') 1 0 0 0 0 0 0]"

definition MAP_ASCII7SEG_ALPHANUM :: "int list" where
  "MAP_ASCII7SEG_ALPHANUM =
     MAP_0_32_ASCII_SEG7_NON_PRINTABLE @
     MAP_33_47_ASCII_SEG7_SYMBOL SEG7 @
     MAP_48_57_ASCII_SEG7_NUMERIC SEG7 @
     MAP_58_64_ASCII_SEG7_SYMBOL SEG7 @
     MAP_65_90_ASCII_SEG7_ALPHA_UPPR SEG7 @
     MAP_91_96_ASCII_SEG7_SYMBOL SEG7 @
     MAP_97_122_ASCII_SEG7_ALPHA_LOWER SEG7 @
     MAP_123_126_ASCII_SEG7_SYMBOL SEG7"

definition MAP_ASCII7SEG_ALPHANUM_LC :: "int list" where
  "MAP_ASCII7SEG_ALPHANUM_LC =
     MAP_0_32_ASCII_SEG7_NON_PRINTABLE @
     MAP_33_47_ASCII_SEG7_SYMBOL SEG7 @
     MAP_48_57_ASCII_SEG7_NUMERIC SEG7 @
     MAP_58_64_ASCII_SEG7_SYMBOL SEG7 @
     MAP_97_122_ASCII_SEG7_ALPHA_LOWER SEG7 @
     MAP_91_96_ASCII_SEG7_SYMBOL SEG7 @
     MAP_97_122_ASCII_SEG7_ALPHA_LOWER SEG7 @
     MAP_123_126_ASCII_SEG7_SYMBOL SEG7"

definition SEG7_DEFAULT_MAP :: seg7_conversion_map where
  "SEG7_DEFAULT_MAP = SEG7_CONVERSION_MAP MAP_ASCII7SEG_ALPHANUM"

lemmas listes_seg7 = MAP_0_32_ASCII_SEG7_NON_PRINTABLE_def MAP_33_47_ASCII_SEG7_SYMBOL_def
  MAP_48_57_ASCII_SEG7_NUMERIC_def MAP_58_64_ASCII_SEG7_SYMBOL_def MAP_65_90_ASCII_SEG7_ALPHA_UPPR_def
  MAP_91_96_ASCII_SEG7_SYMBOL_def MAP_97_122_ASCII_SEG7_ALPHA_LOWER_def MAP_123_126_ASCII_SEG7_SYMBOL_def

section \<open>The conversion\<close>

text \<open>The conversion of an initialised map, on every argument.\<close>

lemma map_to_seg7_cas:
  assumes "length m \<le> 128"
  shows "map_to_seg7 (SEG7_CONVERSION_MAP m) c =
    (if c < 0 \<or> 128 \<le> c then - EINVAL else if c < int (length m) then m ! nat c mod 256 else 0)"
  using assms by (auto simp: map_to_seg7_def SEG7_CONVERSION_MAP_def nth_append nat_less_iff)

lemma longueurs_seg7:
  "length MAP_ASCII7SEG_ALPHANUM = 127" "length MAP_ASCII7SEG_ALPHANUM_LC = 127"
  by (simp_all add: MAP_ASCII7SEG_ALPHANUM_def MAP_ASCII7SEG_ALPHANUM_LC_def listes_seg7)

text \<open>The entries, one by one: what the kernel evaluates of the two sets.\<close>

definition sept_bits :: "int \<Rightarrow> bool" where "sept_bits x \<longleftrightarrow> 0 \<le> x \<and> x < 128"

lemma entrees_seg7:
  "list_all sept_bits MAP_ASCII7SEG_ALPHANUM" "list_all sept_bits MAP_ASCII7SEG_ALPHANUM_LC"
  by (code_simp, code_simp)

lemma entree_seg7:
  assumes "m = MAP_ASCII7SEG_ALPHANUM \<or> m = MAP_ASCII7SEG_ALPHANUM_LC" and "0 \<le> c" "c < 127"
  shows "map_to_seg7 (SEG7_CONVERSION_MAP m) c = m ! nat c" "0 \<le> m ! nat c" "m ! nat c < 128"
proof -
  have l: "length m = 127" using assms(1) longueurs_seg7 by blast
  have "list_all sept_bits m" using assms(1) entrees_seg7 by blast
  then have "sept_bits (m ! nat c)" unfolding list_all_length l using assms(2,3) by simp
  then show "0 \<le> m ! nat c" "m ! nat c < 128" by (simp_all add: sept_bits_def)
  then show "map_to_seg7 (SEG7_CONVERSION_MAP m) c = m ! nat c"
    using assms(2,3) l by (simp add: map_to_seg7_cas)
qed

text \<open>The digits of both sets.\<close>

lemma chiffres_seg7:
  "list_all (\<lambda>d. MAP_ASCII7SEG_ALPHANUM ! (48 + d) = DIGIT_SEGMENTS ! d \<and>
     MAP_ASCII7SEG_ALPHANUM_LC ! (48 + d) = DIGIT_SEGMENTS ! d) [0..<10]"
  by code_simp

lemma chiffre_seg7:
  assumes "m = MAP_ASCII7SEG_ALPHANUM \<or> m = MAP_ASCII7SEG_ALPHANUM_LC" and "0 \<le> d" "d < 10"
  shows "map_to_seg7 (SEG7_CONVERSION_MAP m) (of_char CHR ''0'' + d) = DIGIT_SEGMENTS ! nat d"
proof -
  have "m ! (48 + nat d) = DIGIT_SEGMENTS ! nat d" using chiffres_seg7 assms by (auto simp: list_all_iff)
  with entree_seg7(1) [OF assms(1), of "48 + d"] assms(2,3) show ?thesis by (simp add: nat_add_distrib)
qed

section \<open>Properties\<close>

text \<open> The driver of the display and the header of the kernel light the same segments for a digit:
  what \<open>segment7_ecrire_chiffre\<close> puts in the buffer at its position, the decimal point apart, is what
  \<open>map_to_seg7\<close> answers for the character of the digit, with the default map and with the other set. \<close>

theorem chiffres_communs:
  assumes "octets_ok (display_buffer w)" and "0 \<le> p" "p < MAX_DIGITS" "0 \<le> v" "v \<le> 9"
  shows "display_buffer (segment7_ecrire_chiffre p v w) ! (POSITION_MAP ! nat p) AND 0x7F =
      map_to_seg7 SEG7_DEFAULT_MAP (of_char CHR ''0'' + v)"
    and "display_buffer (segment7_ecrire_chiffre p v w) ! (POSITION_MAP ! nat p) AND 0x7F =
      map_to_seg7 (SEG7_CONVERSION_MAP MAP_ASCII7SEG_ALPHANUM_LC) (of_char CHR ''0'' + v)"
  using segment7_ecrire_chiffre_position [OF assms] chiffre_seg7 [of _ v] assms(4,5)
  by (simp_all add: Let_def SEG7_DEFAULT_MAP_def)

theorem chiffres_communs_temoin:
  "display_buffer (segment7_ecrire_chiffre 2 7 etat_segment7) ! 3 AND 0x7F = map_to_seg7 SEG7_DEFAULT_MAP (of_char CHR ''7'')"
  using chiffres_communs(1) [OF coherentD(2) [OF coherent_exemple], of 2 7] by (simp add: POSITION_MAP_def)

text \<open> The answers of \<open>map_to_seg7\<close>: \<open>-EINVAL\<close> exactly outside the table, seven bits inside it, nothing
  lit for the control characters, the space and the last code, which the sets leave out. \<close>

theorem map_to_seg7_bornes:
  assumes "m = MAP_ASCII7SEG_ALPHANUM \<or> m = MAP_ASCII7SEG_ALPHANUM_LC"
  defines "r \<equiv> map_to_seg7 (SEG7_CONVERSION_MAP m)"
  shows "(r c = - EINVAL \<longleftrightarrow> c < 0 \<or> 128 \<le> c) \<and> (r c \<noteq> - EINVAL \<longrightarrow> 0 \<le> r c \<and> r c < 128) \<and>
    (0 \<le> c \<and> c \<le> of_char CHR '' '' \<or> c = 127 \<longrightarrow> r c = 0)"
proof -
  have l: "length m = 127" using assms(1) longueurs_seg7 by blast
  have "r c = 0" if "0 \<le> c" "c \<le> 32"
  proof -
    have "m ! nat c = 0"
      using assms(1) that by (auto simp: MAP_ASCII7SEG_ALPHANUM_def MAP_ASCII7SEG_ALPHANUM_LC_def nth_append
          MAP_0_32_ASCII_SEG7_NON_PRINTABLE_def nth_Cons split: nat.splits)
    with entree_seg7(1) [OF assms(1), of c] that show ?thesis by (simp add: r_def)
  qed
  moreover have "r c = - EINVAL" if "c < 0 \<or> 128 \<le> c" using that l by (simp add: r_def map_to_seg7_cas)
  moreover have "r 127 = 0" using l by (simp add: r_def map_to_seg7_cas)
  moreover have "0 \<le> r c \<and> r c < 128" if "0 \<le> c" "c < 127"
    using entree_seg7 [OF assms(1) that] by (simp add: r_def)
  moreover have "(c < 0 \<or> 128 \<le> c) \<or> (0 \<le> c \<and> c < 127) \<or> c = 127" by linarith
  ultimately show ?thesis by (elim disjE) auto
qed

theorem map_to_seg7_bornes_temoin: "map_to_seg7 (SEG7_CONVERSION_MAP MAP_ASCII7SEG_ALPHANUM_LC) 128 = -22"
  using map_to_seg7_bornes [of MAP_ASCII7SEG_ALPHANUM_LC 128] by simp

text \<open> Every entry stands at the place of its character: the characters written in the lists, in their
  order, are those of the codes 33 to 126, small and capital letters taken as one. \<close>

definition caracteres_seg7 :: "char list \<Rightarrow> char list" where
  "caracteres_seg7 lettres = (let c = \<lambda>l a b c d e f g. l in
     MAP_33_47_ASCII_SEG7_SYMBOL c @ MAP_48_57_ASCII_SEG7_NUMERIC c @ MAP_58_64_ASCII_SEG7_SYMBOL c @ lettres @
     MAP_91_96_ASCII_SEG7_SYMBOL c @ MAP_97_122_ASCII_SEG7_ALPHA_LOWER c @ MAP_123_126_ASCII_SEG7_SYMBOL c)"

definition code_capitale :: "nat \<Rightarrow> nat" where
  "code_capitale n = (if 97 \<le> n \<and> n \<le> 122 then n - 32 else n)"

theorem caracteres_a_leur_place:
  "map (code_capitale \<circ> of_char) (caracteres_seg7 (MAP_65_90_ASCII_SEG7_ALPHA_UPPR (\<lambda>l a b c d e f g. l))) = map code_capitale [33..<127]"
  "map (code_capitale \<circ> of_char) (caracteres_seg7 (MAP_97_122_ASCII_SEG7_ALPHA_LOWER (\<lambda>l a b c d e f g. l))) = map code_capitale [33..<127]"
  by (simp_all add: caracteres_seg7_def listes_seg7 Let_def code_capitale_def upt_rec)

text \<open> The second set shows small and capital letters alike and, as its comment says, serves for
  hexadecimal numbers: their sixteen capital digits light sixteen different sets of segments; with the
  default map B looks like 8 and D like 0. \<close>

theorem chiffres_hexadecimaux:
  "distinct (map (map_to_seg7 (SEG7_CONVERSION_MAP MAP_ASCII7SEG_ALPHANUM_LC)) (map of_char ''0123456789ABCDEF''))"
  "\<forall>c \<in> set (map of_char ''ABCDEFGHIJKLMNOPQRSTUVWXYZ''). map_to_seg7 (SEG7_CONVERSION_MAP MAP_ASCII7SEG_ALPHANUM_LC) (c + 32) =
     map_to_seg7 (SEG7_CONVERSION_MAP MAP_ASCII7SEG_ALPHANUM_LC) c"
  "map_to_seg7 SEG7_DEFAULT_MAP (of_char CHR ''B'') = map_to_seg7 SEG7_DEFAULT_MAP (of_char CHR ''8'')"
  "map_to_seg7 SEG7_DEFAULT_MAP (of_char CHR ''D'') = map_to_seg7 SEG7_DEFAULT_MAP (of_char CHR ''0'')"
  by code_simp+

end
