(* ===== verification/Adressage.thy ===== *)
theory Adressage
  imports "HOL-Library.Word"
begin

unbundle bit_operations_syntax

text \<open>
  Words as sizes and addresses: rounding to a multiple of a power of two with a mask, and values that
  fit in fewer bits. What the messages of \<open>tipc_config.h\<close> and the rings of \<open>virtio_ring.h\<close> share.
\<close>

lemma masque_multiple:
  fixes x :: "'a::len word"
  shows "unat (x AND NOT (mask n)) = unat x div 2 ^ n * 2 ^ n"
proof -
  have "x AND NOT (mask n) = push_bit n (drop_bit n x)"
    by (rule bit_word_eqI) (auto simp: bit_simps not_less)
  moreover have "unat (push_bit n (drop_bit n x)) = take_bit LENGTH('a) (unat x div 2 ^ n * 2 ^ n)"
    unfolding unsigned_push_bit_eq unat_drop_bit_eq by (simp add: push_bit_eq_mult drop_bit_eq_div)
  moreover have "unat x div 2 ^ n * 2 ^ n < 2 ^ LENGTH('a)"
    by (rule le_less_trans [OF div_times_less_eq_dividend]) (rule unsigned_less)
  ultimately show ?thesis by (simp only: take_bit_nat_eq_self)
qed

lemma take_bit_petit: "unat x < 2 ^ n \<Longrightarrow> take_bit n x = x"
  by (simp add: word_unat_eq_iff unsigned_take_bit_eq take_bit_nat_eq_self)

lemma unat_16_32: "unat (ucast (y :: 16 word) :: 32 word) = unat y"
proof -
  have "unat y < 2 ^ 16" using unsigned_less [of y] by simp
  then have "take_bit 32 (unat y) = unat y" by (simp add: take_bit_nat_eq_self)
  then show ?thesis by (simp add: unsigned_ucast_eq)
qed

lemma seize_bits:
  fixes x :: "32 word"
  assumes "unat x < 2 ^ 16"
  shows "unat (ucast x :: 16 word) = unat x" and "(ucast (ucast x :: 16 word) :: 32 word) = x"
proof -
  show u: "unat (ucast x :: 16 word) = unat x" using assms by (simp add: unsigned_ucast_eq take_bit_nat_eq_self)
  have "unat (ucast (ucast x :: 16 word) :: 32 word) = unat x" unfolding unat_16_32 by (rule u)
  then show "(ucast (ucast x :: 16 word) :: 32 word) = x" by (simp only: word_unat_eq_iff)
qed

end
