(* ===== verification/Vring.thy ===== *)
theory Vring
  imports Adressage
begin

unbundle bit_operations_syntax

text \<open>
  \<open>linux/virtio_ring.h\<close> of the target: the places of the three parts of a ring shared with a device,
  and the test that tells whether the other side waits for an event. Addresses and sizes are words of
  32 bits, the indices of the ring words of 16 bits that wrap around.
\<close>

section \<open>The ring\<close>

record vring_desc =
  vd_addr :: "64 word"
  vd_len :: "32 word"
  vd_flags :: "16 word"
  vd_next :: "16 word"

record vring_used_elem =
  vu_id :: "32 word"
  vu_len :: "32 word"

text \<open>The sizes of the structures: of a descriptor, of an element, and the places of the open arrays.\<close>

abbreviation (input) sizeof_vring_desc :: "32 word" where "sizeof_vring_desc \<equiv> 16"
abbreviation (input) sizeof_vring_used_elem :: "32 word" where "sizeof_vring_used_elem \<equiv> 8"
abbreviation (input) sizeof_u16 :: "32 word" where "sizeof_u16 \<equiv> 2"
abbreviation (input) offset_ring :: "32 word" where "offset_ring \<equiv> 4"

record vring =
  vr_num :: "32 word"
  vr_desc :: "32 word"
  vr_avail :: "32 word"
  vr_used :: "32 word"

text \<open>The addresses of \<open>avail->ring[i]\<close> and \<open>used->ring[i]\<close>, and of the two event indices.\<close>

definition avail_ring :: "vring \<Rightarrow> 32 word \<Rightarrow> 32 word" where
  "avail_ring vr i = vr_avail vr + offset_ring + i * sizeof_u16"

definition used_ring :: "vring \<Rightarrow> 32 word \<Rightarrow> 32 word" where
  "used_ring vr i = vr_used vr + offset_ring + i * sizeof_vring_used_elem"

definition vring_used_event :: "vring \<Rightarrow> 32 word" where
  "vring_used_event vr = avail_ring vr (vr_num vr)"

definition vring_avail_event :: "vring \<Rightarrow> 32 word" where
  "vring_avail_event vr = used_ring vr (vr_num vr)"

definition vring_init :: "32 word \<Rightarrow> 32 word \<Rightarrow> 32 word \<Rightarrow> vring \<Rightarrow> vring" where
  "vring_init num p align vr =
     (let vr = vr\<lparr>vr_num := num\<rparr>;
          vr = vr\<lparr>vr_desc := p\<rparr>;
          vr = vr\<lparr>vr_avail := p + num * sizeof_vring_desc\<rparr>
      in vr\<lparr>vr_used := (avail_ring vr num + sizeof_u16 + align - 1) AND NOT (align - 1)\<rparr>)"

definition vring_size :: "32 word \<Rightarrow> 32 word \<Rightarrow> 32 word" where
  "vring_size num align =
     ((sizeof_vring_desc * num + sizeof_u16 * (3 + num) + align - 1) AND NOT (align - 1)) +
     sizeof_u16 * 3 + sizeof_vring_used_elem * num"

text \<open>The operands are promoted to \<open>int\<close> and cut back to 16 bits.\<close>

definition vring_need_event :: "16 word \<Rightarrow> 16 word \<Rightarrow> 16 word \<Rightarrow> bool" where
  "vring_need_event event_idx new_idx old \<longleftrightarrow> new_idx - event_idx - 1 < new_idx - old"

section \<open>Properties\<close>

text \<open> When an event is due. After the index has moved from \<open>old\<close> to \<open>new_idx\<close>, around 65536 or not,
  \<open>vring_need_event\<close> answers yes exactly when the index waited for is one of those passed over: \<open>old\<close>
  itself or one of the next, up to the one before \<open>new_idx\<close>. \<close>

theorem vring_evenement_attendu:
  "vring_need_event event_idx new_idx old \<longleftrightarrow> (\<exists>k < unat (new_idx - old). event_idx = old + of_nat k)"
proof -
  define d where "d = new_idx - old"
  define k where "k = event_idx - old"
  have e: "new_idx - event_idx - 1 = d - (k + 1)" by (simp add: d_def k_def)
  have "vring_need_event event_idx new_idx old \<longleftrightarrow> d - (k + 1) < d"
    by (simp add: vring_need_event_def e flip: d_def)
  also have "\<dots> \<longleftrightarrow> unat k < unat d"
  proof -
    define K D where "K = uint k" and "D = uint d"
    have b: "0 \<le> K" "K < 65536" "0 \<le> D" "D < 65536"
      using unsigned_less [of k] unsigned_less [of d] by (simp_all add: K_def D_def)
    have "uint (d - (k + 1)) = (D - (K + 1)) mod 65536" by (simp add: uint_word_ariths mod_simps K_def D_def)
    moreover have "(D - (K + 1)) mod 65536 < D \<longleftrightarrow> K < D"
    proof (cases "K < D")
      case True
      with b have "(D - (K + 1)) mod 65536 = D - (K + 1)" by (intro mod_pos_pos_trivial) simp_all
      with True b show ?thesis by simp
    next
      case False
      have "(D - (K + 1)) mod 65536 = (D - (K + 1) + 65536) mod 65536" by (rule mod_add_self2 [symmetric])
      also have "\<dots> = D - (K + 1) + 65536" using False b by (intro mod_pos_pos_trivial) simp_all
      finally show ?thesis using False b by simp
    qed
    ultimately have "d - (k + 1) < d \<longleftrightarrow> K < D" by (simp add: word_less_def flip: D_def)
    also have "\<dots> \<longleftrightarrow> unat k < unat d" by (simp add: K_def D_def word_less_nat_alt flip: word_less_def)
    finally show ?thesis .
  qed
  also have "\<dots> \<longleftrightarrow> (\<exists>j < unat d. event_idx = old + of_nat j)"
  proof
    assume "unat k < unat d"
    then show "\<exists>j < unat d. event_idx = old + of_nat j"
      by (intro exI [of _ "unat k"]) (simp add: k_def)
  next
    assume "\<exists>j < unat d. event_idx = old + of_nat j"
    then obtain j where j: "j < unat d" "k = of_nat j" by (auto simp: k_def)
    have "unat k \<le> j" unfolding j(2) by (simp add: unsigned_of_nat take_bit_nat_less_eq_self)
    with j(1) show "unat k < unat d" by simp
  qed
  finally show ?thesis by (simp add: d_def)
qed

theorem vring_evenement_attendu_temoin: "vring_need_event 0xFFFF 1 0xFFFE \<and> \<not> vring_need_event 1 1 0xFFFE"
proof
  show "vring_need_event 0xFFFF 1 0xFFFE"
    unfolding vring_evenement_attendu by (rule exI [of _ 1]) simp
  show "\<not> vring_need_event 1 1 0xFFFE"
    by (simp add: vring_need_event_def)
qed

text \<open> \<open>vring_size\<close> is the size of what \<open>vring_init\<close> lays out. For a ring of at most 32768 descriptors
  in a block of that size at an aligned address, within the memory, the descriptors come first, the
  available ring and its event index end before the used ring, less than one alignment away; the used
  ring is aligned, and its event index ends where the block does. \<close>

theorem vring_disposition:
  fixes num p align :: "32 word" and avant :: vring
  assumes "align = 2 ^ j" "j < 16" and "unat num \<le> 32768" and "unat p mod 2 ^ j = 0"
    and "unat p + unat (vring_size num align) < 2 ^ 32"
  defines "vr \<equiv> vring_init num p align avant"
  shows "vr_num vr = num \<and> vr_desc vr = p \<and> unat (vr_avail vr) = unat p + 16 * unat num \<and>
    unat (vring_used_event vr) = unat (vr_avail vr) + 4 + 2 * unat num \<and>
    unat (vring_used_event vr) + 2 \<le> unat (vr_used vr) \<and>
    unat (vr_used vr) < unat (vring_used_event vr) + 2 + 2 ^ j \<and> unat (vr_used vr) mod 2 ^ j = 0 \<and>
    unat (vring_avail_event vr) + 2 = unat p + unat (vring_size num align)"
proof -
  define n where "n = unat num"
  define P where "P = unat p"
  define A :: nat where "A = 2 ^ j"
  have num: "num = of_nat n" and p: "p = of_nat P" by (simp_all add: n_def P_def)
  have A: "0 < A" "A \<le> 32768" "align = of_nat A" "align - 1 = mask j"
    using assms(1,2) power_increasing [of j 15 "2 :: nat"] by (simp_all add: A_def mask_eq_exp_minus_1)
  define S where "S = 16 * n + 6 + 2 * n + A - 1"
  define B where "B = S div A * A"
  have B: "B \<le> S" "S < B + A" "B mod A = 0"
    unfolding B_def using div_mult_mod_eq [of S A] mod_less_divisor [OF A(1), of S] by (linarith, linarith, simp)
  have u: "unat (of_nat x :: 32 word) = x" if "x < 2 ^ 32" for x
    using that by (simp add: unsigned_of_nat take_bit_nat_eq_self)
  have m: "unat (of_nat x AND NOT (mask j) :: 32 word) = x div A * A" if "x < 2 ^ 32" for x
    using u [OF that] by (simp add: masque_multiple A_def)
  have n: "n \<le> 32768" using assms(3) by (simp add: n_def)
  have S: "S < 2 ^ 32" using n A(2) by (simp add: S_def)
  have "sizeof_vring_desc * num + sizeof_u16 * (3 + num) + align - 1 = of_nat S"
    using A(1) by (simp add: num A(3) S_def of_nat_diff)
  moreover have "of_nat S AND NOT (mask j) = (of_nat B :: 32 word)"
    using m [OF S] u [OF le_less_trans [OF B(1) S]] by (simp add: word_unat_eq_iff B_def)
  ultimately have "vring_size num align = of_nat (B + 6 + 8 * n)" by (simp add: vring_size_def A(4) num)
  then have size: "unat (vring_size num align) = B + 6 + 8 * n"
  proof -
    have "B + 6 + 8 * n < 2 ^ 32" using n A(2) B(1) unfolding S_def by simp
    then have "unat (of_nat (B + 6 + 8 * n) :: 32 word) = B + 6 + 8 * n" by (rule u)
    with \<open>vring_size num align = of_nat (B + 6 + 8 * n)\<close> show ?thesis by (simp only:)
  qed
  have PA: "P mod A = 0" using assms(4) by (simp add: P_def A_def)
  have lim: "P + B + 6 + 8 * n < 2 ^ 32" using assms(5) size by (simp add: P_def)
  have "A dvd 2 ^ 32" unfolding A_def by (rule le_imp_power_dvd) (use assms(2) in simp)
  then obtain q where q: "2 ^ 32 = A * q" by (rule dvdE)
  obtain r where r: "P + B = A * r" using PA B(3) by (metis mod_0_imp_dvd dvd_add dvdE)
  have "r < q" using lim q r A(1) by (metis add_lessD1 mult_less_cancel1 add.assoc)
  then have "P + B + A \<le> 2 ^ 32" using r q by (metis Suc_leI mult_Suc_right mult_le_mono2 add.commute)
  then have PS: "P + S < 2 ^ 32" using B(2) by linarith
  have PB: "(P + S) div A * A = P + B"
  proof -
    have "P div A * A = P" using PA by (simp add: mod_0_imp_dvd)
    then show ?thesis using PA by (simp add: div_add1_eq B_def distrib_right)
  qed
  have av: "vr_avail vr = of_nat (P + 16 * n)" by (simp add: vr_def vring_init_def Let_def num p mult.commute)
  have ev: "vring_used_event vr = of_nat (P + 16 * n + 4 + 2 * n)"
    by (simp add: vring_used_event_def avail_ring_def av) (simp add: vr_def vring_init_def Let_def num)
  have "vr_used vr = of_nat (P + S) AND NOT (mask j)"
    using A(1) by (simp add: vr_def vring_init_def Let_def avail_ring_def num p A(3) S_def of_nat_diff A(4)[unfolded A(3)] ac_simps)
  then have us: "unat (vr_used vr) = P + B" using m [OF PS] PB by simp
  then have "vr_used vr = of_nat (P + B)" unfolding word_unat_eq_iff by (subst u) (use lim in simp_all)
  then have au: "vring_avail_event vr = of_nat (P + B + 4 + 8 * n)"
    by (simp add: vring_avail_event_def used_ring_def) (simp add: vr_def vring_init_def Let_def num)
  have b: "P + 16 * n < 2 ^ 32" "P + 16 * n + 4 + 2 * n < 2 ^ 32" "P + B + 4 + 8 * n < 2 ^ 32"
    using PS lim A(1) unfolding S_def by linarith+
  have "unat (vr_avail vr) = P + 16 * n" "unat (vring_used_event vr) = P + 16 * n + 4 + 2 * n" "unat (vring_avail_event vr) = P + B + 4 + 8 * n"
    unfolding av ev au by (rule u [OF b(1)], rule u [OF b(2)], rule u [OF b(3)])
  moreover have "vr_num vr = num" "vr_desc vr = p" by (simp_all add: vr_def vring_init_def Let_def)
  moreover have "P + 16 * n + 4 + 2 * n + 2 \<le> P + B" "P + B < P + 16 * n + 4 + 2 * n + 2 + A"
    using B(1,2) A(1) unfolding S_def by linarith+
  moreover have "(P + B) mod A = 0" unfolding r by simp
  ultimately show ?thesis unfolding us size by (simp flip: n_def P_def A_def)
qed

theorem vring_disposition_temoin:
  "unat (vr_used (vring_init 4 0x1000 16 \<lparr>vr_num = 0, vr_desc = 0, vr_avail = 0, vr_used = 0\<rparr>)) mod 16 = 0 \<and>
   unat (vring_size 4 16) = 118"
proof
  have s: "vring_size 4 16 = 118" by (simp add: vring_size_def)
  then show "unat (vring_size 4 16) = 118" by simp
  show "unat (vr_used (vring_init 4 0x1000 16 \<lparr>vr_num = 0, vr_desc = 0, vr_avail = 0, vr_used = 0\<rparr>)) mod 16 = 0"
    using vring_disposition [where align = 16 and j = 4 and num = 4 and p = "0x1000" and avant = "\<lparr>vr_num = 0, vr_desc = 0, vr_avail = 0, vr_used = 0\<rparr>"] by (simp add: s)
qed

end
