(* ===== verification/Tlv.thy ===== *)
theory Tlv
  imports Adressage Octets
begin

unbundle bit_operations_syntax

text \<open>
  \<open>linux/tipc.h\<close> and \<open>linux/tipc_config.h\<close> of the target: network addresses packed in a word, and the
  messages made of a length, a type and a value (TLV), written and walked through in a buffer of
  bytes. A \<open>void *\<close> into the buffer is an offset; \<open>None\<close> is an access outside an array. The theory
  shows the round trips of both, and two places where the code does not keep its word: \<open>TLV_SET\<close>
  copies four bytes too many, and \<open>TLV_LIST_STEP\<close> may not move.
\<close>

section \<open>Network addresses\<close>

definition tipc_addr :: "32 word \<Rightarrow> 32 word \<Rightarrow> 32 word \<Rightarrow> 32 word" where
  "tipc_addr zone cluster node = push_bit 24 zone OR push_bit 12 cluster OR node"

definition tipc_zone :: "32 word \<Rightarrow> 32 word" where
  "tipc_zone addr = drop_bit 24 addr"

definition tipc_cluster :: "32 word \<Rightarrow> 32 word" where
  "tipc_cluster addr = drop_bit 12 addr AND 0xfff"

definition tipc_node :: "32 word \<Rightarrow> 32 word" where
  "tipc_node addr = addr AND 0xfff"

section \<open>Bytes in a buffer\<close>

definition mot16 :: "8 word \<Rightarrow> 8 word \<Rightarrow> 16 word" where
  "mot16 bas haut = ucast bas OR push_bit 8 (ucast haut)"

definition lire16 :: "8 word list \<Rightarrow> nat \<Rightarrow> 16 word option" where
  "lire16 m p = (if p + 2 \<le> length m then Some (mot16 (m ! p) (m ! (p + 1))) else None)"

text \<open>Writing bytes at an offset; \<open>memcpy\<close> reads them from the start of another array.\<close>

definition ecrire :: "nat \<Rightarrow> 8 word list \<Rightarrow> 8 word list \<Rightarrow> 8 word list option" where
  "ecrire p bs m = (if p + length bs \<le> length m then Some (take p m @ bs @ drop (p + length bs) m) else None)"

definition memcpy :: "nat \<Rightarrow> 8 word list \<Rightarrow> nat \<Rightarrow> 8 word list \<Rightarrow> 8 word list option" where
  "memcpy p src n m = (if n \<le> length src then ecrire p (take n src) m else None)"

section \<open>TLVs\<close>

text \<open>The structure \<open>tlv_desc\<close>: two words of 16 bits, the length first. \<open>sizeof\<close> has the type \<open>size_t\<close>.\<close>

abbreviation (input) sizeof_tlv_desc :: "32 word" where "sizeof_tlv_desc \<equiv> 4"
abbreviation (input) tlv_len :: "nat \<Rightarrow> nat" where "tlv_len p \<equiv> p"
abbreviation (input) tlv_type :: "nat \<Rightarrow> nat" where "tlv_type p \<equiv> p + 2"

abbreviation (input) TLV_ALIGNTO :: "32 word" where "TLV_ALIGNTO \<equiv> 4"

definition TLV_ALIGN :: "32 word \<Rightarrow> 32 word" where
  "TLV_ALIGN datalen = (datalen + (TLV_ALIGNTO - 1)) AND NOT (TLV_ALIGNTO - 1)"

definition TLV_LENGTH :: "32 word \<Rightarrow> 32 word" where
  "TLV_LENGTH datalen = sizeof_tlv_desc + datalen"

definition TLV_SPACE :: "32 word \<Rightarrow> 32 word" where
  "TLV_SPACE datalen = TLV_ALIGN (TLV_LENGTH datalen)"

definition TLV_DATA :: "nat \<Rightarrow> nat" where
  "TLV_DATA tlv = tlv + unat (TLV_LENGTH 0)"

definition TLV_OK :: "8 word list \<Rightarrow> nat \<Rightarrow> 16 word \<Rightarrow> bool option" where
  "TLV_OK m tlv space =
     (if ucast space \<ge> TLV_SPACE 0
      then Option.bind (lire16 m (tlv_len tlv)) (\<lambda>l. Some (ntohs l \<le> space))
      else Some False)"

definition TLV_CHECK :: "8 word list \<Rightarrow> nat \<Rightarrow> 16 word \<Rightarrow> 16 word \<Rightarrow> bool option" where
  "TLV_CHECK m tlv space exp_type =
     Option.bind (TLV_OK m tlv space) (\<lambda>ok.
       if ok then Option.bind (lire16 m (tlv_type tlv)) (\<lambda>t. Some (ntohs t = exp_type)) else Some False)"

text \<open>\<open>data\<close>: the bytes readable at the pointer, \<open>None\<close> for \<open>NULL\<close>.\<close>

definition TLV_SET :: "nat \<Rightarrow> 16 word \<Rightarrow> 8 word list option \<Rightarrow> 16 word \<Rightarrow> 8 word list \<Rightarrow> (32 word \<times> 8 word list) option" where
  "TLV_SET tlv type data len m =
     (let l = TLV_LENGTH (ucast len) in
      Option.bind (ecrire (tlv_type tlv) (octets 2 (htons type)) m) (\<lambda>m.
      Option.bind (ecrire (tlv_len tlv) (octets 2 (htons (ucast l))) m) (\<lambda>m.
      Option.bind (case data of Some d \<Rightarrow> if len \<noteq> 0 then memcpy (TLV_DATA tlv) d (unat l) m else Some m
                   | None \<Rightarrow> Some m) (\<lambda>m.
      Some (TLV_SPACE (ucast len), m)))))"

section \<open>Lists of TLVs\<close>

record tlv_list_desc =
  tlv_ptr :: nat
  tlv_space :: "32 word"

definition TLV_LIST_INIT :: "nat \<Rightarrow> 32 word \<Rightarrow> tlv_list_desc" where
  "TLV_LIST_INIT data space = \<lparr>tlv_ptr = data, tlv_space = space\<rparr>"

definition TLV_LIST_EMPTY :: "tlv_list_desc \<Rightarrow> bool" where
  "TLV_LIST_EMPTY list \<longleftrightarrow> tlv_space list = 0"

definition TLV_LIST_CHECK :: "8 word list \<Rightarrow> tlv_list_desc \<Rightarrow> 16 word \<Rightarrow> bool option" where
  "TLV_LIST_CHECK m list exp_type = TLV_CHECK m (tlv_ptr list) (ucast (tlv_space list)) exp_type"

definition TLV_LIST_DATA :: "tlv_list_desc \<Rightarrow> nat" where
  "TLV_LIST_DATA list = TLV_DATA (tlv_ptr list)"

text \<open>The step is a \<open>__u16\<close>: the aligned length is cut to 16 bits.\<close>

definition TLV_LIST_STEP :: "8 word list \<Rightarrow> tlv_list_desc \<Rightarrow> tlv_list_desc option" where
  "TLV_LIST_STEP m list =
     Option.bind (lire16 m (tlv_len (tlv_ptr list))) (\<lambda>l.
       let s = (ucast (TLV_ALIGN (ucast (ntohs l))) :: 16 word) in
       Some \<lparr>tlv_ptr = tlv_ptr list + unat s, tlv_space = tlv_space list - ucast s\<rparr>)"

section \<open>Configuration messages\<close>

text \<open>The structure \<open>tipc_cfg_msg_hdr\<close>: a length of four bytes, a type and flags of two, eight reserved.\<close>

abbreviation (input) sizeof_tipc_cfg_msg_hdr :: "32 word" where "sizeof_tipc_cfg_msg_hdr \<equiv> 16"

definition TCM_ALIGN :: "32 word \<Rightarrow> 32 word" where
  "TCM_ALIGN datalen = (datalen + 3) AND NOT 3"

definition TCM_LENGTH :: "32 word \<Rightarrow> 32 word" where
  "TCM_LENGTH datalen = sizeof_tipc_cfg_msg_hdr + datalen"

definition TCM_SPACE :: "32 word \<Rightarrow> 32 word" where
  "TCM_SPACE datalen = TCM_ALIGN (TCM_LENGTH datalen)"

definition TCM_DATA :: "nat \<Rightarrow> nat" where
  "TCM_DATA tcm_hdr = tcm_hdr + unat (TCM_LENGTH 0)"

definition TCM_SET :: "nat \<Rightarrow> 16 word \<Rightarrow> 16 word \<Rightarrow> 8 word list option \<Rightarrow> 16 word \<Rightarrow> 8 word list \<Rightarrow> (32 word \<times> 8 word list) option" where
  "TCM_SET msg cmd flags data data_len m =
     (let l = TCM_LENGTH (ucast data_len) in
      Option.bind (ecrire msg (octets 4 (htonl l)) m) (\<lambda>m.
      Option.bind (ecrire (msg + 4) (octets 2 (htons cmd)) m) (\<lambda>m.
      Option.bind (ecrire (msg + 6) (octets 2 (htons flags)) m) (\<lambda>m.
      Option.bind (case data of Some d \<Rightarrow> if data_len \<noteq> 0 then memcpy (TCM_DATA msg) d (unat data_len) m else Some m
                   | None \<Rightarrow> Some m) (\<lambda>m.
      Some (TCM_SPACE (ucast data_len), m))))))"

section \<open>Lemmas\<close>

lemma mot16_octets: "mot16 (octets 2 x ! 0) (octets 2 x ! 1) = x"
proof (rule bit_word_eqI)
  fix n assume "n < LENGTH(16)"
  then show "bit (mot16 (octets 2 x ! 0) (octets 2 x ! 1)) n = bit x n"
    by (auto simp: mot16_def octets_def bit_or_iff bit_push_bit_iff bit_ucast_iff bit_drop_bit_eq upt_rec)
qed

lemma ntohs_htons: "ntohs (htons x) = x"
  by (simp add: ntohs_def htons_def bswap_bswap)

lemma masque_3: "unat (x AND NOT (3 :: 32 word)) = unat x div 4 * 4"
  using masque_multiple [of x 2] by (simp add: mask_eq_exp_minus_1)

lemma taille_tlv:
  fixes len :: "16 word"
  shows "unat (TLV_LENGTH (ucast len)) = 4 + unat len"
    and "unat (TLV_ALIGN (ucast len)) = (unat len + 3) div 4 * 4"
    and "unat (TLV_SPACE (ucast len)) = (unat len + 7) div 4 * 4"
proof -
  have u: "unat len < 65536" using unsigned_less [of len] by simp
  have a: "unat ((ucast len :: 32 word) + of_nat k) = unat len + k" if "k < 100" for k
  proof -
    have "unat ((ucast len :: 32 word) + of_nat k) = (unat len + k mod 2 ^ 32) mod 2 ^ 32"
      by (simp add: unat_word_ariths unat_16_32 unsigned_of_nat take_bit_eq_mod mod_simps)
    with u that show ?thesis by simp
  qed
  show "unat (TLV_LENGTH (ucast len)) = 4 + unat len" using a [of 4] by (simp add: TLV_LENGTH_def add.commute)
  show "unat (TLV_ALIGN (ucast len)) = (unat len + 3) div 4 * 4"
    using a [of 3] masque_3 [of "ucast len + 3"] by (simp add: TLV_ALIGN_def)
  show "unat (TLV_SPACE (ucast len)) = (unat len + 7) div 4 * 4"
    using a [of 7] masque_3 [of "ucast len + 7"] by (simp add: TLV_SPACE_def TLV_ALIGN_def TLV_LENGTH_def add.assoc add.commute)
qed

lemma ecrire_Some: "ecrire p bs m = Some m' \<longleftrightarrow> p + length bs \<le> length m \<and> m' = take p m @ bs @ drop (p + length bs) m"
  by (auto simp: ecrire_def)

lemma ecrire_rend: "p + length bs \<le> length m \<Longrightarrow> ecrire p bs m = Some (take p m @ bs @ drop (p + length bs) m)"
  by (simp add: ecrire_def)

text \<open>What the header and the value leave in the buffer, from the front to the back.\<close>

lemma tlv_ecrit:
  assumes "len \<noteq> 0" and "4 + unat len \<le> length d" and "p + 8 + unat len \<le> length m"
  shows "TLV_SET p type (Some d) len m = Some (TLV_SPACE (ucast len), take p m @
     octets 2 (htons (ucast (TLV_LENGTH (ucast len)))) @ octets 2 (htons type) @ take (4 + unat len) d @ drop (p + 8 + unat len) m)"
proof -
  have "unat (TLV_LENGTH 0) = 4" by (simp add: TLV_LENGTH_def)
  with assms show ?thesis
    by (simp add: TLV_SET_def Let_def memcpy_def taille_tlv TLV_DATA_def ecrire_def) (auto simp: ac_simps)
qed

lemma tlv_set_court: "len \<noteq> 0 \<Longrightarrow> length d < 4 + unat len \<Longrightarrow> TLV_SET p type (Some d) len m = None"
  by (simp add: TLV_SET_def Let_def memcpy_def taille_tlv ecrire_def)

lemma octets_2: "octets 2 x = [octets 2 x ! 0, octets 2 x ! 1]"
  by (simp add: octets_def upt_rec)

text \<open>Reading a header that stands in a buffer.\<close>

lemma lire16_la: "length a = p \<Longrightarrow> lire16 (a @ octets 2 x @ b) p = Some x"
  using mot16_octets [of x] by (subst octets_2) (simp add: lire16_def nth_append)

lemma tlv_check_la:
  assumes "m = a @ octets 2 (htons l) @ octets 2 (htons type) @ b" and "length a = p"
  shows "TLV_CHECK m p space t = Some (4 \<le> unat space \<and> l \<le> space \<and> type = t)"
    and "lire16 m p = Some (htons l)"
proof -
  have l: "lire16 m p = Some (htons l)" "lire16 m (p + 2) = Some (htons type)"
    using lire16_la [OF assms(2)] lire16_la [of "a @ octets 2 (htons l)" "p + 2"] assms by simp_all
  then show "lire16 m p = Some (htons l)" by simp
  have "TLV_SPACE 0 = 4" by (simp add: TLV_SPACE_def TLV_ALIGN_def TLV_LENGTH_def)
  moreover have "(4 :: 32 word) \<le> ucast space \<longleftrightarrow> 4 \<le> unat space"
    unfolding word_le_nat_alt unat_16_32 by simp
  ultimately show "TLV_CHECK m p space t = Some (4 \<le> unat space \<and> l \<le> space \<and> type = t)"
    using l by (auto simp: TLV_CHECK_def TLV_OK_def ntohs_htons)
qed

section \<open>Properties\<close>

text \<open> Packing and unpacking network addresses. Three fields that fit come back, and every address is
  made of its own three fields. \<close>

theorem tipc_adresse_aller_retour:
  "tipc_addr (tipc_zone a) (tipc_cluster a) (tipc_node a) = a \<and>
   (z < 2 ^ 8 \<and> c < 2 ^ 12 \<and> n < 2 ^ 12 \<longrightarrow>
      tipc_zone (tipc_addr z c n) = z \<and> tipc_cluster (tipc_addr z c n) = c \<and> tipc_node (tipc_addr z c n) = n)"
proof -
  have m: "(0xfff :: 32 word) = mask 12" by (simp add: mask_eq_exp_minus_1)
  have "tipc_addr (tipc_zone a) (tipc_cluster a) (tipc_node a) = a"
    unfolding tipc_addr_def tipc_zone_def tipc_cluster_def tipc_node_def m
  proof (rule bit_word_eqI)
    fix k :: nat
    consider "k < 12" | "12 \<le> k" "k < 24" | "24 \<le> k" by linarith
    then show "bit (push_bit 24 (drop_bit 24 a) OR push_bit 12 (drop_bit 12 a AND mask 12) OR a AND mask 12) k = bit a k"
      by cases (auto simp: bit_simps dest: bit_imp_le_length)
  qed
  moreover have "tipc_zone (tipc_addr z c n) = z \<and> tipc_cluster (tipc_addr z c n) = c \<and> tipc_node (tipc_addr z c n) = n"
    if "z < 2 ^ 8" "c < 2 ^ 12" "n < 2 ^ 12"
  proof -
    have "take_bit 8 z = z" "take_bit 12 c = c" "take_bit 12 n = n"
      using that by (auto intro!: take_bit_petit simp: word_less_nat_alt)
    then have b: "bit z k \<Longrightarrow> k < 8" "bit c k \<Longrightarrow> k < 12" "bit n k \<Longrightarrow> k < 12" for k
      by (metis bit_take_bit_iff)+
    show ?thesis
      unfolding tipc_addr_def tipc_zone_def tipc_cluster_def tipc_node_def m
      by (intro conjI bit_word_eqI) (auto simp: bit_simps dest: b)
  qed
  ultimately show ?thesis by blast
qed

theorem tipc_adresse_aller_retour_temoin: "tipc_cluster (tipc_addr 1 2 3) = 2"
  using tipc_adresse_aller_retour [of 0 1 2 3] by simp

text \<open> A TLV written is a TLV read. With a value of 1 to 65528 bytes followed, where it is, by four
  more readable bytes, and room for eight bytes more than the value, \<open>TLV_SET\<close> answers the space
  taken; at that place \<open>TLV_CHECK\<close> then accepts the type written and no other, in every space that is
  large enough; the value is found at \<open>TLV_DATA\<close>; the step of a list goes to the next multiple of four
  behind it; what is before it has not changed. \<close>

theorem tlv_aller_retour:
  assumes "0 < unat len" "unat len \<le> 65528" and "4 + unat len \<le> length d" and "p + 8 + unat len \<le> length m"
  shows "\<exists>m'. TLV_SET p type (Some d) len m = Some (TLV_SPACE (ucast len), m') \<and> length m' = length m \<and>
    (\<forall>space t. TLV_CHECK m' p space t = Some (4 + unat len \<le> unat space \<and> type = t)) \<and>
    take (unat len) (drop (TLV_DATA p) m') = take (unat len) d \<and> take p m' = take p m \<and>
    TLV_LIST_STEP m' \<lparr>tlv_ptr = p, tlv_space = s\<rparr> =
      Some \<lparr>tlv_ptr = p + unat (TLV_SPACE (ucast len)), tlv_space = s - TLV_SPACE (ucast len)\<rparr>"
proof -
  define l :: "16 word" where "l = ucast (TLV_LENGTH (ucast len))"
  define m' where "m' = take p m @ octets 2 (htons l) @ octets 2 (htons type) @ take (4 + unat len) d @ drop (p + 8 + unat len) m"
  have "len \<noteq> 0" using assms(1) by auto
  from tlv_ecrit [OF this assms(3,4)] have s: "TLV_SET p type (Some d) len m = Some (TLV_SPACE (ucast len), m')"
    by (simp add: m'_def l_def)
  have p: "length (take p m) = p" using assms(4) by simp
  note c = tlv_check_la [OF m'_def p]
  have l: "unat l = 4 + unat len"
    using assms(2) by (simp add: l_def unsigned_ucast_eq taille_tlv take_bit_nat_eq_self)
  then have "TLV_CHECK m' p space t = Some (4 + unat len \<le> unat space \<and> type = t)" for space t
    using c(1) [of space t] by (auto simp: word_le_nat_alt)
  moreover have "TLV_DATA p = p + 4" by (simp add: TLV_DATA_def TLV_LENGTH_def)
  moreover have a: "TLV_ALIGN (ucast l) = TLV_SPACE (ucast len)" by (simp add: word_unat_eq_iff taille_tlv l)
  have "unat (TLV_SPACE (ucast len)) < 2 ^ 16" using assms(2) by (simp add: taille_tlv)
  note seize_bits [OF this]
  then have "TLV_LIST_STEP m' \<lparr>tlv_ptr = p, tlv_space = s\<rparr> =
      Some \<lparr>tlv_ptr = p + unat (TLV_SPACE (ucast len)), tlv_space = s - TLV_SPACE (ucast len)\<rparr>"
    using c(2) by (simp add: TLV_LIST_STEP_def ntohs_htons a)
  ultimately show ?thesis using s assms p by (simp add: m'_def)
qed

theorem tlv_aller_retour_temoin:
  "\<exists>m'. TLV_SET 4 7 (Some [1, 2, 3, 0, 0, 0, 0]) 3 (replicate 20 0) = Some (8, m') \<and> TLV_CHECK m' 4 8 7 = Some True \<and>
    take 3 (drop 8 m') = [1, 2, 3]"
  using tlv_aller_retour [of 3 "[1, 2, 3, 0, 0, 0, 0]" 4 "replicate 20 0" 7 0]
  by (auto simp: TLV_DATA_def TLV_LENGTH_def TLV_SPACE_def TLV_ALIGN_def)

text \<open> \<open>TLV_SET\<close> reads past its argument. Given a value of exactly the length it is told, it faults,
  since it copies as many bytes as the TLV has, four more than the value; \<open>TCM_SET\<close>, of the same
  shape, copies what it is given and keeps it whole behind its header. \<close>

theorem tlv_set_depasse:
  assumes "0 < unat len" and "length d = unat len" and "p + 16 + unat len \<le> length m"
  shows "TLV_SET p type (Some d) len m = None"
    and "\<exists>m'. TCM_SET p cmd flags (Some d) len m = Some (TCM_SPACE (ucast len), m') \<and> length m' = length m \<and>
      take (unat len) (drop (TCM_DATA p) m') = d"
proof -
  have n: "len \<noteq> 0" using assms(1) by auto
  then show "TLV_SET p type (Some d) len m = None" by (rule tlv_set_court) (simp add: assms(2))
  have "TCM_DATA p = p + 16" by (simp add: TCM_DATA_def TCM_LENGTH_def)
  with n assms(2,3) show "\<exists>m'. TCM_SET p cmd flags (Some d) len m = Some (TCM_SPACE (ucast len), m') \<and> length m' = length m \<and>
      take (unat len) (drop (TCM_DATA p) m') = d"
    by (simp add: TCM_SET_def Let_def memcpy_def ecrire_def) arith
qed

theorem tlv_set_depasse_temoin: "TLV_SET 0 7 (Some [1, 2, 3]) 3 (replicate 20 0) = None"
  by (rule tlv_set_depasse(1)) simp_all

text \<open> When a walk through a list does not move. For the length \<open>n\<close> of the TLV it stands at,
  \<open>TLV_LIST_STEP\<close> stays where it is exactly when \<open>n\<close> is zero or so large that its multiple of four
  does not fit in 16 bits; and \<open>TLV_CHECK\<close> lets a TLV of length zero pass. \<close>

theorem tlv_list_step_bloque:
  assumes "lire16 m (tlv_ptr l) = Some (htons n)"
  shows "TLV_LIST_STEP m l = Some l \<longleftrightarrow> n = 0 \<or> 65532 < unat n"
    and "n = 0 \<and> lire16 m (tlv_ptr l + 2) = Some (htons t) \<and> 4 \<le> unat (ucast (tlv_space l) :: 16 word) \<longrightarrow> TLV_LIST_CHECK m l t = Some True"
proof -
  define s :: "16 word" where "s = ucast (TLV_ALIGN (ucast n))"
  have n: "unat n < 65536" using unsigned_less [of n] by simp
  have "unat s = (unat n + 3) div 4 * 4 mod 65536"
    by (simp add: s_def unsigned_ucast_eq taille_tlv take_bit_eq_mod)
  then have "s = 0 \<longleftrightarrow> (unat n + 3) div 4 * 4 mod 65536 = 0" by (simp add: word_unat_eq_iff)
  also have "\<dots> \<longleftrightarrow> n = 0 \<or> 65532 < unat n"
  proof (cases "65532 < unat n")
    case True
    then have "(unat n + 3) div 4 = 16384" using n by (intro div_nat_eqI) simp_all
    with True show ?thesis by simp
  next
    case False
    then have "(unat n + 3) div 4 * 4 < 65536" using div_times_less_eq_dividend [of "unat n + 3" 4] by linarith
    moreover have "(unat n + 3) div 4 = 0 \<longleftrightarrow> n = 0" by (auto simp: div_eq_0_iff word_unat_eq_iff)
    ultimately show ?thesis using False by simp
  qed
  finally have "s = 0 \<longleftrightarrow> n = 0 \<or> 65532 < unat n" .
  moreover have "unat s = 0 \<longleftrightarrow> s = 0" by (simp add: word_unat_eq_iff)
  then have "TLV_LIST_STEP m l = Some l \<longleftrightarrow> s = 0"
    using assms by (cases l) (auto simp: TLV_LIST_STEP_def ntohs_htons Let_def simp flip: s_def)
  ultimately show "TLV_LIST_STEP m l = Some l \<longleftrightarrow> n = 0 \<or> 65532 < unat n" by simp
  have "TLV_SPACE 0 = 4" by (simp add: TLV_SPACE_def TLV_ALIGN_def TLV_LENGTH_def)
  with assms show "n = 0 \<and> lire16 m (tlv_ptr l + 2) = Some (htons t) \<and> 4 \<le> unat (ucast (tlv_space l) :: 16 word) \<longrightarrow> TLV_LIST_CHECK m l t = Some True"
    by (auto simp: TLV_LIST_CHECK_def TLV_CHECK_def TLV_OK_def ntohs_htons word_le_nat_alt unat_16_32)
qed

theorem tlv_list_step_bloque_temoin: "TLV_LIST_STEP (replicate 8 0) (TLV_LIST_INIT 0 8) = Some (TLV_LIST_INIT 0 8)"
proof -
  have "lire16 (replicate 8 0) (tlv_ptr (TLV_LIST_INIT 0 8)) = Some (htons 0)"
    by (simp add: lire16_def mot16_def TLV_LIST_INIT_def htons_def bswap_16_def bswap_constant_16_def)
  from tlv_list_step_bloque(1) [OF this] show ?thesis by simp
qed

end
