(* ===== verification/Peripheriques.thy ===== *)
theory Peripheriques
  imports Prelude "HOL-Library.Word"
begin

unbundle bit_operations_syntax

text \<open>
  Fields packed in bytes, in two headers of the kernel of the target: the endpoints of a USB device
  (\<open>linux/usb/ch9.h\<close>) and the addresses of the Phonet protocol (\<open>linux/phonet.h\<close>).
\<close>

section \<open>USB endpoints\<close>

abbreviation (input) USB_DIR_OUT :: "8 word" where "USB_DIR_OUT \<equiv> 0"
abbreviation (input) USB_DIR_IN :: "8 word" where "USB_DIR_IN \<equiv> 0x80"

record usb_endpoint_descriptor =
  bLength :: "8 word"
  bDescriptorType :: "8 word"
  bEndpointAddress :: "8 word"
  bmAttributes :: "8 word"
  wMaxPacketSize :: "16 word"
  bInterval :: "8 word"
  bRefresh :: "8 word"
  bSynchAddress :: "8 word"

abbreviation (input) USB_ENDPOINT_NUMBER_MASK :: "8 word" where "USB_ENDPOINT_NUMBER_MASK \<equiv> 0x0f"
abbreviation (input) USB_ENDPOINT_DIR_MASK :: "8 word" where "USB_ENDPOINT_DIR_MASK \<equiv> 0x80"
abbreviation (input) USB_ENDPOINT_XFERTYPE_MASK :: "8 word" where "USB_ENDPOINT_XFERTYPE_MASK \<equiv> 0x03"
abbreviation (input) USB_ENDPOINT_XFER_CONTROL :: "8 word" where "USB_ENDPOINT_XFER_CONTROL \<equiv> 0"
abbreviation (input) USB_ENDPOINT_XFER_ISOC :: "8 word" where "USB_ENDPOINT_XFER_ISOC \<equiv> 1"
abbreviation (input) USB_ENDPOINT_XFER_BULK :: "8 word" where "USB_ENDPOINT_XFER_BULK \<equiv> 2"
abbreviation (input) USB_ENDPOINT_XFER_INT :: "8 word" where "USB_ENDPOINT_XFER_INT \<equiv> 3"

definition usb_endpoint_num :: "usb_endpoint_descriptor \<Rightarrow> 8 word" where
  "usb_endpoint_num epd = bEndpointAddress epd AND USB_ENDPOINT_NUMBER_MASK"

definition usb_endpoint_type :: "usb_endpoint_descriptor \<Rightarrow> 8 word" where
  "usb_endpoint_type epd = bmAttributes epd AND USB_ENDPOINT_XFERTYPE_MASK"

definition usb_endpoint_dir_in :: "usb_endpoint_descriptor \<Rightarrow> bool" where
  "usb_endpoint_dir_in epd \<longleftrightarrow> bEndpointAddress epd AND USB_ENDPOINT_DIR_MASK = USB_DIR_IN"

definition usb_endpoint_dir_out :: "usb_endpoint_descriptor \<Rightarrow> bool" where
  "usb_endpoint_dir_out epd \<longleftrightarrow> bEndpointAddress epd AND USB_ENDPOINT_DIR_MASK = USB_DIR_OUT"

definition usb_endpoint_xfer_bulk :: "usb_endpoint_descriptor \<Rightarrow> bool" where
  "usb_endpoint_xfer_bulk epd \<longleftrightarrow> bmAttributes epd AND USB_ENDPOINT_XFERTYPE_MASK = USB_ENDPOINT_XFER_BULK"

definition usb_endpoint_xfer_control :: "usb_endpoint_descriptor \<Rightarrow> bool" where
  "usb_endpoint_xfer_control epd \<longleftrightarrow> bmAttributes epd AND USB_ENDPOINT_XFERTYPE_MASK = USB_ENDPOINT_XFER_CONTROL"

definition usb_endpoint_xfer_int :: "usb_endpoint_descriptor \<Rightarrow> bool" where
  "usb_endpoint_xfer_int epd \<longleftrightarrow> bmAttributes epd AND USB_ENDPOINT_XFERTYPE_MASK = USB_ENDPOINT_XFER_INT"

definition usb_endpoint_xfer_isoc :: "usb_endpoint_descriptor \<Rightarrow> bool" where
  "usb_endpoint_xfer_isoc epd \<longleftrightarrow> bmAttributes epd AND USB_ENDPOINT_XFERTYPE_MASK = USB_ENDPOINT_XFER_ISOC"

definition usb_endpoint_is_bulk_in :: "usb_endpoint_descriptor \<Rightarrow> bool" where
  "usb_endpoint_is_bulk_in epd \<longleftrightarrow> usb_endpoint_xfer_bulk epd \<and> usb_endpoint_dir_in epd"

definition usb_endpoint_is_bulk_out :: "usb_endpoint_descriptor \<Rightarrow> bool" where
  "usb_endpoint_is_bulk_out epd \<longleftrightarrow> usb_endpoint_xfer_bulk epd \<and> usb_endpoint_dir_out epd"

definition usb_endpoint_is_int_in :: "usb_endpoint_descriptor \<Rightarrow> bool" where
  "usb_endpoint_is_int_in epd \<longleftrightarrow> usb_endpoint_xfer_int epd \<and> usb_endpoint_dir_in epd"

definition usb_endpoint_is_int_out :: "usb_endpoint_descriptor \<Rightarrow> bool" where
  "usb_endpoint_is_int_out epd \<longleftrightarrow> usb_endpoint_xfer_int epd \<and> usb_endpoint_dir_out epd"

definition usb_endpoint_is_isoc_in :: "usb_endpoint_descriptor \<Rightarrow> bool" where
  "usb_endpoint_is_isoc_in epd \<longleftrightarrow> usb_endpoint_xfer_isoc epd \<and> usb_endpoint_dir_in epd"

definition usb_endpoint_is_isoc_out :: "usb_endpoint_descriptor \<Rightarrow> bool" where
  "usb_endpoint_is_isoc_out epd \<longleftrightarrow> usb_endpoint_xfer_isoc epd \<and> usb_endpoint_dir_out epd"

text \<open>\<open>__le16_to_cpu\<close> is the identity on the little-endian target.\<close>

definition usb_endpoint_maxp :: "usb_endpoint_descriptor \<Rightarrow> int" where
  "usb_endpoint_maxp epd = uint (wMaxPacketSize epd)"

record usb_ss_ep_comp_descriptor =
  ss_bLength :: "8 word"
  ss_bDescriptorType :: "8 word"
  bMaxBurst :: "8 word"
  ss_bmAttributes :: "8 word"
  wBytesPerInterval :: "16 word"

text \<open>The shift of an \<open>int\<close>: \<open>None\<close> where its value leaves the type. The argument may be \<open>NULL\<close>.\<close>

definition usb_ss_max_streams :: "usb_ss_ep_comp_descriptor option \<Rightarrow> int option" where
  "usb_ss_max_streams ep_comp =
     (case ep_comp of
        None \<Rightarrow> Some 0
      | Some c \<Rightarrow>
          let max_streams = uint (ss_bmAttributes c AND 0x1f)
          in if max_streams = 0 then Some 0
             else c_int (push_bit (nat max_streams) 1))"

definition USB_SS_MULT :: "int \<Rightarrow> int" where
  "USB_SS_MULT p = 1 + (p AND 0x3)"

section \<open>Phonet addresses\<close>

text \<open>The fields of \<open>sockaddr_pn\<close> the functions use.\<close>

record sockaddr_pn =
  spn_obj :: "8 word"
  spn_dev :: "8 word"
  spn_resource :: "8 word"

definition pn_object :: "8 word \<Rightarrow> 16 word \<Rightarrow> 16 word" where
  "pn_object addr port = push_bit 8 (ucast addr) OR (port AND 0x3ff)"

definition pn_obj :: "16 word \<Rightarrow> 8 word" where
  "pn_obj handle = ucast (handle AND 0xff)"

definition pn_dev :: "16 word \<Rightarrow> 8 word" where
  "pn_dev handle = ucast (drop_bit 8 handle)"

definition pn_port :: "16 word \<Rightarrow> 16 word" where
  "pn_port handle = handle AND 0x3ff"

definition pn_addr :: "16 word \<Rightarrow> 8 word" where
  "pn_addr handle = ucast (drop_bit 8 handle AND 0xfc)"

definition pn_sockaddr_set_addr :: "8 word \<Rightarrow> sockaddr_pn \<Rightarrow> sockaddr_pn" where
  "pn_sockaddr_set_addr addr spn =
     (let spn = spn\<lparr>spn_dev := spn_dev spn AND 0x03\<rparr>
      in spn\<lparr>spn_dev := spn_dev spn OR (addr AND 0xfc)\<rparr>)"

definition pn_sockaddr_set_port :: "16 word \<Rightarrow> sockaddr_pn \<Rightarrow> sockaddr_pn" where
  "pn_sockaddr_set_port port spn =
     (let spn = spn\<lparr>spn_dev := spn_dev spn AND 0xfc\<rparr>;
          spn = spn\<lparr>spn_dev := spn_dev spn OR ucast (drop_bit 8 port AND 0x03)\<rparr>
      in spn\<lparr>spn_obj := ucast (port AND 0xff)\<rparr>)"

definition pn_sockaddr_set_object :: "16 word \<Rightarrow> sockaddr_pn \<Rightarrow> sockaddr_pn" where
  "pn_sockaddr_set_object handle spn = spn\<lparr>spn_dev := pn_dev handle, spn_obj := pn_obj handle\<rparr>"

definition pn_sockaddr_set_resource :: "8 word \<Rightarrow> sockaddr_pn \<Rightarrow> sockaddr_pn" where
  "pn_sockaddr_set_resource resource spn = spn\<lparr>spn_resource := resource\<rparr>"

definition pn_sockaddr_get_addr :: "sockaddr_pn \<Rightarrow> 8 word" where
  "pn_sockaddr_get_addr spn = spn_dev spn AND 0xfc"

definition pn_sockaddr_get_port :: "sockaddr_pn \<Rightarrow> 16 word" where
  "pn_sockaddr_get_port spn = push_bit 8 (ucast (spn_dev spn AND 0x03)) OR ucast (spn_obj spn)"

definition pn_sockaddr_get_object :: "sockaddr_pn \<Rightarrow> 16 word" where
  "pn_sockaddr_get_object spn = pn_object (spn_dev spn) (ucast (spn_obj spn))"

definition pn_sockaddr_get_resource :: "sockaddr_pn \<Rightarrow> 8 word" where
  "pn_sockaddr_get_resource spn = spn_resource spn"

section \<open>Properties\<close>

lemma uint_masque: "uint (x AND mask n) = uint x mod 2 ^ n"
  unfolding take_bit_eq_mask [symmetric] unsigned_take_bit_eq by (simp add: take_bit_eq_mod)

lemma et_bit: "x AND push_bit n 1 = (if bit x n then push_bit n 1 else 0)" for x :: "'a::len word"
  by (rule bit_word_eqI) (auto simp: bit_simps)

lemma masques_usb: "(0x0f :: 8 word) = mask 4" "(0x1f :: 8 word) = mask 5" "(0x03 :: 8 word) = mask 2"
  by (simp_all add: mask_eq_exp_minus_1)

text \<open> The predicates on USB endpoints. The number and the type are the low bits of their bytes; an
  endpoint goes in or out, never both; and exactly one of the seven kinds a driver tells apart
  applies to it. \<close>

theorem usb_genres:
  "uint (usb_endpoint_num e) = uint (bEndpointAddress e) mod 16 \<and> uint (usb_endpoint_type e) = uint (bmAttributes e) mod 4 \<and>
   usb_endpoint_dir_in e = bit (bEndpointAddress e) 7 \<and> usb_endpoint_dir_out e = (\<not> bit (bEndpointAddress e) 7) \<and>
   length (filter (\<lambda>P. P e) [usb_endpoint_xfer_control, usb_endpoint_is_bulk_in, usb_endpoint_is_bulk_out,
     usb_endpoint_is_int_in, usb_endpoint_is_int_out, usb_endpoint_is_isoc_in, usb_endpoint_is_isoc_out]) = 1"
proof -
  let ?a = "bEndpointAddress e"
  have n: "uint (usb_endpoint_num e) = uint ?a mod 16" and t: "uint (usb_endpoint_type e) = uint (bmAttributes e) mod 4"
    unfolding usb_endpoint_num_def usb_endpoint_type_def masques_usb uint_masque by simp_all
  have m: "(0x80 :: 8 word) = push_bit 7 1" by simp
  from et_bit [of ?a 7] have o: "usb_endpoint_dir_out e = (\<not> bit ?a 7)" and i: "usb_endpoint_dir_in e = (\<not> usb_endpoint_dir_out e)"
    unfolding usb_endpoint_dir_in_def usb_endpoint_dir_out_def m by auto
  have "uint (usb_endpoint_type e) \<in> {0, 1, 2, 3}" unfolding t by (simp, presburger)
  then have "usb_endpoint_type e \<in> {0, 1, 2, 3}" by (auto simp: word_uint_eq_iff)
  then have "length (filter (\<lambda>P. P e) [usb_endpoint_xfer_control, usb_endpoint_is_bulk_in, usb_endpoint_is_bulk_out,
     usb_endpoint_is_int_in, usb_endpoint_is_int_out, usb_endpoint_is_isoc_in, usb_endpoint_is_isoc_out]) = 1"
    using i by (auto simp: usb_endpoint_type_def usb_endpoint_xfer_control_def usb_endpoint_is_bulk_in_def usb_endpoint_is_bulk_out_def
        usb_endpoint_is_int_in_def usb_endpoint_is_int_out_def usb_endpoint_is_isoc_in_def usb_endpoint_is_isoc_out_def
        usb_endpoint_xfer_bulk_def usb_endpoint_xfer_int_def usb_endpoint_xfer_isoc_def)
  with n t o i show ?thesis by simp
qed

text \<open> The streams of an endpoint. Without a descriptor, or with the field 0, there are none; with a
  field of 1 to 30 there are as many as the power of two; with 31, which five bits allow, the shift
  is outside \<open>int\<close>. \<close>

theorem usb_flux:
  "usb_ss_max_streams None = Some 0"
  "usb_ss_max_streams (Some c) = (let k = uint (ss_bmAttributes c) mod 32 in
     if k = 0 then Some 0 else if k = 31 then None else Some (2 ^ nat k))"
proof -
  show "usb_ss_max_streams None = Some 0" by (simp add: usb_ss_max_streams_def)
  have k: "uint (ss_bmAttributes c AND 0x1f) = uint (ss_bmAttributes c) mod 32"
    unfolding masques_usb uint_masque by simp
  define k where "k = uint (ss_bmAttributes c) mod 32"
  have b: "0 \<le> k" "k < 32" by (simp_all add: k_def)
  have "c_int_ok (2 ^ nat k) \<longleftrightarrow> k \<noteq> 31"
  proof (cases "k = 31")
    case False
    with b have "nat k \<le> 30" by simp
    then have "(2 :: int) ^ nat k \<le> 2 ^ 30" by (rule power_increasing) simp
    moreover have "c_int_ok x" if "0 \<le> x" "x \<le> 2 ^ 30" for x using that by (simp add: c_int_ok_def)
    ultimately show ?thesis using False by simp
  qed (simp add: c_int_ok_def)
  then show "usb_ss_max_streams (Some c) = (let k = uint (ss_bmAttributes c) mod 32 in
     if k = 0 then Some 0 else if k = 31 then None else Some (2 ^ nat k))"
    by (simp add: usb_ss_max_streams_def k c_int_def push_bit_eq_mult flip: k_def)
qed

lemma masques_pn: "(0xfc :: 8 word) = NOT (mask 2)" "(0x03 :: 8 word) = mask 2" "(0xfc :: 16 word) = mask 8 AND NOT (mask 2)"
  "(0x03 :: 16 word) = mask 2" "(0xff :: 16 word) = mask 8" "(0x3ff :: 16 word) = mask 10"
  by (simp_all add: mask_eq_exp_minus_1)

text \<open> Phonet addresses. An address and a port set in either order are read back, each in the bits it
  has; an object is the pair of its two bytes, set and read back whole; the resource is a field of its own. \<close>

theorem phonet_aller_retour:
  fixes s :: sockaddr_pn and a r :: "8 word" and p h :: "16 word"
  defines "s1 \<equiv> pn_sockaddr_set_port p (pn_sockaddr_set_addr a s)"
  shows "pn_sockaddr_get_addr s1 = a AND 0xfc \<and> pn_sockaddr_get_port s1 = pn_port p \<and>
    pn_sockaddr_set_addr a (pn_sockaddr_set_port p s) = s1 \<and>
    pn_sockaddr_get_object (pn_sockaddr_set_object h s) = h \<and> pn_object (pn_dev h) (ucast (pn_obj h)) = h \<and>
    pn_addr (pn_sockaddr_get_object s1) = a AND 0xfc \<and> pn_port (pn_sockaddr_get_object s1) = pn_port p \<and>
    pn_sockaddr_get_resource (pn_sockaddr_set_resource r s1) = r \<and> pn_sockaddr_get_resource s1 = pn_sockaddr_get_resource s"
proof -
  note d = pn_sockaddr_get_addr_def pn_sockaddr_get_port_def pn_sockaddr_set_addr_def pn_sockaddr_set_port_def
    pn_sockaddr_get_object_def pn_sockaddr_set_object_def pn_object_def pn_dev_def pn_obj_def pn_addr_def pn_port_def
  have "pn_sockaddr_get_addr s1 = a AND 0xfc" unfolding s1_def d masques_pn
    by (rule bit_word_eqI) (auto simp: bit_simps Let_def)
  moreover have "pn_sockaddr_get_port s1 = pn_port p" unfolding s1_def d masques_pn
    by (rule bit_word_eqI) (auto simp: bit_simps Let_def)
  moreover have "spn_dev (pn_sockaddr_set_addr a (pn_sockaddr_set_port p s)) = spn_dev s1" unfolding s1_def d masques_pn
    by (rule bit_word_eqI) (auto simp: bit_simps Let_def)
  moreover have "pn_sockaddr_get_object (pn_sockaddr_set_object h s) = h" unfolding s1_def d masques_pn
    by (rule bit_word_eqI) (auto simp: bit_simps Let_def)
  moreover have "pn_object (pn_dev h) (ucast (pn_obj h)) = h" unfolding s1_def d masques_pn
    by (rule bit_word_eqI) (auto simp: bit_simps Let_def)
  moreover have "pn_addr (pn_sockaddr_get_object s1) = a AND 0xfc" unfolding s1_def d masques_pn
    by (rule bit_word_eqI) (auto simp: bit_simps Let_def)
  moreover have "pn_port (pn_sockaddr_get_object s1) = pn_port p" unfolding s1_def d masques_pn
    by (rule bit_word_eqI) (auto simp: bit_simps Let_def)
  ultimately show ?thesis
    by (simp add: s1_def pn_sockaddr_set_addr_def pn_sockaddr_set_port_def pn_sockaddr_get_resource_def pn_sockaddr_set_resource_def Let_def)
qed

end
