(* ===== verification/Essais.thy ===== *)
theory Essais
  imports Jeu Boucles
begin

text \<open>
  The programs of \<open>test/\<close>, one for each device, over the models of the drivers. What they print on
  the console is not recorded. \<open>sleep\<close> and \<open>usleep\<close> are recorded as pauses of the same length.
\<close>

definition sleep :: "int \<Rightarrow> 'a processus_scheme \<Rightarrow> 'a processus_scheme" where
  "sleep s = consigne [Sys (Delay (1000 * s))]"

definition usleep :: "int \<Rightarrow> 'a processus_scheme \<Rightarrow> 'a processus_scheme" where
  "usleep us = consigne [Sys (DelayMicroseconds us)]"

section \<open>\<open>test/matrice_led.c\<close>\<close>

text \<open>The program has its own table \<open>formes\<close>.\<close>

definition formes_essai :: "int list list" where
  "formes_essai =
    [[0b11111111, 0b10000001, 0b10000001, 0b10000001, 0b10000001, 0b10000001, 0b10000001, 0b11111111],
     [0b00000000, 0b00000000, 0b00111100, 0b00100100, 0b00100100, 0b00111100, 0b00000000, 0b00000000],
     [0b00111100, 0b00100100, 0b00100100, 0b00100100, 0b00100100, 0b00100100, 0b00100100, 0b00111100],
     [0b00000000, 0b00000000, 0b11111111, 0b10000001, 0b10000001, 0b11111111, 0b00000000, 0b00000000],
     [0b00000000, 0b00000000, 0b00011000, 0b00111100, 0b01111110, 0b11111111, 0b00000000, 0b00000000],
     [0b00000000, 0b00000000, 0b11111111, 0b01111110, 0b00111100, 0b00011000, 0b00000000, 0b00000000],
     [0b00100000, 0b00110000, 0b00111000, 0b00111100, 0b00111100, 0b00111000, 0b00110000, 0b00100000],
     [0b00000100, 0b00001100, 0b00011100, 0b00111100, 0b00111100, 0b00011100, 0b00001100, 0b00000100],
     [0b00111100, 0b01000010, 0b10000001, 0b10000001, 0b10000001, 0b10000001, 0b01000010, 0b00111100],
     [0b00011000, 0b00100100, 0b01000010, 0b10000001, 0b10000001, 0b01000010, 0b00100100, 0b00011000],
     [0b10000000, 0b01000000, 0b00100000, 0b00010000, 0b00001000, 0b00000100, 0b00000010, 0b00000001],
     [0b00000001, 0b00000010, 0b00000100, 0b00001000, 0b00010000, 0b00100000, 0b01000000, 0b10000000],
     [0b10000001, 0b01000010, 0b00100100, 0b00011000, 0b00011000, 0b00100100, 0b01000010, 0b10000001],
     [0b00000000, 0b00000000, 0b00000000, 0b11111111, 0b11111111, 0b00000000, 0b00000000, 0b00000000],
     [0b00011000, 0b00011000, 0b00011000, 0b00011000, 0b00011000, 0b00011000, 0b00011000, 0b00011000],
     [0b00011000, 0b00011000, 0b00011000, 0b11111111, 0b11111111, 0b00011000, 0b00011000, 0b00011000]]"

definition afficher_titre_test :: "string \<Rightarrow> peripheriques \<Rightarrow> peripheriques" where
  "afficher_titre_test titre w = delay 1000 w"

definition test_initialisation :: "peripheriques \<Rightarrow> peripheriques" where
  "test_initialisation w =
     (let w = afficher_titre_test ''Initialisation'' w;
          w = matrice_led_init w
      in delay 500 w)"

definition test_luminosite :: "peripheriques \<Rightarrow> peripheriques" where
  "test_luminosite w =
     (let w = afficher_titre_test ''Luminosite'' w;
          w = fold (\<lambda>niveau w.
                let w = matrice_led_luminosite niveau w;
                    w = matrice_led_afficher_motif [0xFF, 0xFF, 0xFF, 0xFF, 0xFF, 0xFF, 0xFF, 0xFF] w
                in delay 1000 w) (map (\<lambda>k. 3 * k) [0..5]) w;
          w = matrice_led_luminosite 15 w
      in matrice_led_effacer w)"

definition test_ecrire_ligne :: "peripheriques \<Rightarrow> peripheriques" where
  "test_ecrire_ligne w =
     (let w = afficher_titre_test ''Ecriture ligne par ligne'' w;
          w = fold (\<lambda>ligne w. delay 500 (matrice_led_ecrire_ligne ligne 0xFF w)) [0..7] w;
          w = delay 1000 w;
          w = matrice_led_effacer w;
          w = fold (\<lambda>ligne w.
                delay 300 (matrice_led_ecrire_ligne ligne (if ligne mod 2 \<noteq> 0 then 0xAA else 0x55) w)) [0..7] w;
          w = delay 1000 w
      in matrice_led_effacer w)"

definition test_afficher_motif :: "peripheriques \<Rightarrow> peripheriques" where
  "test_afficher_motif w =
     (let w = afficher_titre_test ''Affichage de motifs'' w
      in fold (\<lambda>i w.
           let w = matrice_led_afficher_motif (formes_essai ! i) w;
               w = delay 500 w
           in matrice_led_effacer w) [0..<16] w)"

definition test_animation :: "peripheriques \<Rightarrow> peripheriques" where
  "test_animation w =
     (let w = afficher_titre_test ''Animation'' w;
          w = fold (\<lambda>i. fold (\<lambda>col w.
                let motif = map (\<lambda>ligne. push_bit col 1) [0..<8];
                    w = matrice_led_afficher_motif motif w
                in delay 100 w) [0..<8]) [0..<3] w;
          w = fold (\<lambda>i. fold (\<lambda>ligne w.
                let w = matrice_led_effacer w;
                    w = matrice_led_ecrire_ligne ligne 0xFF w
                in delay 100 w) [0..7]) [0..<3] w
      in matrice_led_effacer w)"

definition test_effacement :: "peripheriques \<Rightarrow> peripheriques" where
  "test_effacement w =
     (let w = afficher_titre_test ''Effacement'' w;
          w = matrice_led_afficher_motif [0xFF, 0xFF, 0xFF, 0xFF, 0xFF, 0xFF, 0xFF, 0xFF] w;
          w = delay 1000 w;
          w = matrice_led_effacer w
      in delay 1000 w)"

definition matrice_led_test_main :: "hote \<Rightarrow> peripheriques \<Rightarrow> int \<times> peripheriques" where
  "matrice_led_test_main E w =
     (let (_, w) = wiringPiSetup E w;
          w = test_initialisation w;
          w = test_luminosite w;
          w = test_ecrire_ligne w;
          w = test_afficher_motif w;
          w = test_animation w;
          w = test_effacement w;
          w = matrice_led_cleanup w
      in (0, w))"

section \<open>\<open>test/ncurses.c\<close>\<close>

definition patterns :: "motif list" where
  "patterns =
     [[''xxxxxxxx'', ''x      x'', ''x      x'', ''x      x'', ''x      x'', ''x      x'', ''x      x'', ''xxxxxxxx''],
      [''        '', ''        '', ''  xxxx  '', ''  x  x  '', ''  x  x  '', ''  xxxx  '', ''        '', ''        ''],
      [''  xxxx  '', ''  x  x  '', ''  x  x  '', ''  x  x  '', ''  x  x  '', ''  x  x  '', ''  x  x  '', ''  xxxx  ''],
      [''        '', ''        '', ''xxxxxxxx'', ''x      x'', ''x      x'', ''xxxxxxxx'', ''        '', ''        ''],
      [''        '', ''        '', ''   xx   '', ''  xxxx  '', '' xxxxxx '', ''xxxxxxxx'', ''        '', ''        ''],
      [''        '', ''        '', ''xxxxxxxx'', '' xxxxxx '', ''  xxxx  '', ''   xx   '', ''        '', ''        ''],
      [''  x     '', ''  xx    '', ''  xxx   '', ''  xxxx  '', ''  xxxx  '', ''  xxx   '', ''  xx    '', ''  x     ''],
      [''     x  '', ''    xx  '', ''   xxx  '', ''  xxxx  '', ''  xxxx  '', ''   xxx  '', ''    xx  '', ''     x  ''],
      [''  xxxx  '', '' x    x '', ''x      x'', ''x      x'', ''x      x'', ''x      x'', '' x    x '', ''  xxxx  ''],
      [''   xx   '', ''  x  x  '', '' x    x '', ''x      x'', ''x      x'', '' x    x '', ''  x  x  '', ''   xx   ''],
      [''x       '', '' x      '', ''  x     '', ''   x    '', ''    x   '', ''     x  '', ''      x '', ''       x''],
      [''       x'', ''      x '', ''     x  '', ''    x   '', ''   x    '', ''  x     '', '' x      '', ''x       ''],
      [''x      x'', '' x    x '', ''  x  x  '', ''   xx   '', ''   xx   '', ''  x  x  '', '' x    x '', ''x      x''],
      [''        '', ''        '', ''        '', ''xxxxxxxx'', ''xxxxxxxx'', ''        '', ''        '', ''        ''],
      [''   xx   '', ''   xx   '', ''   xx   '', ''   xx   '', ''   xx   '', ''   xx   '', ''   xx   '', ''   xx   ''],
      [''   xx   '', ''   xx   '', ''   xx   '', ''xxxxxxxx'', ''xxxxxxxx'', ''   xx   '', ''   xx   '', ''   xx   '']]"

definition test_ncurses :: "hote \<Rightarrow> peripheriques \<Rightarrow> peripheriques" where
  "test_ncurses E w =
     (let w = init_ncurses E w;
          w = draw_grid w;
          w = fold (\<lambda>i w.
                let w = display_pattern (int (i div 4)) (int (i mod 4)) (patterns ! i) w;
                    w = refresh_display w
                in delay 500 w) [0..<16] w;
          w = delay 5000 w
      in cleanup_ncurses w)"

definition ncurses_test_main :: "hote \<Rightarrow> peripheriques \<Rightarrow> int \<times> peripheriques" where
  "ncurses_test_main E w = (0, test_ncurses E w)"

section \<open>\<open>test/7_segment.c\<close>\<close>

definition segment7_test_main :: "hote \<Rightarrow> peripheriques \<Rightarrow> (int \<times> peripheriques) option" where
  "segment7_test_main E w = (
     let (r, w) = wiringPiSetup E w
     in if r = -1 then Some (1, w)
        else do {
          let w = segment7_init E w;
          w \<leftarrow> foldM (\<lambda>i w. do { w \<leftarrow> segment7_afficher_nombre i w; Some (delay 500 w) }) (map (\<lambda>k. 1111 * k) [0..9]) w;
          w \<leftarrow> segment7_afficher_nombre (-42) w;
          let w = delay 1000 w;
          let w = segment7_effacer w;
          let w = delay 1000 w;
          w \<leftarrow> segment7_afficher_nombre 1234 w;
          let w = delay 500 (segment7_decimal 0 1 w);
          let w = delay 500 (segment7_decimal 1 1 w);
          let w = delay 500 (segment7_decimal 2 1 w);
          let w = delay 500 (segment7_decimal 3 1 w);
          w \<leftarrow> segment7_afficher_nombre 1234 w;
          let w = fold (\<lambda>i w. delay 500 (segment7_deuxpoints 0 (delay 500 (segment7_deuxpoints 1 w)))) [0..<5] w;
          w \<leftarrow> segment7_afficher_nombre 8888 w;
          let w = fold (\<lambda>i w. delay 200 (segment7_luminosite i w)) [0..15] w;
          Some (0, segment7_effacer w)
        })"

section \<open>\<open>test/lcd.c\<close>\<close>

definition heart :: "octet list" where
  "heart = [0b00000, 0b01010, 0b11111, 0b11111, 0b11111, 0b01110, 0b00100, 0b00000]"

text \<open>The texts of the two calls of \<open>lcd_printf\<close> are those of their constant arguments.\<close>

definition lcd_test_texte :: "peripheriques \<Rightarrow> peripheriques option" where
  "lcd_test_texte w = do {
     w \<leftarrow> lcd_effacer w;
     w \<leftarrow> lcd_ecrire 0 0 ''Test LCD'' w;
     w \<leftarrow> lcd_ecrire 0 1 ''Ligne 2'' w;
     let w = sleep 2 w;
     w \<leftarrow> lcd_effacer w;
     w \<leftarrow> lcd_position 0 0 w;
     w \<leftarrow> lcd_printf (''Valeur: '' @ format_d 42) w;
     w \<leftarrow> lcd_position 0 1 w;
     w \<leftarrow> lcd_printf ''PI: 3.14'' w;
     Some (sleep 2 w)
   }"

definition lcd_test_curseur :: "peripheriques \<Rightarrow> peripheriques option" where
  "lcd_test_curseur w = do {
     w \<leftarrow> lcd_effacer w;
     w \<leftarrow> lcd_ecrire 0 0 ''Test curseur'' w;
     w \<leftarrow> lcd_curseur 1 w;
     w \<leftarrow> lcd_position 0 1 w;
     let w = sleep 1 w;
     w \<leftarrow> lcd_curseur_clignote 1 w;
     let w = sleep 2 w;
     w \<leftarrow> lcd_curseur_clignote 0 w;
     lcd_curseur 0 w
   }"

definition lcd_test_special :: "peripheriques \<Rightarrow> peripheriques option" where
  "lcd_test_special w = do {
     w \<leftarrow> lcd_def_caractere 0 heart w;
     w \<leftarrow> lcd_effacer w;
     w \<leftarrow> lcd_ecrire 0 0 ''Caractere special:'' w;
     w \<leftarrow> lcd_position 0 1 w;
     w \<leftarrow> lcd_caractere 0 w;
     Some (sleep 2 w)
   }"

definition lcd_test_animation :: "peripheriques \<Rightarrow> peripheriques option" where
  "lcd_test_animation w = do {
     w \<leftarrow> lcd_effacer w;
     w \<leftarrow> lcd_ecrire 0 0 ''Animation:'' w;
     foldM (\<lambda>i w. do {
         w \<leftarrow> lcd_position i 1 w;
         w \<leftarrow> lcd_caractere 0 w;
         Some (usleep 200000 w)
       }) [0..15] w
   }"

definition lcd_test_main :: "hote \<Rightarrow> peripheriques \<Rightarrow> (int \<times> peripheriques) option" where
  "lcd_test_main E w = do {
     (lcd, w) \<leftarrow> lcd_init E w;
     if lcd < 0 then Some (1, w)
     else do {
       w \<leftarrow> lcd_test_texte w;
       w \<leftarrow> lcd_test_curseur w;
       w \<leftarrow> lcd_test_special w;
       w \<leftarrow> lcd_test_animation w;
       w \<leftarrow> lcd_effacer w;
       w \<leftarrow> lcd_ecrire 0 0 ''Test termine!'' w;
       w \<leftarrow> lcd_ecrire 0 1 ''avec succes'' w;
       let w = sleep 2 w;
       w \<leftarrow> lcd_effacer w;
       w \<leftarrow> lcd_cleanup w;
       Some (0, w)
     }
   }"

section \<open>\<open>test/touch.c\<close> and \<open>test/matrice_btn.c\<close>\<close>

text \<open>
  Both programs run until the user interrupts them: the handler of the signal clears the flag
  \<open>running\<close> that the loop tests. When a signal comes is decided outside the program: \<open>signaux h\<close> are
  the signals delivered by the time the journal is \<open>h\<close>, in their order.
\<close>

abbreviation (input) SIGINT :: int where "SIGINT \<equiv> 2"

definition handle_signal :: "int \<Rightarrow> int \<Rightarrow> int" where
  "handle_signal sig running = (if sig = SIGINT then 0 else running)"

definition handle_sigint :: "int \<Rightarrow> int \<Rightarrow> int" where
  "handle_sigint sig running = (if sig = SIGINT then 0 else running)"

definition touch_test_tour :: "hote \<Rightarrow> (journal_t \<Rightarrow> int list) \<Rightarrow> peripheriques \<Rightarrow> (peripheriques + peripheriques) option" where
  "touch_test_tour E signaux w =
     (if fold handle_signal (signaux (journal w)) 1 \<noteq> 0 then
        let (state, w) = touch_read E w in Some (Inl (delay 500 w))
      else Some (Inr w))"

definition touch_test_main :: "hote \<Rightarrow> (journal_t \<Rightarrow> int list) \<Rightarrow> peripheriques \<Rightarrow> (int \<times> peripheriques) option" where
  "touch_test_main E signaux w = (
     let (r, w) = wiringPiSetup E w
     in if r = -1 then Some (1, w)
        else do {
          let w = touch_init w;
          w \<leftarrow> boucle (touch_test_tour E signaux) w;
          Some (0, touch_cleanup w)
        })"

text \<open>The loop keeps the last button; the matrix drawn for it and its position go to the console.\<close>

definition matrice_btn_test_tour :: "hote \<Rightarrow> (journal_t \<Rightarrow> int list) \<Rightarrow> int \<times> peripheriques \<Rightarrow>
    (int \<times> peripheriques + int \<times> peripheriques) option" where
  "matrice_btn_test_tour E signaux s =
     (case s of (dernier_bouton, w) \<Rightarrow>
        if fold handle_sigint (signaux (journal w)) 1 \<noteq> 0 then
          let (bouton, w) = matrice_btn_lire E w;
              dernier_bouton = (if bouton \<noteq> dernier_bouton then bouton else dernier_bouton)
          in Some (Inl (dernier_bouton, delay 50 w))
        else Some (Inr (dernier_bouton, w)))"

definition matrice_btn_test_main :: "hote \<Rightarrow> (journal_t \<Rightarrow> int list) \<Rightarrow> peripheriques \<Rightarrow> (int \<times> peripheriques) option" where
  "matrice_btn_test_main E signaux w = (
     let (r, w) = wiringPiSetup E w
     in if r = -1 then Some (1, w)
        else do {
          let w = matrice_btn_init w;
          (_, w) \<leftarrow> boucle (matrice_btn_test_tour E signaux) (0, w);
          Some (0, matrice_btn_cleanup w)
        })"

end
