(* ===== verification/Epreuves.thy ===== *)
theory Epreuves
  imports Programme Essais
begin

text \<open>
  What the programs of \<open>test/\<close> show and leave: the tables they share with the game, the pictures that
  appear in turn, and the state of each device at the end.
\<close>

lemma tables_egales: "formes_essai = formes" "patterns = map convertir_forme formes"
  by (simp add: formes_essai_def formes_def, code_simp)

lemma formes_longueur: "length formes = 16" by (simp add: formes_def)

section \<open>The LED matrix\<close>

text \<open>A lit chip at full intensity; drawing keeps it so, and appends to the journal.\<close>

definition led_marche :: "max7219 \<Rightarrow> peripheriques \<Rightarrow> bool" where
  "led_marche d w \<longleftrightarrow> registres_de d w REG_SHUTDOWN = 1 \<and> registres_de d w REG_INTENSITY = 15"

lemma led_marche_operations:
  assumes "led_marche d w"
  shows "led_marche d (matrice_led_afficher_motif m w)" "led_marche d (matrice_led_effacer w)" "led_marche d (delay ms w)"
    "0 \<le> i \<Longrightarrow> led_marche d (matrice_led_ecrire_ligne i x w)"
proof -
  have m: "led_marche d (matrice_led_afficher_motif m w)" for m using assms by (simp add: led_marche_def registres_motif)
  then show "led_marche d (matrice_led_afficher_motif m w)" "led_marche d (matrice_led_effacer w)"
    by (simp_all add: matrice_led_effacer_def)
  show "led_marche d (delay ms w)" using assms by (simp add: led_marche_def delay_def max7219_de_def)
  assume "0 \<le> i"
  then have "(1 + i) mod 16 \<noteq> REG_SHUTDOWN \<and> (1 + i) mod 16 \<noteq> REG_INTENSITY" if "i < 8" using that by (simp add: mod_pos_pos_trivial)
  then show "led_marche d (matrice_led_ecrire_ligne i x w)"
    using assms matrice_led_ecrire_ligne_cas [of i x w d] by (auto simp: led_marche_def)
qed

lemma led_marche_fold:
  "\<lbrakk>led_marche d w; \<And>x v. x \<in> set xs \<Longrightarrow> led_marche d v \<Longrightarrow> led_marche d (f x v)\<rbrakk> \<Longrightarrow> led_marche d (fold f xs w)"
  by (induction xs arbitrary: w) auto

lemmas led_marche_intros = led_marche_operations led_marche_fold

lemma test_initialisation_marche: "led_marche d (test_initialisation w)"
proof -
  have "led_marche d (matrice_led_init v)" for v
    using matrice_led_cycle [of d v] by (simp add: led_marche_def Let_def)
  then show ?thesis unfolding test_initialisation_def Let_def by (intro led_marche_intros)
qed

lemma test_luminosite_marche:
  assumes "led_marche d w"
  shows "led_marche d (test_luminosite w)"
proof -
  have r: "registres_de d (fold (\<lambda>niveau w. delay 1000 (matrice_led_afficher_motif m (matrice_led_luminosite niveau w))) ns v) REG_SHUTDOWN = 1"
    if "registres_de d v REG_SHUTDOWN = 1" for m ns and v :: peripheriques
    using that
  proof (induction ns arbitrary: v)
    case (Cons n ns)
    have "registres_de d (delay 1000 (matrice_led_afficher_motif m (matrice_led_luminosite n v))) REG_SHUTDOWN = 1"
      using Cons.prems by (simp add: delay_def registres_motif matrice_led_luminosite_def registres_cmd)
    with Cons.IH show ?case by simp
  qed simp
  have l: "led_marche d (matrice_led_luminosite 15 v)" if "registres_de d v REG_SHUTDOWN = 1" for v :: peripheriques
    using that by (simp add: led_marche_def matrice_led_luminosite_def registres_cmd)
  have t: "registres_de d (afficher_titre_test t w) REG_SHUTDOWN = 1" for t
    using led_marche_operations(3) [OF assms] by (simp add: afficher_titre_test_def led_marche_def)
  show ?thesis unfolding test_luminosite_def Let_def by (rule led_marche_operations(2), rule l, rule r, rule t)
qed

lemma test_lignes_marche: "led_marche d w \<Longrightarrow> led_marche d (test_ecrire_ligne w)"
  unfolding test_ecrire_ligne_def afficher_titre_test_def Let_def by (intro led_marche_intros) simp_all

text \<open>Every test only draws: its journal goes on, by calls on the three pins.\<close>

lemma trace_essais_led:
  "trace sortes_led w (test_initialisation w)" "trace sortes_led w (test_luminosite w)" "trace sortes_led w (test_ecrire_ligne w)"
  "trace sortes_led w (test_animation w)" "trace sortes_led w (test_effacement w)"
  unfolding test_initialisation_def test_luminosite_def test_ecrire_ligne_def test_animation_def test_effacement_def
    afficher_titre_test_def Let_def matrice_led_ecrire_ligne_def
  by (auto intro!: trace_intros trace_appels)

text \<open>The shapes appear one after the other.\<close>

lemma test_afficher_motif_etape:
  assumes "k < 16" and "led_marche d w"
  shows "\<exists>v. (\<forall>i < 8. registres_de d v (1 + int i) = formes_essai ! k ! i mod 256) \<and> led_marche d v \<and> trace sortes_led w v \<and>
    trace sortes_led v (test_afficher_motif w)"
proof -
  define f :: "nat \<Rightarrow> peripheriques \<Rightarrow> peripheriques" where
    "f = (\<lambda>i w. matrice_led_effacer (delay 500 (matrice_led_afficher_motif (formes_essai ! i) w)))"
  have t: "trace sortes_led u (fold f xs v)" if "trace sortes_led u v" for xs u v
    unfolding f_def by (intro trace_fold trace_led trace_appels that) simp_all
  have e: "test_afficher_motif w = fold f [0..<16] (delay 1000 w)"
    by (simp add: test_afficher_motif_def afficher_titre_test_def f_def Let_def)
  have s: "[0..<16] = [0..<k] @ k # [Suc k..<16]"
    using assms(1) upt_add_eq_append [of 0 k "16 - k"] by (simp add: upt_conv_Cons)
  define u where "u = fold f [0..<k] (delay 1000 w)"
  define v where "v = matrice_led_afficher_motif (formes_essai ! k) u"
  have "test_afficher_motif w = fold f [Suc k..<16] (matrice_led_effacer (delay 500 v))"
    by (simp add: e s u_def v_def f_def)
  moreover have "trace sortes_led v (fold f [Suc k..<16] (matrice_led_effacer (delay 500 v)))"
    by (intro t trace_led trace_appels) simp_all
  moreover have "trace sortes_led w v" unfolding v_def u_def by (intro t trace_led trace_appels) simp_all
  moreover have "led_marche d v"
    unfolding v_def u_def f_def by (intro led_marche_intros assms(2))
  moreover have "\<forall>i < 8. registres_de d v (1 + int i) = formes_essai ! k ! i mod 256"
    unfolding v_def all_less_8 registres_motif by simp
  ultimately show ?thesis by auto
qed

section \<open>The grid\<close>

definition montre_cellule :: "nat \<Rightarrow> peripheriques \<Rightarrow> peripheriques" where
  "montre_cellule i w = delay 500 (refresh_display (display_pattern (int (i div 4)) (int (i mod 4)) (patterns ! i) w))"

lemma montre_cellule_terminal:
  "terminal_de (journal (montre_cellule i w)) =
     terminal_de (journal (display_pattern (int (i div 4)) (int (i mod 4)) (patterns ! i) w))"
  "start_y (montre_cellule i w) = start_y w" "start_x (montre_cellule i w) = start_x w"
  by (simp_all add: montre_cellule_def refresh_display_def appels_def display_pattern_eq)

lemma montre_cellule_visible: "grille_visible (montre_cellule i w) = grille_visible w"
  by (simp add: grille_visible_def montre_cellule_terminal display_pattern_eq)

lemma case_visible:
  assumes "grille_visible w" and "k < 16" "i < 8" "j < 8"
  shows "visible (terminal_de (journal w)) (coin_y w (int (k div 4)) + int i, coin_x w (int (k mod 4)) + int j)"
    and "dans_cellule w (int (k div 4)) (int (k mod 4)) (coin_y w (int (k div 4)) + int i, coin_x w (int (k mod 4)) + int j)"
proof -
  have "int (k div 4) < 4" "int (k mod 4) < 4" using assms(2) by simp_all
  then show "visible (terminal_de (journal w)) (coin_y w (int (k div 4)) + int i, coin_x w (int (k mod 4)) + int j)"
    using assms by (auto simp: visible_def grille_visible_def coin_y_def coin_x_def)
  show "dans_cellule w (int (k div 4)) (int (k mod 4)) (coin_y w (int (k div 4)) + int i, coin_x w (int (k mod 4)) + int j)"
    using assms(3,4) by (simp add: dans_cellule_def)
qed

lemma montre_cellule_montre:
  assumes w: "grille_visible w" and "n < 16" "k < 16"
  shows "cellule_montre (montre_cellule n w) k m \<longleftrightarrow> (if k = n then \<forall>i < 8. \<forall>j < 8. patterns ! n ! i ! j = m ! i ! j else cellule_montre w k m)"
proof -
  have n: "int (n div 4) < 4" "int (n mod 4) < 4" using assms(2) by simp_all
  have same: "int (k div 4) = int (n div 4) \<and> int (k mod 4) = int (n mod 4) \<longleftrightarrow> k = n"
    by (metis div_mult_mod_eq of_nat_eq_iff)
  have "glyphes (terminal_de (journal (montre_cellule n w))) (coin_y w (int (k div 4)) + int i, coin_x w (int (k mod 4)) + int j) =
      (if k = n then Car (patterns ! n ! i ! j)
       else glyphes (terminal_de (journal w)) (coin_y w (int (k div 4)) + int i, coin_x w (int (k mod 4)) + int j))"
    if "i < 8" "j < 8" for i j
  proof -
    note c = case_visible [OF w assms(3) that]
    show ?thesis
    proof (cases "k = n")
      case True
      with c n show ?thesis by (simp add: montre_cellule_terminal(1) display_pattern_cellule)
    next
      case False
      then have "\<not> dans_cellule w (int (n div 4)) (int (n mod 4)) (coin_y w (int (k div 4)) + int i, coin_x w (int (k mod 4)) + int j)"
        using cellules_disjointes [OF c(2)] same by blast
      with False show ?thesis by (simp add: montre_cellule_terminal(1) display_pattern_cellule)
    qed
  qed
  then show ?thesis by (simp add: cellule_montre_def coin_y_def coin_x_def montre_cellule_terminal(2,3))
qed

lemma cellules_montrees:
  assumes "grille_visible w" "n \<le> 16"
  shows "grille_visible (fold montre_cellule [0..<n] w) \<and> (\<forall>k < n. cellule_montre (fold montre_cellule [0..<n] w) k (patterns ! k))"
  using assms(2)
proof (induction n)
  case (Suc n)
  then have IH: "grille_visible (fold montre_cellule [0..<n] w)" "\<forall>k < n. cellule_montre (fold montre_cellule [0..<n] w) k (patterns ! k)"
    by simp_all
  with Suc.prems show ?case by (auto simp: montre_cellule_visible montre_cellule_montre less_Suc_eq)
qed (simp add: assms(1))

section \<open>The digits\<close>

text \<open>What a sequence of calls into the driver keeps: its device, and the coherence of its buffer.\<close>

definition suite_segment :: "ht16k33 \<Rightarrow> peripheriques \<Rightarrow> peripheriques \<Rightarrow> bool" where
  "suite_segment d w v \<longleftrightarrow> trace sortes_segment w v \<and> i2c_fd v = i2c_fd w \<and> coherent d v"

lemma suite_segment_refl: "coherent d w \<Longrightarrow> suite_segment d w w"
  by (simp add: suite_segment_def)

lemma suite_segment_trans: "\<lbrakk>suite_segment d w v; suite_segment d v u\<rbrakk> \<Longrightarrow> suite_segment d w u"
  by (auto simp: suite_segment_def intro: trace_trans)

lemma segment7_points_champs:
  "i2c_fd (segment7_decimal p a w) = i2c_fd w" "i2c_fd (segment7_deuxpoints a w) = i2c_fd w" "i2c_fd (segment7_luminosite l w) = i2c_fd w"
  by (simp_all add: segment7_decimal_def segment7_deuxpoints_def segment7_luminosite_def envoyer_commande_def appels_def Let_def)

lemma trace_segment7_points:
  assumes "trace A w v" and "sortes_segment \<subseteq> A"
  shows "trace A w (segment7_decimal p a v)" "trace A w (segment7_deuxpoints a v)"
  using assms unfolding segment7_decimal_def segment7_deuxpoints_def Let_def by (auto intro!: trace_segment7)

lemma suite_segment_operations:
  assumes "suite_segment d w v"
  shows "suite_segment d w (segment7_effacer v)" "suite_segment d w (segment7_decimal p a v)" "suite_segment d w (segment7_deuxpoints a v)"
    "suite_segment d w (segment7_luminosite l v)" "suite_segment d w (delay ms v)"
proof -
  have v: "trace sortes_segment w v" "i2c_fd v = i2c_fd w" "coherent d v" using assms by (simp_all add: suite_segment_def)
  note t = trace_segment7 [OF v(1) order_refl] trace_segment7_points [OF v(1) order_refl] trace_appels(3) [OF v(1)]
  show "suite_segment d w (segment7_effacer v)" "suite_segment d w (segment7_luminosite l v)"
    using t v by (simp_all add: suite_segment_def coherent_effacer coherent_luminosite segment7_points_champs)
  show "suite_segment d w (segment7_decimal p a v)" "suite_segment d w (segment7_deuxpoints a v)"
    using t v by (simp_all add: suite_segment_def coherent_decimal coherent_deuxpoints segment7_points_champs)
  show "suite_segment d w (delay ms v)"
    using t v by (simp add: suite_segment_def coherent_def delay_def)
qed

lemma suite_segment_fold:
  "\<lbrakk>suite_segment d w v; \<And>x u. suite_segment d w u \<Longrightarrow> suite_segment d w (f x u)\<rbrakk> \<Longrightarrow> suite_segment d w (fold f xs v)"
  by (induction xs arbitrary: v) auto

lemmas suite_segment_intros = suite_segment_operations suite_segment_fold

text \<open>A number shown is read.\<close>

lemma suite_segment_nombre:
  assumes "suite_segment d w v" and "- 1000 < n" "n < 10000"
  shows "\<exists>u. segment7_afficher_nombre n v = Some u \<and> suite_segment d w u \<and> lire_afficheur (controleur d u) = Some n"
proof -
  have v: "trace sortes_segment w v" "i2c_fd v = i2c_fd w" "coherent d v" using assms(1) by (simp_all add: suite_segment_def)
  have "c_int_ok n" "n \<noteq> - (2 ^ 31)" using assms(2,3) by (simp_all add: c_int_ok_def)
  from segment7_afficher_nombre_rend [OF v(3) this] obtain u where
    u: "segment7_afficher_nombre n v = Some u" "coherent d u" "lire_afficheur (controleur d u) = Some (valeur_affichee n)" by blast
  moreover have "valeur_affichee n = n" using assms(2,3) by (simp add: valeur_affichee_def)
  moreover have "trace sortes_segment w u" by (rule trace_afficher_nombre [OF v(1) order_refl u(1)])
  ultimately show ?thesis using nombre_champs [OF u(1)] v(2) by (simp add: suite_segment_def)
qed

lemma suite_segment_suite:
  assumes "suite_segment d w v" and "- 1000 < n" "n < 10000"
    and "\<And>u. suite_segment d w u \<Longrightarrow> lire_afficheur (controleur d u) = Some n \<Longrightarrow> \<exists>x. f u = Some x \<and> P x"
  shows "\<exists>x. Option.bind (segment7_afficher_nombre n v) f = Some x \<and> P x"
  using suite_segment_nombre [OF assms(1-3)] assms(4) by auto

lemma nombres_lus:
  assumes "suite_segment d w v" and "\<forall>n \<in> set ns. 0 \<le> n \<and> n < 10000"
  shows "\<exists>u. foldM (\<lambda>i w. Option.bind (segment7_afficher_nombre i w) (\<lambda>w. Some (delay 500 w))) ns v = Some u \<and> suite_segment d v u \<and>
    (\<forall>n \<in> set ns. \<exists>x. lire_afficheur (controleur d x) = Some n \<and> suite_segment d v x \<and> suite_segment d x u)"
  using assms
proof (induction ns arbitrary: v)
  case Nil
  then show ?case by (simp add: suite_segment_def)
next
  case (Cons n ns)
  have c: "suite_segment d v v" using Cons.prems(1) by (simp add: suite_segment_def)
  from suite_segment_nombre [OF c, of n] Cons.prems(2) obtain x where
    x: "segment7_afficher_nombre n v = Some x" "suite_segment d v x" "lire_afficheur (controleur d x) = Some n" by auto
  have "suite_segment d x x" using x(2) by (simp add: suite_segment_def)
  then have t: "suite_segment d x (delay 500 x)" by (rule suite_segment_operations)
  have ns: "\<forall>n \<in> set ns. 0 \<le> n \<and> n < 10000" using Cons.prems(2) by simp
  have "suite_segment d w (delay 500 x)" by (rule suite_segment_trans [OF Cons.prems(1) suite_segment_trans [OF x(2) t]])
  from Cons.IH [OF this ns] obtain u where
    u: "foldM (\<lambda>i w. Option.bind (segment7_afficher_nombre i w) (\<lambda>w. Some (delay 500 w))) ns (delay 500 x) = Some u"
      "suite_segment d (delay 500 x) u"
      "\<forall>n \<in> set ns. \<exists>y. lire_afficheur (controleur d y) = Some n \<and> suite_segment d (delay 500 x) y \<and> suite_segment d y u"
    by blast
  have xu: "suite_segment d x u" by (rule suite_segment_trans [OF t u(2)])
  have "suite_segment d v y" if "suite_segment d (delay 500 x) y" for y
    by (rule suite_segment_trans [OF x(2) suite_segment_trans [OF t that]])
  with u x xu show ?case by (auto intro: suite_segment_trans)
qed

lemma segment7_essai_rend:
  assumes "h_wiringPiSetup E [] \<noteq> -1" and "0 \<le> h_i2cSetup E [Sys (WiringPiSetup (h_wiringPiSetup E []))] HT16K33_ADDRESS"
  defines "w0 \<equiv> segment7_init E (consigne [Sys (WiringPiSetup (h_wiringPiSetup E []))] etat_initial)"
  shows "\<exists>w'. segment7_test_main E etat_initial = Some (0, w') \<and> suite_segment d w0 w' \<and>
    display_buffer w' = [0, 0, 0, 0, 0, 0, 0, 0] \<and>
    (\<forall>k < 10. \<exists>v. lire_afficheur (controleur d v) = Some (1111 * int k) \<and> suite_segment d w0 v \<and> suite_segment d v w') \<and>
    (\<exists>v. lire_afficheur (controleur d v) = Some (-42) \<and> suite_segment d w0 v \<and> suite_segment d v w')"
proof -
  define ns :: "int list" where "ns = map (\<lambda>k. 1111 * k) [0..9]"
  have ns: "set ns = (\<lambda>k. 1111 * int k) ` {..<10}" by (simp add: ns_def lessThan_nat_numeral upto.simps) (auto simp: lessThan_Suc eval_nat_numeral)
  have "coherent d w0"
    using segment7_init_coherent [of E "consigne [Sys (WiringPiSetup (h_wiringPiSetup E []))] etat_initial" d] assms(2)
    by (simp add: w0_def etat_initial_def Let_def)
  then have w0: "suite_segment d w0 w0" by (rule suite_segment_refl)
  from nombres_lus [OF w0, of ns] obtain w1 where
    w1: "foldM (\<lambda>i w. Option.bind (segment7_afficher_nombre i w) (\<lambda>w. Some (delay 500 w))) ns w0 = Some w1" "suite_segment d w0 w1"
      "\<forall>n \<in> set ns. \<exists>x. lire_afficheur (controleur d x) = Some n \<and> suite_segment d w0 x \<and> suite_segment d x w1"
    by (auto simp: ns)
  have "suite_segment d w1 w1" using w1(2) by (simp add: suite_segment_def)
  from suite_segment_nombre [OF this, of "-42"] obtain w2 where
    w2: "segment7_afficher_nombre (-42) w1 = Some w2" "suite_segment d w1 w2" "lire_afficheur (controleur d w2) = Some (-42)" by auto
  have w22: "suite_segment d w2 w2" using w2(2) by (simp add: suite_segment_def)
  let ?suite = "\<lambda>w. let w = delay 1000 w; w = segment7_effacer w; w = delay 1000 w in
    Option.bind (segment7_afficher_nombre 1234 w) (\<lambda>w.
      let w = delay 500 (segment7_decimal 0 1 w); w = delay 500 (segment7_decimal 1 1 w);
          w = delay 500 (segment7_decimal 2 1 w); w = delay 500 (segment7_decimal 3 1 w) in
    Option.bind (segment7_afficher_nombre 1234 w) (\<lambda>w.
      let w = fold (\<lambda>i w. delay 500 (segment7_deuxpoints 0 (delay 500 (segment7_deuxpoints 1 w)))) [0..<5] w in
    Option.bind (segment7_afficher_nombre 8888 w) (\<lambda>w.
      let w = fold (\<lambda>i w. delay 200 (segment7_luminosite i w)) [0..15] w in Some (0::int, segment7_effacer w))))"
  have "\<exists>x. ?suite w2 = Some x \<and> (fst x = 0 \<and> suite_segment d w2 (snd x) \<and> display_buffer (snd x) = [0, 0, 0, 0, 0, 0, 0, 0])"
    unfolding Let_def
  proof ((rule suite_segment_suite [of d w2] suite_segment_intros w22 | simp only: | assumption)+, goal_cases)
    case (1 u v x)
    then have f: "suite_segment d w2 (fold (\<lambda>i w. delay 200 (segment7_luminosite i w)) [0..15] x)"
      by (intro suite_segment_intros)
    then have "display_buffer (segment7_effacer (fold (\<lambda>i w. delay 200 (segment7_luminosite i w)) [0..15] x)) = [0, 0, 0, 0, 0, 0, 0, 0]"
      by (intro buffer_effacer coherentD(2) [of d]) (simp add: suite_segment_def)
    with suite_segment_operations(1) [OF f] show ?case by simp
  qed
  then obtain w' where w': "?suite w2 = Some (0, w')" "suite_segment d w2 w'" "display_buffer w' = [0, 0, 0, 0, 0, 0, 0, 0]" by auto
  have "segment7_test_main E etat_initial = Some (0, w')"
    using assms(1) w1(1) w2(1) w'(1)
    by (simp add: segment7_test_main_def wiringPiSetup_def w0_def ns_def etat_initial_def Let_def)
  moreover have s1: "suite_segment d w1 w'" by (rule suite_segment_trans [OF w2(2) w'(2)])
  moreover have "\<exists>v. lire_afficheur (controleur d v) = Some (1111 * int k) \<and> suite_segment d w0 v \<and> suite_segment d v w'" if "k < 10" for k
  proof -
    have "1111 * int k \<in> set ns" using that by (auto simp: ns)
    with w1(3) obtain x where "lire_afficheur (controleur d x) = Some (1111 * int k)" "suite_segment d w0 x" "suite_segment d x w1" by blast
    with suite_segment_trans [OF _ s1] show ?thesis by blast
  qed
  ultimately show ?thesis
    using suite_segment_trans [OF w1(2) s1] suite_segment_trans [OF w1(2) w2(2)] w2(3) w'(2,3) by blast
qed

section \<open>The display\<close>

text \<open>A ready display whose control bits are in range, and the part of it that each call keeps.\<close>

definition lcd_sain :: "hd44780 \<Rightarrow> peripheriques \<Rightarrow> bool" where
  "lcd_sain D w \<longleftrightarrow> lcd_pret D w \<and> lcdControl w \<in> {4, 5, 6, 7}"

lemma lcd_sain_pause: "lcd_sain D w \<Longrightarrow> lcd_sain D (sleep n w)" "lcd_sain D w \<Longrightarrow> lcd_sain D (usleep n w)"
  using lcd_autres(1) [of "[Sys (Delay (1000 * n))]" D w] lcd_autres(1) [of "[Sys (DelayMicroseconds n)]" D w]
  by (simp_all add: lcd_sain_def sleep_def usleep_def)

lemma lcd_sain_effacer:
  assumes "lcd_sain D w"
  shows "\<exists>u. lcd_effacer w = Some u \<and> lcd_sain D u \<and> lcd_texte D u = replicate 32 0x20"
proof -
  from assms have "lcd_pret D w" by (simp add: lcd_sain_def)
  from lcd_effacer_juste [OF this] obtain u where u: "lcd_effacer w = Some u" "lcd_aligne D u 0" "lcd_texte D u = replicate 32 0x20" by blast
  with controle_lcd(1) [OF u(1)] assms show ?thesis by (auto simp: lcd_sain_def lcd_aligne_pret)
qed

lemma lcd_sain_position:
  assumes "lcd_sain D w" and "0 \<le> x" "x < 16" "0 \<le> y" "y < 2"
  shows "\<exists>u. lcd_position x y w = Some u \<and> lcd_sain D u \<and> lcd_aligne D u (16 * y + x) \<and> lcd_texte D u = lcd_texte D w"
proof -
  from assms have "lcd_pret D w" by (simp add: lcd_sain_def)
  from lcd_position_juste [OF this assms(2-5)] obtain u where
    u: "lcd_position x y w = Some u" "lcd_aligne D u (16 * y + x)" "lcd_texte D u = lcd_texte D w" by blast
  with controle_lcd(2) [OF u(1)] assms show ?thesis by (auto simp: lcd_sain_def lcd_aligne_pret)
qed

lemma lcd_sain_caractere:
  assumes "lcd_sain D w" and "lcd_aligne D w p"
  shows "\<exists>u. lcd_caractere c w = Some u \<and> lcd_sain D u \<and> lcd_aligne D u ((p + 1) mod 32) \<and> lcd_texte D u = (lcd_texte D w)[nat p := c]"
proof -
  from lcd_caractere_juste [OF assms(2)] obtain u where
    u: "lcd_caractere c w = Some u" "lcd_aligne D u ((p + 1) mod 32)" "lcd_texte D u = (lcd_texte D w)[nat p := c]" by blast
  with controle_lcd(3) [OF u(1)] assms show ?thesis by (auto simp: lcd_sain_def lcd_aligne_pret)
qed

lemma lcd_sain_caracteres:
  assumes "lcd_sain D w" and "lcd_aligne D w p"
  shows "\<exists>u. foldM (\<lambda>c. lcd_caractere (octet_de c)) m w = Some u \<and> lcd_sain D u \<and> lcd_texte D u = inscrire (map octet_de m) p (lcd_texte D w)"
  using assms
proof (induction m arbitrary: w p)
  case (Cons c m)
  from lcd_sain_caractere [OF Cons.prems, of "octet_de c"] obtain v where
    v: "lcd_caractere (octet_de c) w = Some v" "lcd_sain D v" "lcd_aligne D v ((p + 1) mod 32)" "lcd_texte D v = (lcd_texte D w)[nat p := octet_de c]"
    by blast
  from Cons.IH [OF v(2,3)] v show ?case by simp
qed simp

lemma lcd_sain_ecrire:
  assumes "lcd_sain D w" and "0 \<le> x" "x < 16" "0 \<le> y" "y < 2"
  shows "\<exists>u. lcd_ecrire x y m w = Some u \<and> lcd_sain D u \<and>
    lcd_texte D u = inscrire (map octet_de (chaine_c m)) (16 * y + x) (lcd_texte D w)"
  using lcd_sain_position [OF assms] lcd_sain_caracteres [of D _ "16 * y + x" "chaine_c m"] by (fastforce simp: lcd_ecrire_bind)

text \<open>The control byte: cursor and blinking.\<close>

lemma lcd_sain_controle:
  assumes "lcd_sain D w" and "a \<in> {4, 5, 6, 7}" and "lcd_courant w = Some l"
  defines "u \<equiv> putCommand l (word_of_int (LCD_CTRL OR a)) (w\<lparr>lcdControl := a\<rparr>)"
  shows "lcd_sain D u" and "lcd_texte D u = lcd_texte D w"
proof -
  let ?w = "w\<lparr>lcdControl := a\<rparr>"
  from assms(1,3) have l: "lcd_struct_ok w l" and d: "hd_ok (hd44780_de D (journal w))"
    by (auto simp: lcd_sain_def lcd_pret_def lcd_struct_ok_def)
  then have l': "lcd_struct_ok ?w l" and d': "hd_ok (hd44780_de D (journal ?w))"
    by (auto simp: lcd_struct_ok_def lcd_courant_def split: if_splits)
  have a: "0 \<le> a" "a < 8" "bit a 2" using assms(2) by (auto simp: bit_iff_odd)
  note k = hd_controle [OF a(1,2), of "coeur (hd44780_de D (journal w))"]
  have "hd_ok (hd44780_de D (journal u))"
    unfolding u_def using d a(3) by (intro hd_ok_putCommand [OF l' d' refl]) (simp_all add: k hd_ok_def)
  moreover have "lcd_struct_ok u l" using l' lcd_struct_okD(2,3) [OF l] by (simp add: u_def)
  moreover have "lcdControl u = a" by (simp add: u_def)
  ultimately show "lcd_sain D u" using assms(2) by (auto simp: lcd_sain_def lcd_pret_def)
  have "coeur (hd44780_de D (journal u)) = hd_instruction (word_of_int (LCD_CTRL OR a)) (coeur (hd44780_de D (journal w)))"
    unfolding u_def by (subst coeur_putCommand [OF l' d']) simp
  then show "lcd_texte D u = lcd_texte D w" by (simp add: lcd_texte_def k cellules_def)
qed

lemma lcd_sain_curseur:
  assumes "lcd_sain D w"
  shows "\<exists>u. lcd_curseur e w = Some u \<and> lcd_sain D u \<and> lcd_texte D u = lcd_texte D w"
    and "\<exists>u. lcd_curseur_clignote e w = Some u \<and> lcd_sain D u \<and> lcd_texte D u = lcd_texte D w"
proof -
  obtain l where l: "lcd_courant w = Some l" using assms by (auto simp: lcd_sain_def lcd_pret_def lcd_struct_ok_def)
  have c: "lcdControl w \<in> {4, 5, 6, 7}" using assms by (simp add: lcd_sain_def)
  then have a: "(if e \<noteq> 0 then lcdControl w OR 2 else lcdControl w AND NOT 2) \<in> {4, 5, 6, 7}" and
    b: "(if e \<noteq> 0 then lcdControl w OR 1 else lcdControl w AND NOT 1) \<in> {4, 5, 6, 7}" by auto
  from lcd_sain_controle [OF assms a l] lcd_sain_controle [OF assms b l] show
    "\<exists>u. lcd_curseur e w = Some u \<and> lcd_sain D u \<and> lcd_texte D u = lcd_texte D w"
    "\<exists>u. lcd_curseur_clignote e w = Some u \<and> lcd_sain D u \<and> lcd_texte D u = lcd_texte D w"
    using l by (simp_all add: lcd_curseur_def lcd_curseur_clignote_def)
qed

text \<open>Following a call on the display with the rest of the program.\<close>

lemma lcd_suite:
  assumes "\<exists>u. m = Some u \<and> lcd_sain D u \<and> R u" and "\<And>u. lcd_sain D u \<Longrightarrow> R u \<Longrightarrow> \<exists>v. f u = Some v \<and> Q v"
  shows "\<exists>v. Option.bind m f = Some v \<and> Q v"
  using assms by auto

lemma lcd_sain_printf:
  assumes "lcd_sain D w" and "lcd_aligne D w p"
  shows "\<exists>u. lcd_printf m w = Some u \<and> lcd_sain D u \<and> lcd_texte D u = inscrire (map octet_de (chaine_c (take 1022 m))) p (lcd_texte D w)"
  using lcd_sain_caracteres [OF assms] by (simp add: lcd_printf_def lcd_chaine_def)

lemma lcd_sain_def_caractere:
  assumes "lcd_sain D w" and "0 \<le> i" "length data = 8"
  shows "\<exists>u. lcd_def_caractere i data w = Some u \<and> lcd_sain D u \<and> lcd_texte D u = lcd_texte D w"
proof -
  from assms(1) have "lcd_pret D w" by (simp add: lcd_sain_def)
  from lcd_def_caractere_memoire [OF this assms(2,3)] obtain u where
    u: "lcd_def_caractere i data w = Some u" "lcd_pret D u" "lcd_texte D u = lcd_texte D w" by blast
  have f: "lcdControl (fold (\<lambda>i. sendDataCmd l (data ! i)) xs v) = lcdControl v" for l xs and v :: peripheriques
    by (induction xs arbitrary: v) simp_all
  have "lcdControl u = lcdControl w"
    using u(1) by (auto simp: lcd_def_caractere_def bind_Some_iff appels_def Let_def f)
  with u assms(1) show ?thesis by (simp add: lcd_sain_def)
qed

lemma lcd_sain_position_printf:
  assumes "lcd_sain D w" and "0 \<le> x" "x < 16" "0 \<le> y" "y < 2"
  shows "\<exists>u. Option.bind (lcd_position x y w) (lcd_printf m) = Some u \<and> lcd_sain D u \<and>
    lcd_texte D u = inscrire (map octet_de (chaine_c (take 1022 m))) (16 * y + x) (lcd_texte D w)"
proof -
  from lcd_sain_position [OF assms] obtain v where
    v: "lcd_position x y w = Some v" "lcd_sain D v" "lcd_aligne D v (16 * y + x)" "lcd_texte D v = lcd_texte D w" by blast
  from lcd_sain_printf [OF v(2,3), of m] v(1,4) show ?thesis by simp
qed

lemma lcd_sain_position_caractere:
  assumes "lcd_sain D w" and "0 \<le> x" "x < 16" "0 \<le> y" "y < 2"
  shows "\<exists>u. Option.bind (lcd_position x y w) (lcd_caractere c) = Some u \<and> lcd_sain D u \<and>
    lcd_texte D u = (lcd_texte D w)[nat (16 * y + x) := c]"
proof -
  from lcd_sain_position [OF assms] obtain v where
    v: "lcd_position x y w = Some v" "lcd_sain D v" "lcd_aligne D v (16 * y + x)" "lcd_texte D v = lcd_texte D w" by blast
  from lcd_sain_caractere [OF v(2,3), of c] v(1,4) show ?thesis by auto
qed

lemma lcd_texte_pause: "lcd_texte D (sleep n w) = lcd_texte D w" "lcd_texte D (usleep n w) = lcd_texte D w"
  using lcd_autres(2) [of "[Sys (Delay (1000 * n))]" D w] lcd_autres(2) [of "[Sys (DelayMicroseconds n)]" D w]
  by (simp_all add: sleep_def usleep_def)

text \<open>The tests one by one.\<close>

lemma lcd_test_texte_rend:
  assumes "lcd_sain D w"
  shows "\<exists>u. lcd_test_texte w = Some u \<and> lcd_sain D u \<and> lcd_texte D u = ligne_lcd ''Valeur: 42'' @ ligne_lcd ''PI: 3.14''"
proof -
  obtain w1 where w1: "lcd_effacer w = Some w1" "lcd_sain D w1" using lcd_sain_effacer [OF assms] by blast
  obtain w2 where w2: "lcd_ecrire 0 0 ''Test LCD'' w1 = Some w2" "lcd_sain D w2" using lcd_sain_ecrire [OF w1(2), of 0 0 "''Test LCD''"] by auto
  obtain w3 where w3: "lcd_ecrire 0 1 ''Ligne 2'' w2 = Some w3" "lcd_sain D w3" using lcd_sain_ecrire [OF w2(2), of 0 1 "''Ligne 2''"] by auto
  obtain w4 where w4: "lcd_effacer (sleep 2 w3) = Some w4" "lcd_sain D w4" "lcd_texte D w4 = replicate 32 0x20"
    using lcd_sain_effacer [OF lcd_sain_pause(1) [OF w3(2), of 2]] by blast
  obtain w5 where w5: "Option.bind (lcd_position 0 0 w4) (lcd_printf (''Valeur: '' @ format_d 42)) = Some w5" "lcd_sain D w5"
      "lcd_texte D w5 = inscrire (map octet_de (chaine_c (take 1022 (''Valeur: '' @ format_d 42)))) (16 * 0 + 0) (lcd_texte D w4)"
    using lcd_sain_position_printf [OF w4(2), of 0 0 "''Valeur: '' @ format_d 42"] by auto
  obtain w6 where w6: "Option.bind (lcd_position 0 1 w5) (lcd_printf ''PI: 3.14'') = Some w6" "lcd_sain D w6"
      "lcd_texte D w6 = inscrire (map octet_de (chaine_c (take 1022 ''PI: 3.14''))) (16 * 1 + 0) (lcd_texte D w5)"
    using lcd_sain_position_printf [OF w5(2), of 0 1 "''PI: 3.14''"] by auto
  have "lcd_test_texte w = Some (sleep 2 w6)"
    using w1(1) w2(1) w3(1) w4(1) w5(1) w6(1) by (auto simp: lcd_test_texte_def Let_def bind_eq_Some_conv)
  moreover have "lcd_texte D w6 = ligne_lcd ''Valeur: 42'' @ ligne_lcd ''PI: 3.14''"
    unfolding w6(3) w5(3) w4(3) by code_simp
  ultimately show ?thesis using lcd_sain_pause(1) [OF w6(2)] by (simp add: lcd_texte_pause)
qed

lemma lcd_test_curseur_rend:
  assumes "lcd_sain D w"
  shows "\<exists>u. lcd_test_curseur w = Some u \<and> lcd_sain D u \<and> lcd_texte D u = ligne_lcd ''Test curseur'' @ ligne_lcd []"
proof -
  obtain w1 where w1: "lcd_effacer w = Some w1" "lcd_sain D w1" "lcd_texte D w1 = replicate 32 0x20" using lcd_sain_effacer [OF assms] by blast
  obtain w2 where w2: "lcd_ecrire 0 0 ''Test curseur'' w1 = Some w2" "lcd_sain D w2"
      "lcd_texte D w2 = inscrire (map octet_de (chaine_c ''Test curseur'')) (16 * 0 + 0) (lcd_texte D w1)"
    using lcd_sain_ecrire [OF w1(2), of 0 0 "''Test curseur''"] by auto
  obtain w3 where w3: "lcd_curseur 1 w2 = Some w3" "lcd_sain D w3" "lcd_texte D w3 = lcd_texte D w2"
    using lcd_sain_curseur(1) [OF w2(2)] by blast
  obtain w4 where w4: "lcd_position 0 1 w3 = Some w4" "lcd_sain D w4" "lcd_texte D w4 = lcd_texte D w3"
    using lcd_sain_position [OF w3(2), of 0 1] by auto
  obtain w5 where w5: "lcd_curseur_clignote 1 (sleep 1 w4) = Some w5" "lcd_sain D w5" "lcd_texte D w5 = lcd_texte D (sleep 1 w4)"
    using lcd_sain_curseur(2) [OF lcd_sain_pause(1) [OF w4(2), of 1]] by blast
  obtain w6 where w6: "lcd_curseur_clignote 0 (sleep 2 w5) = Some w6" "lcd_sain D w6" "lcd_texte D w6 = lcd_texte D (sleep 2 w5)"
    using lcd_sain_curseur(2) [OF lcd_sain_pause(1) [OF w5(2), of 2]] by blast
  obtain w7 where w7: "lcd_curseur 0 w6 = Some w7" "lcd_sain D w7" "lcd_texte D w7 = lcd_texte D w6"
    using lcd_sain_curseur(1) [OF w6(2)] by blast
  have "lcd_test_curseur w = Some w7"
    using w1(1) w2(1) w3(1) w4(1) w5(1) w6(1) w7(1) by (simp add: lcd_test_curseur_def Let_def)
  moreover have "lcd_texte D w2 = ligne_lcd ''Test curseur'' @ ligne_lcd []"
    unfolding w2(3) w1(3) by code_simp
  ultimately show ?thesis using w7(2,3) w3(3) w4(3) w5(3) w6(3) by (simp add: lcd_texte_pause)
qed

lemma lcd_test_special_rend:
  assumes "lcd_sain D w"
  shows "\<exists>u. lcd_test_special w = Some u \<and> lcd_sain D u \<and>
    lcd_texte D u = ligne_lcd ''Caractere specia'' @ 0 # map octet_de '':'' @ replicate 14 0x20"
proof -
  have "0 \<le> (0::int)" "length heart = 8" by (simp_all add: heart_def)
  from lcd_sain_def_caractere [OF assms this] obtain w1 where w1: "lcd_def_caractere 0 heart w = Some w1" "lcd_sain D w1" by blast
  obtain w2 where w2: "lcd_effacer w1 = Some w2" "lcd_sain D w2" "lcd_texte D w2 = replicate 32 0x20" using lcd_sain_effacer [OF w1(2)] by blast
  obtain w3 where w3: "lcd_ecrire 0 0 ''Caractere special:'' w2 = Some w3" "lcd_sain D w3"
      "lcd_texte D w3 = inscrire (map octet_de (chaine_c ''Caractere special:'')) (16 * 0 + 0) (lcd_texte D w2)"
    using lcd_sain_ecrire [OF w2(2), of 0 0 "''Caractere special:''"] by auto
  obtain w4 where w4: "Option.bind (lcd_position 0 1 w3) (lcd_caractere 0) = Some w4" "lcd_sain D w4"
      "lcd_texte D w4 = (lcd_texte D w3)[nat (16 * 1 + 0) := 0]"
    using lcd_sain_position_caractere [OF w3(2), of 0 1 0] by auto
  have "lcd_test_special w = Some (sleep 2 w4)"
    using w1(1) w2(1) w3(1) w4(1) by (auto simp: lcd_test_special_def Let_def bind_eq_Some_conv)
  moreover have "lcd_texte D w4 = ligne_lcd ''Caractere specia'' @ 0 # map octet_de '':'' @ replicate 14 0x20"
    unfolding w4(3) w3(3) w2(3) by code_simp
  ultimately show ?thesis using lcd_sain_pause(1) [OF w4(2)] by (simp add: lcd_texte_pause)
qed

lemma lcd_coeurs:
  assumes "lcd_sain D w" and "\<forall>x \<in> set xs. 0 \<le> x \<and> x < 16"
  shows "\<exists>u. foldM (\<lambda>i w. Option.bind (lcd_position i 1 w) (\<lambda>w. Option.bind (lcd_caractere 0 w) (\<lambda>w. Some (usleep 200000 w)))) xs w = Some u \<and>
    lcd_sain D u \<and> lcd_texte D u = fold (\<lambda>x t. t[nat (16 + x) := 0]) xs (lcd_texte D w)"
  using assms
proof (induction xs arbitrary: w)
  case (Cons x xs)
  obtain v where v: "Option.bind (lcd_position x 1 w) (lcd_caractere 0) = Some v" "lcd_sain D v" "lcd_texte D v = (lcd_texte D w)[nat (16 * 1 + x) := 0]"
    using lcd_sain_position_caractere [OF Cons.prems(1), of x 1 0] Cons.prems(2) by auto
  have xs: "\<forall>x \<in> set xs. 0 \<le> x \<and> x < 16" using Cons.prems(2) by simp
  from Cons.IH [OF lcd_sain_pause(2) [OF v(2)] xs] v(1,3) show ?case
    by (auto simp: lcd_texte_pause bind_eq_Some_conv)
qed simp

lemma lcd_test_animation_rend:
  assumes "lcd_sain D w"
  shows "\<exists>u. lcd_test_animation w = Some u \<and> lcd_sain D u \<and> lcd_texte D u = ligne_lcd ''Animation:'' @ replicate 16 0"
proof -
  obtain w1 where w1: "lcd_effacer w = Some w1" "lcd_sain D w1" "lcd_texte D w1 = replicate 32 0x20" using lcd_sain_effacer [OF assms] by blast
  obtain w2 where w2: "lcd_ecrire 0 0 ''Animation:'' w1 = Some w2" "lcd_sain D w2"
      "lcd_texte D w2 = inscrire (map octet_de (chaine_c ''Animation:'')) (16 * 0 + 0) (lcd_texte D w1)"
    using lcd_sain_ecrire [OF w1(2), of 0 0 "''Animation:''"] by auto
  have "\<forall>x \<in> set [0..15]. 0 \<le> x \<and> x < (16::int)" by auto
  from lcd_coeurs [OF w2(2) this] obtain u where
    u: "foldM (\<lambda>i w. Option.bind (lcd_position i 1 w) (\<lambda>w. Option.bind (lcd_caractere 0 w) (\<lambda>w. Some (usleep 200000 w)))) [0..15] w2 = Some u"
      "lcd_sain D u" "lcd_texte D u = fold (\<lambda>x t. t[nat (16 + x) := 0]) [0..15] (lcd_texte D w2)" by blast
  have "lcd_test_animation w = Some u" using w1(1) w2(1) u(1) by (simp add: lcd_test_animation_def)
  moreover have "lcd_texte D u = ligne_lcd ''Animation:'' @ replicate 16 0"
    unfolding u(3) w2(3) w1(3) by code_simp
  ultimately show ?thesis using u(2) by blast
qed

lemma lcd_sain_page:
  assumes "lcd_sain D w"
  shows "\<exists>u. lcd_page a b w = Some u \<and> lcd_sain D u"
proof -
  obtain w1 where w1: "lcd_effacer w = Some w1" "lcd_sain D w1" using lcd_sain_effacer [OF assms] by blast
  obtain w2 where w2: "lcd_ecrire 0 0 a w1 = Some w2" "lcd_sain D w2" using lcd_sain_ecrire [OF w1(2), of 0 0 a] by auto
  from lcd_sain_ecrire [OF w2(2), of 0 1 b] w1(1) w2(1) show ?thesis by (auto simp: lcd_page_def)
qed

lemma lcd_init_sain:
  assumes "0 \<le> h_i2cSetup E [] ADRESSE_LCD" and "\<And>h. h_malloc E h"
  shows "\<exists>w. lcd_init E etat_initial = Some (0, w) \<and> lcd_sain D w"
proof -
  have n: "neuf etat_initial" using neuf_initial [of "[]"] by simp
  have j: "journal etat_initial = []" by (simp add: etat_initial_def)
  from lcd_init_neuf [OF n, of E] assms obtain es where es: "lcd_init E etat_initial = lcd_demarrer nouveau_lcd
      (consigne es (etat_initial\<lparr>initialised := 1, lcds := (replicate 8 None)[0 := Some nouveau_lcd], lcdHandle := 0\<rparr>))"
    by (auto simp: j)
  let ?w = "consigne es (etat_initial\<lparr>initialised := 1, lcds := (replicate 8 None)[0 := Some nouveau_lcd], lcdHandle := 0\<rparr>)"
  have c: "0 \<le> lcdHandle ?w" "lcdHandle ?w < 8" "length (lcds ?w) = 8" "0 \<le> lcdControl ?w" "lcdControl ?w < 8"
    by (simp_all add: etat_initial_def)
  from lcd_demarrer_pret [OF c, of D] lcd_demarrer_eq [OF c] show ?thesis
    unfolding es by (auto simp: lcd_sain_def)
qed

section \<open>The loops on a signal\<close>

lemma signaux_vus: "fold handle_signal ss r = (if SIGINT \<in> set ss then 0 else r)" "fold handle_sigint ss r = (if SIGINT \<in> set ss then 0 else r)"
  by (induction ss arbitrary: r) (simp_all add: handle_signal_def handle_sigint_def)

lemma touch_test_tour_eq:
  "touch_test_tour E signaux w =
    (if SIGINT \<in> set (signaux (journal w)) then Some (Inr w)
     else Some (Inl (consigne [Gpio (DigitalRead TOUCH_PIN (h_digitalRead E (journal w) TOUCH_PIN)), Sys (Delay 500)] w)))"
  by (simp add: touch_test_tour_def signaux_vus touch_read_eq delay_def)

lemma matrice_btn_test_tour_eq:
  "\<exists>b es. matrice_btn_test_tour E signaux s =
    (if SIGINT \<in> set (signaux (journal (snd s))) then Some (Inr s)
     else Some (Inl (b, consigne (es @ [Sys (Delay 50)]) (snd s))))"
proof -
  obtain b es where "matrice_btn_lire E (snd s) = (b, consigne es (snd s))" using lire_forme by blast
  then show ?thesis
    by (auto simp: matrice_btn_test_tour_def signaux_vus delay_def Let_def split: prod.split)
qed

text \<open>A loop that waits for a signal, each of whose turns writes something in the journal.\<close>

lemma boucle_signal:
  fixes f :: "'s \<Rightarrow> ('s + 's) option" and j :: "'s \<Rightarrow> journal_t" and signaux :: "journal_t \<Rightarrow> int list"
  assumes f: "\<And>s. (SIGINT \<in> set (signaux (j s)) \<longrightarrow> f s = Some (Inr s)) \<and>
    (SIGINT \<notin> set (signaux (j s)) \<longrightarrow> (\<exists>s'. f s = Some (Inl s') \<and> length (j s) < length (j s')))"
  shows "\<forall>h. SIGINT \<notin> set (signaux h) \<Longrightarrow> boucle f s = None"
    and "\<forall>h. n \<le> length h \<longrightarrow> SIGINT \<in> set (signaux h) \<Longrightarrow> \<exists>u. boucle f s = Some u"
proof -
  assume "\<forall>h. SIGINT \<notin> set (signaux h)"
  then show "boucle f s = None" using f by (intro boucle_sans_fin [where P = "\<lambda>_. True"]) auto
next
  assume n: "\<forall>h. n \<le> length h \<longrightarrow> SIGINT \<in> set (signaux h)"
  have "\<exists>u. boucle f s = Some u \<and> True"
  proof (rule boucle_termine [where P = "\<lambda>_. True" and R = "measure (\<lambda>s. n - length (j s))"])
    fix s
    show "(\<exists>s'. f s = Some (Inl s') \<and> True \<and> (s', s) \<in> measure (\<lambda>s. n - length (j s))) \<or> (\<exists>r. f s = Some (Inr r) \<and> True)"
    proof (cases "SIGINT \<in> set (signaux (j s))")
      case False
      with n have "length (j s) < n" by (meson not_less)
      with False f [of s] show ?thesis by force
    qed (use f [of s] in blast)
  qed simp_all
  then show "\<exists>u. boucle f s = Some u" by blast
qed

lemmas boucle_touch = boucle_signal [where f = "touch_test_tour E signaux" and j = journal and signaux = signaux for E signaux]
lemmas boucle_boutons = boucle_signal [where f = "matrice_btn_test_tour E signaux" and j = "\<lambda>s. journal (snd s)" and signaux = signaux for E signaux]

lemma tours_signal:
  "(SIGINT \<in> set (signaux (journal w)) \<longrightarrow> touch_test_tour E signaux w = Some (Inr w)) \<and>
   (SIGINT \<notin> set (signaux (journal w)) \<longrightarrow> (\<exists>w'. touch_test_tour E signaux w = Some (Inl w') \<and> length (journal w) < length (journal w')))"
  "(SIGINT \<in> set (signaux (journal (snd s))) \<longrightarrow> matrice_btn_test_tour E signaux s = Some (Inr s)) \<and>
   (SIGINT \<notin> set (signaux (journal (snd s))) \<longrightarrow> (\<exists>s'. matrice_btn_test_tour E signaux s = Some (Inl s') \<and> length (journal (snd s)) < length (journal (snd s'))))"
  using matrice_btn_test_tour_eq [of E signaux s] by (auto simp: touch_test_tour_eq)

section \<open>Properties\<close>

text \<open> The tests show the shapes of the game: the table of \<open>test/matrice_led.c\<close> is that of \<open>formes.c\<close>, and
  the pictures of \<open>test/ncurses.c\<close> are those \<open>convertir_forme\<close> makes of it. \<close>

theorem tables_communes: "formes_essai = formes \<and> patterns = map convertir_forme formes"
  by (simp add: tables_egales)

text \<open> C33: The test of the LED matrix: each of the sixteen shapes appears, on a chip that is running at full
  intensity, and the program ends with the chip dark, shut down and its three pins released. \<close>

theorem matrice_led_essai_juste:
  "\<exists>w'. matrice_led_test_main E etat_initial = (0, w') \<and>
     (\<forall>k < 16. \<exists>v. (\<forall>i < 8. registres_de d v (1 + int i) = formes ! k ! i mod 256) \<and> registres_de d v REG_SHUTDOWN = 1 \<and>
        registres_de d v REG_INTENSITY = 15 \<and> trace sortes_led v w') \<and>
     (\<forall>i < 8. registres_de d w' (1 + int i) = 0) \<and> registres_de d w' REG_SHUTDOWN = 0 \<and>
     mode (broches_de (journal w')) MOSI = INPUT \<and> mode (broches_de (journal w')) SCLK = INPUT \<and> mode (broches_de (journal w')) GPIO7 = INPUT"
proof -
  define w1 where "w1 = test_ecrire_ligne (test_luminosite (test_initialisation (snd (wiringPiSetup E etat_initial))))"
  define w2 where "w2 = test_effacement (test_animation (test_afficher_motif w1))"
  have e: "matrice_led_test_main E etat_initial = (0, matrice_led_cleanup w2)"
    by (simp add: matrice_led_test_main_def w1_def w2_def Let_def split: prod.split)
  have w1: "led_marche d w1"
    unfolding w1_def by (intro test_lignes_marche test_luminosite_marche test_initialisation_marche)
  have t: "trace sortes_led (test_afficher_motif w1) (matrice_led_cleanup w2)"
    unfolding w2_def by (intro trace_led order_refl trace_trans [OF trace_essais_led(4) trace_essais_led(5)])
  have "\<exists>v. (\<forall>i < 8. registres_de d v (1 + int i) = formes ! k ! i mod 256) \<and> registres_de d v REG_SHUTDOWN = 1 \<and>
        registres_de d v REG_INTENSITY = 15 \<and> trace sortes_led v (matrice_led_cleanup w2)" if "k < 16" for k
    using test_afficher_motif_etape [OF that w1] t tables_egales by (fastforce simp: led_marche_def intro: trace_trans)
  with e matrice_led_cycle [of d w2] show ?thesis by (simp add: Let_def)
qed

theorem matrice_led_essai_juste_temoin:
  "\<exists>w' v. matrice_led_test_main hote_calme etat_initial = (0, w') \<and> trace sortes_led v w' \<and>
     registres_de d_max7219 v 3 = 0b00111100 \<and> registres_de d_max7219 v REG_SHUTDOWN = 1 \<and> registres_de d_max7219 w' REG_SHUTDOWN = 0"
proof -
  obtain w' where w': "matrice_led_test_main hote_calme etat_initial = (0, w')" "registres_de d_max7219 w' REG_SHUTDOWN = 0"
    and v: "\<forall>k < 16. \<exists>v. (\<forall>i < 8. registres_de d_max7219 v (1 + int i) = formes ! k ! i mod 256) \<and>
      registres_de d_max7219 v REG_SHUTDOWN = 1 \<and> registres_de d_max7219 v REG_INTENSITY = 15 \<and> trace sortes_led v w'"
    using matrice_led_essai_juste [of hote_calme d_max7219] by blast
  from v obtain v where r: "\<forall>i < 8. registres_de d_max7219 v (1 + int i) = formes ! 1 ! i mod 256"
    and s: "registres_de d_max7219 v REG_SHUTDOWN = 1" "trace sortes_led v w'" by (metis numeral_One one_less_numeral_iff semiring_norm(76))
  have "registres_de d_max7219 v (1 + int 2) = formes ! 1 ! 2 mod 256" by (rule r [rule_format]) simp
  then have "registres_de d_max7219 v 3 = 0b00111100" by (simp add: formes_def)
  with s w' show ?thesis by blast
qed

text \<open> The test of the grid, on a terminal with room for it: before it waits and leaves, each of the
  sixteen cells shows the shape of its number. \<close>

theorem ncurses_essai_juste:
  assumes "h_getmaxyx E [Nc Initscr, Nc Cbreak, Nc Noecho, Nc Keypad, Nc (CursSet 0)] = (h, l)" and "37 \<le> h" "37 \<le> l"
  shows "\<exists>v. ncurses_test_main E etat_initial = (0, cleanup_ncurses (delay 5000 v)) \<and> grille_visible v \<and>
    (\<forall>k < 16. cellule_montre v k (convertir_forme (formes ! k)))"
proof -
  have "grille_visible (init_ncurses E etat_initial)"
    by (rule init_grille_visible [OF _ assms(2,3)]) (simp add: assms(1) etat_initial_def)
  then have g: "grille_visible (draw_grid (init_ncurses E etat_initial))" by (simp add: draw_grid_suite)
  define v where "v = fold montre_cellule [0..<16] (draw_grid (init_ncurses E etat_initial))"
  have "ncurses_test_main E etat_initial = (0, cleanup_ncurses (delay 5000 v))"
    by (simp add: ncurses_test_main_def test_ncurses_def v_def montre_cellule_def [abs_def] Let_def)
  moreover have "grille_visible v" "\<forall>k < 16. cellule_montre v k (patterns ! k)"
    using cellules_montrees [OF g, of 16] by (simp_all add: v_def)
  moreover have "patterns ! k = convertir_forme (formes ! k)" if "k < 16" for k
    using that unfolding tables_egales(2) by (simp add: formes_longueur)
  ultimately show ?thesis by auto
qed

theorem ncurses_essai_juste_temoin:
  "\<exists>v. ncurses_test_main hote_calme etat_initial = (0, cleanup_ncurses (delay 5000 v)) \<and> grille_visible v \<and>
    (\<forall>k < 16. cellule_montre v k (convertir_forme (formes ! k)))"
  by (rule ncurses_essai_juste [where h = 50 and l = 132]) (simp_all add: hote_calme_def)

text \<open> The test of the digits, on a bus that answers: it returns 0, the numbers 0, 1111, \<open>\<dots>\<close>, 9999
  and -42 are each read on the controller while it runs, and its buffer ends empty. It never calls
  \<open>segment7_cleanup\<close>: the descriptor it opened is still open. \<close>

theorem segment7_essai_juste:
  assumes "h_wiringPiSetup E [] \<noteq> -1" and "0 \<le> h_i2cSetup E [Sys (WiringPiSetup (h_wiringPiSetup E []))] HT16K33_ADDRESS"
  shows "\<exists>w'. segment7_test_main E etat_initial = Some (0, w') \<and> display_buffer w' = [0, 0, 0, 0, 0, 0, 0, 0] \<and>
    (\<forall>n \<in> insert (-42) ((\<lambda>k. 1111 * int k) ` {..<10}). \<exists>v. lire_afficheur (controleur d v) = Some n \<and> trace sortes_segment v w') \<and>
    ouverts (journal w') = Some {#i2c_fd w'#}"
proof -
  define w0 where "w0 = segment7_init E (consigne [Sys (WiringPiSetup (h_wiringPiSetup E []))] etat_initial)"
  from segment7_essai_rend [OF assms, of d, folded w0_def] obtain w' where
    w': "segment7_test_main E etat_initial = Some (0, w')" "suite_segment d w0 w'" "display_buffer w' = [0, 0, 0, 0, 0, 0, 0, 0]"
      "\<forall>k < 10. \<exists>v. lire_afficheur (controleur d v) = Some (1111 * int k) \<and> suite_segment d w0 v \<and> suite_segment d v w'"
      "\<exists>v. lire_afficheur (controleur d v) = Some (-42) \<and> suite_segment d w0 v \<and> suite_segment d v w'"
    by blast
  let ?u = "consigne [Sys (WiringPiSetup (h_wiringPiSetup E []))] etat_initial"
  let ?fd = "h_i2cSetup E (journal ?u) HT16K33_ADDRESS"
  have j: "journal ?u = [Sys (WiringPiSetup (h_wiringPiSetup E []))]" by (simp add: etat_initial_def)
  have "trace sortes_segment (consigne [I2c (I2CSetup HT16K33_ADDRESS ?fd)] ?u) w0" "i2c_fd w0 = ?fd"
    using segment7_init_juste [of E ?u] by (simp_all add: w0_def)
  with w'(2) have t: "trace sortes_segment (consigne [I2c (I2CSetup HT16K33_ADDRESS ?fd)] ?u) w'" "i2c_fd w' = ?fd"
    by (auto simp: suite_segment_def intro: trace_trans)
  have "ouverts (journal w') = ouverts (journal (consigne [I2c (I2CSetup HT16K33_ADDRESS ?fd)] ?u))"
    by (rule trace_ouverts [OF t(1)]) simp_all
  also have "\<dots> = Some {#i2c_fd w'#}"
    using assms(2) t(2) by (simp add: etat_initial_def ouverts_def)
  finally show ?thesis using w'(1,3,4,5) by (auto simp: suite_segment_def)
qed

theorem segment7_essai_juste_temoin:
  "\<exists>w'. segment7_test_main hote_calme etat_initial = Some (0, w') \<and> display_buffer w' = [0, 0, 0, 0, 0, 0, 0, 0] \<and>
    (\<forall>n \<in> insert (-42) ((\<lambda>k. 1111 * int k) ` {..<10}). \<exists>v. lire_afficheur (controleur ht16k33_repos v) = Some n \<and> trace sortes_segment v w') \<and>
    ouverts (journal w') = Some {#i2c_fd w'#}"
  by (rule segment7_essai_juste) (simp_all add: hote_calme_def)

text \<open> C39: The test of the display, on a bus that answers and with memory: the tests follow one another, each
  leaves the page it means to (of \<open>Caractere special:\<close> sixteen characters are seen on the first line,
  the seventeenth is overwritten by the special character and the last stays on the second line), and the
  program returns 0 with the display off and blank. When the bus does not answer it returns 1. \<close>

theorem lcd_essai_juste:
  assumes "\<And>h. h_malloc E h"
  shows "if h_i2cSetup E [] ADRESSE_LCD < 0 then \<exists>w'. lcd_test_main E etat_initial = Some (1, w')
    else \<exists>w0 w1 w2 w3 w4 w5 w'. lcd_init E etat_initial = Some (0, w0) \<and>
      lcd_test_texte w0 = Some w1 \<and> lcd_texte D w1 = ligne_lcd ''Valeur: 42'' @ ligne_lcd ''PI: 3.14'' \<and>
      lcd_test_curseur w1 = Some w2 \<and> lcd_texte D w2 = ligne_lcd ''Test curseur'' @ ligne_lcd [] \<and>
      lcd_test_special w2 = Some w3 \<and>
        lcd_texte D w3 = ligne_lcd ''Caractere specia'' @ 0 # map octet_de '':'' @ replicate 14 0x20 \<and>
      lcd_test_animation w3 = Some w4 \<and> lcd_texte D w4 = ligne_lcd ''Animation:'' @ replicate 16 0 \<and>
      lcd_page ''Test termine!'' ''avec succes'' w4 = Some w5 \<and>
        lcd_texte D w5 = ligne_lcd ''Test termine!'' @ ligne_lcd ''avec succes'' \<and>
      lcd_test_main E etat_initial = Some (0, w') \<and> lcd_courant w' = None \<and>
        \<not> affiche (coeur (hd44780_de D (journal w'))) \<and> lcd_texte D w' = replicate 32 0x20"
proof (cases "h_i2cSetup E [] ADRESSE_LCD < 0")
  case True
  have "neuf etat_initial" using neuf_initial [of "[]"] by simp
  with lcd_init_neuf [of etat_initial E] True obtain u where "lcd_init E etat_initial = Some (-1, u)"
    by (auto simp: etat_initial_def)
  with True show ?thesis by (simp add: lcd_test_main_def)
next
  case False
  then obtain w0 where w0: "lcd_init E etat_initial = Some (0, w0)" "lcd_sain D w0" using lcd_init_sain [of E D] assms by auto
  from lcd_test_texte_rend [OF w0(2)] obtain w1 where
    w1: "lcd_test_texte w0 = Some w1" "lcd_sain D w1" "lcd_texte D w1 = ligne_lcd ''Valeur: 42'' @ ligne_lcd ''PI: 3.14''" by blast
  from lcd_test_curseur_rend [OF w1(2)] obtain w2 where
    w2: "lcd_test_curseur w1 = Some w2" "lcd_sain D w2" "lcd_texte D w2 = ligne_lcd ''Test curseur'' @ ligne_lcd []" by blast
  from lcd_test_special_rend [OF w2(2)] obtain w3 where w3: "lcd_test_special w2 = Some w3" "lcd_sain D w3"
      "lcd_texte D w3 = ligne_lcd ''Caractere specia'' @ 0 # map octet_de '':'' @ replicate 14 0x20" by blast
  from lcd_test_animation_rend [OF w3(2)] obtain w4 where
    w4: "lcd_test_animation w3 = Some w4" "lcd_sain D w4" "lcd_texte D w4 = ligne_lcd ''Animation:'' @ replicate 16 0" by blast
  have "lcd_pret D w4" using w4(2) by (simp add: lcd_sain_def)
  from lcd_page_texte [OF this, of "''Test termine!''" "''avec succes''"] lcd_sain_page [OF w4(2), of "''Test termine!''" "''avec succes''"]
  obtain w5 where w5: "lcd_page ''Test termine!'' ''avec succes'' w4 = Some w5" "lcd_sain D w5"
      "lcd_texte D w5 = ligne_lcd ''Test termine!'' @ ligne_lcd ''avec succes''" by auto
  from lcd_sain_effacer [OF lcd_sain_pause(1) [OF w5(2), of 2]] obtain w6 where w6: "lcd_effacer (sleep 2 w5) = Some w6" "lcd_sain D w6" by blast
  have "lcd_pret D w6" "0 \<le> lcdControl w6" "lcdControl w6 < 8" using w6(2) by (auto simp: lcd_sain_def)
  from lcd_cleanup_rend [OF this] obtain w' where w': "lcd_cleanup w6 = Some w'" "lcd_courant w' = None"
      "\<not> affiche (coeur (hd44780_de D (journal w')))" "lcd_texte D w' = replicate 32 0x20" by blast
  have "lcd_test_main E etat_initial = Some (0, w')"
    using w0(1) w1(1) w2(1) w3(1) w4(1) w5(1) w6(1) w'(1)
    by (auto simp: lcd_test_main_def lcd_page_def bind_eq_Some_conv Let_def)
  with False w0(1) w1(1,3) w2(1,3) w3(1,3) w4(1,3) w5(1,3) w'(2-4) show ?thesis by auto
qed

theorem lcd_essai_juste_temoin: "\<exists>w'. lcd_test_main hote_calme etat_initial = Some (0, w') \<and> lcd_courant w' = None"
  using lcd_essai_juste [of hote_calme hd_allume] by (auto simp: hote_calme_def)

text \<open> C40: The tests of the sensor and of the buttons end exactly by the signal: as long as no \<open>SIGINT\<close> ever
  comes they do not return, and when one has come by some moment they return 0 with their pins
  released. \<close>

theorem essais_interrompus:
  assumes "h_wiringPiSetup E [] \<noteq> -1"
  shows "((\<forall>h. SIGINT \<notin> set (signaux h)) \<longrightarrow>
      touch_test_main E signaux etat_initial = None \<and> matrice_btn_test_main E signaux etat_initial = None) \<and>
    ((\<exists>n. \<forall>h. n \<le> length h \<longrightarrow> SIGINT \<in> set (signaux h)) \<longrightarrow>
      (\<exists>u v. touch_test_main E signaux etat_initial = Some (0, u) \<and> matrice_btn_test_main E signaux etat_initial = Some (0, v) \<and>
         mode (broches_de (journal u)) TOUCH_PIN = INPUT \<and> tirage (broches_de (journal u)) TOUCH_PIN = PUD_OFF \<and>
         (\<forall>k < 4. mode (broches_de (journal v)) (broche_ligne k) = INPUT \<and> tirage (broches_de (journal v)) (broche_ligne k) = PUD_OFF \<and>
            mode (broches_de (journal v)) (broche_colonne k) = INPUT \<and> tirage (broches_de (journal v)) (broche_colonne k) = PUD_OFF)))"
proof -
  let ?w = "consigne [Sys (WiringPiSetup (h_wiringPiSetup E []))] etat_initial"
  note m = touch_test_main_def matrice_btn_test_main_def wiringPiSetup_def Let_def
  have j: "journal etat_initial = []" by (simp add: etat_initial_def)
  show ?thesis
  proof (intro conjI impI)
    assume s: "\<forall>h. SIGINT \<notin> set (signaux h)"
    show "touch_test_main E signaux etat_initial = None"
      using assms boucle_touch(1) [OF tours_signal(1) s, of E "touch_init ?w"] by (simp add: m j)
    show "matrice_btn_test_main E signaux etat_initial = None"
      using assms boucle_boutons(1) [OF tours_signal(2) s, of E "(0, matrice_btn_init ?w)"] by (simp add: m j)
  next
    assume "\<exists>n. \<forall>h. n \<le> length h \<longrightarrow> SIGINT \<in> set (signaux h)"
    then obtain n where n: "\<forall>h. n \<le> length h \<longrightarrow> SIGINT \<in> set (signaux h)" by blast
    from boucle_touch(2) [OF tours_signal(1) n, of E "touch_init ?w"] obtain u where
      "boucle (touch_test_tour E signaux) (touch_init ?w) = Some u" by blast
    then have "touch_test_main E signaux etat_initial = Some (0, touch_cleanup u)" using assms by (simp add: m j)
    moreover from boucle_boutons(2) [OF tours_signal(2) n, of E "(0, matrice_btn_init ?w)"] obtain b v where
      "boucle (matrice_btn_test_tour E signaux) (0, matrice_btn_init ?w) = Some (b, v)" by auto
    then have "matrice_btn_test_main E signaux etat_initial = Some (0, matrice_btn_cleanup v)" using assms by (simp add: m j)
    moreover have "mode (broches_de (journal (touch_cleanup u))) TOUCH_PIN = INPUT" "tirage (broches_de (journal (touch_cleanup u))) TOUCH_PIN = PUD_OFF"
      by (simp_all add: touch_cleanup_eq)
    ultimately show "\<exists>u v. touch_test_main E signaux etat_initial = Some (0, u) \<and> matrice_btn_test_main E signaux etat_initial = Some (0, v) \<and>
         mode (broches_de (journal u)) TOUCH_PIN = INPUT \<and> tirage (broches_de (journal u)) TOUCH_PIN = PUD_OFF \<and>
         (\<forall>k < 4. mode (broches_de (journal v)) (broche_ligne k) = INPUT \<and> tirage (broches_de (journal v)) (broche_ligne k) = PUD_OFF \<and>
            mode (broches_de (journal v)) (broche_colonne k) = INPUT \<and> tirage (broches_de (journal v)) (broche_colonne k) = PUD_OFF)"
      using matrice_btn_cycle_broches [of v] by (auto simp: Let_def)
  qed
qed

theorem essais_interrompus_temoin:
  "touch_test_main hote_calme (\<lambda>_. []) etat_initial = None \<and>
   (\<exists>u. matrice_btn_test_main hote_calme (\<lambda>h. if 100 \<le> length h then [SIGINT] else []) etat_initial = Some (0, u))"
proof -
  have "(\<forall>h. n \<le> length h \<longrightarrow> SIGINT \<in> set (if n \<le> length h then [SIGINT] else []))" for n :: nat by simp
  moreover have "h_wiringPiSetup hote_calme [] \<noteq> -1" by (simp add: hote_calme_def)
  ultimately show ?thesis
    using essais_interrompus [of hote_calme "\<lambda>_. []"] essais_interrompus [of hote_calme "\<lambda>h. if 100 \<le> length h then [SIGINT] else []"]
    by (metis empty_iff list.set(1))
qed

end
